(* ===== verification/Prelude.thy ===== *)
theory Prelude
  imports Main "HOL-Library.Word"
begin

text \<open>
  Shared vocabulary of the development: machine integers at their width, the outcome of a Rust
  call, a small state monad for code that talks to the operating system, and the list, word and
  byte lemmas that several components use.

  The Rust profile modelled is the checked one (overflow checks and debug assertions on): an
  arithmetic overflow and a failed assertion are the outcome \<open>Panic\<close>. Where a theorem shows that
  no \<open>Panic\<close> occurs, the unchecked profile computes the same values.
\<close>

unbundle bit_operations_syntax

named_theorems io_defs \<open>definitions of the state monad's combinators\<close>
named_theorems io_inv \<open>inversion of a run that returned\<close>
named_theorems io_ensures \<open>rules for what a run keeps and what its value satisfies\<close>
named_theorems io_keeps \<open>rules for what a run keeps\<close>
named_theorems io_none \<open>when a run does not return\<close>

section \<open>Machine integers\<close>

type_synonym u8 = "8 word"
type_synonym u32 = "32 word"
type_synonym u64 = "64 word"
type_synonym usize = "64 word"
type_synonym fd = int

abbreviation usize_of :: "nat \<Rightarrow> usize" where
  "usize_of n \<equiv> word_of_nat n"

abbreviation len_of :: "'a list \<Rightarrow> usize" where
  "len_of xs \<equiv> usize_of (length xs)"

text \<open>A Rust slice or vector never holds more than \<open>isize::MAX\<close> bytes.\<close>

abbreviation rust_len :: "'a list \<Rightarrow> bool" where
  "rust_len xs \<equiv> length xs < 2 ^ 63"

text \<open>Masking off the low bits rounds down to a multiple of a power of two.\<close>

lemma and_not_mask_word:
  fixes x :: "'a::len word"
  shows "x AND NOT (mask n) = push_bit n (drop_bit n x)"
  by (rule bit_eqI) (auto simp: bit_simps)

lemma unat_and_not_mask:
  fixes x :: "'a::len word"
  shows "unat (x AND NOT (mask n)) = unat x div 2 ^ n * 2 ^ n"
proof -
  have "unat x div 2 ^ n * 2 ^ n \<le> unat x"
    by (rule div_times_less_eq_dividend)
  then have "unat x div 2 ^ n * 2 ^ n < 2 ^ LENGTH('a)"
    using unsigned_less [of x] by (rule le_less_trans)
  moreover have "unat (x AND NOT (mask n)) = take_bit LENGTH('a) (push_bit n (drop_bit n (unat x)))"
    by (simp only: and_not_mask_word unsigned_push_bit_eq unsigned_drop_bit_eq)
      (simp add: take_bit_nat_eq_self)
  ultimately show ?thesis
    by (simp add: push_bit_eq_mult drop_bit_eq_div take_bit_eq_mod)
qed

lemma word_less_inc:
  fixes x y :: "'a::len word"
  assumes "x \<noteq> -1" and "y \<le> x"
  shows "y < x + 1"
proof -
  have "unat x \<noteq> 2 ^ LENGTH('a) - 1"
    using assms(1) by (simp add: word_unat_eq_iff unsigned_minus_1_eq_mask mask_eq_exp_minus_1)
  then have "unat x + 1 < 2 ^ LENGTH('a)"
    using unsigned_less [of x, where ?'a = nat] by linarith
  then have "unat (x + 1) = unat x + 1"
    by (simp add: unat_word_ariths)
  then show ?thesis using assms(2) by (simp add: word_less_nat_alt word_le_nat_alt)
qed

section \<open>Outcomes\<close>

text \<open>
  \<open>Ok\<close> and \<open>Err\<close> are Rust's \<open>Result\<close>; \<open>Panic\<close> is a panic (a failed \<open>unwrap\<close>, \<open>assert!\<close>,
  slice index or checked arithmetic).
\<close>

datatype ('a, 'e) res = Ok 'a | Err 'e | Panic

fun res_bind :: "('a, 'e) res \<Rightarrow> ('a \<Rightarrow> ('b, 'e) res) \<Rightarrow> ('b, 'e) res" where
  "res_bind (Ok x) f = f x"
| "res_bind (Err e) f = Err e"
| "res_bind Panic f = Panic"

fun res_map_err :: "('e \<Rightarrow> 'f) \<Rightarrow> ('a, 'e) res \<Rightarrow> ('a, 'f) res" where
  "res_map_err g (Ok x) = Ok x"
| "res_map_err g (Err e) = Err (g e)"
| "res_map_err g Panic = Panic"

fun res_map :: "('a \<Rightarrow> 'b) \<Rightarrow> ('a, 'e) res \<Rightarrow> ('b, 'e) res" where
  "res_map g (Ok x) = Ok (g x)"
| "res_map g (Err e) = Err e"
| "res_map g Panic = Panic"

lemma res_bind_eq_Ok [simp]:
  "res_bind r f = Ok y \<longleftrightarrow> (\<exists>x. r = Ok x \<and> f x = Ok y)"
  by (cases r) auto

lemma res_map_eq_Ok [simp]: "res_map g r = Ok y \<longleftrightarrow> (\<exists>x. r = Ok x \<and> y = g x)"
  by (cases r) auto

lemma res_map_err_eq_Ok [simp]: "res_map_err g r = Ok y \<longleftrightarrow> r = Ok y"
  by (cases r) auto

lemma res_map_err_eq_Err [simp]: "res_map_err g r = Err f \<longleftrightarrow> (\<exists>e. r = Err e \<and> f = g e)"
  by (cases r) auto

lemma eq_res_map_err [simp]:
  "Ok y = res_map_err g r \<longleftrightarrow> r = Ok y" "Err f = res_map_err g r \<longleftrightarrow> (\<exists>e. r = Err e \<and> f = g e)"
  "Panic = res_map_err g r \<longleftrightarrow> r = Panic" "res_map_err g r = Panic \<longleftrightarrow> r = Panic"
  by (cases r; auto)+

text \<open>\<open>&xs[a..b]\<close> panics unless \<open>a \<le> b \<le> len\<close>.\<close>

definition slice_of :: "'a list \<Rightarrow> usize \<Rightarrow> usize \<Rightarrow> ('a list, 'e) res" where
  "slice_of xs a b =
     (if a \<le> b \<and> b \<le> len_of xs then Ok (take (unat b - unat a) (drop (unat a) xs)) else Panic)"

text \<open>Checked arithmetic on \<open>usize\<close>.\<close>

definition checked_add :: "usize \<Rightarrow> usize \<Rightarrow> (usize, 'e) res" where
  "checked_add a b = (if a + b < a then Panic else Ok (a + b))"

definition checked_sub :: "usize \<Rightarrow> usize \<Rightarrow> (usize, 'e) res" where
  "checked_sub a b = (if a < b then Panic else Ok (a - b))"

lemma checked_sub_Ok_iff: "checked_sub a b = Ok c \<longleftrightarrow> b \<le> a \<and> c = a - b"
  by (auto simp: checked_sub_def)

lemma checked_add_nat:
  assumes "unat a + unat b < 2 ^ 64"
  shows "checked_add a b = Ok (a + b)" and "unat (a + b) = unat a + unat b"
proof -
  show u: "unat (a + b) = unat a + unat b"
    using assms by (simp add: unat_word_ariths)
  show "checked_add a b = Ok (a + b)"
    using u by (simp add: checked_add_def word_less_nat_alt)
qed

lemma unat_usize_of [simp]: "n < 2 ^ 63 \<Longrightarrow> unat (usize_of n) = n"
  by (simp add: unat_of_nat)

section \<open>Code that acts on a world\<close>

text \<open>
  A computation on a world \<open>'w\<close> (the kernel, or the process state) that may panic, may fail with
  an error, and may never return: \<open>None\<close> is a call that does not return.
\<close>

type_synonym ('w, 'a, 'e) io = "'w \<Rightarrow> (('a, 'e) res \<times> 'w) option"

definition io_return :: "'a \<Rightarrow> ('w, 'a, 'e) io" where
  [io_defs]: "io_return x = (\<lambda>w. Some (Ok x, w))"

definition io_throw :: "'e \<Rightarrow> ('w, 'a, 'e) io" where
  [io_defs]: "io_throw e = (\<lambda>w. Some (Err e, w))"

definition io_panic :: "('w, 'a, 'e) io" where
  [io_defs]: "io_panic = (\<lambda>w. Some (Panic, w))"

definition io_lift :: "('a, 'e) res \<Rightarrow> ('w, 'a, 'e) io" where
  [io_defs]: "io_lift r = (\<lambda>w. Some (r, w))"

text \<open>\<open>match m { Ok(x) => f, Err(e) => g }\<close>; a panic unwinds through it.\<close>

definition io_match ::
  "('w, 'a, 'e) io \<Rightarrow> ('a \<Rightarrow> ('w, 'b, 'f) io) \<Rightarrow> ('e \<Rightarrow> ('w, 'b, 'f) io) \<Rightarrow> ('w, 'b, 'f) io" where
  [io_defs]: "io_match m f g = (\<lambda>w. Option.bind (m w) (\<lambda>(r, w').
     case r of Ok x \<Rightarrow> f x w' | Err e \<Rightarrow> g e w' | Panic \<Rightarrow> Some (Panic, w')))"

text \<open>The \<open>?\<close> operator: go on with the value, return the error.\<close>

definition io_bind :: "('w, 'a, 'e) io \<Rightarrow> ('a \<Rightarrow> ('w, 'b, 'e) io) \<Rightarrow> ('w, 'b, 'e) io" where
  [io_defs]: "io_bind m f = io_match m f io_throw"

definition io_map_err :: "('e \<Rightarrow> 'f) \<Rightarrow> ('w, 'a, 'e) io \<Rightarrow> ('w, 'a, 'f) io" where
  [io_defs]: "io_map_err g m = (\<lambda>w. map_option (\<lambda>(r, w'). (res_map_err g r, w')) (m w))"

text \<open>\<open>unwrap\<close> and \<open>expect\<close>: an error is a panic.\<close>

definition io_unwrap :: "('w, 'a, 'e) io \<Rightarrow> ('w, 'a, 'f) io" where
  [io_defs]: "io_unwrap m = io_match m io_return (\<lambda>_. io_panic)"

text \<open>
  \<open>assert!(thread::panicking() || c)\<close> at the end of a scope: the body's outcome stands unless the
  clean-up panics while the body did not.
\<close>

definition io_finally :: "('w, 'a, 'e) io \<Rightarrow> (bool \<Rightarrow> ('w, unit, 'e) io) \<Rightarrow> ('w, 'a, 'e) io" where
  [io_defs]: "io_finally m c = (\<lambda>w. Option.bind (m w) (\<lambda>(r, w').
     Option.bind (c (r = Panic) w') (\<lambda>(q, w'').
       Some (if q = Panic then Panic else r, w''))))"

text \<open>
  Calls into code outside the crate (the kernel, a library) as computations: one that always
  returns, and one that may block forever.
\<close>

definition call :: "('w \<Rightarrow> 'a \<times> 'w) \<Rightarrow> ('w, 'a, 'e) io" where
  [io_defs]: "call f = (\<lambda>w. case f w of (x, w') \<Rightarrow> Some (Ok x, w'))"

definition call_blocking :: "('w \<Rightarrow> ('a \<times> 'w) option) \<Rightarrow> ('w, 'a, 'e) io" where
  [io_defs]: "call_blocking f = (\<lambda>w. map_option (\<lambda>(x, w'). (Ok x, w')) (f w))"

lemma call_eq_Some [io_inv]:
  "call f w = Some (r, w') \<longleftrightarrow> (\<exists>x. f w = (x, w') \<and> r = Ok x)"
  by (auto simp: call_def split: prod.splits)

lemma call_run: "f w = (x, w') \<Longrightarrow> call f w = Some (Ok x, w')"
  by (simp add: call_def)

lemma call_blocking_run: "f w = Some (x, w') \<Longrightarrow> call_blocking f w = Some (Ok x, w')"
  by (simp add: call_blocking_def)

lemma call_blocking_eq_Some [io_inv]:
  "call_blocking f w = Some (r, w') \<longleftrightarrow> (\<exists>x. f w = Some (x, w') \<and> r = Ok x)"
  by (auto simp: call_blocking_def)

text \<open>Running a combinator at a known first outcome, and inverting a run.\<close>

lemma io_run [simp]:
  "io_return x w = Some (Ok x, w)" "io_throw e w = Some (Err e, w)"
  "io_panic w = Some (Panic, w)" "io_lift r w = Some (r, w)"
  by (simp_all add: io_defs)

lemma io_match_Some [simp]:
  "m w = Some (r, w') \<Longrightarrow> io_match m f g w =
     (case r of Ok x \<Rightarrow> f x w' | Err e \<Rightarrow> g e w' | Panic \<Rightarrow> Some (Panic, w'))"
  by (simp add: io_match_def)

lemma io_bind_Some [simp]:
  "m w = Some (r, w') \<Longrightarrow> io_bind m f w =
     (case r of Ok x \<Rightarrow> f x w' | Err e \<Rightarrow> Some (Err e, w') | Panic \<Rightarrow> Some (Panic, w'))"
  by (cases r) (simp_all add: io_bind_def)

lemma io_bind_assoc: "io_bind (io_bind m f) g = io_bind m (\<lambda>x. io_bind (f x) g)"
proof
  show "io_bind (io_bind m f) g w = io_bind m (\<lambda>x. io_bind (f x) g) w" for w
    by (cases "m w") (auto simp: io_bind_def io_match_def io_throw_def split: res.split)
qed

lemma io_bind_lift_Ok [simp]: "io_bind (io_lift (Ok x)) f = f x"
  by (rule ext) simp

lemma io_match_eq_Some [io_inv]:
  "io_match m f g w = Some out \<longleftrightarrow>
     (\<exists>x w'. m w = Some (Ok x, w') \<and> f x w' = Some out) \<or>
     (\<exists>e w'. m w = Some (Err e, w') \<and> g e w' = Some out) \<or>
     (\<exists>w'. m w = Some (Panic, w') \<and> out = (Panic, w'))"
  by (cases "m w") (auto simp: io_match_def split: res.split_asm)

lemma io_unwrap_eq_Some [io_inv]:
  "io_unwrap m w = Some (r, w') \<longleftrightarrow>
     (\<exists>x. m w = Some (Ok x, w') \<and> r = Ok x) \<or> r = Panic \<and> (\<exists>q. m w = Some (q, w') \<and> (\<forall>x. q \<noteq> Ok x))"
  by (auto simp: io_unwrap_def io_inv) (metis res.exhaust)

lemma io_bind_eq_Some [io_inv]:
  "io_bind m f w = Some out \<longleftrightarrow>
     (\<exists>x w'. m w = Some (Ok x, w') \<and> f x w' = Some out) \<or>
     (\<exists>e w'. m w = Some (Err e, w') \<and> out = (Err e, w')) \<or>
     (\<exists>w'. m w = Some (Panic, w') \<and> out = (Panic, w'))"
  by (auto simp: io_bind_def io_inv)

lemma io_bind_step:
  assumes "io_bind m f w = Some out"
  obtains p w1 where "m w = Some (p, w1)"
    "(case p of Ok x \<Rightarrow> f x w1 | Err e \<Rightarrow> Some (Err e, w1) | Panic \<Rightarrow> Some (Panic, w1)) = Some out"
proof (cases "m w")
  case (Some pw)
  obtain p w1 where "pw = (p, w1)" by force
  with Some that assms show thesis by simp
qed (use assms in \<open>simp add: io_bind_def io_match_def\<close>)

lemma io_bind_Err_later:
  assumes "io_bind m f w = Some (Err e, w')" and "\<And>e w'. m w \<noteq> Some (Err e, w')"
  obtains x w1 where "m w = Some (Ok x, w1)" "f x w1 = Some (Err e, w')"
  using assms by (auto simp: io_bind_eq_Some)

lemma io_map_err_eq_Some [io_inv]:
  "io_map_err g m w = Some (r, w') \<longleftrightarrow> (\<exists>q. m w = Some (q, w') \<and> r = res_map_err g q)"
  by (auto simp: io_map_err_def)

lemma io_finally_eq_Some [io_inv]:
  "io_finally m c w = Some (r, w'') \<longleftrightarrow>
     (\<exists>p w' q. m w = Some (p, w') \<and> c (p = Panic) w' = Some (q, w'') \<and>
        r = (if q = Panic then Panic else p))"
  by (auto simp: io_finally_def bind_eq_Some_conv)

text \<open>Returning at all, whatever the outcome.\<close>

definition returns :: "('w, 'a, 'e) io \<Rightarrow> 'w \<Rightarrow> bool" where
  "returns m w \<longleftrightarrow> m w \<noteq> None"

lemma returns_iff: "returns m w \<longleftrightarrow> (\<exists>r w'. m w = Some (r, w'))"
  by (auto simp: returns_def)

lemma returns_basic [io_none]:
  "returns (io_return x) w" "returns (io_throw e) w" "returns io_panic w" "returns (io_lift r) w"
  "returns (call f) w" "returns (call_blocking g) w \<longleftrightarrow> g w \<noteq> None"
  by (simp_all add: returns_def call_def call_blocking_def split: prod.split)

lemma returns_io_match [io_none]:
  "returns (io_match m f g) w \<longleftrightarrow> returns m w \<and>
     (\<forall>x w'. m w = Some (Ok x, w') \<longrightarrow> returns (f x) w') \<and>
     (\<forall>e w'. m w = Some (Err e, w') \<longrightarrow> returns (g e) w')"
  by (cases "m w") (auto simp: returns_def io_match_def split: res.splits)

lemma returns_io_bind [io_none]:
  "returns (io_bind m f) w \<longleftrightarrow>
     returns m w \<and> (\<forall>x w'. m w = Some (Ok x, w') \<longrightarrow> returns (f x) w')"
  by (simp add: io_bind_def io_none)

lemma returns_io_finally [io_none]:
  "returns (io_finally m c) w \<longleftrightarrow>
     returns m w \<and> (\<forall>r w'. m w = Some (r, w') \<longrightarrow> returns (c (r = Panic)) w')"
  by (cases "m w") (auto simp: returns_def io_finally_def bind_eq_Some_conv)

section \<open>Objects beside the world\<close>

text \<open>
  A method with \<open>&mut self\<close> acts on a world and on its object; what it did to the object stays when it
  returns an error. \<open>on_world\<close> runs code that does not touch the object, \<open>on_self\<close> code that touches
  only the object.
\<close>

definition on_world :: "('w, 'a, 'e) io \<Rightarrow> ('w \<times> 's, 'a, 'e) io" where
  "on_world m = (\<lambda>(w, s). map_option (\<lambda>(r, w'). (r, (w', s))) (m w))"

definition on_self :: "('s \<Rightarrow> 'a \<times> 's) \<Rightarrow> ('w \<times> 's, 'a, 'e) io" where
  "on_self f = (\<lambda>(w, s). case f s of (x, s') \<Rightarrow> Some (Ok x, (w, s')))"

lemma on_world_eq_Some [io_inv]:
  "on_world m ws = Some (r, ws') \<longleftrightarrow> (\<exists>w w' s. ws = (w, s) \<and> ws' = (w', s) \<and> m w = Some (r, w'))"
  by (cases ws) (auto simp: on_world_def)

lemma on_self_eq_Some [io_inv]:
  "on_self f ws = Some (r, ws') \<longleftrightarrow>
     (\<exists>w s s' x. ws = (w, s) \<and> ws' = (w, s') \<and> f s = (x, s') \<and> r = Ok x)"
  by (cases ws) (auto simp: on_self_def split: prod.splits)

text \<open>Code that looks at its object.\<close>

definition with_self :: "('s \<Rightarrow> ('w \<times> 's, 'a, 'e) io) \<Rightarrow> ('w \<times> 's, 'a, 'e) io" where
  "with_self f = (\<lambda>ws. f (snd ws) ws)"

lemma with_self_run [simp]: "with_self f (w, s) = f s (w, s)"
  by (simp add: with_self_def)

lemma on_world_run: "m w = Some (r, w') \<Longrightarrow> on_world m (w, s) = Some (r, (w', s))"
  by (simp add: on_world_def)

lemma on_self_run: "f s = (x, s') \<Longrightarrow> on_self f (w, s) = Some (Ok x, (w, s'))"
  by (simp add: on_self_def)

lemma returns_on [io_none]:
  "returns (on_world m) ws \<longleftrightarrow> returns m (fst ws)" "returns (on_self f) ws"
  by (simp_all add: returns_def on_world_def on_self_def split: prod.splits)

text \<open>Values that are dropped when the code goes on to return an error or panics, and kept otherwise.\<close>

definition io_on_failure :: "('w, 'a, 'e) io \<Rightarrow> (bool \<Rightarrow> ('w, unit, 'e) io) \<Rightarrow> ('w, 'a, 'e) io" where
  "io_on_failure m c = (\<lambda>w. Option.bind (m w) (\<lambda>(r, w').
     case r of Ok x \<Rightarrow> Some (Ok x, w') | _ \<Rightarrow> io_finally (io_lift r) c w'))"

text \<open>Code with nothing to clean up, and clean-up with nothing to do.\<close>

lemma io_pure:
  "io_on_failure (io_return x) c = io_return x" "io_on_failure (io_lift (Ok x)) c = io_return x"
  "io_finally m (\<lambda>_. io_return ()) = m" "io_bind (io_return x) f = f x"
proof -
  show "io_finally m (\<lambda>_. io_return ()) = m"
  proof
    show "io_finally m (\<lambda>_. io_return ()) w = m w" for w
      by (cases "m w") (auto simp: io_finally_def io_return_def)
  qed
qed (auto simp: io_on_failure_def io_return_def io_lift_def io_bind_def io_match_def)

lemma io_on_failure_eq_Some [io_inv]:
  "io_on_failure m c w = Some (r, w'') \<longleftrightarrow>
     (\<exists>x. m w = Some (Ok x, w'') \<and> r = Ok x) \<or>
     (\<exists>p w' q. m w = Some (p, w') \<and> (\<forall>x. p \<noteq> Ok x) \<and> c (p = Panic) w' = Some (q, w'') \<and>
        r = (if q = Panic then Panic else p))"
proof (cases "m w")
  case None
  then show ?thesis by (simp add: io_on_failure_def)
next
  case (Some pw)
  moreover obtain p w' where "pw = (p, w')" by force
  ultimately have m: "m w = Some (p, w')" by simp
  show ?thesis
    using m by (cases p) (simp_all add: io_on_failure_def io_finally_eq_Some del: split_paired_Ex, auto)
qed

lemma io_on_failure_Ok [simp]:
  "m w = Some (Ok x, w') \<Longrightarrow> io_on_failure m c w = Some (Ok x, w')"
  by (simp add: io_on_failure_def)

text \<open>Code that owns an object and drops it at the end.\<close>

definition owning :: "'s \<Rightarrow> ('w \<times> 's, 'a, 'e) io \<Rightarrow> (bool \<Rightarrow> 's \<Rightarrow> ('w, unit, 'e) io) \<Rightarrow> ('w, 'a, 'e) io" where
  "owning s m d = (\<lambda>w. Option.bind (m (w, s)) (\<lambda>(r, (w', s')). io_finally (io_lift r) (\<lambda>panicking. d panicking s') w'))"

lemma owning_eq_Some [io_inv]:
  "owning s m d w = Some (r, w'') \<longleftrightarrow>
     (\<exists>p w' s' q. m (w, s) = Some (p, (w', s')) \<and> d (p = Panic) s' w' = Some (q, w'') \<and>
        r = (if q = Panic then Panic else p))"
  by (auto simp: owning_def bind_eq_Some_conv io_finally_eq_Some)

section \<open>Loops\<close>

text \<open>Recursive code that may not return is defined with these combinators by \<open>partial_function\<close>.\<close>

lemma io_match_mono [partial_function_mono]:
  assumes "\<And>w. mono_option (\<lambda>f. m f w)" and "\<And>x w. mono_option (\<lambda>f. g f x w)" and "\<And>e w. mono_option (\<lambda>f. h f e w)"
  shows "mono_option (\<lambda>f. io_match (m f) (g f) (h f) w)"
  unfolding io_match_def
proof (intro bind_mono assms(1))
  show "mono_option (\<lambda>f. case rw of (r, w') \<Rightarrow>
      (case r of Ok x \<Rightarrow> g f x w' | Err e \<Rightarrow> h f e w' | Panic \<Rightarrow> Some (Panic, w')))" for rw
  proof (cases rw)
    case (Pair r w')
    then show ?thesis using assms by (cases r) (simp_all add: option.const_mono)
  qed
qed

lemma io_bind_mono [partial_function_mono]:
  assumes "\<And>w. mono_option (\<lambda>f. m f w)" and "\<And>x w. mono_option (\<lambda>f. g f x w)"
  shows "mono_option (\<lambda>f. io_bind (m f) (g f) w)"
  unfolding io_bind_def by (intro partial_function_mono assms)

lemma io_if_mono [partial_function_mono]:
  "mono_option (\<lambda>f. m f w) \<Longrightarrow> mono_option (\<lambda>f. n f w) \<Longrightarrow> mono_option (\<lambda>f. (if c then m f else n f) w)"
  by (cases c) simp_all

lemma io_case_option_mono [partial_function_mono]:
  "mono_option (\<lambda>f. m f w) \<Longrightarrow> (\<And>y. mono_option (\<lambda>f. g f y w)) \<Longrightarrow>
     mono_option (\<lambda>f. (case x of None \<Rightarrow> m f | Some y \<Rightarrow> g f y) w)"
  by (cases x) simp_all

lemma io_case_sum_mono [partial_function_mono]:
  "(\<And>a. mono_option (\<lambda>f. h f a w)) \<Longrightarrow> (\<And>b. mono_option (\<lambda>f. k f b w)) \<Longrightarrow>
     mono_option (\<lambda>f. (case s of Inl a \<Rightarrow> h f a | Inr b \<Rightarrow> k f b) w)"
  by (cases s) simp_all

lemma io_case_prod_mono [partial_function_mono]:
  "(\<And>a b. mono_option (\<lambda>f. u f a b w)) \<Longrightarrow> mono_option (\<lambda>f. (case p of (a, b) \<Rightarrow> u f a b) w)"
  by (cases p) simp_all

lemma with_self_mono [partial_function_mono]:
  assumes "\<And>s w. mono_option (\<lambda>f. m f s w)"
  shows "mono_option (\<lambda>f. with_self (m f) w)"
  unfolding with_self_def by (intro assms)

section \<open>What a run keeps\<close>

text \<open>
  \<open>ensures I m Q\<close>: from a world with \<open>I\<close> every outcome of \<open>m\<close>, an error or a panic too, leaves \<open>I\<close>, and
  a value returned satisfies \<open>Q\<close>.
\<close>

definition ensures :: "('w \<Rightarrow> bool) \<Rightarrow> ('w, 'a, 'e) io \<Rightarrow> ('a \<Rightarrow> bool) \<Rightarrow> bool" where
  "ensures I m Q \<longleftrightarrow> (\<forall>w r w'. I w \<longrightarrow> m w = Some (r, w') \<longrightarrow> I w' \<and> (\<forall>x. r = Ok x \<longrightarrow> Q x))"

lemma ensuresD:
  assumes "ensures I m Q" and "I w" and "m w = Some (r, w')"
  shows "I w'" and "r = Ok x \<Longrightarrow> Q x"
  using assms unfolding ensures_def by blast+

lemma ensures_weaken: "ensures I m Q \<Longrightarrow> (\<And>x. Q x \<Longrightarrow> P x) \<Longrightarrow> ensures I m P"
  unfolding ensures_def by blast

lemma ensures_basic [io_ensures]:
  "Q x \<Longrightarrow> ensures I (io_return x) Q" "ensures I (io_throw e) Q" "ensures I io_panic Q"
  "(\<And>x. r = Ok x \<Longrightarrow> Q x) \<Longrightarrow> ensures I (io_lift r) Q"
  by (simp_all add: ensures_def)

lemma ensures_call:
  "(\<And>w x w'. I w \<Longrightarrow> f w = (x, w') \<Longrightarrow> I w' \<and> Q x) \<Longrightarrow> ensures I (call f) Q"
  by (auto simp: ensures_def io_inv)

lemma ensures_call_blocking:
  "(\<And>w x w'. I w \<Longrightarrow> f w = Some (x, w') \<Longrightarrow> I w' \<and> Q x) \<Longrightarrow> ensures I (call_blocking f) Q"
  by (auto simp: ensures_def io_inv)

lemma ensures_match [io_ensures]:
  "ensures I m P \<Longrightarrow> (\<And>x. P x \<Longrightarrow> ensures I (f x) Q) \<Longrightarrow> (\<And>e. ensures I (g e) Q) \<Longrightarrow>
     ensures I (io_match m f g) Q"
  unfolding ensures_def io_match_eq_Some by blast

lemma ensures_bind [io_ensures]:
  "ensures I m P \<Longrightarrow> (\<And>x. P x \<Longrightarrow> ensures I (f x) Q) \<Longrightarrow> ensures I (io_bind m f) Q"
  unfolding io_bind_def by (rule ensures_match [of I m P]) (auto intro: ensures_basic)

lemma ensures_finally [io_ensures]:
  assumes "ensures I m Q" and "\<And>b. ensures I (c b) (\<lambda>_. True)"
  shows "ensures I (io_finally m c) Q"
  unfolding ensures_def
proof (intro allI impI)
  fix w r w''
  assume "I w" and "io_finally m c w = Some (r, w'')"
  then obtain p w' q where 1: "m w = Some (p, w')" "c (p = Panic) w' = Some (q, w'')"
      and r: "r = (if q = Panic then Panic else p)"
    unfolding io_finally_eq_Some by blast
  have "I w'" by (rule ensuresD(1) [OF assms(1) \<open>I w\<close> 1(1)])
  then have "I w''" by (rule ensuresD(1) [OF assms(2) _ 1(2)])
  with ensuresD(2) [OF assms(1) \<open>I w\<close> 1(1)] r show "I w'' \<and> (\<forall>x. r = Ok x \<longrightarrow> Q x)"
    by (simp split: if_splits)
qed

lemma ensures_on_failure [io_ensures]:
  assumes "ensures I m Q" and "\<And>b. ensures I (c b) (\<lambda>_. True)"
  shows "ensures I (io_on_failure m c) Q"
  unfolding ensures_def
proof (intro allI impI)
  fix w r w''
  assume I: "I w" and "io_on_failure m c w = Some (r, w'')"
  then consider (ok) x where "m w = Some (Ok x, w'')" "r = Ok x"
    | (fail) p w' where "m w = Some (p, w')" "\<forall>x. p \<noteq> Ok x"
        "io_finally (io_lift p) c w' = Some (r, w'')"
    unfolding io_on_failure_eq_Some io_finally_eq_Some by auto
  then show "I w'' \<and> (\<forall>x. r = Ok x \<longrightarrow> Q x)"
  proof cases
    case ok
    then show ?thesis using ensuresD [OF assms(1) I] by blast
  next
    case fail
    have "ensures I (io_finally (io_lift p) c) (\<lambda>_. False)"
      by (intro io_ensures assms(2)) (use fail(2) in auto)
    moreover have "I w'" by (rule ensuresD(1) [OF assms(1) I fail(1)])
    ultimately show ?thesis using fail(3) unfolding ensures_def by blast
  qed
qed

lemma ensures_if [io_ensures]:
  "(b \<Longrightarrow> ensures I m Q) \<Longrightarrow> (\<not> b \<Longrightarrow> ensures I n Q) \<Longrightarrow> ensures I (if b then m else n) Q"
  by simp

lemma ensures_option [io_ensures]:
  "(x = None \<Longrightarrow> ensures I m Q) \<Longrightarrow> (\<And>y. x = Some y \<Longrightarrow> ensures I (f y) Q) \<Longrightarrow>
     ensures I (case x of None \<Rightarrow> m | Some y \<Rightarrow> f y) Q"
  by (cases x) auto

lemma ensures_prod [io_ensures]:
  "(\<And>a b. x = (a, b) \<Longrightarrow> ensures I (f a b) Q) \<Longrightarrow> ensures I (case x of (a, b) \<Rightarrow> f a b) Q"
  by (cases x) auto

lemma ensures_with_self [io_ensures]:
  "(\<And>w s. I (w, s) \<Longrightarrow> ensures I (f s) Q) \<Longrightarrow> ensures I (with_self f) Q"
  unfolding ensures_def with_self_def by (metis prod.collapse)

text \<open>The same without a condition on the value.\<close>

abbreviation keeps :: "('w \<Rightarrow> bool) \<Rightarrow> ('w, 'a, 'e) io \<Rightarrow> bool" where
  "keeps I m \<equiv> ensures I m (\<lambda>_. True)"

lemma keepsD: "keeps I m \<Longrightarrow> I w \<Longrightarrow> m w = Some (r, w') \<Longrightarrow> I w'"
  by (rule ensuresD(1))

lemma keeps_out:
  "io_bind m f w = Some out \<Longrightarrow> keeps I (io_bind m f) \<Longrightarrow> I w \<Longrightarrow> I (snd out)"
  "with_self g ws = Some out' \<Longrightarrow> keeps J (with_self g) \<Longrightarrow> J ws \<Longrightarrow> J (snd out')"
  using keepsD by (metis prod.collapse)+

lemma keepsI: "(\<And>w out. I w \<Longrightarrow> m w = Some out \<Longrightarrow> I (snd out)) \<Longrightarrow> keeps I m"
  unfolding ensures_def by (metis snd_conv)

lemma ensures_out:
  "io_bind m f w = Some out \<Longrightarrow> ensures I (io_bind m f) Q \<Longrightarrow> I w \<Longrightarrow> I (snd out) \<and> (\<forall>x. fst out = Ok x \<longrightarrow> Q x)"
  unfolding ensures_def by (metis prod.collapse)

lemma ensuresI_out:
  "(\<And>w out. I w \<Longrightarrow> m w = Some out \<Longrightarrow> I (snd out) \<and> (\<forall>x. fst out = Ok x \<longrightarrow> Q x)) \<Longrightarrow> ensures I m Q"
  unfolding ensures_def by (metis fst_conv snd_conv)

lemma keeps_basic [io_keeps]:
  "keeps I (io_return x)" "keeps I (io_throw e)" "keeps I io_panic" "keeps I (io_lift r)"
  by (simp_all add: ensures_def)

lemma keeps_seq [io_keeps]:
  "keeps I m \<Longrightarrow> (\<And>x. keeps I (f x)) \<Longrightarrow> (\<And>e. keeps I (g e)) \<Longrightarrow> keeps I (io_match m f g)"
  "keeps I m \<Longrightarrow> (\<And>x. keeps I (f x)) \<Longrightarrow> keeps I (io_bind m f)"
  "keeps I m \<Longrightarrow> (\<And>b. keeps I (c b)) \<Longrightarrow> keeps I (io_finally m c)"
  "keeps I m \<Longrightarrow> (\<And>b. keeps I (c b)) \<Longrightarrow> keeps I (io_on_failure m c)"
  by (intro io_ensures; assumption)+

lemma keeps_convert [io_keeps]:
  "keeps I m \<Longrightarrow> keeps I (io_map_err g m)" "keeps I m \<Longrightarrow> keeps I (io_unwrap m)"
  by (auto simp: ensures_def io_inv)

lemma keeps_split [io_keeps]:
  "(b \<Longrightarrow> keeps I m) \<Longrightarrow> (\<not> b \<Longrightarrow> keeps I n) \<Longrightarrow> keeps I (if b then m else n)"
  "(x = None \<Longrightarrow> keeps I m) \<Longrightarrow> (\<And>y. x = Some y \<Longrightarrow> keeps I (f y)) \<Longrightarrow> keeps I (case x of None \<Rightarrow> m | Some y \<Rightarrow> f y)"
  "(\<And>a. s = Inl a \<Longrightarrow> keeps I (h a)) \<Longrightarrow> (\<And>b. s = Inr b \<Longrightarrow> keeps I (k b)) \<Longrightarrow>
     keeps I (case s of Inl a \<Rightarrow> h a | Inr b \<Rightarrow> k b)"
  "(\<And>a b. p = (a, b) \<Longrightarrow> keeps I (u a b)) \<Longrightarrow> keeps I (case p of (a, b) \<Rightarrow> u a b)"
  by (auto split: option.split sum.split prod.split)

lemma keeps_with_self [io_keeps]: "(\<And>w s. I (w, s) \<Longrightarrow> keeps I (f s)) \<Longrightarrow> keeps I (with_self f)"
  by (rule ensures_with_self)

section \<open>Dropping\<close>

text \<open>
  Dropping a vector drops its elements in order; after one of them panics the others are still
  dropped, while unwinding.
\<close>

fun drop_all :: "(bool \<Rightarrow> 'a \<Rightarrow> ('w, unit, 'e) io) \<Rightarrow> bool \<Rightarrow> 'a list \<Rightarrow> ('w, unit, 'e) io" where
  "drop_all d panicking [] = io_return ()"
| "drop_all d panicking (x # xs) =
     io_finally (d panicking x) (\<lambda>unwinding. drop_all d (panicking \<or> unwinding) xs)"

lemma drop_all_returns:
  "(\<And>p x w. returns (d p x) w) \<Longrightarrow> returns (drop_all d p xs) w"
  by (induction xs arbitrary: p w) (auto simp: io_none)

lemma drop_all_keeps:
  assumes "\<And>p x w r w'. x \<in> set xs \<Longrightarrow> d p x w = Some (r, w') \<Longrightarrow> f w' = f w"
    and "drop_all d p xs w = Some (r, w')"
  shows "f w' = f w"
  using assms
proof (induction xs arbitrary: p r w)
  case (Cons x xs)
  then show ?case by (force simp: io_inv)
qed simp

lemma drop_all_not_Panic:
  assumes "\<And>p x w r w'. x \<in> set xs \<Longrightarrow> d p x w = Some (r, w') \<Longrightarrow> r \<noteq> Panic"
    and "drop_all d p xs w = Some (r, w')"
  shows "r \<noteq> Panic"
  using assms
proof (induction xs arbitrary: p r w)
  case (Cons x xs)
  then show ?case by (fastforce simp: io_inv)
qed auto

lemma drop_all_ensures:
  assumes "\<And>p x. x \<in> set xs \<Longrightarrow> ensures I (d p x) (\<lambda>_. True)"
  shows "ensures I (drop_all d p xs) (\<lambda>_. True)"
  using assms
proof (induction xs arbitrary: p)
  case Nil
  then show ?case by (simp add: ensures_def)
next
  case (Cons x xs)
  then show ?case by (auto intro: ensures_finally)
qed

section \<open>Integers in memory\<close>

text \<open>
  The bytes of an \<open>n\<close>-byte unsigned integer in memory order on the little-endian targets the
  crate is built for, and the integer that a run of bytes holds.
\<close>

primrec le_bytes :: "nat \<Rightarrow> nat \<Rightarrow> u8 list" where
  "le_bytes 0 v = []"
| "le_bytes (Suc n) v = word_of_nat v # le_bytes n (v div 256)"

primrec le_nat :: "u8 list \<Rightarrow> nat" where
  "le_nat [] = 0"
| "le_nat (b # bs) = unat b + 256 * le_nat bs"

lemma le_bytes_numeral:
  "le_bytes (numeral k) v = word_of_nat v # le_bytes (pred_numeral k) (v div 256)"
  by (simp add: numeral_eq_Suc [of k])

lemma length_le_bytes [simp]: "length (le_bytes n v) = n"
  by (induction n arbitrary: v) auto

lemma le_nat_le_bytes: "le_nat (le_bytes n v) = v mod 256 ^ n"
proof (induction n arbitrary: v)
  case 0
  then show ?case by simp
next
  case (Suc n)
  have "le_nat (le_bytes (Suc n) v) = v mod 256 + 256 * (v div 256 mod 256 ^ n)"
    by (simp add: Suc unat_of_nat take_bit_eq_mod)
  also have "\<dots> = v mod 256 ^ Suc n"
    by (simp add: mod_mult2_eq)
  finally show ?case .
qed

lemma le_nat_le_bytes_id [simp]: "v < 256 ^ n \<Longrightarrow> le_nat (le_bytes n v) = v"
  by (simp add: le_nat_le_bytes)

lemma le_nat_bound: "le_nat bs < 256 ^ length bs"
proof (induction bs)
  case Nil
  then show ?case by simp
next
  case (Cons b bs)
  have "unat b < 256" using unsigned_less [of b] by simp
  with Cons show ?case by (simp add: algebra_simps)
qed

section \<open>Decimal numbers\<close>

text \<open>\<open>format!("{}")\<close> of an unsigned integer.\<close>

fun show_nat :: "nat \<Rightarrow> string" where
  "show_nat n =
     (if n < 10 then [char_of (48 + n)] else show_nat (n div 10) @ [char_of (48 + n mod 10)])"

declare show_nat.simps [simp del]

end
