(* ===== verification/Unix_Fragment.thy ===== *)
theory Unix_Fragment
  imports Prelude
begin

text \<open>
  Sizes used by the Unix back end (\<open>src/src/platform/unix/mod.rs\<close>): how much payload fits in a
  packet of a \<open>SOCK_SEQPACKET\<close> socket, how the packet size shrinks after \<open>ENOBUFS\<close>, and the
  layout of the control message that carries file descriptors.
\<close>

section \<open>Constants\<close>

definition MAX_FDS_IN_CMSG :: u32 where
  "MAX_FDS_IN_CMSG = 64"

definition SCM_RIGHTS :: int where
  "SCM_RIGHTS = 1"

definition RESERVED_SIZE :: usize where
  "RESERVED_SIZE = 32"

text \<open>\<open>mem::size_of\<close> of the types involved, on the 64-bit targets with \<open>target_env = "gnu"\<close>.\<close>

abbreviation (input) sizeof_usize :: usize where
  "sizeof_usize \<equiv> 8"

abbreviation (input) sizeof_c_int :: usize where
  "sizeof_c_int \<equiv> 4"

section \<open>Fragment sizes\<close>

definition fragment_size :: "usize \<Rightarrow> (usize, 'e) res" where
  "fragment_size sendbuf_size = checked_sub sendbuf_size RESERVED_SIZE"

definition first_fragment_size :: "usize \<Rightarrow> (usize, 'e) res" where
  "first_fragment_size sendbuf_size =
     res_bind (fragment_size sendbuf_size) (\<lambda>n.
     res_bind (checked_sub n sizeof_usize) (\<lambda>m.
     Ok (m AND (NOT 8 + 1))))"

definition get_max_fragment_size :: "usize \<Rightarrow> (usize, 'e) res" where
  "get_max_fragment_size system_sendbuf_size = first_fragment_size system_sendbuf_size"

text \<open>
  \<open>downsize\<close> updates the buffer size through a mutable reference; the model returns the new size,
  \<open>None\<close> where the code returns \<open>Err(())\<close> and leaves the size alone.
\<close>

definition downsize :: "usize \<Rightarrow> usize \<Rightarrow> usize option" where
  "downsize sendbuf_size sent_size =
     (if sent_size > 2000 then
        let half = sendbuf_size div 2
        in Some (if \<not> half < sent_size then sent_size div 2 else half)
      else None)"

section \<open>Control messages\<close>

text \<open>\<open>struct cmsghdr\<close>: a \<open>size_t\<close> and two \<open>c_int\<close>s.\<close>

abbreviation (input) sizeof_cmsghdr :: usize where
  "sizeof_cmsghdr \<equiv> 16"

definition CMSG_ALIGN :: "usize \<Rightarrow> (usize, 'e) res" where
  "CMSG_ALIGN len =
     res_bind (checked_add len sizeof_usize) (\<lambda>a.
     res_bind (checked_sub a 1) (\<lambda>b.
     Ok (b AND NOT (sizeof_usize - 1))))"

definition CMSG_LEN :: "usize \<Rightarrow> (usize, 'e) res" where
  "CMSG_LEN len =
     res_bind (CMSG_ALIGN sizeof_cmsghdr) (\<lambda>h. checked_add h len)"

definition CMSG_SPACE :: "usize \<Rightarrow> (usize, 'e) res" where
  "CMSG_SPACE len =
     res_bind (CMSG_ALIGN len) (\<lambda>a.
     res_bind (CMSG_ALIGN sizeof_cmsghdr) (\<lambda>h. checked_add a h))"

definition S_ISSOCK :: "u32 \<Rightarrow> bool" where
  "S_ISSOCK mode \<longleftrightarrow> mode AND 0xF000 = 0xC000"

section \<open>The sizes in the natural numbers\<close>

text \<open>The simplifier normalises \<open>!8usize + 1\<close> and \<open>!(8 - 1)\<close> to \<open>- 8\<close>.\<close>

lemma unat_and_minus_8: "unat (x AND - 8 :: usize) = unat x div 8 * 8"
  using unat_and_not_mask [of x 3] by (simp add: mask_eq_exp_minus_1)

lemma fragment_size_eq:
  assumes "32 \<le> unat sb"
  shows "fragment_size sb = Ok (sb - 32)" and "unat (sb - 32) = unat sb - 32"
proof -
  have "(32::usize) \<le> sb"
    using assms by (simp add: word_le_nat_alt)
  then show "fragment_size sb = Ok (sb - 32)" and "unat (sb - 32) = unat sb - 32"
    by (simp_all add: fragment_size_def checked_sub_def RESERVED_SIZE_def unat_sub not_less)
qed

lemma first_fragment_size_eq:
  assumes "40 \<le> unat sb"
  shows "first_fragment_size sb = Ok ((sb - 40) AND - 8)"
    and "unat ((sb - 40) AND - 8) = (unat sb - 40) div 8 * 8"
proof -
  have le: "(32::usize) \<le> sb" "(8::usize) \<le> sb - 32" "(40::usize) \<le> sb"
    using fragment_size_eq(2) [of sb] assms by (simp_all add: word_le_nat_alt)
  have "unat (sb - 40) = unat sb - 40"
    using le(3) by (simp add: unat_sub)
  then show "unat ((sb - 40) AND - 8) = (unat sb - 40) div 8 * 8"
    by (simp add: unat_and_minus_8)
  show "first_fragment_size sb = Ok ((sb - 40) AND - 8)"
    using le(2) assms
    by (simp add: first_fragment_size_def fragment_size_eq(1) checked_sub_def not_less)
qed

lemma CMSG_ALIGN_eq:
  assumes "unat n + 8 < 2 ^ 64"
  shows "CMSG_ALIGN n = Ok ((n + 7) AND - 8)"
    and "unat ((n + 7) AND - 8) = (unat n + 7) div 8 * 8"
proof -
  have a: "checked_add n 8 = Ok (n + 8)" "unat (n + 8) = unat n + 8"
    using checked_add_nat [of n 8] assms by simp_all
  have "n + 8 \<noteq> 0"
    using a(2) by (metis add_is_0 unsigned_0 zero_neq_numeral)
  then show "CMSG_ALIGN n = Ok ((n + 7) AND - 8)"
    by (simp add: CMSG_ALIGN_def a checked_sub_def add.commute)
  have "unat (n + 7) = unat n + 7"
    using checked_add_nat(2) [of n 7] assms by simp
  then show "unat ((n + 7) AND - 8) = (unat n + 7) div 8 * 8"
    by (simp add: unat_and_minus_8)
qed

lemma CMSG_ALIGN_header [simp]: "CMSG_ALIGN 16 = Ok 16"
  by (simp add: CMSG_ALIGN_def checked_add_def checked_sub_def)

lemma CMSG_LEN_eq:
  assumes "unat n + 16 < 2 ^ 64"
  shows "CMSG_LEN n = Ok (16 + n)" and "unat (16 + n) = 16 + unat n"
  using checked_add_nat [of 16 n] assms by (simp_all add: CMSG_LEN_def)

lemma CMSG_SPACE_eq:
  assumes "unat n + 32 < 2 ^ 64"
  shows "CMSG_SPACE n = Ok (((n + 7) AND - 8) + 16)"
    and "unat (((n + 7) AND - 8) + 16) = (unat n + 7) div 8 * 8 + 16"
proof -
  have small: "unat n + 8 < 2 ^ 64"
    using assms by simp
  note a = CMSG_ALIGN_eq [OF small]
  have "(unat n + 7) div 8 * 8 \<le> unat n + 7"
    by (rule div_times_less_eq_dividend)
  then have "unat ((n + 7) AND - 8) + unat (16::usize) < 2 ^ 64"
    using a(2) assms by simp
  note add = checked_add_nat [OF this]
  show "CMSG_SPACE n = Ok (((n + 7) AND - 8) + 16)"
    by (simp add: CMSG_SPACE_def a(1) add(1))
  show "unat (((n + 7) AND - 8) + 16) = (unat n + 7) div 8 * 8 + 16"
    using add(2) a(2) by simp
qed

text \<open>
  What a successful \<open>downsize\<close> guarantees: the next attempt uses a buffer smaller than the packet
  that failed and smaller than the old buffer, and never less than 1000 bytes.
\<close>

lemma downsize_Some:
  assumes "downsize sb sent = Some sb'" and "sent \<le> sb"
  shows "unat sb' < unat sent" and "unat sb' < unat sb" and "1000 \<le> unat sb'"
proof -
  have gt: "2000 < unat sent"
    using assms(1) by (auto simp: downsize_def Let_def word_less_nat_alt split: if_splits)
  have le: "unat sent \<le> unat sb"
    using assms(2) by (simp add: word_le_nat_alt)
  have eq: "unat sb' = (if unat sb div 2 < unat sent then unat sb div 2 else unat sent div 2)"
    using assms(1)
    by (auto simp: downsize_def Let_def word_less_nat_alt unat_div split: if_splits)
  show "unat sb' < unat sent" and "unat sb' < unat sb" and "1000 \<le> unat sb'"
    using eq gt le by (auto split: if_splits)
qed

end
