(* ===== verification/Platform.thy ===== *)
theory Platform
  imports Prelude
begin

text \<open>
  Types that every back end under \<open>src/src/platform/\<close> declares with the same shape: the channel
  end that travels in a message, the result of a receiver set's \<open>select\<close>, and the blocking mode.
\<close>

datatype ('tx, 'rx) os_ipc_channel = Sender 'tx | Receiver 'rx

datatype ('op, 'shm) os_ipc_selection_result =
    DataReceived u64 "u8 list" "'op list" "'shm list"
  | ChannelClosed u64

text \<open>\<open>OsIpcSelectionResult::unwrap\<close> panics on a closed channel.\<close>

fun os_selection_unwrap ::
  "('op, 'shm) os_ipc_selection_result \<Rightarrow> (u64 \<times> u8 list \<times> 'op list \<times> 'shm list, 'e) res" where
  "os_selection_unwrap (DataReceived i d c s) = Ok (i, d, c, s)"
| "os_selection_unwrap (ChannelClosed i) = Panic"

text \<open>A \<open>std::time::Duration\<close> by its whole milliseconds (\<open>as_millis\<close>, a \<open>u128\<close>).\<close>

type_synonym duration = nat

datatype blocking_mode = Blocking | Nonblocking | Timeout duration

end
