(* ===== verification/Unix_Sys.thy ===== *)
theory Unix_Sys
  imports Unix_Fragment Platform
begin

text \<open>
  What the Unix back end calls and does not define: the system calls of libc. They are a
  parameter of the model, a record of functions on a kernel state \<open>'w\<close>; \<open>errno\<close> is read from the
  state. A call that can block has result \<open>None\<close> where it never returns.
\<close>

section \<open>Constants of libc\<close>

definition ENOBUFS :: int where "ENOBUFS = 105"
definition EAGAIN :: int where "EAGAIN = 11"
definition EWOULDBLOCK :: int where "EWOULDBLOCK = 11"
definition SOL_SOCKET :: int where "SOL_SOCKET = 1"

section \<open>Message headers\<close>

record cmsghdr =
  cmsg_len :: usize
  cmsg_level :: int
  cmsg_type :: int
  cmsg_fds :: "fd list"  \<comment> \<open>the descriptors stored after the header, at \<open>CMSG_DATA\<close>\<close>

text \<open>
  \<open>struct msghdr\<close>, over the type of its I/O vectors (the bytes to send, or the sizes of the buffers
  to receive into) and of its control buffer. The fields the code sets to zero are left out.
\<close>

record ('v, 'c) msghdr =
  msg_iov :: "'v list"
  msg_control :: 'c
  msg_controllen :: usize

definition new_msghdr :: "'v list \<Rightarrow> 'c \<Rightarrow> usize \<Rightarrow> ('v, 'c) msghdr" where
  "new_msghdr iov cmsg_buffer cmsg_space =
     \<lparr>msg_iov = iov, msg_control = cmsg_buffer, msg_controllen = cmsg_space\<rparr>"

text \<open>
  What \<open>recvmsg\<close> leaves behind: the bytes scattered over the I/O vectors in order, the length of
  the control data, and the control buffer's content.
\<close>

record recvmsg_out =
  out_data :: "u8 list"
  out_controllen :: usize
  out_cmsg :: cmsghdr

text \<open>\<open>sockaddr_un\<close>: the family and the 108 bytes of the path.\<close>

record sockaddr_un =
  sun_family :: int
  sun_path :: string

record 'w unix_sys =
  sys_errno :: "'w \<Rightarrow> int"
  sys_malloc :: "usize \<Rightarrow> 'w \<Rightarrow> bool \<times> 'w"  \<comment> \<open>\<open>False\<close>: the null pointer\<close>
  sys_socketpair :: "'w \<Rightarrow> (int \<times> fd \<times> fd) \<times> 'w"
  sys_close :: "fd \<Rightarrow> 'w \<Rightarrow> int \<times> 'w"
  sys_sendmsg :: "fd \<Rightarrow> (u8 list, cmsghdr option) msghdr \<Rightarrow> 'w \<Rightarrow> (int \<times> 'w) option"
  sys_send :: "fd \<Rightarrow> u8 list \<Rightarrow> 'w \<Rightarrow> (int \<times> 'w) option"
  sys_recvmsg :: "fd \<Rightarrow> (usize, unit) msghdr \<Rightarrow> 'w \<Rightarrow> (recvmsg_out option \<times> 'w) option"
    \<comment> \<open>\<open>None\<close> inside: a negative result\<close>
  sys_recv :: "fd \<Rightarrow> usize \<Rightarrow> 'w \<Rightarrow> (u8 list option \<times> 'w) option"
  sys_poll :: "fd \<Rightarrow> int \<Rightarrow> 'w \<Rightarrow> (int \<times> 'w) option"
  sys_setfl :: "fd \<Rightarrow> bool \<Rightarrow> 'w \<Rightarrow> int \<times> 'w"  \<comment> \<open>\<open>fcntl(F_SETFL)\<close> with \<open>O_NONBLOCK\<close> or 0\<close>
  sys_fstat :: "fd \<Rightarrow> 'w \<Rightarrow> (int \<times> u32 \<times> usize) \<times> 'w"  \<comment> \<open>result, mode, size\<close>
  sys_mmap :: "usize \<Rightarrow> fd \<Rightarrow> 'w \<Rightarrow> usize option \<times> 'w"
    \<comment> \<open>length, descriptor; the address, \<open>None\<close>: \<open>MAP_FAILED\<close>\<close>
  sys_munmap :: "usize \<Rightarrow> usize \<Rightarrow> 'w \<Rightarrow> int \<times> 'w"  \<comment> \<open>address, length\<close>
  sys_dup :: "fd \<Rightarrow> 'w \<Rightarrow> fd \<times> 'w"
  sys_shm_open :: "string \<Rightarrow> 'w \<Rightarrow> fd \<times> 'w"  \<comment> \<open>\<open>O_CREAT | O_RDWR | O_EXCL\<close>, mode 0600\<close>
  sys_shm_unlink :: "string \<Rightarrow> 'w \<Rightarrow> int \<times> 'w"
  sys_memfd_create :: "string \<Rightarrow> 'w \<Rightarrow> fd \<times> 'w"  \<comment> \<open>\<open>MFD_CLOEXEC\<close>\<close>
  sys_ftruncate :: "fd \<Rightarrow> int \<Rightarrow> 'w \<Rightarrow> int \<times> 'w"  \<comment> \<open>the length as an \<open>off_t\<close>\<close>
  sys_peek :: "usize \<Rightarrow> usize \<Rightarrow> 'w \<Rightarrow> u8 list"  \<comment> \<open>mapped memory: address, length\<close>
  sys_poke :: "usize \<Rightarrow> u8 list \<Rightarrow> 'w \<Rightarrow> 'w"
  sys_sndbuf :: "fd \<Rightarrow> 'w \<Rightarrow> (int \<times> usize) \<times> 'w"  \<comment> \<open>\<open>getsockopt(SO_SNDBUF)\<close>\<close>
  sys_linger :: "fd \<Rightarrow> int \<times> int \<Rightarrow> 'w \<Rightarrow> int \<times> 'w"  \<comment> \<open>\<open>setsockopt(SO_LINGER)\<close>\<close>
  sys_socket :: "'w \<Rightarrow> fd \<times> 'w"
  sys_bind :: "fd \<Rightarrow> sockaddr_un \<Rightarrow> 'w \<Rightarrow> int \<times> 'w"
  sys_listen :: "fd \<Rightarrow> int \<Rightarrow> 'w \<Rightarrow> int \<times> 'w"
  sys_accept :: "fd \<Rightarrow> 'w \<Rightarrow> (fd \<times> 'w) option"
  sys_connect :: "fd \<Rightarrow> sockaddr_un \<Rightarrow> 'w \<Rightarrow> (int \<times> 'w) option"
  sys_tempdir :: "'w \<Rightarrow> string option \<times> 'w"  \<comment> \<open>\<open>tempfile\<close>: the path of a new directory\<close>
  sys_rmdir :: "string \<Rightarrow> 'w \<Rightarrow> 'w"  \<comment> \<open>\<open>TempDir\<close>'s \<open>Drop\<close>\<close>

text \<open>A packet as the kernel sees it: its bytes and the descriptors attached to it.\<close>

type_synonym packet = "u8 list \<times> fd list"

text \<open>
  What \<open>recvmsg\<close> delivers of a packet: the bytes that fit the I/O vectors and the descriptors that fit
  the control buffer; the excess of both is discarded. No control data at all is a length of 0.
\<close>

definition delivered :: "(usize, unit) msghdr \<Rightarrow> packet \<Rightarrow> recvmsg_out" where
  "delivered m p =
     (let fds = take ((unat (msg_controllen m) - 16) div 4) (snd p) in
      \<lparr>out_data = take (sum_list (map unat (msg_iov m))) (fst p),
       out_controllen = (if fds = [] then 0 else usize_of (16 + (4 * length fds + 7) div 8 * 8)),
       out_cmsg = \<lparr>cmsg_len = usize_of (16 + 4 * length fds), cmsg_level = SOL_SOCKET,
                   cmsg_type = 1, cmsg_fds = fds\<rparr>\<rparr>)"

section \<open>Errors\<close>

datatype unix_error = Errno int | ChannelClosedError

definition unix_last :: "'w unix_sys \<Rightarrow> ('w, 'a, unix_error) io" where
  "unix_last sys = (\<lambda>w. Some (Err (Errno (sys_errno sys w)), w))"

fun unix_channel_is_closed :: "unix_error \<Rightarrow> bool" where
  "unix_channel_is_closed e \<longleftrightarrow> e = ChannelClosedError"

lemma returns_unix_last [io_none]: "returns (unix_last sys) w"
  by (simp add: returns_def unix_last_def)

lemma unix_last_eq_Some [io_inv]:
  "unix_last sys w = Some (r, w') \<longleftrightarrow> r = Err (Errno (sys_errno sys w)) \<and> w' = w"
  by (auto simp: unix_last_def)

section \<open>Closing descriptors\<close>

text \<open>Every \<open>Drop\<close> of the module: close, and assert success unless the thread is already panicking.\<close>

definition close_checked :: "'w unix_sys \<Rightarrow> bool \<Rightarrow> fd \<Rightarrow> ('w, unit, unix_error) io" where
  "close_checked sys panicking fd =
     io_bind (call (sys_close sys fd)) (\<lambda>result.
       if panicking \<or> result = 0 then io_return () else io_panic)"

lemma close_checked_run:
  "close_checked sys p fd w = Some (r, w') \<longleftrightarrow>
     (\<exists>i. sys_close sys fd w = (i, w') \<and> r = (if p \<or> i = 0 then Ok () else Panic))"
  by (auto simp: close_checked_def io_inv split: if_splits)

lemma returns_close_checked [io_none]: "returns (close_checked sys p fd) w"
  by (simp add: close_checked_def io_none)

end
