(* ===== verification/Unix_Kernel.thy ===== *)
theory Unix_Kernel
  imports Unix_Sys
begin

text \<open>
  A small executable kernel: one instance of the system call record, with socket pairs, packets in
  flight, shared-memory files and a listening socket. It shows that what the theorems ask of the
  kernel can be met, and it runs the examples.
\<close>

record knl =
  k_errno :: int
  k_next :: fd  \<comment> \<open>the next descriptor\<close>
  k_limit :: nat  \<comment> \<open>largest packet there is memory for\<close>
  k_peer :: "fd \<Rightarrow> fd option"
  k_sent :: "fd \<Rightarrow> packet list"
  k_pending :: "fd \<Rightarrow> packet list"
  k_closed :: "fd \<Rightarrow> bool"
  k_nonblock :: "fd \<Rightarrow> bool"
  k_file :: "fd \<Rightarrow> nat option"  \<comment> \<open>the inode behind a shared-memory descriptor\<close>
  k_inodes :: nat
  k_data :: "nat \<Rightarrow> u8 list"
  k_bound :: "string \<Rightarrow> fd option"
  k_backlog :: "fd \<Rightarrow> fd list"
  k_polled :: "(usize \<times> fd) list"  \<comment> \<open>tokens and descriptors registered with the poll object\<close>

definition k_init :: "nat \<Rightarrow> knl" where
  "k_init limit =
     \<lparr>k_errno = 0, k_next = 3, k_limit = limit, k_peer = (\<lambda>_. None), k_sent = (\<lambda>_. []),
      k_pending = (\<lambda>_. []), k_closed = (\<lambda>_. False), k_nonblock = (\<lambda>_. False),
      k_file = (\<lambda>_. None), k_inodes = 0, k_data = (\<lambda>_. []), k_bound = (\<lambda>_. None),
      k_backlog = (\<lambda>_. []), k_polled = []\<rparr>"

definition k_open :: "knl \<Rightarrow> fd set" where
  "k_open w = {0 ..< k_next w}"

definition k_fail :: "int \<Rightarrow> knl \<Rightarrow> int \<times> knl" where
  "k_fail e w = (-1, w\<lparr>k_errno := e\<rparr>)"

definition k_socketpair :: "knl \<Rightarrow> (int \<times> fd \<times> fd) \<times> knl" where
  "k_socketpair w =
     (let a = k_next w; b = k_next w + 1 in
      ((0, a, b), w\<lparr>k_next := k_next w + 2,
         k_peer := (k_peer w)(a := Some b, b := Some a),
         k_sent := (k_sent w)(a := [], b := []),
         k_pending := (k_pending w)(a := [], b := []),
         k_closed := (k_closed w)(a := False, b := False),
         k_file := (k_file w)(a := None, b := None)\<rparr>))"

definition k_close :: "fd \<Rightarrow> knl \<Rightarrow> int \<times> knl" where
  "k_close fd w = (0, w\<lparr>k_closed := (k_closed w)(fd := True)\<rparr>)"

definition k_transmit :: "fd \<Rightarrow> packet \<Rightarrow> knl \<Rightarrow> (int \<times> knl) option" where
  "k_transmit fd p w =
     Some (if length (fst p) > k_limit w then k_fail ENOBUFS w
       else case k_peer w fd of
           None \<Rightarrow> k_fail 107 w
         | Some q \<Rightarrow>
             if fst p = [] then (0, w)
             else (int (length (fst p)), w\<lparr>k_sent := (k_sent w)(fd := k_sent w fd @ [p]),
               k_pending := (k_pending w)(q := k_pending w q @ [p])\<rparr>))"

definition k_sendmsg :: "fd \<Rightarrow> (u8 list, cmsghdr option) msghdr \<Rightarrow> knl \<Rightarrow> (int \<times> knl) option" where
  "k_sendmsg fd m =
     k_transmit fd (concat (msg_iov m), case msg_control m of None \<Rightarrow> [] | Some c \<Rightarrow> cmsg_fds c)"

definition k_send :: "fd \<Rightarrow> u8 list \<Rightarrow> knl \<Rightarrow> (int \<times> knl) option" where
  "k_send fd d = k_transmit fd (d, [])"

definition k_hung_up :: "knl \<Rightarrow> fd \<Rightarrow> bool" where
  "k_hung_up w fd = (case k_peer w fd of None \<Rightarrow> True | Some q \<Rightarrow> k_closed w q)"

text \<open>Reading: the next packet, end of file once the peer is closed, \<open>EAGAIN\<close>, or waiting forever.\<close>

definition k_receive :: "fd \<Rightarrow> (packet \<Rightarrow> 'o) \<Rightarrow> knl \<Rightarrow> ('o option \<times> knl) option" where
  "k_receive fd f w =
     (case k_pending w fd of
        p # ps \<Rightarrow> Some (Some (f p), w\<lparr>k_pending := (k_pending w)(fd := ps)\<rparr>)
      | [] \<Rightarrow>
          if k_hung_up w fd then Some (Some (f ([], [])), w)
          else if k_nonblock w fd then Some (None, w\<lparr>k_errno := EAGAIN\<rparr>)
          else None)"

definition k_recvmsg :: "fd \<Rightarrow> (usize, unit) msghdr \<Rightarrow> knl \<Rightarrow> (recvmsg_out option \<times> knl) option" where
  "k_recvmsg fd m = k_receive fd (delivered m)"

definition k_recv :: "fd \<Rightarrow> usize \<Rightarrow> knl \<Rightarrow> (u8 list option \<times> knl) option" where
  "k_recv fd n = k_receive fd (\<lambda>p. take (unat n) (fst p))"

text \<open>Nothing else runs, so a poll with no packet times out, or waits forever when it may.\<close>

definition k_poll :: "fd \<Rightarrow> int \<Rightarrow> knl \<Rightarrow> (int \<times> knl) option" where
  "k_poll fd t w =
     (if k_pending w fd \<noteq> [] \<or> k_hung_up w fd then Some (1, w)
      else if t \<ge> 0 then Some (0, w) else None)"

definition k_setfl :: "fd \<Rightarrow> bool \<Rightarrow> knl \<Rightarrow> int \<times> knl" where
  "k_setfl fd nb w = (0, w\<lparr>k_nonblock := (k_nonblock w)(fd := nb)\<rparr>)"

section \<open>Shared memory\<close>

definition k_fstat :: "fd \<Rightarrow> knl \<Rightarrow> (int \<times> u32 \<times> usize) \<times> knl" where
  "k_fstat fd w =
     (case k_file w fd of
        Some i \<Rightarrow> ((0, 0x8180, len_of (k_data w i)), w)
      | None \<Rightarrow> ((0, 0xC1FF, 0), w))"

definition k_new_file :: "string \<Rightarrow> knl \<Rightarrow> fd \<times> knl" where
  "k_new_file name w =
     (let fd = k_next w; i = k_inodes w in
      (fd, w\<lparr>k_next := fd + 1, k_inodes := i + 1, k_file := (k_file w)(fd := Some i),
             k_data := (k_data w)(i := [])\<rparr>))"

definition k_dup :: "fd \<Rightarrow> knl \<Rightarrow> fd \<times> knl" where
  "k_dup fd w = (k_next w, w\<lparr>k_next := k_next w + 1, k_file := (k_file w)(k_next w := k_file w fd)\<rparr>)"

definition k_ftruncate :: "fd \<Rightarrow> int \<Rightarrow> knl \<Rightarrow> int \<times> knl" where
  "k_ftruncate fd n w =
     (case k_file w fd of
        Some i \<Rightarrow>
          if n < 0 then k_fail 22 w
          else (0, w\<lparr>k_data := (k_data w)(i :=
                 take (nat n) (k_data w i) @ replicate (nat n - length (k_data w i)) 0)\<rparr>)
      | None \<Rightarrow> k_fail 22 w)"

text \<open>Each file has its own 4 GiB of addresses, so there is room for \<open>2 ^ 30\<close> of them.\<close>

definition k_address :: "nat \<Rightarrow> usize" where
  "k_address i = usize_of ((i + 1) * 2 ^ 32)"

definition k_inode :: "usize \<Rightarrow> nat" where
  "k_inode a = unat a div 2 ^ 32 - 1"

definition k_mmap :: "usize \<Rightarrow> fd \<Rightarrow> knl \<Rightarrow> usize option \<times> knl" where
  "k_mmap n fd w =
     (case k_file w fd of
        Some i \<Rightarrow>
          if n = 0 \<or> unat n \<ge> 2 ^ 32 \<or> i \<ge> 2 ^ 30 then (None, w\<lparr>k_errno := 22\<rparr>)
          else (Some (k_address i), w)
      | None \<Rightarrow> (None, w\<lparr>k_errno := 22\<rparr>))"

definition k_peek :: "usize \<Rightarrow> usize \<Rightarrow> knl \<Rightarrow> u8 list" where
  "k_peek a n w = take (unat n) (k_data w (k_inode a))"

definition k_poke :: "usize \<Rightarrow> u8 list \<Rightarrow> knl \<Rightarrow> knl" where
  "k_poke a bs w =
     w\<lparr>k_data := (k_data w)(k_inode a := bs @ drop (length bs) (k_data w (k_inode a)))\<rparr>"

section \<open>Named sockets\<close>

definition k_socket :: "knl \<Rightarrow> fd \<times> knl" where
  "k_socket w = (k_next w, w\<lparr>k_next := k_next w + 1, k_file := (k_file w)(k_next w := None)\<rparr>)"

definition k_bind :: "fd \<Rightarrow> sockaddr_un \<Rightarrow> knl \<Rightarrow> int \<times> knl" where
  "k_bind fd a w =
     (case k_bound w (sun_path a) of
        Some _ \<Rightarrow> k_fail 98 w
      | None \<Rightarrow> (0, w\<lparr>k_bound := (k_bound w)(sun_path a := Some fd)\<rparr>))"

definition k_connect :: "fd \<Rightarrow> sockaddr_un \<Rightarrow> knl \<Rightarrow> (int \<times> knl) option" where
  "k_connect fd a w =
     Some (case k_bound w (sun_path a) of
        None \<Rightarrow> k_fail 2 w
      | Some l \<Rightarrow>
          let c = k_next w in
          (0, w\<lparr>k_next := c + 1, k_peer := (k_peer w)(fd := Some c, c := Some fd),
                k_file := (k_file w)(c := None),
                k_backlog := (k_backlog w)(l := k_backlog w l @ [c])\<rparr>))"

definition k_accept :: "fd \<Rightarrow> knl \<Rightarrow> (fd \<times> knl) option" where
  "k_accept l w =
     (case k_backlog w l of
        [] \<Rightarrow> None
      | c # cs \<Rightarrow> Some (c, w\<lparr>k_backlog := (k_backlog w)(l := cs)\<rparr>))"

definition k_sys :: "knl unix_sys" where
  "k_sys =
     \<lparr>sys_errno = k_errno, sys_malloc = (\<lambda>n w. (True, w)), sys_socketpair = k_socketpair,
      sys_close = k_close, sys_sendmsg = k_sendmsg, sys_send = k_send, sys_recvmsg = k_recvmsg,
      sys_recv = k_recv, sys_poll = k_poll, sys_setfl = k_setfl, sys_fstat = k_fstat,
      sys_mmap = k_mmap, sys_munmap = (\<lambda>a n w. (0, w)), sys_dup = k_dup,
      sys_shm_open = k_new_file, sys_shm_unlink = (\<lambda>name w. (0, w)),
      sys_memfd_create = k_new_file, sys_ftruncate = k_ftruncate, sys_peek = k_peek,
      sys_poke = k_poke, sys_sndbuf = (\<lambda>fd w. ((0, 212992), w)), sys_linger = (\<lambda>fd l w. (0, w)),
      sys_socket = k_socket, sys_bind = k_bind, sys_listen = (\<lambda>fd n w. (0, w)),
      sys_accept = k_accept, sys_connect = k_connect,
      sys_tempdir = (\<lambda>w. (Some ''/tmp/ipc'', w)), sys_rmdir = (\<lambda>d w. w)\<rparr>"

lemmas k_defs =
  k_init_def k_fail_def k_socketpair_def k_close_def k_transmit_def k_sendmsg_def k_send_def
  k_hung_up_def k_receive_def k_recvmsg_def k_recv_def k_poll_def k_setfl_def k_fstat_def
  k_new_file_def k_dup_def k_ftruncate_def k_mmap_def k_peek_def k_poke_def k_socket_def
  k_bind_def k_connect_def k_accept_def k_sys_def

end
