(* ===== verification/Unix_Shmem.thy ===== *)
theory Unix_Shmem
  imports Unix_Kernel
begin

text \<open>
  Shared memory of the Unix back end: \<open>BackingStore\<close> and \<open>OsIpcSharedMemory\<close>. A region is a mapping
  of a file that has no name; the descriptor travels in a message and the receiver maps it again.
\<close>

section \<open>The backing store\<close>

record backing_store = store_fd :: fd

record os_ipc_shared_memory =
  shm_ptr :: usize
  shm_length :: usize
  shm_store :: backing_store

definition store_from_fd :: "fd \<Rightarrow> backing_store" where
  "store_from_fd fd = \<lparr>store_fd = fd\<rparr>"

definition shm_name :: "usize \<Rightarrow> nat \<Rightarrow> nat \<Rightarrow> nat \<Rightarrow> string" where
  "shm_name count pid secs nanos =
     ''/ipc-channel-shared-memory.'' @ show_nat (unat count) @ ''.'' @ show_nat pid @ ''.'' @
     show_nat secs @ ''.'' @ show_nat nanos"

text \<open>\<open>length as off_t\<close> reads the 64 bits as a signed number.\<close>

definition create_shmem :: "'w unix_sys \<Rightarrow> string \<Rightarrow> usize \<Rightarrow> ('w, fd, unix_error) io" where
  "create_shmem sys name len =
     io_bind (call (sys_shm_open sys name)) (\<lambda>fd.
     if \<not> fd \<ge> 0 then io_panic else
     io_bind (call (sys_shm_unlink sys name)) (\<lambda>r.
     if r \<noteq> 0 then io_panic else
     io_bind (call (sys_ftruncate sys fd (sint len))) (\<lambda>r.
     if r \<noteq> 0 then io_panic else io_return fd)))"

text \<open>The same with the \<open>memfd\<close> feature.\<close>

definition create_shmem_memfd :: "'w unix_sys \<Rightarrow> string \<Rightarrow> usize \<Rightarrow> ('w, fd, unix_error) io" where
  "create_shmem_memfd sys name len =
     io_bind (call (sys_memfd_create sys name)) (\<lambda>fd.
     if \<not> fd \<ge> 0 then io_panic else
     io_bind (call (sys_ftruncate sys fd (sint len))) (\<lambda>r.
     if r \<noteq> 0 then io_panic else io_return fd))"

text \<open>
  \<open>SHM_COUNT\<close>, the process id and the time since the epoch are the pieces of the name; the counter is
  incremented by \<open>fetch_add\<close>, which wraps.
\<close>

record shm_ids =
  shm_count :: usize
  shm_pid :: nat
  shm_secs :: nat
  shm_nanos :: nat

definition backing_store_new ::
  "'w unix_sys \<Rightarrow> bool \<Rightarrow> shm_ids \<Rightarrow> usize \<Rightarrow> ('w, shm_ids \<times> backing_store, unix_error) io" where
  "backing_store_new sys memfd ids len =
     (let name = shm_name (shm_count ids) (shm_pid ids) (shm_secs ids) (shm_nanos ids);
          ids' = ids\<lparr>shm_count := shm_count ids + 1\<rparr> in
      io_bind (if memfd then create_shmem_memfd sys name len else create_shmem sys name len)
        (\<lambda>fd. io_return (ids', store_from_fd fd)))"

definition map_region :: "'w unix_sys \<Rightarrow> fd \<Rightarrow> usize \<Rightarrow> ('w, usize \<times> usize, unix_error) io" where
  "map_region sys fd len =
     (if len = 0 then io_return (0, len)
      else
        io_bind (call (sys_mmap sys len fd)) (\<lambda>address.
        case address of
          None \<Rightarrow> io_panic
        | Some a \<Rightarrow> if a = 0 then io_panic else io_return (a, len)))"

definition map_file ::
  "'w unix_sys \<Rightarrow> backing_store \<Rightarrow> usize option \<Rightarrow> ('w, usize \<times> usize, unix_error) io" where
  "map_file sys store given =
     io_bind
       (case given of
          Some n \<Rightarrow> io_return n
        | None \<Rightarrow>
            io_bind (call (sys_fstat sys (store_fd store))) (\<lambda>(r, mode, size).
            if r = 0 then io_return size else io_panic))
       (map_region sys (store_fd store))"

definition drop_backing_store :: "'w unix_sys \<Rightarrow> bool \<Rightarrow> backing_store \<Rightarrow> ('w, unit, unix_error) io" where
  "drop_backing_store sys panicking store = close_checked sys panicking (store_fd store)"

section \<open>Regions\<close>

definition shm_from_raw_parts :: "usize \<Rightarrow> usize \<Rightarrow> backing_store \<Rightarrow> os_ipc_shared_memory" where
  "shm_from_raw_parts p n store = \<lparr>shm_ptr = p, shm_length = n, shm_store = store\<rparr>"

text \<open>When \<open>map_file\<close> panics, unwinding drops the store.\<close>

definition mapped_store ::
  "'w unix_sys \<Rightarrow> backing_store \<Rightarrow> usize option \<Rightarrow> ('w, usize \<times> usize, unix_error) io" where
  "mapped_store sys store given =
     io_finally (map_file sys store given)
       (\<lambda>panicking. if panicking then drop_backing_store sys True store else io_return ())"

definition shm_from_fd :: "'w unix_sys \<Rightarrow> fd \<Rightarrow> ('w, os_ipc_shared_memory, unix_error) io" where
  "shm_from_fd sys fd =
     (let store = store_from_fd fd in
      io_bind (mapped_store sys store None) (\<lambda>(p, n). io_return (shm_from_raw_parts p n store)))"

text \<open>Writing to mapped memory; a region of length 0 has no memory.\<close>

definition fill_region :: "'w unix_sys \<Rightarrow> usize \<Rightarrow> u8 list \<Rightarrow> ('w, unit, unix_error) io" where
  "fill_region sys a bytes =
     (\<lambda>w. Some (Ok (), if bytes = [] then w else sys_poke sys a bytes w))"

definition shm_from_byte ::
  "'w unix_sys \<Rightarrow> bool \<Rightarrow> shm_ids \<Rightarrow> u8 \<Rightarrow> usize
     \<Rightarrow> ('w, shm_ids \<times> os_ipc_shared_memory, unix_error) io" where
  "shm_from_byte sys memfd ids byte len =
     io_bind (backing_store_new sys memfd ids len) (\<lambda>(ids', store).
     io_bind (mapped_store sys store (Some len)) (\<lambda>(address, _).
     io_bind (fill_region sys address (replicate (unat len) byte)) (\<lambda>_.
     io_return (ids', shm_from_raw_parts address len store))))"

definition shm_from_bytes ::
  "'w unix_sys \<Rightarrow> bool \<Rightarrow> shm_ids \<Rightarrow> u8 list
     \<Rightarrow> ('w, shm_ids \<times> os_ipc_shared_memory, unix_error) io" where
  "shm_from_bytes sys memfd ids bytes =
     io_bind (backing_store_new sys memfd ids (len_of bytes)) (\<lambda>(ids', store).
     io_bind (mapped_store sys store (Some (len_of bytes))) (\<lambda>(address, _).
     io_bind (fill_region sys address bytes) (\<lambda>_.
     io_return (ids', shm_from_raw_parts address (len_of bytes) store))))"

definition shm_deref :: "'w unix_sys \<Rightarrow> os_ipc_shared_memory \<Rightarrow> 'w \<Rightarrow> u8 list" where
  "shm_deref sys shm w =
     (if shm_length shm = 0 then [] else sys_peek sys (shm_ptr shm) (shm_length shm) w)"

definition shm_eq :: "'w unix_sys \<Rightarrow> os_ipc_shared_memory \<Rightarrow> os_ipc_shared_memory \<Rightarrow> 'w \<Rightarrow> bool" where
  "shm_eq sys a b w \<longleftrightarrow> shm_deref sys a w = shm_deref sys b w"

definition shm_clone ::
  "'w unix_sys \<Rightarrow> os_ipc_shared_memory \<Rightarrow> ('w, os_ipc_shared_memory, unix_error) io" where
  "shm_clone sys shm =
     io_bind (call (sys_dup sys (store_fd (shm_store shm)))) (\<lambda>fd.
     let store = store_from_fd fd in
     io_bind (mapped_store sys store (Some (shm_length shm))) (\<lambda>(address, _).
     io_return (shm_from_raw_parts address (shm_length shm) store)))"

text \<open>\<open>Drop\<close>: unmap, then the store's own \<open>Drop\<close>.\<close>

definition drop_shm :: "'w unix_sys \<Rightarrow> bool \<Rightarrow> os_ipc_shared_memory \<Rightarrow> ('w, unit, unix_error) io" where
  "drop_shm sys panicking shm =
     io_finally
       (if shm_ptr shm \<noteq> 0 then
          io_bind (call (sys_munmap sys (shm_ptr shm) (shm_length shm))) (\<lambda>result.
          if panicking \<or> result = 0 then io_return () else io_panic)
        else io_return ())
       (\<lambda>unwinding. drop_backing_store sys (panicking \<or> unwinding) (shm_store shm))"

section \<open>Names\<close>

fun read_nat :: "string \<Rightarrow> nat" where
  "read_nat s = foldl (\<lambda>n c. 10 * n + (of_char c - 48)) 0 s"

lemma of_char_digit: "n < 10 \<Longrightarrow> of_char (char_of (48 + n)) = (48 + n :: nat)"
  by (simp add: of_char_of)

lemma read_show_nat: "read_nat (show_nat n) = n"
proof (induction n rule: show_nat.induct)
  case (1 n)
  show ?case
  proof (cases "n < 10")
    case True
    then show ?thesis by (simp add: show_nat.simps [of n] of_char_digit)
  next
    case False
    have "read_nat (show_nat n) = 10 * read_nat (show_nat (n div 10)) + n mod 10"
      using False by (simp add: show_nat.simps [of n] of_char_digit)
    then show ?thesis using 1 False by simp
  qed
qed

lemma show_nat_inj: "show_nat m = show_nat n \<longleftrightarrow> m = n"
  by (metis read_show_nat)

lemma show_nat_no_dot: "CHR ''.'' \<notin> set (show_nat n)"
proof (induction n rule: show_nat.induct)
  case (1 n)
  have dot: "CHR ''.'' \<noteq> char_of (48 + d)" if "d < 10" for d :: nat
  proof
    assume "CHR ''.'' = char_of (48 + d)"
    then have "of_char (CHR ''.'') = (48 + d :: nat)"
      using of_char_digit [OF that] by metis
    then show False by simp
  qed
  show ?case
    using 1 dot [of n] dot [of "n mod 10"] by (cases "n < 10") (simp_all add: show_nat.simps [of n])
qed

lemma dot_split:
  assumes "CHR ''.'' \<notin> set a" and "CHR ''.'' \<notin> set b"
    and "a @ CHR ''.'' # x = b @ CHR ''.'' # y"
  shows "a = b"
proof -
  have "takeWhile (\<lambda>c. c \<noteq> CHR ''.'') (z @ CHR ''.'' # u) = z" if "CHR ''.'' \<notin> set z" for z u
    using that by (induction z) auto
  then show ?thesis using assms by metis
qed

text \<open>Two backing stores made with different counter values never ask the system for the same
  name, whatever the process id and the clock say.\<close>

theorem shm_name_unique:
  assumes "shm_name count pid secs nanos = shm_name count' pid' secs' nanos'"
  shows "count = count'"
proof -
  have "show_nat (unat count) @ CHR ''.'' # (show_nat pid @ ''.'' @ show_nat secs @ ''.'' @ show_nat nanos) =
      show_nat (unat count') @ CHR ''.'' # (show_nat pid' @ ''.'' @ show_nat secs' @ ''.'' @ show_nat nanos')"
    using assms by (simp add: shm_name_def)
  then have "show_nat (unat count) = show_nat (unat count')"
    by (rule dot_split [OF show_nat_no_dot show_nat_no_dot])
  then show ?thesis by (simp only: show_nat_inj word_unat_eq_iff)
qed

theorem shm_name_unique_witness:
  "shm_name 7 1 2 3 = shm_name 7 1 2 3 \<and> (7 :: usize) = 7"
  using shm_name_unique [of 7 1 2 3 7 1 2 3] by simp

section \<open>The memory behind a descriptor\<close>

text \<open>
  Documented behaviour of the calls: \<open>contents w fd\<close> is the file behind a descriptor, \<open>mapped w a n fd\<close>
  that \<open>n\<close> bytes of it are mapped shared at the address \<open>a\<close>.
\<close>

definition shm_kernel ::
  "'w unix_sys \<Rightarrow> ('w \<Rightarrow> fd \<Rightarrow> u8 list option) \<Rightarrow> ('w \<Rightarrow> usize \<Rightarrow> usize \<Rightarrow> fd \<Rightarrow> bool) \<Rightarrow> bool" where
  "shm_kernel sys contents mapped \<longleftrightarrow>
     (\<forall>name w fd w'. fd \<ge> 0 \<and>
        (sys_shm_open sys name w = (fd, w') \<or> sys_memfd_create sys name w = (fd, w')) \<longrightarrow>
        contents w' fd = Some []) \<and>
     (\<forall>name w r w'. sys_shm_unlink sys name w = (r, w') \<longrightarrow> contents w' = contents w) \<and>
     (\<forall>fd n w w' c. sys_ftruncate sys fd n w = (0, w') \<and> contents w fd = Some c \<longrightarrow>
        0 \<le> n \<and> contents w' fd = Some (take (nat n) c @ replicate (nat n - length c) 0)) \<and>
     (\<forall>fd w m size w' c. sys_fstat sys fd w = ((0, m, size), w') \<and> contents w fd = Some c \<longrightarrow>
        size = len_of c \<and> contents w' = contents w) \<and>
     (\<forall>n fd w a w'. sys_mmap sys n fd w = (Some a, w') \<longrightarrow>
        contents w' = contents w \<and> mapped w' a n fd) \<and>
     (\<forall>a n fd w c. mapped w a n fd \<and> contents w fd = Some c \<and> unat n \<le> length c \<longrightarrow>
        sys_peek sys a n w = take (unat n) c) \<and>
     (\<forall>a n fd w c bs. mapped w a n fd \<and> contents w fd = Some c \<and> length bs \<le> unat n \<longrightarrow>
        mapped (sys_poke sys a bs w) a n fd \<and>
        contents (sys_poke sys a bs w) fd = Some (bs @ drop (length bs) c)) \<and>
     (\<forall>fd w fd' w'. sys_dup sys fd w = (fd', w') \<and> fd' \<ge> 0 \<longrightarrow>
        contents w' fd' = contents w fd)"

lemma shm_kernelD:
  assumes "shm_kernel sys contents mapped"
  shows "sys_shm_open sys name w = (fd, w') \<Longrightarrow> fd \<ge> 0 \<Longrightarrow> contents w' fd = Some []"
    and "sys_memfd_create sys name w = (fd, w') \<Longrightarrow> fd \<ge> 0 \<Longrightarrow> contents w' fd = Some []"
    and "sys_shm_unlink sys name w = (r, w') \<Longrightarrow> contents w' = contents w"
    and "sys_ftruncate sys fd i w = (0, w') \<Longrightarrow> contents w fd = Some c \<Longrightarrow>
      0 \<le> i \<and> contents w' fd = Some (take (nat i) c @ replicate (nat i - length c) 0)"
    and "sys_fstat sys fd w = ((0, m, sz), w') \<Longrightarrow> contents w fd = Some c \<Longrightarrow>
      sz = len_of c \<and> contents w' = contents w"
    and "mapped w a n fd \<Longrightarrow> contents w fd = Some c \<Longrightarrow> unat n \<le> length c \<Longrightarrow>
      sys_peek sys a n w = take (unat n) c"
    and "mapped w a n fd \<Longrightarrow> contents w fd = Some c \<Longrightarrow> length bs \<le> unat n \<Longrightarrow>
      mapped (sys_poke sys a bs w) a n fd \<and>
      contents (sys_poke sys a bs w) fd = Some (bs @ drop (length bs) c)"
    and "sys_mmap sys n fd w = (Some a, w') \<Longrightarrow> contents w' = contents w \<and> mapped w' a n fd"
    and "sys_dup sys fd w = (fd', w') \<Longrightarrow> fd' \<ge> 0 \<Longrightarrow> contents w' fd' = contents w fd"
proof -
  note laws = assms [unfolded shm_kernel_def]
  note l1 = laws [THEN conjunct1, rule_format] and r1 = laws [THEN conjunct2]
  note l2 = r1 [THEN conjunct1, rule_format] and r2 = r1 [THEN conjunct2]
  note l3 = r2 [THEN conjunct1, rule_format] and r3 = r2 [THEN conjunct2]
  note l4 = r3 [THEN conjunct1, rule_format] and r4 = r3 [THEN conjunct2]
  note l5 = r4 [THEN conjunct1, rule_format] and r5 = r4 [THEN conjunct2]
  note l6 = r5 [THEN conjunct1, rule_format] and r6 = r5 [THEN conjunct2]
  note l7 = r6 [THEN conjunct1, rule_format] and l8 = r6 [THEN conjunct2, rule_format]
  show "sys_shm_open sys name w = (fd, w') \<Longrightarrow> fd \<ge> 0 \<Longrightarrow> contents w' fd = Some []"
    by (rule l1) blast
  show "sys_memfd_create sys name w = (fd, w') \<Longrightarrow> fd \<ge> 0 \<Longrightarrow> contents w' fd = Some []"
    by (rule l1) blast
  show "sys_shm_unlink sys name w = (r, w') \<Longrightarrow> contents w' = contents w"
    by (rule l2)
  show "sys_ftruncate sys fd i w = (0, w') \<Longrightarrow> contents w fd = Some c \<Longrightarrow>
      0 \<le> i \<and> contents w' fd = Some (take (nat i) c @ replicate (nat i - length c) 0)"
    by (rule l3) simp
  show "sys_fstat sys fd w = ((0, m, sz), w') \<Longrightarrow> contents w fd = Some c \<Longrightarrow>
      sz = len_of c \<and> contents w' = contents w"
    by (rule l4) simp
  show "sys_mmap sys n fd w = (Some a, w') \<Longrightarrow> contents w' = contents w \<and> mapped w' a n fd"
    by (rule l5)
  show "mapped w a n fd \<Longrightarrow> contents w fd = Some c \<Longrightarrow> unat n \<le> length c \<Longrightarrow>
      sys_peek sys a n w = take (unat n) c"
    by (rule l6) simp
  show "mapped w a n fd \<Longrightarrow> contents w fd = Some c \<Longrightarrow> length bs \<le> unat n \<Longrightarrow>
      mapped (sys_poke sys a bs w) a n fd \<and>
      contents (sys_poke sys a bs w) fd = Some (bs @ drop (length bs) c)"
    by (rule l7) simp
  show "sys_dup sys fd w = (fd', w') \<Longrightarrow> fd' \<ge> 0 \<Longrightarrow> contents w' fd' = contents w fd"
    by (rule l8) simp
qed

text \<open>A region that shows the bytes \<open>c\<close>.\<close>

definition shows_bytes ::
  "('w \<Rightarrow> fd \<Rightarrow> u8 list option) \<Rightarrow> ('w \<Rightarrow> usize \<Rightarrow> usize \<Rightarrow> fd \<Rightarrow> bool) \<Rightarrow> 'w
     \<Rightarrow> os_ipc_shared_memory \<Rightarrow> u8 list \<Rightarrow> bool" where
  "shows_bytes contents mapped w shm c \<longleftrightarrow>
     rust_len c \<and> shm_length shm = len_of c \<and> contents w (store_fd (shm_store shm)) = Some c \<and>
     (c \<noteq> [] \<longrightarrow> mapped w (shm_ptr shm) (len_of c) (store_fd (shm_store shm)))"

lemma len_of_0_iff:
  assumes "rust_len c"
  shows "len_of c = 0 \<longleftrightarrow> c = []"
proof
  assume "len_of c = 0"
  then have "unat (len_of c) = 0" by (simp only: unat_0)
  then show "c = []" using assms by simp
qed simp

lemma shm_deref_bytes:
  assumes "shm_kernel sys contents mapped" and "shows_bytes contents mapped w shm c"
  shows "shm_deref sys shm w = c"
proof (cases "c = []")
  case True
  then show ?thesis using assms(2) by (simp add: shm_deref_def shows_bytes_def)
next
  case False
  have s: "rust_len c" "shm_length shm = len_of c" "contents w (store_fd (shm_store shm)) = Some c"
      "mapped w (shm_ptr shm) (len_of c) (store_fd (shm_store shm))"
    using assms(2) False by (simp_all add: shows_bytes_def)
  have "sys_peek sys (shm_ptr shm) (len_of c) w = take (unat (len_of c)) c"
    using s(1) by (intro shm_kernelD(6) [OF assms(1) s(4,3)]) simp
  then show ?thesis
    using s False by (simp add: shm_deref_def len_of_0_iff)
qed

lemma sint_usize_of: "n < 2 ^ 63 \<Longrightarrow> sint (usize_of n) = int n"
  by (simp add: signed_of_nat signed_take_bit_eq_if_positive take_bit_eq_mod bit_iff_odd
    unat_of_nat flip: of_nat_mod)

lemma backing_store_new_contents:
  assumes "shm_kernel sys contents mapped" and "n < 2 ^ 63"
    and "backing_store_new sys memfd ids (usize_of n) w = Some (Ok (ids', store), w')"
  shows "contents w' (store_fd store) = Some (replicate n 0)"
    and "ids' = ids\<lparr>shm_count := shm_count ids + 1\<rparr>"
proof -
  let ?name = "shm_name (shm_count ids) (shm_pid ids) (shm_secs ids) (shm_nanos ids)"
  obtain fd where fd: "(if memfd then create_shmem_memfd sys ?name (usize_of n)
        else create_shmem sys ?name (usize_of n)) w = Some (Ok fd, w')"
    and store: "store = store_from_fd fd" and ids: "ids' = ids\<lparr>shm_count := shm_count ids + 1\<rparr>"
    using assms(3) by (auto simp: backing_store_new_def Let_def io_inv split: if_splits)
  have "\<exists>w1. contents w1 fd = Some [] \<and> sys_ftruncate sys fd (int n) w1 = (0, w')"
  proof (cases memfd)
    case True
    then have "\<exists>w1. sys_memfd_create sys ?name w = (fd, w1) \<and> fd \<ge> 0 \<and>
        sys_ftruncate sys fd (int n) w1 = (0, w')"
      using fd
      by (auto simp: create_shmem_memfd_def io_inv sint_usize_of [OF assms(2)] split: if_splits)
    then show ?thesis using shm_kernelD(2) [OF assms(1)] by blast
  next
    case False
    then have "\<exists>w1 w2. sys_shm_open sys ?name w = (fd, w1) \<and> fd \<ge> 0 \<and>
        sys_shm_unlink sys ?name w1 = (0, w2) \<and> sys_ftruncate sys fd (int n) w2 = (0, w')"
      using fd
      by (auto simp: create_shmem_def io_inv sint_usize_of [OF assms(2)] split: if_splits)
    then obtain w1 w2 where "contents w1 fd = Some []" "contents w2 = contents w1"
      "sys_ftruncate sys fd (int n) w2 = (0, w')"
      using shm_kernelD(1) [OF assms(1)] shm_kernelD(3) [OF assms(1)] by blast
    then show ?thesis by (intro exI [of _ w2]) simp
  qed
  then have "contents w' fd = Some (replicate n 0)"
    using shm_kernelD(4) [OF assms(1), of fd "int n" _ w' "[]"] by auto
  then show "contents w' (store_fd store) = Some (replicate n 0)"
    by (simp add: store store_from_fd_def)
  show "ids' = ids\<lparr>shm_count := shm_count ids + 1\<rparr>" by (fact ids)
qed

lemma mapped_store_shows:
  assumes "shm_kernel sys contents mapped" and "rust_len c"
    and "contents w (store_fd store) = Some c" and "given = None \<or> given = Some (len_of c)"
    and "mapped_store sys store given w = Some (Ok (a, n), w')"
  shows "shows_bytes contents mapped w' (shm_from_raw_parts a n store) c" and "n = len_of c"
proof -
  have "map_file sys store given w = Some (Ok (a, n), w')"
    using assms(5) by (auto simp: mapped_store_def io_inv drop_backing_store_def split: if_splits)
  moreover have "\<exists>w1. contents w1 = contents w \<and>
      map_region sys (store_fd store) (len_of c) w1 = Some (Ok (a, n), w')"
    if given: "given = None" and run: "map_file sys store given w = Some (Ok (a, n), w')"
  proof -
    obtain r m sz w1 where stat: "sys_fstat sys (store_fd store) w = ((r, m, sz), w1)"
      by (metis prod.exhaust_sel)
    then have call: "(call (sys_fstat sys (store_fd store)) :: (_, _, unix_error) io) w =
        Some (Ok (r, m, sz), w1)"
      by (rule call_run)
    then have "r = 0"
      using run given by (cases "r = 0") (simp_all add: map_file_def)
    then have "sz = len_of c" "contents w1 = contents w"
      using shm_kernelD(5) [OF assms(1) _ assms(3)] stat by blast+
    then show ?thesis
      using run given call \<open>r = 0\<close> by (intro exI [of _ w1]) (simp add: map_file_def)
  qed
  moreover have "given = Some (len_of c) \<Longrightarrow>
      map_file sys store given w = map_region sys (store_fd store) (len_of c) w"
    by (simp add: map_file_def)
  ultimately obtain w1 where w1: "contents w1 = contents w"
    and run: "map_region sys (store_fd store) (len_of c) w1 = Some (Ok (a, n), w')"
    using assms(4) by metis
  show n: "n = len_of c"
    using run by (auto simp: map_region_def io_inv split: if_splits option.splits)
  have "c \<noteq> [] \<longrightarrow> sys_mmap sys (len_of c) (store_fd store) w1 = (Some a, w')"
    using run by (auto simp: map_region_def io_inv len_of_0_iff [OF assms(2)] split: if_splits option.splits)
  moreover have "c = [] \<longrightarrow> w' = w1"
    using run by (auto simp: map_region_def)
  ultimately have "contents w' = contents w1" "c \<noteq> [] \<longrightarrow> mapped w' a (len_of c) (store_fd store)"
    using shm_kernelD(8) [OF assms(1)] by blast+
  then show "shows_bytes contents mapped w' (shm_from_raw_parts a n store) c"
    using assms(2,3) w1 n by (simp add: shows_bytes_def shm_from_raw_parts_def)
qed

lemma fill_region_shows:
  assumes "shm_kernel sys contents mapped" and "length bytes = length c"
    and "shows_bytes contents mapped w (shm_from_raw_parts a (len_of c) store) c"
    and "fill_region sys a bytes w = Some (r, w')"
  shows "shows_bytes contents mapped w' (shm_from_raw_parts a (len_of bytes) store) bytes"
proof (cases "bytes = []")
  case True
  then show ?thesis using assms by (simp add: fill_region_def)
next
  case False
  have s: "rust_len c" "contents w (store_fd store) = Some c"
      "mapped w a (len_of c) (store_fd store)"
    using assms(2,3) False by (auto simp: shows_bytes_def shm_from_raw_parts_def)
  have "length bytes \<le> unat (len_of c)"
    using s(1) assms(2) by simp
  note poke = shm_kernelD(7) [OF assms(1) s(3,2) this]
  then show ?thesis
    using s(1) assms(2,4) False
    by (auto simp: fill_region_def shows_bytes_def shm_from_raw_parts_def)
qed

text \<open>The common body of \<open>from_byte\<close> and \<open>from_bytes\<close>.\<close>

lemma new_region_shows:
  assumes "shm_kernel sys contents mapped" and "rust_len bytes"
    and "backing_store_new sys memfd ids (len_of bytes) w = Some (Ok (ids', store), w1)"
    and "mapped_store sys store (Some (len_of bytes)) w1 = Some (Ok (a, n), w2)"
    and "fill_region sys a bytes w2 = Some (r, w')"
  shows "shows_bytes contents mapped w' (shm_from_raw_parts a (len_of bytes) store) bytes"
proof -
  let ?c = "replicate (length bytes) (0 :: u8)"
  have c: "contents w1 (store_fd store) = Some ?c"
    by (rule backing_store_new_contents(1) [OF assms(1,2,3)])
  have "rust_len ?c" using assms(2) by simp
  from mapped_store_shows [OF assms(1) this c _ assms(4)]
  have "shows_bytes contents mapped w2 (shm_from_raw_parts a (len_of ?c) store) ?c"
    by auto
  from fill_region_shows [OF assms(1) _ this assms(5)] show ?thesis by simp
qed

lemma shm_from_bytes_shows:
  assumes "shm_kernel sys contents mapped" and "rust_len bytes"
    and "shm_from_bytes sys memfd ids bytes w = Some (Ok (ids', shm), w')"
  shows "shows_bytes contents mapped w' shm bytes"
  using assms(3) unfolding shm_from_bytes_def io_bind_eq_Some
  by (auto simp: io_bind_eq_Some split: prod.splits
    intro: new_region_shows [OF assms(1,2)])

lemma shm_from_byte_shows:
  assumes "shm_kernel sys contents mapped" and "unat n < 2 ^ 63"
    and "shm_from_byte sys memfd ids byte n w = Some (Ok (ids', shm), w')"
  shows "shows_bytes contents mapped w' shm (replicate (unat n) byte)"
proof -
  let ?b = "replicate (unat n) byte"
  have n: "n = len_of ?b" and len: "rust_len ?b" using assms(2) by simp_all
  have "shm_from_bytes sys memfd ids ?b w = Some (Ok (ids', shm), w')"
    using assms(3) by (simp add: shm_from_byte_def shm_from_bytes_def)
  then show ?thesis by (rule shm_from_bytes_shows [OF assms(1) len])
qed

lemma shm_from_fd_shows:
  assumes "shm_kernel sys contents mapped" and "rust_len c" and "contents w fd = Some c"
    and "shm_from_fd sys fd w = Some (Ok shm, w')"
  shows "shows_bytes contents mapped w' shm c" and "store_fd (shm_store shm) = fd"
proof -
  have c: "contents w (store_fd (store_from_fd fd)) = Some c"
    using assms(3) by (simp add: store_from_fd_def)
  obtain a n where run: "mapped_store sys (store_from_fd fd) None w = Some (Ok (a, n), w')"
    and shm: "shm = shm_from_raw_parts a n (store_from_fd fd)"
    using assms(4) by (auto simp: shm_from_fd_def Let_def io_inv)
  show "shows_bytes contents mapped w' shm c"
    using mapped_store_shows(1) [OF assms(1,2) c _ run] by (simp add: shm)
  show "store_fd (shm_store shm) = fd"
    by (simp add: shm shm_from_raw_parts_def store_from_fd_def)
qed

lemma shm_clone_shows:
  assumes "shm_kernel sys contents mapped" and "shows_bytes contents mapped w shm c"
    and "shm_clone sys shm w = Some (Ok shm', w')" and "fst (sys_dup sys (store_fd (shm_store shm)) w) \<ge> 0"
  shows "shows_bytes contents mapped w' shm' c"
proof -
  have s: "rust_len c" "shm_length shm = len_of c" "contents w (store_fd (shm_store shm)) = Some c"
    using assms(2) by (simp_all add: shows_bytes_def)
  obtain fd w1 a n where dup: "sys_dup sys (store_fd (shm_store shm)) w = (fd, w1)"
    and run: "mapped_store sys (store_from_fd fd) (Some (len_of c)) w1 = Some (Ok (a, n), w')"
    and shm': "shm' = shm_from_raw_parts a (len_of c) (store_from_fd fd)"
    using assms(3) s(2) by (auto simp: shm_clone_def Let_def io_inv)
  have "contents w1 (store_fd (store_from_fd fd)) = Some c"
    using shm_kernelD(9) [OF assms(1) dup] dup assms(4) s(3) by (simp add: store_from_fd_def)
  from mapped_store_shows [OF assms(1) s(1) this _ run] show ?thesis
    by (simp add: shm')
qed

section \<open>The example kernel\<close>

definition k_contents :: "knl \<Rightarrow> fd \<Rightarrow> u8 list option" where
  "k_contents w fd = map_option (k_data w) (k_file w fd)"

definition k_mapped :: "knl \<Rightarrow> usize \<Rightarrow> usize \<Rightarrow> fd \<Rightarrow> bool" where
  "k_mapped w a n fd \<longleftrightarrow>
     (\<exists>i. k_file w fd = Some i \<and> i < 2 ^ 30 \<and> a = k_address i)"

lemma unat_k_address: "i < 2 ^ 30 \<Longrightarrow> unat (k_address i) = (i + 1) * 2 ^ 32"
  unfolding k_address_def by (rule unat_usize_of) simp

lemma k_inode_address: "i < 2 ^ 30 \<Longrightarrow> k_inode (k_address i) = i"
  by (simp add: k_inode_def unat_k_address)

lemma k_address_not_0: "i < 2 ^ 30 \<Longrightarrow> k_address i \<noteq> 0"
  using unat_k_address [of i] by auto

lemma k_shm_kernel: "shm_kernel k_sys k_contents k_mapped"
  unfolding shm_kernel_def
proof (intro conjI allI impI; (elim conjE)?)
  fix a n fd w c assume "k_mapped w a n fd" "k_contents w fd = Some c"
  then show "sys_peek k_sys a n w = take (unat n) c"
    by (auto simp: k_mapped_def k_contents_def k_sys_def k_peek_def k_inode_address)
next
  fix a n fd w c bs assume "k_mapped w a n fd" "k_contents w fd = Some c"
  then show "k_mapped (sys_poke k_sys a bs w) a n fd"
    and "k_contents (sys_poke k_sys a bs w) fd = Some (bs @ drop (length bs) c)"
    by (auto simp: k_mapped_def k_contents_def k_sys_def k_poke_def k_inode_address)
qed (auto simp: k_sys_def k_contents_def k_mapped_def k_new_file_def k_ftruncate_def k_fstat_def
  k_mmap_def k_dup_def k_fail_def Let_def fun_eq_iff split: option.splits if_splits)

text \<open>C20: The bytes of a new region are the bytes it was made from, and a second mapping of its
  descriptor, which is what the receiver of the region makes, shows the same bytes.\<close>

theorem shm_transfer_roundtrip:
  assumes "shm_kernel sys contents mapped" and "rust_len bytes"
    and "shm_from_bytes sys memfd ids bytes w = Some (Ok (ids', shm), w1)"
    and "shm_from_fd sys (store_fd (shm_store shm)) w1 = Some (Ok shm2, w2)"
  shows "shm_deref sys shm w1 = bytes \<and> shm_deref sys shm2 w2 = bytes"
proof
  note s = shm_from_bytes_shows [OF assms(1-3)]
  show "shm_deref sys shm w1 = bytes"
    by (rule shm_deref_bytes [OF assms(1) s])
  have "contents w1 (store_fd (shm_store shm)) = Some bytes"
    using s by (simp add: shows_bytes_def)
  from shm_from_fd_shows(1) [OF assms(1,2) this assms(4)] show "shm_deref sys shm2 w2 = bytes"
    by (rule shm_deref_bytes [OF assms(1)])
qed

definition example_ids :: shm_ids where
  "example_ids = \<lparr>shm_count = 0, shm_pid = 1, shm_secs = 2, shm_nanos = 3\<rparr>"

lemmas shm_defs =
  shm_from_bytes_def shm_from_byte_def shm_from_fd_def shm_clone_def backing_store_new_def
  create_shmem_def create_shmem_memfd_def mapped_store_def map_file_def map_region_def
  fill_region_def shm_from_raw_parts_def store_from_fd_def shm_deref_def

lemma k_shm_example:
  "shm_from_bytes k_sys False example_ids [1, 2, 3] (k_init 100) =
     Some (Ok (example_ids\<lparr>shm_count := 1\<rparr>,
       \<lparr>shm_ptr = k_address 0, shm_length = 3, shm_store = \<lparr>store_fd = 3\<rparr>\<rparr>),
       (k_init 100)\<lparr>k_next := 4, k_inodes := 1, k_file := (\<lambda>_. None)(3 := Some 0),
         k_data := (\<lambda>_. [])(0 := [1, 2, 3])\<rparr>)"
  by (simp add: shm_defs k_defs io_defs example_ids_def Let_def k_address_not_0 k_inode_address)

abbreviation example_world :: knl where
  "example_world \<equiv> (k_init 100)\<lparr>k_next := 4, k_inodes := 1, k_file := (\<lambda>_. None)(3 := Some 0),
     k_data := (\<lambda>_. [])(0 := [1, 2, 3])\<rparr>"

abbreviation example_region :: os_ipc_shared_memory where
  "example_region \<equiv> \<lparr>shm_ptr = k_address 0, shm_length = 3, shm_store = \<lparr>store_fd = 3\<rparr>\<rparr>"

lemma k_shm_map_example:
  "shm_from_fd k_sys (store_fd (shm_store example_region)) example_world = Some (Ok example_region, example_world)"
  by (simp add: shm_defs k_defs io_defs Let_def k_address_not_0)

theorem shm_transfer_roundtrip_witness:
  "shm_deref k_sys example_region example_world = [1, 2, 3]"
  using shm_transfer_roundtrip [OF k_shm_kernel _ k_shm_example k_shm_map_example] by simp

text \<open>A region filled with one byte and a clone of it compare equal, and both read as that byte
  repeated.\<close>

theorem shm_clone_equal:
  assumes "shm_kernel sys contents mapped" and "unat n < 2 ^ 63"
    and "shm_from_byte sys memfd ids byte n w = Some (Ok (ids', shm), w1)"
    and "fst (sys_dup sys (store_fd (shm_store shm)) w1) \<ge> 0"
    and "shm_clone sys shm w1 = Some (Ok shm2, w2)"
  shows "shm_deref sys shm w1 = replicate (unat n) byte \<and>
    shm_deref sys shm2 w2 = replicate (unat n) byte"
proof
  note s = shm_from_byte_shows [OF assms(1-3)]
  show "shm_deref sys shm w1 = replicate (unat n) byte"
    by (rule shm_deref_bytes [OF assms(1) s])
  show "shm_deref sys shm2 w2 = replicate (unat n) byte"
    by (rule shm_deref_bytes [OF assms(1) shm_clone_shows [OF assms(1) s assms(5,4)]])
qed

abbreviation byte_world :: knl where
  "byte_world \<equiv> (k_init 100)\<lparr>k_next := 4, k_inodes := 1, k_file := (\<lambda>_. None)(3 := Some 0),
     k_data := (\<lambda>_. [])(0 := replicate 2 9)\<rparr>"

lemma k_shm_byte_example:
  "shm_from_byte k_sys True example_ids 9 2 (k_init 100) =
     Some (Ok (example_ids\<lparr>shm_count := 1\<rparr>,
       \<lparr>shm_ptr = k_address 0, shm_length = 2, shm_store = \<lparr>store_fd = 3\<rparr>\<rparr>), byte_world)"
  by (simp add: shm_defs k_defs io_defs example_ids_def Let_def k_address_not_0 k_inode_address)

lemma k_shm_clone_example:
  "shm_clone k_sys \<lparr>shm_ptr = k_address 0, shm_length = 2, shm_store = \<lparr>store_fd = 3\<rparr>\<rparr> byte_world =
     Some (Ok \<lparr>shm_ptr = k_address 0, shm_length = 2, shm_store = \<lparr>store_fd = 4\<rparr>\<rparr>,
       byte_world\<lparr>k_next := 5, k_file := (\<lambda>_. None)(3 := Some 0, 4 := Some 0)\<rparr>)"
  by (simp add: shm_defs k_defs io_defs Let_def k_address_not_0)

theorem shm_clone_equal_witness:
  "shm_deref k_sys \<lparr>shm_ptr = k_address 0, shm_length = 2, shm_store = \<lparr>store_fd = 4\<rparr>\<rparr>
     (byte_world\<lparr>k_next := 5, k_file := (\<lambda>_. None)(3 := Some 0, 4 := Some 0)\<rparr>) =
   replicate (unat (2 :: usize)) 9"
  by (rule shm_clone_equal [THEN conjunct2,
      OF k_shm_kernel _ k_shm_byte_example _ k_shm_clone_example])
    (simp_all add: k_defs)

end
