(* ===== verification/Unix_Send.thy ===== *)
theory Unix_Send
  imports Unix_Shmem
begin

text \<open>
  \<open>OsIpcSender::send\<close> of the Unix back end: a message that fits goes out as one packet; a larger
  one is cut into fragments, the first on the channel itself and the rest on a dedicated socket
  whose receiving end travels with the first. Every helper nested in \<open>send\<close> is a definition here.
\<close>

section \<open>Channel ends\<close>

record os_ipc_sender = tx_fd :: fd
record os_ipc_receiver = rx_fd :: fd

definition sender_from_fd :: "fd \<Rightarrow> os_ipc_sender" where
  "sender_from_fd fd = \<lparr>tx_fd = fd\<rparr>"

definition receiver_from_fd :: "fd \<Rightarrow> os_ipc_receiver" where
  "receiver_from_fd fd = \<lparr>rx_fd = fd\<rparr>"

definition channel :: "'w unix_sys \<Rightarrow> ('w, os_ipc_sender \<times> os_ipc_receiver, unix_error) io" where
  "channel sys =
     io_bind (call (sys_socketpair sys)) (\<lambda>(r, fd0, fd1).
       if r \<ge> 0 then io_return (sender_from_fd fd0, receiver_from_fd fd1)
       else unix_last sys)"

text \<open>\<open>Drop\<close> of a receiver and of the last handle of a shared descriptor.\<close>

definition drop_receiver :: "'w unix_sys \<Rightarrow> bool \<Rightarrow> os_ipc_receiver \<Rightarrow> ('w, unit, unix_error) io" where
  "drop_receiver sys panicking r =
     (if rx_fd r \<ge> 0 then close_checked sys panicking (rx_fd r) else io_return ())"

definition drop_shared_fd :: "'w unix_sys \<Rightarrow> bool \<Rightarrow> fd \<Rightarrow> ('w, unit, unix_error) io" where
  "drop_shared_fd sys panicking fd = close_checked sys panicking fd"

section \<open>Sending one fragment\<close>

definition send_first_fragment ::
  "'w unix_sys \<Rightarrow> fd \<Rightarrow> fd list \<Rightarrow> u8 list \<Rightarrow> usize \<Rightarrow> ('w, unit, unix_error) io" where
  "send_first_fragment sys sender_fd fds data_buffer len =
     (let cmsg_length = len_of fds * sizeof_c_int in
      io_bind
        (if cmsg_length > 0 then
           io_bind (io_lift (CMSG_SPACE cmsg_length)) (\<lambda>space.
           io_bind (call (sys_malloc sys space)) (\<lambda>allocated.
           if \<not> allocated then unix_last sys
           else
             io_bind (io_lift (CMSG_LEN cmsg_length)) (\<lambda>l.
             io_return
               (Some \<lparr>cmsg_len = l, cmsg_level = SOL_SOCKET, cmsg_type = SCM_RIGHTS,
                      cmsg_fds = fds\<rparr>, space))))
         else io_return (None, 0))
        (\<lambda>(cmsg_buffer, cmsg_space).
           io_bind
             (call_blocking (sys_sendmsg sys sender_fd
                (new_msghdr [le_bytes 8 (unat len), data_buffer] cmsg_buffer cmsg_space)))
             (\<lambda>result. if result > 0 then io_return () else unix_last sys)))"

definition send_followup_fragment ::
  "'w unix_sys \<Rightarrow> fd \<Rightarrow> u8 list \<Rightarrow> ('w, unit, unix_error) io" where
  "send_followup_fragment sys sender_fd data_buffer =
     io_bind (call_blocking (sys_send sys sender_fd data_buffer))
       (\<lambda>result. if result > 0 then io_return () else unix_last sys)"

section \<open>The fragment loop\<close>

text \<open>The end of the fragment that starts at \<open>byte_position\<close>.\<close>

definition end_byte_position :: "u8 list \<Rightarrow> usize \<Rightarrow> usize \<Rightarrow> (usize, 'e) res" where
  "end_byte_position data byte_position sendbuf_size =
     (if byte_position = 0 then first_fragment_size sendbuf_size
      else
        res_bind (fragment_size sendbuf_size) (\<lambda>n.
        res_bind (checked_add byte_position n) (\<lambda>e.
        Ok (min e (len_of data)))))"

text \<open>
  The first fragment carries the header and the descriptors on the channel itself; every later one
  goes out bare on the dedicated socket.
\<close>

definition transmit ::
  "'w unix_sys \<Rightarrow> fd \<Rightarrow> fd \<Rightarrow> fd list \<Rightarrow> u8 list \<Rightarrow> usize \<Rightarrow> u8 list
     \<Rightarrow> ('w, unit, unix_error) io" where
  "transmit sys self_fd dedicated_tx fds data byte_position buffer =
     (if byte_position = 0 then send_first_fragment sys self_fd fds buffer (len_of data)
      else send_followup_fragment sys dedicated_tx buffer)"

text \<open>One fragment: \<open>None\<close> when it was sent, \<open>Some error\<close> otherwise, with the fragment's end.\<close>

definition send_fragment ::
  "'w unix_sys \<Rightarrow> fd \<Rightarrow> fd \<Rightarrow> fd list \<Rightarrow> u8 list \<Rightarrow> usize \<Rightarrow> usize
     \<Rightarrow> ('w, unix_error option \<times> usize, unix_error) io" where
  "send_fragment sys self_fd dedicated_tx fds data byte_position sendbuf_size =
     io_bind (io_lift (end_byte_position data byte_position sendbuf_size)) (\<lambda>e.
     io_bind (io_lift (slice_of data byte_position e)) (\<lambda>buffer.
     io_match (transmit sys self_fd dedicated_tx fds data byte_position buffer)
       (\<lambda>_. io_return (None, e))
       (\<lambda>error. io_return (Some error, e))))"

text \<open>Where the loop goes on: past the fragment, or again with a smaller buffer.\<close>

definition next_attempt ::
  "usize \<Rightarrow> usize \<Rightarrow> unix_error option \<times> usize \<Rightarrow> (usize \<times> usize, unix_error) res" where
  "next_attempt byte_position sendbuf_size sent =
     (case sent of
        (None, e) \<Rightarrow> Ok (e, sendbuf_size)
      | (Some error, e) \<Rightarrow>
          if error = Errno ENOBUFS then
            res_bind (checked_sub e byte_position) (\<lambda>size.
            case downsize sendbuf_size size of
              Some smaller \<Rightarrow> Ok (byte_position, smaller)
            | None \<Rightarrow> Err error)
          else Err error)"

definition send_step ::
  "'w unix_sys \<Rightarrow> fd \<Rightarrow> fd \<Rightarrow> fd list \<Rightarrow> u8 list \<Rightarrow> usize \<Rightarrow> usize
     \<Rightarrow> ('w, usize \<times> usize, unix_error) io" where
  "send_step sys self_fd dedicated_tx fds data byte_position sendbuf_size =
     io_bind (send_fragment sys self_fd dedicated_tx fds data byte_position sendbuf_size)
       (\<lambda>sent. io_lift (next_attempt byte_position sendbuf_size sent))"

partial_function (option) send_loop ::
  "'w unix_sys \<Rightarrow> fd \<Rightarrow> fd \<Rightarrow> fd list \<Rightarrow> u8 list \<Rightarrow> usize \<Rightarrow> usize
     \<Rightarrow> 'w \<Rightarrow> ((unit, unix_error) res \<times> 'w) option" where
  "send_loop sys self_fd dedicated_tx fds data byte_position sendbuf_size w =
     (if byte_position < len_of data then
        Option.bind
          (send_step sys self_fd dedicated_tx fds data byte_position sendbuf_size w)
          (\<lambda>(r, w').
             case r of
               Ok next \<Rightarrow>
                 send_loop sys self_fd dedicated_tx fds data (fst next) (snd next) w'
             | Err e \<Rightarrow> Some (Err e, w')
             | Panic \<Rightarrow> Some (Panic, w'))
      else Some (Ok (), w))"

section \<open>The whole send\<close>

definition send_fragmented ::
  "'w unix_sys \<Rightarrow> fd \<Rightarrow> fd list \<Rightarrow> u8 list \<Rightarrow> usize \<Rightarrow> ('w, unit, unix_error) io" where
  "send_fragmented sys self_fd fds data sendbuf_size =
     io_bind (channel sys) (\<lambda>(dedicated_tx, dedicated_rx).
       io_finally
         (send_loop sys self_fd (tx_fd dedicated_tx) (fds @ [rx_fd dedicated_rx]) data 0
            sendbuf_size)
         (\<lambda>panicking.
            io_finally (drop_receiver sys panicking dedicated_rx) (\<lambda>unwinding.
            drop_shared_fd sys (panicking \<or> unwinding) (tx_fd dedicated_tx))))"

definition send ::
  "'w unix_sys \<Rightarrow> usize \<Rightarrow> fd \<Rightarrow> u8 list \<Rightarrow> fd list \<Rightarrow> ('w, unit, unix_error) io" where
  "send sys system_sendbuf_size self_fd data fds =
     io_bind (io_lift (get_max_fragment_size system_sendbuf_size)) (\<lambda>max_fragment.
       if len_of data \<le> max_fragment then
         io_match (send_first_fragment sys self_fd fds data (len_of data))
           (\<lambda>_. io_return ())
           (\<lambda>error.
              case (if error = Errno ENOBUFS then downsize system_sendbuf_size (len_of data)
                    else None) of
                Some sendbuf_size \<Rightarrow> send_fragmented sys self_fd fds data sendbuf_size
              | None \<Rightarrow> io_throw error)
       else send_fragmented sys self_fd fds data system_sendbuf_size)"

definition os_ipc_channel_fd :: "(os_ipc_sender, os_ipc_receiver) os_ipc_channel \<Rightarrow> fd" where
  "os_ipc_channel_fd ch = (case ch of Sender tx \<Rightarrow> tx_fd tx | Receiver rx \<Rightarrow> rx_fd rx)"

definition message_fds ::
  "(os_ipc_sender, os_ipc_receiver) os_ipc_channel list \<Rightarrow> os_ipc_shared_memory list \<Rightarrow> fd list" where
  "message_fds channels shms =
     map os_ipc_channel_fd channels @ map (\<lambda>shm. store_fd (shm_store shm)) shms"

text \<open>
  The method itself: it owns the channels and regions it sends and drops them at the end, the regions
  first. \<open>shared tx\<close> tells whether another handle of the sender's \<open>Arc\<close> is still alive then.
\<close>

definition drop_channel ::
  "'w unix_sys \<Rightarrow> (os_ipc_sender \<Rightarrow> bool) \<Rightarrow> bool
     \<Rightarrow> (os_ipc_sender, os_ipc_receiver) os_ipc_channel \<Rightarrow> ('w, unit, unix_error) io" where
  "drop_channel sys shared panicking ch =
     (case ch of
        Sender tx \<Rightarrow> if shared tx then io_return () else drop_shared_fd sys panicking (tx_fd tx)
      | Receiver rx \<Rightarrow> drop_receiver sys panicking rx)"

definition os_send ::
  "'w unix_sys \<Rightarrow> usize \<Rightarrow> (os_ipc_sender \<Rightarrow> bool) \<Rightarrow> os_ipc_sender \<Rightarrow> u8 list
     \<Rightarrow> (os_ipc_sender, os_ipc_receiver) os_ipc_channel list \<Rightarrow> os_ipc_shared_memory list
     \<Rightarrow> ('w, unit, unix_error) io" where
  "os_send sys system_sendbuf_size shared self data channels shms =
     io_finally (send sys system_sendbuf_size (tx_fd self) data (message_fds channels shms))
       (\<lambda>panicking.
          io_finally (drop_all (drop_shm sys) panicking shms)
            (\<lambda>unwinding. drop_all (drop_channel sys shared) (panicking \<or> unwinding) channels))"

section \<open>Where a fragment ends\<close>

text \<open>
  The loop's invariant: the buffer stays large enough for the sizes not to underflow, the position
  stays inside the message, and the first fragment is always shorter than the message, so a
  fragmented message is recognisable by its header.
\<close>

definition loop_inv :: "u8 list \<Rightarrow> usize \<Rightarrow> usize \<Rightarrow> bool" where
  "loop_inv data bp sb \<longleftrightarrow>
     rust_len data \<and> 48 \<le> unat sb \<and> unat sb < 2 ^ 63 \<and> unat bp \<le> length data \<and>
     (bp = 0 \<longrightarrow> (unat sb - 40) div 8 * 8 < length data)"

definition frag_end :: "u8 list \<Rightarrow> usize \<Rightarrow> usize \<Rightarrow> usize" where
  "frag_end data bp sb =
     (if bp = 0 then (sb - 40) AND - 8 else min (bp + (sb - 32)) (len_of data))"

definition frag :: "u8 list \<Rightarrow> usize \<Rightarrow> usize \<Rightarrow> u8 list" where
  "frag data bp sb = take (unat (frag_end data bp sb) - unat bp) (drop (unat bp) data)"

lemma unat_0_iff_usize: "unat (x :: usize) = 0 \<longleftrightarrow> x = 0"
  by (rule unat_eq_zero)

lemma frag_end_Ok:
  assumes "loop_inv data bp sb"
  shows "end_byte_position data bp sb = Ok (frag_end data bp sb)"
    and "unat (frag_end data bp sb) =
      (if bp = 0 then (unat sb - 40) div 8 * 8
       else min (unat bp + (unat sb - 32)) (length data))"
proof -
  have sb: "40 \<le> unat sb" "32 \<le> unat sb" "unat sb < 2 ^ 63" and bp: "unat bp < 2 ^ 63"
    and len: "rust_len data"
    using assms by (auto simp: loop_inv_def)
  have f: "unat (sb - 32) = unat sb - 32"
    using fragment_size_eq(2) [OF sb(2)] .
  have no_overflow: "unat bp + unat (sb - 32) < 2 ^ 64"
    using sb(3) bp f by simp
  note add = checked_add_nat [OF no_overflow]
  show "end_byte_position data bp sb = Ok (frag_end data bp sb)"
    using sb
    by (simp add: end_byte_position_def frag_end_def first_fragment_size_eq fragment_size_eq add(1))
  show "unat (frag_end data bp sb) =
      (if bp = 0 then (unat sb - 40) div 8 * 8
       else min (unat bp + (unat sb - 32)) (length data))"
    using sb len add(2) f
    by (auto simp: frag_end_def first_fragment_size_eq min_def word_le_nat_alt)
qed

lemma frag_end_bounds:
  assumes "loop_inv data bp sb" and "bp < len_of data"
  shows "unat bp < unat (frag_end data bp sb)" and "unat (frag_end data bp sb) \<le> length data"
    and "unat (frag_end data bp sb) - unat bp \<le> unat sb - 32"
    and "bp = 0 \<Longrightarrow> unat (frag_end data bp sb) < length data"
proof -
  have inv: "rust_len data" "48 \<le> unat sb" "unat bp \<le> length data"
      "bp = 0 \<longrightarrow> (unat sb - 40) div 8 * 8 < length data"
    using assms(1) by (auto simp: loop_inv_def)
  have bp: "unat bp < length data"
    using assms(2) inv(1) by (simp add: word_less_nat_alt)
  have pos: "0 < (unat sb - 40) div 8 * 8" and le: "(unat sb - 40) div 8 * 8 \<le> unat sb - 32"
    using inv(2) by auto
  note e = frag_end_Ok(2) [OF assms(1)]
  show "unat bp < unat (frag_end data bp sb)" "unat (frag_end data bp sb) \<le> length data"
    and "unat (frag_end data bp sb) - unat bp \<le> unat sb - 32"
    using e inv bp pos le by (cases "bp = 0"; simp add: min_def split: if_splits; linarith)+
  show "bp = 0 \<Longrightarrow> unat (frag_end data bp sb) < length data"
    using e inv(4) by simp
qed

lemma frag_slice:
  assumes "loop_inv data bp sb" and "bp < len_of data"
  shows "slice_of data bp (frag_end data bp sb) = Ok (frag data bp sb)"
    and "0 < length (frag data bp sb)" and "length (frag data bp sb) \<le> unat sb - 32"
    and "frag data bp sb @ drop (unat (frag_end data bp sb)) data = drop (unat bp) data"
proof -
  note b = frag_end_bounds [OF assms]
  have len: "rust_len data"
    using assms(1) by (simp add: loop_inv_def)
  show "slice_of data bp (frag_end data bp sb) = Ok (frag data bp sb)"
    using b(1,2) len by (simp add: slice_of_def frag_def word_le_nat_alt)
  show "0 < length (frag data bp sb)" and "length (frag data bp sb) \<le> unat sb - 32"
    using b by (auto simp: frag_def)
  have "drop (unat (frag_end data bp sb)) data =
      drop (unat (frag_end data bp sb) - unat bp) (drop (unat bp) data)"
    using b(1) by simp
  then show "frag data bp sb @ drop (unat (frag_end data bp sb)) data = drop (unat bp) data"
    unfolding frag_def by (simp only: append_take_drop_id)
qed

section \<open>One step of the loop\<close>

lemma next_attempt_not_Panic:
  assumes "loop_inv data bp sb" and "bp < len_of data"
  shows "next_attempt bp sb (q, frag_end data bp sb) \<noteq> Panic"
  using frag_end_bounds(1) [OF assms]
  by (auto simp: next_attempt_def checked_sub_def word_less_nat_alt split: option.split)

lemma next_attempt_None [simp]: "next_attempt bp sb (None, e) = Ok (e, sb)"
  by (simp add: next_attempt_def)

lemma next_attempt_Some_Ok:
  "next_attempt bp sb (Some error, e) = Ok (bp', sb') \<longleftrightarrow>
     error = Errno ENOBUFS \<and> bp \<le> e \<and> bp' = bp \<and> downsize sb (e - bp) = Some sb'"
  by (auto simp: next_attempt_def checked_sub_def split: option.splits if_splits)

lemma next_attempt_Ok:
  assumes inv: "loop_inv data bp sb" and less: "bp < len_of data"
    and ok: "next_attempt bp sb (q, frag_end data bp sb) = Ok (bp', sb')"
  shows "loop_inv data bp' sb'"
    and "q = None \<and> bp' = frag_end data bp sb \<and> sb' = sb \<or>
      q = Some (Errno ENOBUFS) \<and> bp' = bp \<and> unat sb' < unat sb"
proof -
  note b = frag_end_bounds [OF inv less]
  have "q = None \<and> bp' = frag_end data bp sb \<and> sb' = sb \<or>
      q = Some (Errno ENOBUFS) \<and> bp' = bp \<and> downsize sb (frag_end data bp sb - bp) = Some sb'"
    using ok by (cases q) (auto simp: next_attempt_Some_Ok)
  then consider (sent) "q = None" "bp' = frag_end data bp sb" "sb' = sb"
    | (retry) "q = Some (Errno ENOBUFS)" "bp' = bp"
        "downsize sb (frag_end data bp sb - bp) = Some sb'"
    by blast
  then have "loop_inv data bp' sb' \<and> (q = None \<and> bp' = frag_end data bp sb \<and> sb' = sb \<or>
      q = Some (Errno ENOBUFS) \<and> bp' = bp \<and> unat sb' < unat sb)"
  proof cases
    case sent
    moreover have "frag_end data bp sb \<noteq> 0"
      using b(1) by auto
    ultimately show ?thesis
      using inv b(2) by (simp add: loop_inv_def)
  next
    case retry
    have size: "unat (frag_end data bp sb - bp) = unat (frag_end data bp sb) - unat bp"
      using b(1) by (simp add: unat_sub word_le_nat_alt)
    then have "frag_end data bp sb - bp \<le> sb"
      using b(3) by (simp add: word_le_nat_alt)
    note d = downsize_Some [OF retry(3) this]
    have "(unat sb' - 40) div 8 * 8 \<le> unat sb'"
      by (rule order_trans [OF div_times_less_eq_dividend]) simp
    then have "bp = 0 \<Longrightarrow> (unat sb' - 40) div 8 * 8 < length data"
      using d(1) b(4) by simp
    then show ?thesis
      using retry inv d by (auto simp: loop_inv_def)
  qed
  then show "loop_inv data bp' sb'" and "q = None \<and> bp' = frag_end data bp sb \<and> sb' = sb \<or>
      q = Some (Errno ENOBUFS) \<and> bp' = bp \<and> unat sb' < unat sb"
    by auto
qed

lemma send_step_eq:
  assumes "loop_inv data bp sb" and "bp < len_of data"
  shows "send_step sys self_fd tx fds data bp sb w =
    Option.bind (transmit sys self_fd tx fds data bp (frag data bp sb) w) (\<lambda>(q, w').
      Some (case q of
          Ok _ \<Rightarrow> Ok (frag_end data bp sb, sb)
        | Err error \<Rightarrow> next_attempt bp sb (Some error, frag_end data bp sb)
        | Panic \<Rightarrow> Panic, w'))"
proof (cases "transmit sys self_fd tx fds data bp (frag data bp sb) w")
  case None
  then show ?thesis
    by (simp add: send_step_def send_fragment_def io_match_def io_bind_def
      frag_slice(1) [OF assms] frag_end_Ok(1) [OF assms(1)])
next
  case (Some out)
  obtain q w' where "out = (q, w')" by (cases out)
  with Some show ?thesis
    by (cases q) (simp_all add: send_step_def send_fragment_def next_attempt_def
      frag_slice(1) [OF assms] frag_end_Ok(1) [OF assms(1)])
qed

lemma send_step_Ok:
  assumes "loop_inv data bp sb" and "bp < len_of data"
    and "send_step sys self_fd tx fds data bp sb w = Some (Ok (bp', sb'), w')"
  shows "loop_inv data bp' sb'"
    and "transmit sys self_fd tx fds data bp (frag data bp sb) w = Some (Ok (), w') \<and>
           bp' = frag_end data bp sb \<and> sb' = sb \<or>
         transmit sys self_fd tx fds data bp (frag data bp sb) w =
           Some (Err (Errno ENOBUFS), w') \<and> bp' = bp \<and> unat sb' < unat sb"
proof -
  obtain q where q: "transmit sys self_fd tx fds data bp (frag data bp sb) w = Some (q, w')"
    and out: "(case q of Ok _ \<Rightarrow> Ok (frag_end data bp sb, sb)
        | Err error \<Rightarrow> next_attempt bp sb (Some error, frag_end data bp sb)
        | Panic \<Rightarrow> Panic) = Ok (bp', sb')"
    using assms(3) unfolding send_step_eq [OF assms(1,2)]
    by (auto simp: bind_eq_Some_conv)
  show "loop_inv data bp' sb'"
  proof (cases q)
    case (Ok u)
    then have "next_attempt bp sb (None, frag_end data bp sb) = Ok (bp', sb')"
      using out by (auto simp: next_attempt_def)
    then show ?thesis by (rule next_attempt_Ok(1) [OF assms(1,2)])
  next
    case (Err e)
    then have "next_attempt bp sb (Some e, frag_end data bp sb) = Ok (bp', sb')"
      using out by simp
    then show ?thesis by (rule next_attempt_Ok(1) [OF assms(1,2)])
  qed (use out in simp)
  show "transmit sys self_fd tx fds data bp (frag data bp sb) w = Some (Ok (), w') \<and>
           bp' = frag_end data bp sb \<and> sb' = sb \<or>
         transmit sys self_fd tx fds data bp (frag data bp sb) w =
           Some (Err (Errno ENOBUFS), w') \<and> bp' = bp \<and> unat sb' < unat sb"
  proof (cases q)
    case (Err e)
    then have "next_attempt bp sb (Some e, frag_end data bp sb) = Ok (bp', sb')"
      using out by simp
    from next_attempt_Ok(2) [OF assms(1,2) this] show ?thesis
      using q Err by auto
  qed (use q out in auto)
qed

text \<open>
  Every step that goes on either moves the position forward or shrinks the buffer, so the loop's
  states are well-founded whatever the kernel answers.
\<close>

lemma send_loop_induct [consumes 1, case_names finished step]:
  assumes "loop_inv data bp sb"
    and "\<And>bp sb w. loop_inv data bp sb \<Longrightarrow> \<not> bp < len_of data \<Longrightarrow> P bp sb w"
    and "\<And>bp sb w. loop_inv data bp sb \<Longrightarrow> bp < len_of data \<Longrightarrow>
      (\<And>bp' sb' w'. send_step sys self_fd tx fds data bp sb w = Some (Ok (bp', sb'), w') \<Longrightarrow>
         P bp' sb' w') \<Longrightarrow> P bp sb w"
  shows "P bp sb w"
proof -
  let ?R = "less_than <*lex*> less_than"
  have "\<forall>bp sb w. m = (length data - unat bp, unat sb) \<longrightarrow> loop_inv data bp sb \<longrightarrow> P bp sb w" for m
  proof (induction m rule: wf_induct_rule [OF wf_lex_prod [OF wf_less_than wf_less_than]])
    case (1 m)
    show ?case
    proof (intro allI impI)
      fix bp sb w
      assume m: "m = (length data - unat bp, unat sb)" and inv: "loop_inv data bp sb"
      show "P bp sb w"
      proof (cases "bp < len_of data")
        case False
        then show ?thesis using assms(2) inv by blast
      next
        case True
        show ?thesis
        proof (rule assms(3) [OF inv True])
          fix bp' sb' w'
          assume "send_step sys self_fd tx fds data bp sb w = Some (Ok (bp', sb'), w')"
          note next' = send_step_Ok [OF inv True this]
          have "((length data - unat bp', unat sb'), m) \<in> ?R"
            using next'(2) frag_end_bounds(1,2) [OF inv True] m by auto
          then show "P bp' sb' w'"
            using "1" next'(1) by blast
        qed
      qed
    qed
  qed
  then show ?thesis using assms(1) by blast
qed

section \<open>Termination\<close>

text \<open>The kernel returns from every send, with whatever result.\<close>

definition sends_return :: "'w unix_sys \<Rightarrow> bool" where
  "sends_return sys \<longleftrightarrow>
     (\<forall>fd m w. sys_sendmsg sys fd m w \<noteq> None) \<and> (\<forall>fd d w. sys_send sys fd d w \<noteq> None)"

lemma send_first_fragment_returns:
  "sends_return sys \<Longrightarrow> returns (send_first_fragment sys fd fds buf len) w"
  by (auto simp: send_first_fragment_def sends_return_def Let_def io_none split: prod.split)

lemma transmit_returns:
  "sends_return sys \<Longrightarrow> returns (transmit sys self_fd tx fds data bp buf) w"
  by (auto simp: transmit_def send_first_fragment_returns send_followup_fragment_def
    sends_return_def io_none)

lemma send_loop_returns:
  assumes "loop_inv data bp sb" and "sends_return sys"
  shows "returns (send_loop sys self_fd tx fds data bp sb) w"
  using assms(1)
proof (induction bp sb w rule: send_loop_induct [where sys = sys and self_fd = self_fd and tx = tx and fds = fds])
  case (finished bp sb w)
  then show ?case unfolding returns_def by (subst send_loop.simps) simp
next
  case (step bp sb w)
  obtain q w' where t: "transmit sys self_fd tx fds data bp (frag data bp sb) w = Some (q, w')"
    using transmit_returns [OF assms(2)] unfolding returns_iff by blast
  then obtain r where "send_step sys self_fd tx fds data bp sb w = Some (r, w')"
    by (simp add: send_step_eq [OF step(1,2)])
  then show ?case
    using step unfolding returns_def by (subst send_loop.simps) (cases r, auto)
qed

section \<open>What reaches the sockets\<close>

text \<open>
  \<open>sent w fd\<close> is the sequence of packets the kernel has accepted on the socket \<open>fd\<close>. Documented
  behaviour of \<open>sendmsg\<close> and \<open>send\<close> on a \<open>SOCK_SEQPACKET\<close> socket: a positive result means
  that the gathered bytes went out as one record with the descriptors of the control message,
  anything else that nothing was sent. \<open>malloc\<close>, \<open>close\<close> and \<open>munmap\<close> send nothing.
\<close>

definition seqpacket_sends :: "'w unix_sys \<Rightarrow> ('w \<Rightarrow> fd \<Rightarrow> packet list) \<Rightarrow> bool" where
  "seqpacket_sends sys sent \<longleftrightarrow>
     (\<forall>fd m w r w'. sys_sendmsg sys fd m w = Some (r, w') \<longrightarrow>
        sent w' = (if r > 0 then (sent w)(fd := sent w fd @
          [(concat (msg_iov m), case msg_control m of None \<Rightarrow> [] | Some c \<Rightarrow> cmsg_fds c)])
          else sent w)) \<and>
     (\<forall>fd d w r w'. sys_send sys fd d w = Some (r, w') \<longrightarrow>
        sent w' = (if r > 0 then (sent w)(fd := sent w fd @ [(d, [])]) else sent w)) \<and>
     (\<forall>n w r w'. sys_malloc sys n w = (r, w') \<longrightarrow> sent w' = sent w) \<and>
     (\<forall>fd w r w'. sys_close sys fd w = (r, w') \<longrightarrow> sent w' = sent w) \<and>
     (\<forall>a n w r w'. sys_munmap sys a n w = (r, w') \<longrightarrow> sent w' = sent w)"

abbreviation header :: "u8 list \<Rightarrow> u8 list" where
  "header data \<equiv> le_bytes 8 (length data)"

lemma seqpacket_sendsD:
  assumes "seqpacket_sends sys sent"
  shows "sys_sendmsg sys fd m w = Some (r, w') \<Longrightarrow> sent w' =
      (if r > 0 then (sent w)(fd := sent w fd @
        [(concat (msg_iov m), case msg_control m of None \<Rightarrow> [] | Some c \<Rightarrow> cmsg_fds c)])
       else sent w)"
    and "sys_send sys fd d w = Some (r, w') \<Longrightarrow> sent w' =
      (if r > 0 then (sent w)(fd := sent w fd @ [(d, [])]) else sent w)"
    and "sys_malloc sys n w = (b, w') \<Longrightarrow> sent w' = sent w"
    and "sys_close sys fd w = (r, w') \<Longrightarrow> sent w' = sent w"
    and "sys_munmap sys a len w = (r, w') \<Longrightarrow> sent w' = sent w"
proof -
  note laws = assms [unfolded seqpacket_sends_def]
  note r1 = laws [THEN conjunct2] and r2 = laws [THEN conjunct2, THEN conjunct2]
  note r3 = r2 [THEN conjunct2]
  show "sys_sendmsg sys fd m w = Some (r, w') \<Longrightarrow> sent w' =
      (if r > 0 then (sent w)(fd := sent w fd @
        [(concat (msg_iov m), case msg_control m of None \<Rightarrow> [] | Some c \<Rightarrow> cmsg_fds c)])
       else sent w)"
    by (rule laws [THEN conjunct1, rule_format])
  show "sys_send sys fd d w = Some (r, w') \<Longrightarrow> sent w' =
      (if r > 0 then (sent w)(fd := sent w fd @ [(d, [])]) else sent w)"
    by (rule r1 [THEN conjunct1, rule_format])
  show "sys_malloc sys n w = (b, w') \<Longrightarrow> sent w' = sent w"
    by (rule r2 [THEN conjunct1, rule_format])
  show "sys_close sys fd w = (r, w') \<Longrightarrow> sent w' = sent w"
    by (rule r3 [THEN conjunct1, rule_format])
  show "sys_munmap sys a len w = (r, w') \<Longrightarrow> sent w' = sent w"
    by (rule r3 [THEN conjunct2, rule_format])
qed

lemma cmsg_length_bounds:
  assumes "4 * length fds < 2 ^ 63"
  shows "0 < (len_of fds * 4 :: usize) \<longleftrightarrow> fds \<noteq> []"
    and "unat (len_of fds * 4 :: usize) = 4 * length fds"
    and "unat (len_of fds * 4 :: usize) + 32 < 2 ^ 64"
proof -
  show u: "unat (len_of fds * 4 :: usize) = 4 * length fds"
    using assms by (simp add: unat_word_ariths)
  show "0 < (len_of fds * 4 :: usize) \<longleftrightarrow> fds \<noteq> []"
    and "unat (len_of fds * 4 :: usize) + 32 < 2 ^ 64"
    using assms by (auto simp: word_less_nat_alt u)
qed

text \<open>A run of \<open>send_first_fragment\<close> is one \<open>sendmsg\<close>, unless the control buffer is not allocated.\<close>

lemma send_first_fragment_run:
  assumes "4 * length fds < 2 ^ 63"
    and "send_first_fragment sys fd fds buf len w = Some (r, w')"
  shows "(\<exists>n. sys_malloc sys n w = (False, w') \<and> (\<exists>e. r = Err e)) \<or>
    (\<exists>w1 m i. (w1 = w \<or> (\<exists>n. sys_malloc sys n w = (True, w1))) \<and>
       sys_sendmsg sys fd m w1 = Some (i, w') \<and>
       msg_iov m = [le_bytes 8 (unat len), buf] \<and>
       (case msg_control m of None \<Rightarrow> [] | Some c \<Rightarrow> cmsg_fds c) = fds \<and>
       r = (if i > 0 then Ok () else Err (Errno (sys_errno sys w'))))"
proof (cases "fds = []")
  case True
  then show ?thesis
    using assms(2)
    by (force simp: send_first_fragment_def Let_def new_msghdr_def io_inv split: if_splits)
next
  case False
  have pos: "0 < (len_of fds * 4 :: usize)" and "unat (len_of fds * 4 :: usize) + 32 < 2 ^ 64"
    using cmsg_length_bounds [OF assms(1)] False by auto
  then have "unat (len_of fds * 4 :: usize) + 16 < 2 ^ 64" by simp
  note sizes = CMSG_SPACE_eq(1) [OF \<open>unat (len_of fds * 4) + 32 < 2 ^ 64\<close>] CMSG_LEN_eq(1) [OF this]
  obtain b w1 where malloc: "sys_malloc sys (((len_of fds * 4 + 7) AND - 8) + 16) w = (b, w1)"
    by fastforce
  show ?thesis
  proof (cases b)
    case True
    let ?m = "\<lparr>msg_iov = [le_bytes 8 (unat len), buf],
      msg_control = Some \<lparr>cmsg_len = 16 + len_of fds * 4, cmsg_level = SOL_SOCKET,
        cmsg_type = SCM_RIGHTS, cmsg_fds = fds\<rparr>,
      msg_controllen = ((len_of fds * 4 + 7) AND - 8) + 16\<rparr>"
    have "\<exists>i. sys_sendmsg sys fd ?m w1 = Some (i, w') \<and>
        r = (if i > 0 then Ok () else Err (Errno (sys_errno sys w')))"
      using assms(2) pos malloc True
      by (auto simp: send_first_fragment_def Let_def new_msghdr_def io_inv sizes call_def
        split: if_splits)
    then show ?thesis
      using malloc True by (intro disjI2 exI [of _ w1] exI [of _ ?m]) auto
  next
    case False
    then show ?thesis
      using assms(2) pos malloc
      by (auto simp: send_first_fragment_def Let_def io_inv sizes split: if_splits)
  qed
qed

lemma send_first_fragment_sent:
  assumes "seqpacket_sends sys sent" and "4 * length fds < 2 ^ 63"
    and "send_first_fragment sys fd fds buf len w = Some (r, w')"
  shows "r = Ok () \<Longrightarrow>
      sent w' = (sent w)(fd := sent w fd @ [(le_bytes 8 (unat len) @ buf, fds)])"
    and "r \<noteq> Ok () \<Longrightarrow> sent w' = sent w"
    and "r \<noteq> Panic"
  using send_first_fragment_run [OF assms(2,3)]
  by (auto simp: seqpacket_sendsD [OF assms(1)] split: if_splits)

lemma transmit_sent:
  assumes "seqpacket_sends sys sent" and "4 * length fds < 2 ^ 63" and "rust_len data"
    and "transmit sys self_fd tx fds data bp buf w = Some (r, w')"
  shows "sent w' =
      (if r = Ok () then
         if bp = 0 then (sent w)(self_fd := sent w self_fd @ [(header data @ buf, fds)])
         else (sent w)(tx := sent w tx @ [(buf, [])])
       else sent w)"
    and "r \<noteq> Panic"
  using assms send_first_fragment_sent [OF assms(1,2), of self_fd buf "len_of data" w r w']
  by (auto simp: transmit_def send_followup_fragment_def io_inv seqpacket_sendsD [OF assms(1)]
    split: if_splits)

text \<open>The fragments after the first: a cut of the rest into non-empty packets that fit.\<close>

definition chunks_ok :: "nat \<Rightarrow> u8 list \<Rightarrow> u8 list list \<Rightarrow> bool" where
  "chunks_ok limit rest chunks \<longleftrightarrow>
     concat chunks = rest \<and> (\<forall>c\<in>set chunks. c \<noteq> [] \<and> length c \<le> limit)"

abbreviation bare :: "u8 list list \<Rightarrow> packet list" where
  "bare chunks \<equiv> map (\<lambda>c. (c, [])) chunks"

lemma chunks_ok_mono: "chunks_ok a rest chunks \<Longrightarrow> a \<le> b \<Longrightarrow> chunks_ok b rest chunks"
  by (auto simp: chunks_ok_def)

lemma chunks_ok_Cons:
  "chunks_ok limit rest chunks \<Longrightarrow> c \<noteq> [] \<Longrightarrow> length c \<le> limit \<Longrightarrow>
     chunks_ok limit (c @ rest) (c # chunks)"
  by (auto simp: chunks_ok_def)

lemma send_loop_Ok:
  assumes "loop_inv data bp sb" and "bp < len_of data"
    and "send_loop sys self_fd tx fds data bp sb w = Some (Ok (), w')"
  obtains bp' sb' w1 where
    "send_step sys self_fd tx fds data bp sb w = Some (Ok (bp', sb'), w1)"
    "send_loop sys self_fd tx fds data bp' sb' w1 = Some (Ok (), w')"
proof -
  have "Option.bind (send_step sys self_fd tx fds data bp sb w)
      (\<lambda>(r, w'). case r of
          Ok next \<Rightarrow> send_loop sys self_fd tx fds data (fst next) (snd next) w'
        | Err e \<Rightarrow> Some (Err e, w') | Panic \<Rightarrow> Some (Panic, w')) = Some (Ok (), w')"
    using assms(3) send_loop.simps [of sys self_fd tx fds data bp sb w] assms(2) by simp
  then have "\<exists>bp' sb' w1.
      send_step sys self_fd tx fds data bp sb w = Some (Ok (bp', sb'), w1) \<and>
      send_loop sys self_fd tx fds data bp' sb' w1 = Some (Ok (), w')"
    by (cases "send_step sys self_fd tx fds data bp sb w") (auto split: res.split_asm)
  then show thesis using that by blast
qed

lemma send_loop_rest_sent:
  assumes "loop_inv data bp sb" and "bp \<noteq> 0"
    and "seqpacket_sends sys sent" and "4 * length fds < 2 ^ 63"
    and "send_loop sys self_fd tx fds data bp sb w = Some (Ok (), w')"
  shows "\<exists>chunks. chunks_ok (unat sb - 32) (drop (unat bp) data) chunks \<and>
    sent w' = (sent w)(tx := sent w tx @ bare chunks)"
  using assms(1,2,5)
proof (induction bp sb w rule: send_loop_induct [where sys = sys and self_fd = self_fd and tx = tx and fds = fds])
  case (finished bp sb w)
  then have "w' = w" by (subst (asm) send_loop.simps) simp
  moreover have "length data \<le> unat bp"
    using finished by (simp add: loop_inv_def word_less_nat_alt)
  ultimately show ?case
    by (intro exI [of _ "[]"]) (simp add: chunks_ok_def)
next
  case (step bp sb w)
  have len: "rust_len data"
    using step(1) by (simp add: loop_inv_def)
  from step obtain bp' sb' w1 where
      s: "send_step sys self_fd tx fds data bp sb w = Some (Ok (bp', sb'), w1)"
    and l: "send_loop sys self_fd tx fds data bp' sb' w1 = Some (Ok (), w')"
    by (elim send_loop_Ok [OF step(1,2), rotated])
  note next' = send_step_Ok [OF step(1,2) s]
  note f = frag_slice [OF step(1,2)]
  from next'(2) show ?case
  proof (elim disjE conjE)
    assume t: "transmit sys self_fd tx fds data bp (frag data bp sb) w = Some (Ok (), w1)"
      and n: "bp' = frag_end data bp sb" "sb' = sb"
    have "bp' \<noteq> 0"
      using frag_end_bounds(1) [OF step(1,2)] n by auto
    then obtain chunks where c: "chunks_ok (unat sb - 32) (drop (unat bp') data) chunks"
      and w': "sent w' = (sent w1)(tx := sent w1 tx @ bare chunks)"
      using step(3) [OF s _ l] unfolding n by blast
    have "sent w1 = (sent w)(tx := sent w tx @ [(frag data bp sb, [])])"
      using transmit_sent(1) [OF assms(3,4) len t] step(4) by simp
    moreover have "chunks_ok (unat sb - 32) (drop (unat bp) data) (frag data bp sb # chunks)"
      using chunks_ok_Cons [OF c, of "frag data bp sb"] f(2,3,4) n by auto
    ultimately show ?thesis
      using w' by (intro exI [of _ "frag data bp sb # chunks"]) auto
  next
    assume t: "transmit sys self_fd tx fds data bp (frag data bp sb) w =
        Some (Err (Errno ENOBUFS), w1)"
      and n: "bp' = bp" "unat sb' < unat sb"
    have "sent w1 = sent w"
      using transmit_sent(1) [OF assms(3,4) len t] by simp
    moreover obtain chunks where c: "chunks_ok (unat sb' - 32) (drop (unat bp) data) chunks"
      and w': "sent w' = (sent w1)(tx := sent w1 tx @ bare chunks)"
      using step(3) [OF s _ l] step(4) unfolding n by blast
    moreover have "chunks_ok (unat sb - 32) (drop (unat bp) data) chunks"
      by (rule chunks_ok_mono [OF c]) (use n(2) in simp)
    ultimately show ?thesis by auto
  qed
qed

lemma send_loop_sent:
  assumes "loop_inv data 0 sb" and "self_fd \<noteq> tx"
    and "seqpacket_sends sys sent" and "4 * length fds < 2 ^ 63"
    and "send_loop sys self_fd tx fds data 0 sb w = Some (Ok (), w')"
  shows "\<exists>n chunks. 0 < n \<and> n < length data \<and> n \<le> (unat sb - 40) div 8 * 8 \<and>
    chunks_ok (unat sb - 32) (drop n data) chunks \<and>
    sent w' = (sent w)(self_fd := sent w self_fd @ [(header data @ take n data, fds)],
      tx := sent w tx @ bare chunks)"
proof -
  have "bp = 0 \<longrightarrow> send_loop sys self_fd tx fds data bp sb w = Some (Ok (), w') \<longrightarrow>
    (\<exists>n chunks. 0 < n \<and> n < length data \<and> n \<le> (unat sb - 40) div 8 * 8 \<and>
      chunks_ok (unat sb - 32) (drop n data) chunks \<and>
      sent w' = (sent w)(self_fd := sent w self_fd @ [(header data @ take n data, fds)],
        tx := sent w tx @ bare chunks))" if "loop_inv data bp sb" for bp
    using that
  proof (induction bp sb w rule: send_loop_induct [where sys = sys and self_fd = self_fd and tx = tx and fds = fds])
    case (finished bp sb w)
    then show ?case
      by (auto simp: loop_inv_def word_less_nat_alt)
  next
    case (step bp sb w)
    have len: "rust_len data"
      using step(1) by (simp add: loop_inv_def)
    show ?case
    proof (intro impI)
      assume z: "bp = 0" and ok: "send_loop sys self_fd tx fds data bp sb w = Some (Ok (), w')"
      from send_loop_Ok [OF step(1,2) ok] obtain bp' sb' w1 where
          s: "send_step sys self_fd tx fds data bp sb w = Some (Ok (bp', sb'), w1)"
        and l: "send_loop sys self_fd tx fds data bp' sb' w1 = Some (Ok (), w')" .
      note next' = send_step_Ok [OF step(1,2) s]
      note b = frag_end_bounds [OF step(1,2)]
      from next'(2) show "\<exists>n chunks. 0 < n \<and> n < length data \<and> n \<le> (unat sb - 40) div 8 * 8 \<and>
          chunks_ok (unat sb - 32) (drop n data) chunks \<and>
          sent w' = (sent w)(self_fd := sent w self_fd @ [(header data @ take n data, fds)],
            tx := sent w tx @ bare chunks)"
      proof (elim disjE conjE)
        assume t: "transmit sys self_fd tx fds data bp (frag data bp sb) w = Some (Ok (), w1)"
          and n: "bp' = frag_end data bp sb" "sb' = sb"
        have "bp' \<noteq> 0"
          using b(1) n by auto
        from send_loop_rest_sent [OF next'(1) this assms(3,4) l] obtain chunks where
            c: "chunks_ok (unat sb - 32) (drop (unat bp') data) chunks"
          and w': "sent w' = (sent w1)(tx := sent w1 tx @ bare chunks)"
          using n by auto
        have "sent w1 = (sent w)(self_fd := sent w self_fd @ [(header data @ take (unat bp') data, fds)])"
          using transmit_sent(1) [OF assms(3,4) len t] z n by (simp add: frag_def)
        then show ?thesis
          using c w' b z n assms(2) frag_end_Ok(2) [OF step(1)]
          by (intro exI [of _ "unat bp'"] exI [of _ chunks]) auto
      next
        assume t: "transmit sys self_fd tx fds data bp (frag data bp sb) w =
            Some (Err (Errno ENOBUFS), w1)"
          and n: "bp' = bp" "unat sb' < unat sb"
        have "sent w1 = sent w"
          using transmit_sent(1) [OF assms(3,4) len t] by simp
        moreover have "(unat sb' - 40) div 8 * 8 \<le> (unat sb - 40) div 8 * 8"
          using n(2) by (simp add: div_le_mono)
        ultimately show ?thesis
          using step(3) [OF s] z l n by (fastforce intro: chunks_ok_mono)
      qed
    qed
  qed
  then show ?thesis using assms by blast
qed

section \<open>The whole send\<close>

text \<open>A buffer size the kernel can report: room for the header and one aligned word of payload.\<close>

abbreviation sendbuf_ok :: "usize \<Rightarrow> bool" where
  "sendbuf_ok ssb \<equiv> 48 \<le> unat ssb \<and> unat ssb < 2 ^ 63"

abbreviation max_fragment :: "usize \<Rightarrow> nat" where
  "max_fragment ssb \<equiv> (unat ssb - 40) div 8 * 8"

lemma get_max_fragment_size_eq:
  assumes "sendbuf_ok ssb"
  shows "get_max_fragment_size ssb = Ok ((ssb - 40) AND - 8)"
    and "unat ((ssb - 40) AND - 8) = max_fragment ssb"
  using assms by (simp_all add: get_max_fragment_size_def first_fragment_size_eq)

lemma len_le_max_fragment:
  assumes "sendbuf_ok ssb" and "rust_len data"
  shows "len_of data \<le> (ssb - 40) AND - 8 \<longleftrightarrow> length data \<le> max_fragment ssb"
  using assms by (simp add: word_le_nat_alt get_max_fragment_size_eq(2))

lemma downsize_starts_loop:
  assumes "sendbuf_ok ssb" and "rust_len data" and "length data \<le> max_fragment ssb"
    and "downsize ssb (len_of data) = Some sb"
  shows "loop_inv data 0 sb" and "unat sb < unat ssb"
proof -
  have "max_fragment ssb \<le> unat ssb"
    by (rule order_trans [OF div_times_less_eq_dividend]) simp
  then have le: "len_of data \<le> ssb"
    using assms(2,3) by (simp add: word_le_nat_alt)
  note d = downsize_Some [OF assms(4) le]
  have "(unat sb - 40) div 8 * 8 \<le> unat sb"
    by (rule order_trans [OF div_times_less_eq_dividend]) simp
  then show "loop_inv data 0 sb" and "unat sb < unat ssb"
    using d assms by (auto simp: loop_inv_def)
qed

text \<open>
  The two ways through \<open>send\<close>: one packet on the channel, or the fragment loop with a buffer at most
  the system's.
\<close>

lemma send_run:
  assumes "sendbuf_ok ssb" and "rust_len data" and "send sys ssb self_fd data fds w = Some (r, w')"
  shows "length data \<le> max_fragment ssb \<and>
      send_first_fragment sys self_fd fds data (len_of data) w = Some (r, w') \<or>
    (\<exists>sb w1. loop_inv data 0 sb \<and> unat sb \<le> unat ssb \<and>
      (w1 = w \<or> send_first_fragment sys self_fd fds data (len_of data) w =
         Some (Err (Errno ENOBUFS), w1)) \<and>
      send_fragmented sys self_fd fds data sb w1 = Some (r, w'))"
proof (cases "length data \<le> max_fragment ssb")
  case False
  then have "loop_inv data 0 ssb"
    using assms(1,2) by (simp add: loop_inv_def)
  moreover have "send_fragmented sys self_fd fds data ssb w = Some (r, w')"
    using assms(3) False
    by (simp add: send_def get_max_fragment_size_eq(1) [OF assms(1)]
      len_le_max_fragment [OF assms(1,2)])
  ultimately show ?thesis by blast
next
  case True
  then have run: "io_match (send_first_fragment sys self_fd fds data (len_of data))
      (\<lambda>_. io_return ())
      (\<lambda>error. case (if error = Errno ENOBUFS then downsize ssb (len_of data) else None) of
          Some sb \<Rightarrow> send_fragmented sys self_fd fds data sb | None \<Rightarrow> io_throw error) w =
      Some (r, w')"
    using assms(3)
    by (simp add: send_def get_max_fragment_size_eq(1) [OF assms(1)]
      len_le_max_fragment [OF assms(1,2)])
  then consider "send_first_fragment sys self_fd fds data (len_of data) w = Some (r, w')"
    | sb w1 where "downsize ssb (len_of data) = Some sb"
        "send_first_fragment sys self_fd fds data (len_of data) w =
           Some (Err (Errno ENOBUFS), w1)"
        "send_fragmented sys self_fd fds data sb w1 = Some (r, w')"
    by (auto simp: io_inv split: if_splits option.splits)
  then show ?thesis
  proof cases
    case 1
    then show ?thesis using True by simp
  next
    case 2
    then show ?thesis
      using downsize_starts_loop [OF assms(1,2) True 2(1)] by (auto intro: less_imp_le)
  qed
qed

text \<open>
  Documented behaviour of \<open>socketpair\<close>: the two ends are new descriptors of this process with nothing
  sent on them yet. \<open>open_fds\<close> is the set of descriptors in use; sending and allocating do not
  change it.
\<close>

definition socketpair_fresh ::
  "'w unix_sys \<Rightarrow> ('w \<Rightarrow> fd \<Rightarrow> packet list) \<Rightarrow> ('w \<Rightarrow> fd set) \<Rightarrow> bool" where
  "socketpair_fresh sys sent open_fds \<longleftrightarrow>
     (\<forall>w r a b w'. sys_socketpair sys w = ((r, a, b), w') \<and> r \<ge> 0 \<longrightarrow>
        a \<notin> open_fds w \<and> b \<notin> open_fds w \<and> a \<noteq> b \<and> sent w' = (sent w)(a := [], b := [])) \<and>
     (\<forall>fd m w r w'. sys_sendmsg sys fd m w = Some (r, w') \<longrightarrow> open_fds w' = open_fds w) \<and>
     (\<forall>n w r w'. sys_malloc sys n w = (r, w') \<longrightarrow> open_fds w' = open_fds w)"

text \<open>
  What a message looks like on the wire: one packet with the header and all of the data, or a first
  packet with the header, a proper non-empty prefix and one more descriptor, and the rest as bare
  packets that fit the receiver's reads.
\<close>

definition is_transfer ::
  "usize \<Rightarrow> u8 list \<Rightarrow> fd list \<Rightarrow> packet \<Rightarrow> fd option \<Rightarrow> u8 list list \<Rightarrow> bool" where
  "is_transfer ssb data fds pkt rx chunks \<longleftrightarrow>
     (case rx of
        None \<Rightarrow> length data \<le> max_fragment ssb \<and> pkt = (header data @ data, fds) \<and> chunks = []
      | Some fd \<Rightarrow> \<exists>n. 0 < n \<and> n < length data \<and> n \<le> max_fragment ssb \<and>
          pkt = (header data @ take n data, fds @ [fd]) \<and>
          chunks_ok (unat ssb - 32) (drop n data) chunks)"

text \<open>The clean-up of a fragmented send: two \<open>close\<close> calls, which return and send nothing.\<close>

lemma drops_return [io_none]:
  "returns (drop_receiver sys p r) w" "returns (drop_shared_fd sys p fd) w"
  by (simp_all add: drop_receiver_def drop_shared_fd_def io_none)

lemma drops_sent:
  assumes "seqpacket_sends sys sent"
  shows "drop_receiver sys p r w = Some (q, w') \<Longrightarrow> sent w' = sent w"
    and "drop_shared_fd sys p fd w = Some (q, w') \<Longrightarrow> sent w' = sent w"
  by (auto simp: drop_receiver_def drop_shared_fd_def close_checked_run
    seqpacket_sendsD(4) [OF assms] split: if_splits)

definition closes_succeed :: "'w unix_sys \<Rightarrow> bool" where
  "closes_succeed sys \<longleftrightarrow> (\<forall>fd w. fst (sys_close sys fd w) = 0)"

lemma drops_not_Panic:
  assumes "closes_succeed sys"
  shows "drop_receiver sys p r w = Some (q, w') \<Longrightarrow> q \<noteq> Panic"
    and "drop_shared_fd sys p fd w = Some (q, w') \<Longrightarrow> q \<noteq> Panic"
proof -
  have "close_checked sys p fd w = Some (q, w') \<Longrightarrow> q \<noteq> Panic" for fd
    using assms unfolding closes_succeed_def
    by (metis close_checked_run fst_conv res.distinct(3))
  then show "drop_receiver sys p r w = Some (q, w') \<Longrightarrow> q \<noteq> Panic"
    and "drop_shared_fd sys p fd w = Some (q, w') \<Longrightarrow> q \<noteq> Panic"
    by (auto simp: drop_receiver_def drop_shared_fd_def split: if_splits)
qed

text \<open>A run of \<open>send_fragmented\<close> is a socket pair, the loop, and the two drops.\<close>

lemma send_fragmented_run:
  assumes "send_fragmented sys self_fd fds data sb w = Some (r, w')"
  obtains (failed) i tx rx w1 where "sys_socketpair sys w = ((i, tx, rx), w1)" "i < 0"
      "r = Err (Errno (sys_errno sys w1))"
  | (looped) i tx rx w1 p w2 q1 w3 q2 where "sys_socketpair sys w = ((i, tx, rx), w1)" "i \<ge> 0"
      "send_loop sys self_fd tx (fds @ [rx]) data 0 sb w1 = Some (p, w2)"
      "drop_receiver sys (p = Panic) (receiver_from_fd rx) w2 = Some (q1, w3)"
      "drop_shared_fd sys (p = Panic \<or> q1 = Panic) tx w3 = Some (q2, w')"
      "r = (if q1 = Panic \<or> q2 = Panic then Panic else p)"
proof -
  obtain i tx rx w1 where fields: "sys_socketpair sys w = ((i, tx, rx), w1)"
    by (metis prod.exhaust_sel)
  show thesis
  proof (cases "i \<ge> 0")
    case True
    have "channel sys w = Some (Ok (sender_from_fd tx, receiver_from_fd rx), w1)"
      using fields True by (simp add: channel_def call_def)
    then have "io_finally (send_loop sys self_fd tx (fds @ [rx]) data 0 sb)
        (\<lambda>p. io_finally (drop_receiver sys p (receiver_from_fd rx))
          (\<lambda>u. drop_shared_fd sys (p \<or> u) tx)) w1 = Some (r, w')"
      using assms by (simp add: send_fragmented_def sender_from_fd_def receiver_from_fd_def)
    then obtain p w2 q where l: "send_loop sys self_fd tx (fds @ [rx]) data 0 sb w1 = Some (p, w2)"
      and d: "io_finally (drop_receiver sys (p = Panic) (receiver_from_fd rx))
          (\<lambda>u. drop_shared_fd sys (p = Panic \<or> u) tx) w2 = Some (q, w')"
      and r: "r = (if q = Panic then Panic else p)"
      unfolding io_finally_eq_Some [of "send_loop sys self_fd tx (fds @ [rx]) data 0 sb"] by blast
    from d obtain q1 w3 q2 where
        "drop_receiver sys (p = Panic) (receiver_from_fd rx) w2 = Some (q1, w3)"
        "drop_shared_fd sys (p = Panic \<or> q1 = Panic) tx w3 = Some (q2, w')"
        "q = (if q2 = Panic then Panic else q1)"
      unfolding io_finally_eq_Some by blast
    then show thesis
      using r by (intro looped [OF fields True l]) auto
  next
    case False
    then have "channel sys w = Some (Err (Errno (sys_errno sys w1)), w1)"
      using fields by (simp add: channel_def call_def unix_last_def)
    then show thesis
      using failed [OF fields] False assms by (auto simp: send_fragmented_def)
  qed
qed

lemma send_first_fragment_not_Panic:
  assumes "4 * length fds < 2 ^ 63"
    and "send_first_fragment sys fd fds buf len w = Some (r, w')"
  shows "r \<noteq> Panic"
proof -
  have "(\<exists>e. r = Err e) \<or> (\<exists>i :: int. r = (if i > 0 then Ok () else Err (Errno (sys_errno sys w'))))"
    using send_first_fragment_run [OF assms] by blast
  then show ?thesis by (auto split: if_splits)
qed

lemma transmit_not_Panic:
  assumes "4 * length fds < 2 ^ 63"
    and "transmit sys self_fd tx fds data bp buf w = Some (r, w')"
  shows "r \<noteq> Panic"
  using assms send_first_fragment_not_Panic [OF assms(1), of sys self_fd buf "len_of data" w r w']
  by (auto simp: transmit_def send_followup_fragment_def io_inv split: if_splits)

lemma send_loop_not_Panic:
  assumes "loop_inv data bp sb" and "4 * length fds < 2 ^ 63"
    and "send_loop sys self_fd tx fds data bp sb w = Some (r, w')"
  shows "r \<noteq> Panic"
  using assms(1,3)
proof (induction bp sb w rule: send_loop_induct [where sys = sys and self_fd = self_fd and tx = tx and fds = fds])
  case (finished bp sb w)
  then show ?case by (subst (asm) send_loop.simps) auto
next
  case (step bp sb w)
  obtain q w1 where s: "send_step sys self_fd tx fds data bp sb w = Some (q, w1)"
    and rest: "(case q of
        Ok next \<Rightarrow> send_loop sys self_fd tx fds data (fst next) (snd next) w1
      | Err e \<Rightarrow> Some (Err e, w1) | Panic \<Rightarrow> Some (Panic, w1)) = Some (r, w')"
    using step(4) send_loop.simps [of sys self_fd tx fds data bp sb w] step(2)
    by (auto simp: bind_eq_Some_conv)
  show ?case
  proof (cases q)
    case (Ok go)
    then show ?thesis
      using step(3) [of "fst go" "snd go" w1] s rest by simp
  next
    case Panic
    then obtain a where t: "transmit sys self_fd tx fds data bp (frag data bp sb) w = Some (a, w1)"
      and "(case a of Ok _ \<Rightarrow> Ok (frag_end data bp sb, sb)
        | Err error \<Rightarrow> next_attempt bp sb (Some error, frag_end data bp sb)
        | Panic \<Rightarrow> Panic) = Panic"
      using s by (auto simp: send_step_eq [OF step(1,2)] bind_eq_Some_conv)
    then have "a = Panic"
      using next_attempt_not_Panic [OF step(1,2)] by (cases a) simp_all
    then show ?thesis
      using transmit_not_Panic [OF assms(2) t] by simp
  qed (use rest in auto)
qed

lemma send_fragmented_returns:
  assumes "loop_inv data 0 sb" and "sends_return sys"
  shows "returns (send_fragmented sys self_fd fds data sb) w"
  by (auto simp: send_fragmented_def channel_def io_none send_loop_returns [OF assms]
    split: prod.split)

lemma send_first_fragment_keeps:
  assumes "socketpair_fresh sys sent open_fds" and "4 * length fds < 2 ^ 63"
    and "send_first_fragment sys fd fds buf len w = Some (r, w')"
  shows "open_fds w' = open_fds w"
  using assms(1) send_first_fragment_run [OF assms(2,3)] unfolding socketpair_fresh_def by metis

lemma send_fragmented_transfer:
  assumes "loop_inv data 0 sb" and "unat sb \<le> unat ssb" and "4 * (length fds + 1) < 2 ^ 63"
    and "seqpacket_sends sys sent" and "socketpair_fresh sys sent open_fds"
    and "self_fd \<in> open_fds w"
    and "send_fragmented sys self_fd fds data sb w = Some (Ok (), w')"
  obtains i tx rx w1 chunks pkt where "sys_socketpair sys w = ((i, tx, rx), w1)" "i \<ge> 0"
    "is_transfer ssb data fds pkt (Some rx) chunks"
    "sent w' = (sent w)(rx := [], self_fd := sent w self_fd @ [pkt], tx := bare chunks)"
  using assms(7)
proof (cases rule: send_fragmented_run)
  case (looped i tx rx w1 p w2 q1 w3 q2)
  have fresh: "tx \<noteq> self_fd" "rx \<noteq> self_fd" "tx \<noteq> rx" "sent w1 = (sent w)(tx := [], rx := [])"
    using looped(1,2) assms(5,6) unfolding socketpair_fresh_def by blast+
  have "p = Ok ()"
    using looped(6) by (auto split: if_splits)
  moreover have "4 * length (fds @ [rx]) < 2 ^ 63"
    using assms(3) by simp
  ultimately obtain n chunks where n: "0 < n" "n < length data" "n \<le> (unat sb - 40) div 8 * 8"
    and c: "chunks_ok (unat sb - 32) (drop n data) chunks"
    and s: "sent w2 = (sent w1)(self_fd := sent w1 self_fd @ [(header data @ take n data, fds @ [rx])],
        tx := sent w1 tx @ bare chunks)"
    using send_loop_sent [OF assms(1) _ assms(4), of self_fd tx "fds @ [rx]" w1 w2] looped(3) fresh(1)
    by metis
  have "(unat sb - 40) div 8 * 8 \<le> max_fragment ssb"
    using assms(2) by (intro mult_le_mono div_le_mono diff_le_mono) simp_all
  then have "is_transfer ssb data fds (header data @ take n data, fds @ [rx]) (Some rx) chunks"
    using n chunks_ok_mono [OF c diff_le_mono [OF assms(2)]]
    by (auto simp: is_transfer_def intro!: exI [of _ n])
  moreover have "sent w' = sent w2"
    using drops_sent [OF assms(4)] looped(4,5) by metis
  ultimately show thesis
    using that [OF looped(1,2)] s fresh by (auto simp: fun_upd_twist)
qed simp

lemma send_transfer:
  assumes "sendbuf_ok ssb" and "rust_len data" and "4 * (length fds + 1) < 2 ^ 63"
    and "seqpacket_sends sys sent" and "socketpair_fresh sys sent open_fds"
    and "self_fd \<in> open_fds w"
    and "send sys ssb self_fd data fds w = Some (Ok (), w')"
  obtains (single) "sent w' = (sent w)(self_fd := sent w self_fd @ [(header data @ data, fds)])"
      "length data \<le> max_fragment ssb"
  | (fragmented) i w1 tx rx w2 chunks pkt where "sys_socketpair sys w1 = ((i, tx, rx), w2)" "i \<ge> 0"
      "tx \<notin> open_fds w" "rx \<notin> open_fds w" "tx \<noteq> rx"
      "is_transfer ssb data fds pkt (Some rx) chunks"
      "sent w' = (sent w)(rx := [], self_fd := sent w self_fd @ [pkt], tx := bare chunks)"
  using send_run [OF assms(1,2,7)]
proof (rule disjE; (elim exE conjE)?)
  assume "length data \<le> max_fragment ssb"
    and "send_first_fragment sys self_fd fds data (len_of data) w = Some (Ok (), w')"
  then show thesis
    using single send_first_fragment_sent(1) [OF assms(4), of fds self_fd data "len_of data" w "Ok ()" w']
      assms(2,3) by simp
next
  fix sb w1
  assume inv: "loop_inv data 0 sb" "unat sb \<le> unat ssb"
    and run: "send_fragmented sys self_fd fds data sb w1 = Some (Ok (), w')"
    and tried: "w1 = w \<or>
      send_first_fragment sys self_fd fds data (len_of data) w = Some (Err (Errno ENOBUFS), w1)"
  have few: "4 * length fds < 2 ^ 63" using assms(3) by simp
  have keep: "open_fds w1 = open_fds w"
    using tried send_first_fragment_keeps [OF assms(5) few] by blast
  have sent: "sent w1 = sent w"
    using tried send_first_fragment_sent(2) [OF assms(4) few] by blast
  have "self_fd \<in> open_fds w1" using assms(6) keep by simp
  from send_fragmented_transfer [OF inv assms(3-5) this run] obtain i tx rx w2 chunks pkt where
      f: "sys_socketpair sys w1 = ((i, tx, rx), w2)" "i \<ge> 0"
        "is_transfer ssb data fds pkt (Some rx) chunks"
        "sent w' = (sent w1)(rx := [], self_fd := sent w1 self_fd @ [pkt], tx := bare chunks)" .
  moreover have "tx \<notin> open_fds w1" "rx \<notin> open_fds w1" "tx \<noteq> rx"
    using f(1,2) assms(5) unfolding socketpair_fresh_def by blast+
  ultimately show thesis
    using fragmented [of w1 i tx rx w2 pkt chunks] unfolding keep sent by blast
qed

section \<open>The method with its drops\<close>

lemma drop_shm_sent:
  assumes "seqpacket_sends sys sent" and "drop_shm sys p shm w = Some (r, w')"
  shows "sent w' = sent w"
  using assms(2)
  by (auto simp: drop_shm_def drop_backing_store_def close_checked_run io_inv
    seqpacket_sendsD(4,5) [OF assms(1)] split: if_splits)

lemma drop_channel_sent:
  assumes "seqpacket_sends sys sent" and "drop_channel sys shared p ch w = Some (r, w')"
  shows "sent w' = sent w"
  using assms(2) drops_sent [OF assms(1)]
  by (auto simp: drop_channel_def split: os_ipc_channel.splits if_splits)

lemma os_send_run:
  assumes "os_send sys ssb shared self data channels shms w = Some (r, w')"
  obtains p w1 q where
    "send sys ssb (tx_fd self) data (message_fds channels shms) w = Some (p, w1)"
    "io_finally (drop_all (drop_shm sys) (p = Panic) shms)
       (\<lambda>u. drop_all (drop_channel sys shared) (p = Panic \<or> u) channels) w1 = Some (q, w')"
    "r = (if q = Panic then Panic else p)"
  using assms unfolding os_send_def
    io_finally_eq_Some [of "send sys ssb (tx_fd self) data (message_fds channels shms)"] by blast

lemma os_send_sent:
  assumes "seqpacket_sends sys sent"
    and "os_send sys ssb shared self data channels shms w = Some (Ok (), w')"
  obtains w1 where "send sys ssb (tx_fd self) data (message_fds channels shms) w = Some (Ok (), w1)"
    "sent w' = sent w1"
proof (rule os_send_run [OF assms(2)])
  fix p w1 q
  assume s: "send sys ssb (tx_fd self) data (message_fds channels shms) w = Some (p, w1)"
    and d: "io_finally (drop_all (drop_shm sys) (p = Panic) shms)
       (\<lambda>u. drop_all (drop_channel sys shared) (p = Panic \<or> u) channels) w1 = Some (q, w')"
    and r: "Ok () = (if q = Panic then Panic else p)"
  from d obtain q1 w2 q2 where d1: "drop_all (drop_shm sys) (p = Panic) shms w1 = Some (q1, w2)"
    and d2: "drop_all (drop_channel sys shared) (p = Panic \<or> q1 = Panic) channels w2 = Some (q2, w')"
    unfolding io_finally_eq_Some by blast
  have "sent w' = sent w2"
    using d2 by (rule drop_all_keeps [rotated]) (rule drop_channel_sent [OF assms(1)])
  moreover have "sent w2 = sent w1"
    using d1 by (rule drop_all_keeps [rotated]) (rule drop_shm_sent [OF assms(1)])
  ultimately have "sent w' = sent w1" by simp
  then show thesis using that s r by (auto split: if_splits)
qed

section \<open>Properties\<close>

lemma k_sends_return: "sends_return k_sys"
  by (simp add: sends_return_def k_sys_def k_sendmsg_def k_send_def k_transmit_def)

lemma k_closes_succeed: "closes_succeed k_sys"
  by (simp add: closes_succeed_def k_sys_def k_close_def)

lemma k_seqpacket_sends: "seqpacket_sends k_sys k_sent"
  by (auto simp: seqpacket_sends_def k_sys_def k_sendmsg_def k_send_def k_transmit_def k_close_def
    k_fail_def split: if_splits option.splits)

lemma k_socketpair_fresh: "socketpair_fresh k_sys k_sent k_open"
  by (auto simp: socketpair_fresh_def k_sys_def k_sendmsg_def k_transmit_def k_socketpair_def
    k_fail_def k_open_def Let_def split: if_splits option.splits)

text \<open>C16: A send on the Unix back end returns whenever the kernel's own calls return: however often
  the kernel answers \<open>ENOBUFS\<close>, the retries with a smaller buffer come to an end.\<close>

theorem send_terminates:
  assumes "sends_return sys" and "sendbuf_ok ssb" and "rust_len data"
  shows "returns (send sys ssb self_fd data fds) w"
proof (cases "length data \<le> max_fragment ssb")
  case True
  then show ?thesis
    using send_fragmented_returns [OF downsize_starts_loop(1) [OF assms(2,3) True] assms(1)]
    by (auto simp: send_def get_max_fragment_size_eq(1) [OF assms(2)]
      len_le_max_fragment [OF assms(2,3)] io_none send_first_fragment_returns [OF assms(1)]
      split: option.splits)
next
  case False
  then have "loop_inv data 0 ssb"
    using assms(2,3) by (simp add: loop_inv_def)
  with False show ?thesis
    using send_fragmented_returns [OF _ assms(1)]
    by (auto simp: send_def get_max_fragment_size_eq(1) [OF assms(2)]
      len_le_max_fragment [OF assms(2,3)] io_none)
qed

theorem send_terminates_witness:
  "returns (send k_sys 4096 3 (replicate 5000 7) [5]) (k_init 100)"
  by (rule send_terminates [OF k_sends_return]) simp_all

text \<open>C17: A send never panics, neither on its size arithmetic nor on a slice bound, as long as closing
  a descriptor succeeds.\<close>

theorem send_never_panics:
  assumes "sendbuf_ok ssb" and "rust_len data" and "4 * (length fds + 1) < 2 ^ 63"
    and "closes_succeed sys" and "send sys ssb self_fd data fds w = Some (r, w')"
  shows "r \<noteq> Panic"
  using send_run [OF assms(1,2,5)]
proof (rule disjE; (elim exE conjE)?)
  assume "send_first_fragment sys self_fd fds data (len_of data) w = Some (r, w')"
  then show ?thesis
    using assms(3) by (intro send_first_fragment_not_Panic) simp_all
next
  fix sb w1
  assume inv: "loop_inv data 0 sb" and "send_fragmented sys self_fd fds data sb w1 = Some (r, w')"
  from this(2) show ?thesis
  proof (cases rule: send_fragmented_run)
    case (looped i tx rx w1 p w2 q1 w3 q2)
    have "4 * length (fds @ [rx]) < 2 ^ 63" using assms(3) by simp
    then have "p \<noteq> Panic"
      by (rule send_loop_not_Panic [OF inv _ looped(3)])
    then show ?thesis
      using drops_not_Panic [OF assms(4)] looped(4,5,6) by auto
  qed simp
qed

text \<open>Ten bytes through a buffer that leaves room for eight in the first packet.\<close>

definition example_pair :: knl where
  "example_pair = snd (k_socketpair (k_init 100))"

definition example_data :: "u8 list" where
  "example_data = [1, 2, 3, 4, 5, 6, 7, 8, 9, 10]"

definition example_sent :: knl where
  "example_sent =
     (k_init 100)\<lparr>k_next := 7,
       k_peer := (\<lambda>_. None)(3 := Some 4, 4 := Some 3, 5 := Some 6, 6 := Some 5),
       k_sent := (\<lambda>_. [])(3 := [([10, 0, 0, 0, 0, 0, 0, 0, 1, 2, 3, 4, 5, 6, 7, 8], [6])],
         5 := [([9, 10], [])]),
       k_pending := (\<lambda>_. [])(4 := [([10, 0, 0, 0, 0, 0, 0, 0, 1, 2, 3, 4, 5, 6, 7, 8], [6])],
         6 := [([9, 10], [])]),
       k_closed := (\<lambda>_. False)(6 := True, 5 := True)\<rparr>"

lemmas send_defs =
  send_def send_fragmented_def channel_def sender_from_fd_def receiver_from_fd_def
  send_first_fragment_def send_followup_fragment_def send_fragment_def send_step_def
  next_attempt_def transmit_def end_byte_position_def slice_of_def drop_receiver_def
  drop_shared_fd_def close_checked_def new_msghdr_def unix_last_def

lemma send_example:
  "send k_sys 48 3 example_data [] example_pair = Some (Ok (), example_sent)"
  by (simp add: send_defs get_max_fragment_size_eq first_fragment_size_eq fragment_size_eq
    example_pair_def example_data_def example_sent_def k_defs io_defs ENOBUFS_def send_loop.simps
    CMSG_SPACE_eq CMSG_LEN_eq le_bytes_numeral checked_add_def min_def) (simp add: fun_eq_iff)

theorem send_never_panics_witness: "(Ok () :: (unit, unix_error) res) \<noteq> Panic"
  by (rule send_never_panics [OF _ _ _ k_closes_succeed send_example])
    (simp_all add: example_data_def)

text \<open>C2: What a successful \<open>OsIpcSender::send\<close> leaves on the sockets. Either the channel got one packet
  with the header, all of the data and the descriptors; or it got a first packet with the header, a
  non-empty proper prefix and, after the message's own descriptors, the receiving end of a new socket
  pair, on whose sending end the rest of the data follows in order, in non-empty packets no longer
  than the receiver reads at a time. No other socket that was open got anything.\<close>

theorem os_send_delivers:
  assumes "sendbuf_ok ssb" and "rust_len data"
    and "4 * (length (message_fds channels shms) + 1) < 2 ^ 63"
    and "seqpacket_sends sys sent" and "socketpair_fresh sys sent open_fds"
    and "tx_fd self \<in> open_fds w"
    and "os_send sys ssb shared self data channels shms w = Some (Ok (), w')"
  shows "\<exists>pkt rx chunks.
    is_transfer ssb data (message_fds channels shms) pkt rx chunks \<and>
    sent w' (tx_fd self) = sent w (tx_fd self) @ [pkt] \<and>
    (\<forall>fd \<in> open_fds w - {tx_fd self}. sent w' fd = sent w fd) \<and>
    (case rx of None \<Rightarrow> True
     | Some b \<Rightarrow> \<exists>i a w1 w2. sys_socketpair sys w1 = ((i, a, b), w2) \<and> i \<ge> 0 \<and>
         a \<notin> open_fds w \<and> sent w' a = bare chunks)"
proof -
  obtain w1 where s: "send sys ssb (tx_fd self) data (message_fds channels shms) w = Some (Ok (), w1)"
    and eq: "sent w' = sent w1"
    using os_send_sent [OF assms(4,7)] .
  from assms(1-6) s show ?thesis
  proof (cases rule: send_transfer)
    case single
    then show ?thesis
      using eq by (intro exI [of _ "(header data @ data, message_fds channels shms)"] exI [of _ None])
        (simp add: is_transfer_def)
  next
    case (fragmented i w2 a b w3 chunks pkt)
    then show ?thesis
      using eq assms(6)
      by (intro exI [of _ pkt] exI [of _ "Some b"] exI [of _ chunks]) (auto; blast)
  qed
qed

lemma os_send_example:
  "os_send k_sys 48 (\<lambda>_. True) \<lparr>tx_fd = 3\<rparr> example_data [] [] example_pair =
     Some (Ok (), example_sent)"
  by (simp add: os_send_def message_fds_def io_finally_def send_example)

theorem os_send_delivers_witness:
  "\<exists>pkt rx chunks.
    is_transfer 48 example_data (message_fds [] []) pkt rx chunks \<and>
    k_sent example_sent (tx_fd \<lparr>tx_fd = 3\<rparr>) = k_sent example_pair (tx_fd \<lparr>tx_fd = 3\<rparr>) @ [pkt] \<and>
    (\<forall>fd \<in> k_open example_pair - {tx_fd \<lparr>tx_fd = 3\<rparr>}. k_sent example_sent fd = k_sent example_pair fd) \<and>
    (case rx of None \<Rightarrow> True
     | Some b \<Rightarrow> \<exists>i a w1 w2. sys_socketpair k_sys w1 = ((i, a, b), w2) \<and> i \<ge> 0 \<and>
         a \<notin> k_open example_pair \<and> k_sent example_sent a = bare chunks)"
  by (rule os_send_delivers [OF _ _ _ k_seqpacket_sends k_socketpair_fresh _ os_send_example])
    (simp_all add: example_data_def example_pair_def message_fds_def k_open_def k_defs)

end
