(* ===== verification/Unix_Recv.thy ===== *)
theory Unix_Recv
  imports Unix_Send
begin

text \<open>
  The free function \<open>recv\<close> of the Unix back end with \<open>UnixCmsg\<close> and \<open>OsOpaqueIpcChannel\<close>: read the
  first packet with its descriptors, sort these into channels and regions, and when the header
  announces more data read the rest from the dedicated socket.
\<close>

section \<open>Opaque channels\<close>

record os_opaque_ipc_channel = op_fd :: fd

definition opaque_from_fd :: "fd \<Rightarrow> os_opaque_ipc_channel" where
  "opaque_from_fd fd = \<lparr>op_fd = fd\<rparr>"

text \<open>\<open>to_sender\<close> and \<open>to_receiver\<close> take the descriptor out and leave -1 behind.\<close>

definition to_sender :: "os_opaque_ipc_channel \<Rightarrow> os_ipc_sender \<times> os_opaque_ipc_channel" where
  "to_sender c = (sender_from_fd (op_fd c), c\<lparr>op_fd := -1\<rparr>)"

definition to_receiver :: "os_opaque_ipc_channel \<Rightarrow> os_ipc_receiver \<times> os_opaque_ipc_channel" where
  "to_receiver c = (receiver_from_fd (op_fd c), c\<lparr>op_fd := -1\<rparr>)"

text \<open>\<open>Drop\<close> asserts that the descriptor was taken out, also while unwinding.\<close>

definition drop_opaque :: "bool \<Rightarrow> os_opaque_ipc_channel \<Rightarrow> ('w, unit, unix_error) io" where
  "drop_opaque panicking c = (if op_fd c = -1 then io_return () else io_panic)"

definition is_socket :: "'w unix_sys \<Rightarrow> fd \<Rightarrow> ('w, bool, unix_error) io" where
  "is_socket sys fd =
     io_bind (call (sys_fstat sys fd)) (\<lambda>(r, mode, size).
       io_return (if r \<noteq> 0 then False else S_ISSOCK mode))"

section \<open>Reading the first packet\<close>

definition unix_cmsg_new ::
  "'w unix_sys \<Rightarrow> usize list \<Rightarrow> ('w, (usize, unit) msghdr, unix_error) io" where
  "unix_cmsg_new sys iov =
     io_bind (io_lift (CMSG_SPACE (ucast MAX_FDS_IN_CMSG * sizeof_c_int))) (\<lambda>cmsg_length.
     io_bind (call (sys_malloc sys cmsg_length)) (\<lambda>allocated.
     if \<not> allocated then unix_last sys else io_return (new_msghdr iov () cmsg_length)))"

text \<open>\<open>duration.as_millis().try_into().unwrap_or(-1)\<close>: a \<open>c_int\<close>, or -1 (wait forever) when it does not fit.\<close>

definition poll_timeout :: "duration \<Rightarrow> int" where
  "poll_timeout millis = (if millis < 2 ^ 31 then int millis else -1)"

text \<open>What happens before \<open>recvmsg\<close>, by mode; polling for at most the time given.\<close>

definition before_recvmsg :: "'w unix_sys \<Rightarrow> fd \<Rightarrow> blocking_mode \<Rightarrow> ('w, unit, unix_error) io" where
  "before_recvmsg sys fd mode =
     (case mode of
        Nonblocking \<Rightarrow>
          io_bind (call (sys_setfl sys fd True)) (\<lambda>r.
          if r < 0 then unix_last sys else io_return ())
      | Timeout millis \<Rightarrow>
          io_bind (call_blocking (sys_poll sys fd (poll_timeout millis))) (\<lambda>r.
          if r = 0 then io_throw (Errno EAGAIN)
          else if r < 0 then unix_last sys else io_return ())
      | Blocking \<Rightarrow> io_return ())"

text \<open>
  The result of \<open>recvmsg\<close> as a value, so that the mode can be reset before it is returned; \<open>errno\<close> is
  read right after the call.
\<close>

definition recvmsg_result ::
  "'w unix_sys \<Rightarrow> fd \<Rightarrow> (usize, unit) msghdr
     \<Rightarrow> ('w, (recvmsg_out, unix_error) res, unix_error) io" where
  "recvmsg_result sys fd m =
     io_bind (call_blocking (sys_recvmsg sys fd m)) (\<lambda>out. (\<lambda>w.
       io_return
         (case out of
            None \<Rightarrow> Err (Errno (sys_errno sys w))
          | Some out \<Rightarrow> if out_data out = [] then Err ChannelClosedError else Ok out) w))"

definition unix_cmsg_recv ::
  "'w unix_sys \<Rightarrow> fd \<Rightarrow> (usize, unit) msghdr \<Rightarrow> blocking_mode \<Rightarrow> ('w, recvmsg_out, unix_error) io" where
  "unix_cmsg_recv sys fd m mode =
     io_bind (before_recvmsg sys fd mode) (\<lambda>_.
     io_bind (recvmsg_result sys fd m) (\<lambda>result.
       if mode = Nonblocking then
         io_bind (call (sys_setfl sys fd False)) (\<lambda>r.
         if r < 0 then unix_last sys else io_lift result)
       else io_lift result))"

section \<open>Descriptors\<close>

definition channel_length :: "recvmsg_out \<Rightarrow> (usize, unix_error) res" where
  "channel_length out =
     (if out_controllen out = 0 then Ok 0
      else
        res_bind (CMSG_ALIGN sizeof_cmsghdr) (\<lambda>h.
        res_bind (checked_sub (cmsg_len (out_cmsg out)) h) (\<lambda>n.
        Ok (n div sizeof_c_int))))"

text \<open>Leaving with an error or a panic drops the regions, then the channels that are left.\<close>

definition drop_received ::
  "'w unix_sys \<Rightarrow> os_opaque_ipc_channel list \<Rightarrow> os_ipc_shared_memory list
     \<Rightarrow> ('w, 'a, unix_error) io \<Rightarrow> ('w, 'a, unix_error) io" where
  "drop_received sys channels shms m =
     (\<lambda>w. Option.bind (m w) (\<lambda>(r, w').
        case r of
          Ok x \<Rightarrow> Some (Ok x, w')
        | _ \<Rightarrow>
            io_finally (io_lift r) (\<lambda>panicking.
              io_finally (drop_all (drop_shm sys) panicking shms)
                (\<lambda>unwinding. drop_all drop_opaque (panicking \<or> unwinding) channels)) w'))"

text \<open>Sorting the descriptors; mapping a region may panic, which drops what was sorted before it.\<close>

fun sort_fds ::
  "'w unix_sys \<Rightarrow> fd list \<Rightarrow> os_opaque_ipc_channel list \<Rightarrow> os_ipc_shared_memory list
     \<Rightarrow> ('w, os_opaque_ipc_channel list \<times> os_ipc_shared_memory list, unix_error) io" where
  "sort_fds sys [] channels shms = io_return (channels, shms)"
| "sort_fds sys (fd # fds) channels shms =
     io_bind (is_socket sys fd) (\<lambda>sock.
       if sock then sort_fds sys fds (channels @ [opaque_from_fd fd]) shms
       else
         io_bind (drop_received sys channels shms (shm_from_fd sys fd)) (\<lambda>shm. sort_fds sys fds channels (shms @ [shm])))"

section \<open>Reading the rest\<close>

text \<open>
  One pass of the loop: read at most one fragment's worth into the buffer behind what is there. The
  capacity was reserved before, so only the assertion on the positions is left.
\<close>

definition recv_step ::
  "'w unix_sys \<Rightarrow> usize \<Rightarrow> fd \<Rightarrow> usize \<Rightarrow> u8 list \<Rightarrow> ('w, u8 list, unix_error) io" where
  "recv_step sys system_sendbuf_size rx total_size buf =
     (let write_pos = len_of buf in
      io_bind (io_lift (fragment_size system_sendbuf_size)) (\<lambda>n.
      io_bind (io_lift (checked_add write_pos n)) (\<lambda>e.
      let end_pos = min e total_size in
      if \<not> end_pos \<ge> write_pos then io_panic else
      io_bind (call_blocking (sys_recv sys rx (end_pos - write_pos))) (\<lambda>result.
      case result of
        None \<Rightarrow> unix_last sys
      | Some bytes \<Rightarrow> if bytes = [] then io_throw ChannelClosedError else io_return (buf @ bytes)))))"

partial_function (option) recv_loop ::
  "'w unix_sys \<Rightarrow> usize \<Rightarrow> fd \<Rightarrow> usize \<Rightarrow> u8 list \<Rightarrow> 'w \<Rightarrow> ((u8 list, unix_error) res \<times> 'w) option" where
  "recv_loop sys system_sendbuf_size rx total_size buf w =
     (if len_of buf < total_size then
        Option.bind (recv_step sys system_sendbuf_size rx total_size buf w)
          (\<lambda>(r, w').
             case r of
               Ok buf' \<Rightarrow> recv_loop sys system_sendbuf_size rx total_size buf' w'
             | Err e \<Rightarrow> Some (Err e, w')
             | Panic \<Rightarrow> Some (Panic, w'))
      else Some (Ok buf, w))"

text \<open>
  The slow path: the last channel is the dedicated socket. It is closed on every way out; on an error
  the regions and the channels received so far are dropped too.
\<close>

definition reassemble ::
  "'w unix_sys \<Rightarrow> usize \<Rightarrow> usize \<Rightarrow> u8 list \<Rightarrow> os_opaque_ipc_channel list
     \<Rightarrow> ('w, u8 list \<times> os_opaque_ipc_channel list, unix_error) io" where
  "reassemble sys system_sendbuf_size total_size buf channels =
     (if channels = [] then io_panic
      else
        let dedicated_rx = fst (to_receiver (last channels)) in
        io_finally
          (io_bind (io_lift (checked_sub total_size (len_of buf))) (\<lambda>_.
           if \<not> unat total_size < 2 ^ 63 then io_panic
           else
             io_bind (recv_loop sys system_sendbuf_size (rx_fd dedicated_rx) total_size buf)
               (\<lambda>data. io_return (data, butlast channels))))
          (\<lambda>panicking. drop_receiver sys panicking dedicated_rx))"

section \<open>The whole receive\<close>

definition recv ::
  "'w unix_sys \<Rightarrow> usize \<Rightarrow> fd \<Rightarrow> blocking_mode
     \<Rightarrow> ('w, u8 list \<times> os_opaque_ipc_channel list \<times> os_ipc_shared_memory list, unix_error) io" where
  "recv sys system_sendbuf_size fd mode =
     io_bind (io_lift (get_max_fragment_size system_sendbuf_size)) (\<lambda>buffer_size.
     io_bind (unix_cmsg_new sys [sizeof_usize, buffer_size]) (\<lambda>m.
     io_bind (unix_cmsg_recv sys fd m mode) (\<lambda>out.
     io_bind (io_lift (checked_sub (len_of (out_data out)) sizeof_usize)) (\<lambda>data_length.
     let total_size = usize_of (le_nat (take 8 (out_data out)));
         main_data_buffer = drop 8 (out_data out) in
     io_bind (io_lift (channel_length out)) (\<lambda>n.
     io_bind (sort_fds sys (take (unat n) (cmsg_fds (out_cmsg out))) [] []) (\<lambda>(channels, shms).
     if total_size = data_length then io_return (main_data_buffer, channels, shms)
     else
       io_bind (drop_received sys (butlast channels) shms
           (reassemble sys system_sendbuf_size total_size main_data_buffer channels))
         (\<lambda>(data, channels'). io_return (data, channels', shms))))))))"

definition receiver_recv where
  "receiver_recv sys ssb r = recv sys ssb (rx_fd r) Blocking"

definition receiver_try_recv where
  "receiver_try_recv sys ssb r = recv sys ssb (rx_fd r) Nonblocking"

definition receiver_try_recv_timeout where
  "receiver_try_recv_timeout sys ssb r millis = recv sys ssb (rx_fd r) (Timeout millis)"

definition consume_fd :: "os_ipc_receiver \<Rightarrow> fd \<times> os_ipc_receiver" where
  "consume_fd r = (rx_fd r, r\<lparr>rx_fd := -1\<rparr>)"

definition consume :: "os_ipc_receiver \<Rightarrow> os_ipc_receiver \<times> os_ipc_receiver" where
  "consume r = (receiver_from_fd (fst (consume_fd r)), snd (consume_fd r))"

section \<open>A kernel that delivers\<close>

text \<open>
  What the receiving process sees of the kernel: the packets that wait on each socket, with the
  descriptors as they will be installed here, and which descriptors are sockets and which are files
  that can be mapped.
\<close>

record net_view =
  v_pending :: "fd \<Rightarrow> packet list"
  v_socks :: "fd set"
  v_files :: "fd set"

definition taken :: "net_view \<Rightarrow> fd \<Rightarrow> packet list \<Rightarrow> net_view" where
  "taken v fd ps = v\<lparr>v_pending := (v_pending v)(fd := ps)\<rparr>"

lemma taken_simps [simp]:
  "v_pending (taken v fd ps) = (v_pending v)(fd := ps)"
  "v_socks (taken v fd ps) = v_socks v" "v_files (taken v fd ps) = v_files v"
  "taken (taken v fd ps) fd qs = taken v fd qs"
  "v_pending v fd = ps \<Longrightarrow> taken v fd ps = v"
  by (auto simp: taken_def)

text \<open>
  Documented behaviour of the calls, for a process with memory and descriptors left: a read takes the
  next packet and nothing of the others, polling a socket with packets reports it, the other calls
  change nothing of this, and closing a descriptor succeeds and affects only that one.
\<close>

definition receiving :: "'w unix_sys \<Rightarrow> ('w \<Rightarrow> net_view) \<Rightarrow> bool" where
  "receiving sys view \<longleftrightarrow>
     (\<forall>fd m w p ps. v_pending (view w) fd = p # ps \<longrightarrow>
        (\<exists>w'. sys_recvmsg sys fd m w = Some (Some (delivered m p), w') \<and>
           view w' = taken (view w) fd ps)) \<and>
     (\<forall>fd n w p ps. v_pending (view w) fd = p # ps \<longrightarrow>
        (\<exists>w'. sys_recv sys fd n w = Some (Some (take (unat n) (fst p)), w') \<and>
           view w' = taken (view w) fd ps)) \<and>
     (\<forall>fd t w. v_pending (view w) fd \<noteq> [] \<longrightarrow>
        (\<exists>r w'. sys_poll sys fd t w = Some (r, w') \<and> r > 0 \<and> view w' = view w)) \<and>
     (\<forall>n w. \<exists>w'. sys_malloc sys n w = (True, w') \<and> view w' = view w) \<and>
     (\<forall>fd b w. \<exists>r w'. sys_setfl sys fd b w = (r, w') \<and> r \<ge> 0 \<and> view w' = view w) \<and>
     (\<forall>fd w. \<exists>w'. sys_close sys fd w = (0, w') \<and>
        (\<forall>x. x \<noteq> fd \<longrightarrow> v_pending (view w') x = v_pending (view w) x)) \<and>
     (\<forall>fd w. fd \<in> v_socks (view w) \<longrightarrow>
        (\<exists>mode sz w'. sys_fstat sys fd w = ((0, mode, sz), w') \<and> S_ISSOCK mode \<and> view w' = view w)) \<and>
     (\<forall>fd w. fd \<in> v_files (view w) \<longrightarrow>
        (\<exists>mode sz w'. sys_fstat sys fd w = ((0, mode, sz), w') \<and> \<not> S_ISSOCK mode \<and> view w' = view w \<and>
           (sz \<noteq> 0 \<longrightarrow> (\<exists>a w''. sys_mmap sys sz fd w' = (Some a, w'') \<and> a \<noteq> 0 \<and> view w'' = view w))))"

lemma receivingD:
  assumes "receiving sys view"
  shows "v_pending (view w) fd = p # ps \<Longrightarrow>
      \<exists>w'. sys_recvmsg sys fd m w = Some (Some (delivered m p), w') \<and> view w' = taken (view w) fd ps"
    and "v_pending (view w) fd = p # ps \<Longrightarrow>
      \<exists>w'. sys_recv sys fd n w = Some (Some (take (unat n) (fst p)), w') \<and>
        view w' = taken (view w) fd ps"
    and "v_pending (view w) fd \<noteq> [] \<Longrightarrow>
      \<exists>r w'. sys_poll sys fd t w = Some (r, w') \<and> r > 0 \<and> view w' = view w"
    and "\<exists>w'. sys_malloc sys n w = (True, w') \<and> view w' = view w"
    and "\<exists>r w'. sys_setfl sys fd b w = (r, w') \<and> r \<ge> 0 \<and> view w' = view w"
    and "\<exists>w'. sys_close sys fd w = (0, w') \<and>
      (\<forall>x. x \<noteq> fd \<longrightarrow> v_pending (view w') x = v_pending (view w) x)"
    and "fd \<in> v_socks (view w) \<Longrightarrow>
      \<exists>mode sz w'. sys_fstat sys fd w = ((0, mode, sz), w') \<and> S_ISSOCK mode \<and> view w' = view w"
    and "fd \<in> v_files (view w) \<Longrightarrow>
      \<exists>mode sz w'. sys_fstat sys fd w = ((0, mode, sz), w') \<and> \<not> S_ISSOCK mode \<and> view w' = view w \<and>
        (sz \<noteq> 0 \<longrightarrow> (\<exists>a w''. sys_mmap sys sz fd w' = (Some a, w'') \<and> a \<noteq> 0 \<and> view w'' = view w))"
  using assms unfolding receiving_def by (simp_all del: split_paired_All)

lemma cmsg_space_272: "CMSG_SPACE (ucast MAX_FDS_IN_CMSG * 4 :: usize) = Ok 272"
  by (simp add: MAX_FDS_IN_CMSG_def CMSG_SPACE_eq)

lemma unix_cmsg_new_run:
  assumes "receiving sys view"
  obtains w' where "unix_cmsg_new sys iov w =
      Some (Ok \<lparr>msg_iov = iov, msg_control = (), msg_controllen = 272\<rparr>, w')"
    "view w' = view w"
proof -
  obtain w' where "sys_malloc sys 272 w = (True, w')" "view w' = view w"
    using receivingD(4) [OF assms] by blast
  then show thesis
    using that by (simp add: unix_cmsg_new_def cmsg_space_272 new_msghdr_def call_def)
qed

lemma unix_cmsg_recv_run:
  assumes "receiving sys view" and "v_pending (view w) fd = p # ps" and "out_data (delivered m p) \<noteq> []"
  obtains w' where "unix_cmsg_recv sys fd m mode w = Some (Ok (delivered m p), w')"
    "view w' = taken (view w) fd ps"
proof -
  obtain w1 where b: "before_recvmsg sys fd mode w = Some (Ok (), w1)" "view w1 = view w"
  proof (cases mode)
    case Blocking
    then show ?thesis using that by (simp add: before_recvmsg_def)
  next
    case Nonblocking
    obtain r w1 where "sys_setfl sys fd True w = (r, w1)" "r \<ge> 0" "view w1 = view w"
      using receivingD(5) [OF assms(1)] by blast
    with Nonblocking show ?thesis using that by (simp add: before_recvmsg_def call_def)
  next
    case (Timeout t)
    obtain r w1 where "sys_poll sys fd (poll_timeout t) w = Some (r, w1)" "r > 0"
        "view w1 = view w"
      using receivingD(3) [OF assms(1)] assms(2) by (metis list.distinct(1))
    with Timeout show ?thesis using that by (simp add: before_recvmsg_def call_blocking_def)
  qed
  obtain w2 where r: "sys_recvmsg sys fd m w1 = Some (Some (delivered m p), w2)"
    "view w2 = taken (view w1) fd ps"
    using receivingD(1) [OF assms(1)] assms(2) b(2) by metis
  obtain i w3 where f: "sys_setfl sys fd False w2 = (i, w3)" "i \<ge> 0" "view w3 = view w2"
    using receivingD(5) [OF assms(1)] by blast
  have "recvmsg_result sys fd m w1 = Some (Ok (Ok (delivered m p)), w2)"
    using r assms(3) by (simp add: recvmsg_result_def call_blocking_def)
  then show thesis
    using that b r f
    by (cases "mode = Nonblocking") (simp_all add: unix_cmsg_recv_def call_def)
qed

section \<open>The first packet\<close>

text \<open>The control buffer of \<open>UnixCmsg\<close> has room for 64 descriptors, and their number is read back right.\<close>

lemma delivered_272:
  "delivered \<lparr>msg_iov = iov, msg_control = (), msg_controllen = 272\<rparr> (bytes, fds) =
     \<lparr>out_data = take (sum_list (map unat iov)) bytes,
      out_controllen =
        (if fds = [] then 0 else usize_of (16 + (4 * min 64 (length fds) + 7) div 8 * 8)),
      out_cmsg = \<lparr>cmsg_len = usize_of (16 + 4 * min 64 (length fds)), cmsg_level = SOL_SOCKET,
        cmsg_type = 1, cmsg_fds = take 64 fds\<rparr>\<rparr>"
  by (auto simp: delivered_def Let_def min.commute)

lemma channel_length_delivered:
  "channel_length (delivered \<lparr>msg_iov = iov, msg_control = (), msg_controllen = 272\<rparr> (bytes, fds)) =
     Ok (usize_of (min 64 (length fds)))"
proof (cases "fds = []")
  case True
  then show ?thesis by (simp add: channel_length_def delivered_272)
next
  case False
  define n where "n = min 64 (length fds)"
  then have n: "n \<le> 64" by simp
  have "unat (usize_of (16 + (4 * n + 7) div 8 * 8)) = 16 + (4 * n + 7) div 8 * 8"
    by (rule unat_usize_of) (use n in simp)
  then have nz: "usize_of (16 + (4 * n + 7) div 8 * 8) \<noteq> 0"
    by (metis add_is_0 unat_0 zero_neq_numeral)
  have u: "unat (usize_of (16 + 4 * n)) = 16 + 4 * n"
    by (rule unat_usize_of) (use n in simp)
  then have le: "16 \<le> usize_of (16 + 4 * n)"
    by (simp only: word_le_nat_alt) simp
  have "unat ((usize_of (16 + 4 * n) - 16) div 4) = unat (usize_of n)"
    using u le n by (simp only: unat_div unat_sub) simp
  then have "(usize_of (16 + 4 * n) - 16) div 4 = usize_of n"
    by (simp only: word_unat_eq_iff)
  then show ?thesis
    using False nz le unfolding channel_length_def delivered_272 n_def [symmetric]
    by (simp only: CMSG_ALIGN_header checked_sub_def not_less) simp
qed

lemma shm_from_fd_run:
  assumes "receiving sys view" and "fd \<in> v_files (view w)"
  obtains shm w' where "shm_from_fd sys fd w = Some (Ok shm, w')" "view w' = view w"
    "store_fd (shm_store shm) = fd"
proof -
  obtain mode sz w1 where st: "sys_fstat sys fd w = ((0, mode, sz), w1)" "view w1 = view w"
    and mm: "sz \<noteq> 0 \<longrightarrow> (\<exists>a w'. sys_mmap sys sz fd w1 = (Some a, w') \<and> a \<noteq> 0 \<and> view w' = view w)"
    using receivingD(8) [OF assms] by blast
  have "\<exists>a w'. map_region sys fd sz w1 = Some (Ok (a, sz), w') \<and> view w' = view w"
    using mm st(2) by (cases "sz = 0") (auto simp: map_region_def call_def)
  then obtain a w' where m: "map_region sys fd sz w1 = Some (Ok (a, sz), w')" "view w' = view w"
    by blast
  have "map_file sys (store_from_fd fd) None w = Some (Ok (a, sz), w')"
    using st m by (simp add: map_file_def store_from_fd_def call_def)
  then have "shm_from_fd sys fd w =
      Some (Ok (shm_from_raw_parts a sz (store_from_fd fd)), w')"
    by (simp add: shm_from_fd_def Let_def mapped_store_def io_finally_def)
  then show thesis
    using that m by (simp add: shm_from_raw_parts_def store_from_fd_def)
qed

lemma sort_fds_run:
  assumes "receiving sys view" and "view w = v" and "set fds \<subseteq> v_socks v \<union> v_files v"
  shows "\<exists>shms' w'. sort_fds sys fds channels shms w =
      Some (Ok (channels @ map opaque_from_fd [fd \<leftarrow> fds. fd \<in> v_socks v], shms @ shms'), w') \<and>
    map (\<lambda>shm. store_fd (shm_store shm)) shms' = [fd \<leftarrow> fds. fd \<notin> v_socks v] \<and> view w' = v"
  using assms(2,3)
proof (induction fds arbitrary: channels shms w)
  case Nil
  then show ?case by simp
next
  case (Cons fd fds)
  show ?case
  proof (cases "fd \<in> v_socks v")
    case True
    then obtain mode sz w1 where "sys_fstat sys fd w = ((0, mode, sz), w1)" "view w1 = v"
        "S_ISSOCK mode"
      using receivingD(7) [OF assms(1)] Cons.prems(1) by blast
    moreover from this have "is_socket sys fd w = Some (Ok True, w1)"
      by (simp add: is_socket_def call_def)
    ultimately show ?thesis
      using True Cons.prems(2) Cons.IH [of w1 "channels @ [opaque_from_fd fd]" shms] by simp
  next
    case False
    then have "fd \<in> v_files (view w)" using Cons.prems by auto
    then obtain mode sz w1 where "sys_fstat sys fd w = ((0, mode, sz), w1)" "\<not> S_ISSOCK mode"
      and w1: "view w1 = v"
      using receivingD(8) [OF assms(1)] Cons.prems(1) by blast
    then have sock: "is_socket sys fd w = Some (Ok False, w1)"
      by (simp add: is_socket_def call_def)
    have "fd \<in> v_files (view w1)" using False Cons.prems w1 by auto
    from shm_from_fd_run [OF assms(1) this] obtain shm w2 where
      shm: "shm_from_fd sys fd w1 = Some (Ok shm, w2)" "view w2 = v" "store_fd (shm_store shm) = fd"
      using w1 by metis
    obtain shms' w' where
      "sort_fds sys fds channels (shms @ [shm]) w2 =
        Some (Ok (channels @ map opaque_from_fd [fd \<leftarrow> fds. fd \<in> v_socks v], (shms @ [shm]) @ shms'), w')"
      "map (\<lambda>shm. store_fd (shm_store shm)) shms' = [fd \<leftarrow> fds. fd \<notin> v_socks v]" "view w' = v"
      using Cons.IH [of w2 channels "shms @ [shm]"] shm(2) Cons.prems(2) by auto
    then show ?thesis
      using False sock shm
      by (intro exI [of _ "shm # shms'"] exI [of _ w']) (simp add: drop_received_def)
  qed
qed

section \<open>The other packets\<close>

lemma recv_step_run:
  assumes "receiving sys view" and "sendbuf_ok ssb" and "unat tot_sz < 2 ^ 63"
    and "v_pending (view w) rx = (c, fds) # ps" and "c \<noteq> []" and "length c \<le> unat ssb - 32"
    and "length buf + length c \<le> unat tot_sz"
  obtains w' where "recv_step sys ssb rx tot_sz buf w = Some (Ok (buf @ c), w')"
    "view w' = taken (view w) rx ps"
proof -
  have frag: "fragment_size ssb = Ok (ssb - 32)" "unat (ssb - 32) = unat ssb - 32"
    using assms(2) by (simp_all add: fragment_size_eq)
  have buf: "unat (len_of buf) = length buf"
    by (rule unat_usize_of) (use assms(3,7) in linarith)
  have "unat (len_of buf) + unat (ssb - 32) < 2 ^ 64"
    using assms(2,3,7) unfolding buf frag(2) by simp linarith
  note add = checked_add_nat [OF this]
  define e where "e = min (len_of buf + (ssb - 32)) tot_sz"
  have e: "unat e = min (length buf + (unat ssb - 32)) (unat tot_sz)"
    using add(2) buf frag(2) by (simp add: e_def min_def word_le_nat_alt)
  then have ge: "len_of buf \<le> e" and "unat (e - len_of buf) = unat e - length buf"
    using assms(7) buf by (auto simp: word_le_nat_alt unat_sub)
  then have "length c \<le> unat (e - len_of buf)"
    using e assms(6,7) by simp
  moreover obtain w' where
      "sys_recv sys rx (e - len_of buf) w = Some (Some (take (unat (e - len_of buf)) c), w')"
      "view w' = taken (view w) rx ps"
    using receivingD(2) [OF assms(1,4), of "e - len_of buf"] by auto
  moreover have "recv_step sys ssb rx tot_sz buf =
      (if \<not> e \<ge> len_of buf then io_panic
       else io_bind (call_blocking (sys_recv sys rx (e - len_of buf))) (\<lambda>result.
         case result of None \<Rightarrow> unix_last sys
         | Some bytes \<Rightarrow> if bytes = [] then io_throw ChannelClosedError else io_return (buf @ bytes)))"
    by (simp only: recv_step_def Let_def frag(1) add(1) io_bind_lift_Ok e_def)
  ultimately show thesis
    using that ge assms(5) by (simp add: call_blocking_def)
qed

lemma recv_loop_run:
  assumes "receiving sys view" and "sendbuf_ok ssb" and "rust_len (buf @ rest)"
    and "chunks_ok (unat ssb - 32) rest chunks" and "v_pending (view w) rx = bare chunks @ later"
  obtains w' where "recv_loop sys ssb rx (len_of (buf @ rest)) buf w = Some (Ok (buf @ rest), w')"
    "view w' = taken (view w) rx later"
proof -
  have "\<exists>w'. recv_loop sys ssb rx tot_sz buf w = Some (Ok (buf @ rest), w') \<and>
      view w' = taken (view w) rx later"
    if "tot_sz = len_of (buf @ rest)" "chunks_ok (unat ssb - 32) rest chunks"
      "rust_len (buf @ rest)" "v_pending (view w) rx = bare chunks @ later" for tot_sz buf rest chunks w
    using that
  proof (induction chunks arbitrary: buf rest w)
    case Nil
    then show ?case by (subst recv_loop.simps) (auto simp: chunks_ok_def)
  next
    case (Cons c chunks)
    define rest' where "rest' = concat chunks"
    have rest: "rest = c @ rest'" "c \<noteq> []" "length c \<le> unat ssb - 32"
        "chunks_ok (unat ssb - 32) rest' chunks"
      using Cons.prems(2) by (auto simp: chunks_ok_def rest'_def)
    have tsz: "unat tot_sz = length (buf @ rest)"
      unfolding Cons.prems(1) by (rule unat_usize_of [OF Cons.prems(3)])
    have "unat tot_sz < 2 ^ 63" "v_pending (view w) rx = (c, []) # (bare chunks @ later)"
        "length buf + length c \<le> unat tot_sz"
      using Cons.prems(3,4) tsz rest(1) by simp_all
    from recv_step_run [OF assms(1,2) this(1,2) rest(2,3) this(3)] obtain w1 where
      w1: "recv_step sys ssb rx tot_sz buf w = Some (Ok (buf @ c), w1)"
        "view w1 = taken (view w) rx (bare chunks @ later)" .
    have "len_of buf < tot_sz"
      using tsz rest(1,2) Cons.prems(3) by (simp add: word_less_nat_alt)
    moreover have "\<exists>w'. recv_loop sys ssb rx tot_sz (buf @ c) w1 = Some (Ok ((buf @ c) @ rest'), w') \<and>
        view w' = taken (view w1) rx later"
      by (rule Cons.IH) (use Cons.prems(1,3) rest(1,4) w1(2) in simp_all)
    ultimately show ?case
      using w1 rest(1) recv_loop.simps [of sys ssb rx tot_sz buf w] by auto
  qed
  then show thesis using that assms(3-5) by blast
qed

lemma reassemble_run:
  assumes "receiving sys view" and "sendbuf_ok ssb" and "rust_len (buf @ rest)"
    and "chunks_ok (unat ssb - 32) rest chunks" and "v_pending (view w) rx = bare chunks @ later"
  obtains w' where "reassemble sys ssb (len_of (buf @ rest)) buf (channels @ [opaque_from_fd rx]) w =
      Some (Ok (buf @ rest, channels), w')"
    "\<forall>x. x \<noteq> rx \<longrightarrow> v_pending (view w') x = v_pending (view w) x"
    "\<exists>w1. view w1 = taken (view w) rx later \<and> (w' = w1 \<or> sys_close sys rx w1 = (0, w'))"
proof -
  obtain w1 where l: "recv_loop sys ssb rx (len_of (buf @ rest)) buf w = Some (Ok (buf @ rest), w1)"
      "view w1 = taken (view w) rx later"
    using recv_loop_run [OF assms] .
  obtain w' where c: "sys_close sys rx w1 = (0, w')" "\<forall>x. x \<noteq> rx \<longrightarrow> v_pending (view w') x = v_pending (view w1) x"
    using receivingD(6) [OF assms(1)] by blast
  have tot: "unat (len_of (buf @ rest)) = length (buf @ rest)"
    by (rule unat_usize_of [OF assms(3)])
  have "unat (len_of buf) = length buf"
    by (rule unat_usize_of) (use assms(3) in simp)
  then have sub: "checked_sub (len_of (buf @ rest)) (len_of buf) =
      Ok (len_of (buf @ rest) - len_of buf)"
    using tot by (simp add: checked_sub_def word_less_nat_alt)
  have drop: "drop_receiver sys False (receiver_from_fd rx) w1 = Some (Ok (), if rx \<ge> 0 then w' else w1)"
    using c(1) by (simp add: drop_receiver_def receiver_from_fd_def close_checked_def call_def)
  have "unat (len_of (buf @ rest)) < 2 ^ 63"
    using assms(3) tot by simp
  then have "reassemble sys ssb (len_of (buf @ rest)) buf (channels @ [opaque_from_fd rx]) w =
      Some (Ok (buf @ rest, channels), if rx \<ge> 0 then w' else w1)"
    using l(1) drop unfolding reassemble_def
    by (simp add: to_receiver_def opaque_from_fd_def io_finally_def sub
      receiver_from_fd_def del: length_append of_nat_add)
  moreover have "\<exists>w2. view w2 = taken (view w) rx later \<and>
      ((if rx \<ge> 0 then w' else w1) = w2 \<or> sys_close sys rx w2 = (0, if rx \<ge> 0 then w' else w1))"
    using l(2) c(1) by auto
  ultimately show thesis
    using that [of "if rx \<ge> 0 then w' else w1"] c(2) l(2) by simp
qed

section \<open>A whole message\<close>

abbreviation store_fds :: "os_ipc_shared_memory list \<Rightarrow> fd list" where
  "store_fds shms \<equiv> map (\<lambda>shm. store_fd (shm_store shm)) shms"

lemma total_size_header:
  assumes "rust_len data"
  shows "usize_of (le_nat (take 8 (header data @ d))) = len_of data"
  using assms by (simp add: le_nat_le_bytes_id)

text \<open>Up to the header's length: the data of the first packet and its descriptors, sorted.\<close>

lemma recv_first:
  assumes "receiving sys view" and "sendbuf_ok ssb" and "rust_len data"
    and "v_pending (view w) fd = (header data @ d, fds) # ps" and "length d \<le> max_fragment ssb"
    and "set (take 64 fds) \<subseteq> v_socks (view w) \<union> v_files (view w)"
  obtains shms w1 where "view w1 = taken (view w) fd ps"
    "store_fds shms = [f \<leftarrow> take 64 fds. f \<notin> v_socks (view w)]"
    "recv sys ssb fd mode w =
      (let channels = map opaque_from_fd [f \<leftarrow> take 64 fds. f \<in> v_socks (view w)] in
       if len_of data = len_of d then io_return (d, channels, shms)
       else io_bind (drop_received sys (butlast channels) shms
           (reassemble sys ssb (len_of data) d channels))
         (\<lambda>(data, channels'). io_return (data, channels', shms))) w1"
proof -
  let ?m = "\<lparr>msg_iov = [8, (ssb - 40) AND - 8], msg_control = (), msg_controllen = 272\<rparr>"
  define out where "out = delivered ?m (header data @ d, fds)"
  note max = get_max_fragment_size_eq [OF assms(2)]
  obtain w1 where new: "unix_cmsg_new sys [8, (ssb - 40) AND - 8] w = Some (Ok ?m, w1)"
      "view w1 = view w"
    using unix_cmsg_new_run [OF assms(1)] .
  have data: "out_data out = header data @ d"
    using max(2) assms(5) by (simp add: delivered_272 out_def)
  have "v_pending (view w1) fd = (header data @ d, fds) # ps" "out_data out \<noteq> []"
    using assms(4) new(2) data by (auto simp flip: length_0_conv)
  from unix_cmsg_recv_run [OF assms(1) this [unfolded out_def]] obtain w2 where
    r: "unix_cmsg_recv sys fd ?m mode w1 = Some (Ok out, w2)" "view w2 = taken (view w1) fd ps"
    unfolding out_def .
  have small: "length d < 2 ^ 63 - 8"
    using assms(2,5) div_times_less_eq_dividend [of "unat ssb - 40" 8] by linarith
  then have "unat (len_of (out_data out)) = 8 + length d"
    unfolding data by (subst unat_usize_of) simp_all
  then have sub: "checked_sub (len_of (out_data out)) 8 = Ok (len_of d)"
    unfolding data by (simp add: checked_sub_def word_less_nat_alt)
  have n: "channel_length out = Ok (usize_of (min 64 (length fds)))"
    using channel_length_delivered [of "[8, (ssb - 40) AND - 8]" "header data @ d" fds]
    by (simp add: out_def)
  have u: "unat (usize_of (min 64 (length fds))) = min 64 (length fds)"
    by (rule unat_usize_of) simp
  have fds: "take (min 64 (length fds)) (cmsg_fds (out_cmsg out)) = take 64 fds"
    by (simp add: delivered_272 out_def min_def)
  have tot: "usize_of (le_nat (take 8 (out_data out))) = len_of data" "drop 8 (out_data out) = d"
    unfolding data by (rule total_size_header [OF assms(3)]) simp
  have "set (take 64 fds) \<subseteq> v_socks (view w2) \<union> v_files (view w2)"
    using assms(6) new(2) r(2) by simp
  from sort_fds_run [OF assms(1) refl this, of "[]" "[]"] obtain shms w3 where
    s: "sort_fds sys (take 64 fds) [] [] w2 =
        Some (Ok (map opaque_from_fd [f \<leftarrow> take 64 fds. f \<in> v_socks (view w)], shms), w3)"
      "store_fds shms = [f \<leftarrow> take 64 fds. f \<notin> v_socks (view w)]" "view w3 = taken (view w) fd ps"
    using new(2) r(2) by auto
  have "recv sys ssb fd mode w =
      (let channels = map opaque_from_fd [f \<leftarrow> take 64 fds. f \<in> v_socks (view w)] in
       if len_of data = len_of d then io_return (d, channels, shms)
       else io_bind (drop_received sys (butlast channels) shms
           (reassemble sys ssb (len_of data) d channels))
         (\<lambda>(data, channels'). io_return (data, channels', shms))) w3"
    by (simp add: recv_def max(1) new(1) r(1) sub n u fds s(1) tot Let_def)
  then show thesis using that s(2,3) by blast
qed

lemma recv_transfer_effect:
  assumes "receiving sys view" and "sendbuf_ok ssb" and "rust_len data"
    and "is_transfer ssb data fds pkt rx chunks" and "length (snd pkt) \<le> 64"
    and "v_pending (view w) fd = (fst pkt, map \<rho> (snd pkt)) # ps"
    and "\<rho> ` set (snd pkt) \<subseteq> v_socks (view w) \<union> v_files (view w)"
    and "\<And>b. rx = Some b \<Longrightarrow> \<rho> b \<in> v_socks (view w) \<and> \<rho> b \<noteq> fd \<and>
      v_pending (view w) (\<rho> b) = bare chunks @ later"
  obtains shms w' where "recv sys ssb fd mode w =
      Some (Ok (data, map opaque_from_fd [f \<leftarrow> map \<rho> fds. f \<in> v_socks (view w)], shms), w')"
    "store_fds shms = [f \<leftarrow> map \<rho> fds. f \<notin> v_socks (view w)]"
    "v_pending (view w') fd = ps"
    "rx = None \<longrightarrow> view w' = taken (view w) fd ps"
    "\<forall>b. rx = Some b \<longrightarrow> (\<exists>w1. view w1 = taken (taken (view w) fd ps) (\<rho> b) later \<and>
       (w' = w1 \<or> sys_close sys (\<rho> b) w1 = (0, w')))"
proof (cases rx)
  case None
  then have t: "length data \<le> max_fragment ssb" "pkt = (header data @ data, fds)"
    using assms(4) by (auto simp: is_transfer_def)
  have all: "take 64 (map \<rho> fds) = map \<rho> fds" using assms(5) t(2) by simp
  have "v_pending (view w) fd = (header data @ data, map \<rho> fds) # ps"
      "set (take 64 (map \<rho> fds)) \<subseteq> v_socks (view w) \<union> v_files (view w)"
    using assms(6,7) t(2) all by auto
  from recv_first [OF assms(1-3) this(1) t(1) this(2)] obtain shms w1 where
      w1: "view w1 = taken (view w) fd ps"
    and shms: "store_fds shms = [f \<leftarrow> map \<rho> fds. f \<notin> v_socks (view w)]"
    and run: "recv sys ssb fd mode w =
      (let channels = map opaque_from_fd [f \<leftarrow> map \<rho> fds. f \<in> v_socks (view w)] in
       if len_of data = len_of data then io_return (data, channels, shms)
       else io_bind (drop_received sys (butlast channels) shms
           (reassemble sys ssb (len_of data) data channels))
         (\<lambda>(data, channels'). io_return (data, channels', shms))) w1"
    unfolding all .
  have "recv sys ssb fd mode w =
      Some (Ok (data, map opaque_from_fd [f \<leftarrow> map \<rho> fds. f \<in> v_socks (view w)], shms), w1)"
    unfolding run by (simp add: Let_def)
  then show thesis using that shms w1 None by simp
next
  case (Some b)
  obtain n where n: "0 < n" "n < length data" "n \<le> max_fragment ssb"
    "pkt = (header data @ take n data, fds @ [b])" "chunks_ok (unat ssb - 32) (drop n data) chunks"
    using assms(4) Some by (auto simp: is_transfer_def)
  have b: "\<rho> b \<in> v_socks (view w)" "\<rho> b \<noteq> fd" "v_pending (view w) (\<rho> b) = bare chunks @ later"
    using assms(8) [OF Some] by auto
  let ?channels = "map opaque_from_fd [f \<leftarrow> map \<rho> fds. f \<in> v_socks (view w)]"
  have all: "take 64 (map \<rho> (fds @ [b])) = map \<rho> (fds @ [b])" using assms(5) n(4) by simp
  have "v_pending (view w) fd = (header data @ take n data, map \<rho> (fds @ [b])) # ps"
      "length (take n data) \<le> max_fragment ssb"
      "set (take 64 (map \<rho> (fds @ [b]))) \<subseteq> v_socks (view w) \<union> v_files (view w)"
    using assms(6,7) n(2-4) all by auto
  from recv_first [OF assms(1-3) this] obtain shms w1 where
      w1: "view w1 = taken (view w) fd ps"
    and shms: "store_fds shms = [f \<leftarrow> map \<rho> (fds @ [b]). f \<notin> v_socks (view w)]"
    and run: "recv sys ssb fd mode w =
      (let channels = map opaque_from_fd [f \<leftarrow> map \<rho> (fds @ [b]). f \<in> v_socks (view w)] in
       if len_of data = len_of (take n data) then io_return (take n data, channels, shms)
       else io_bind (drop_received sys (butlast channels) shms
           (reassemble sys ssb (len_of data) (take n data) channels))
         (\<lambda>(data, channels'). io_return (data, channels', shms))) w1"
    unfolding all .
  have "unat (len_of data) \<noteq> unat (len_of (take n data))"
    using assms(3) n(2) by simp
  then have ne: "len_of data \<noteq> len_of (take n data)" by metis
  have "rust_len (take n data @ drop n data)" "v_pending (view w1) (\<rho> b) = bare chunks @ later"
    using assms(3) b(2,3) w1 by simp_all
  from reassemble_run [OF assms(1,2) this(1) n(5) this(2), of ?channels] obtain w2 where
    re: "reassemble sys ssb (len_of data) (take n data) (?channels @ [opaque_from_fd (\<rho> b)]) w1 =
        Some (Ok (data, ?channels), w2)"
      "\<forall>x. x \<noteq> \<rho> b \<longrightarrow> v_pending (view w2) x = v_pending (view w1) x"
      "\<exists>w3. view w3 = taken (view w1) (\<rho> b) later \<and> (w2 = w3 \<or> sys_close sys (\<rho> b) w3 = (0, w2))"
    unfolding append_take_drop_id .
  have "recv sys ssb fd mode w = Some (Ok (data, ?channels, shms), w2)"
    unfolding run using ne re(1) b(1) by (simp add: drop_received_def Let_def)
  then show thesis
    using that shms b(1,2) re(2,3) w1 Some by simp
qed

lemma recv_transfer:
  assumes "receiving sys view" and "sendbuf_ok ssb" and "rust_len data"
    and "is_transfer ssb data fds pkt rx chunks" and "length (snd pkt) \<le> 64"
    and "v_pending (view w) fd = (fst pkt, map \<rho> (snd pkt)) # ps"
    and "\<rho> ` set (snd pkt) \<subseteq> v_socks (view w) \<union> v_files (view w)"
    and "\<And>b. rx = Some b \<Longrightarrow> \<rho> b \<in> v_socks (view w) \<and> \<rho> b \<noteq> fd \<and>
      v_pending (view w) (\<rho> b) = bare chunks @ later"
  obtains shms w' where "recv sys ssb fd mode w =
      Some (Ok (data, map opaque_from_fd [f \<leftarrow> map \<rho> fds. f \<in> v_socks (view w)], shms), w')"
    "store_fds shms = [f \<leftarrow> map \<rho> fds. f \<notin> v_socks (view w)]"
    "v_pending (view w') fd = ps"
  using recv_transfer_effect [OF assms] by metis

section \<open>The example kernel receives\<close>

definition k_view :: "knl \<Rightarrow> net_view" where
  "k_view w =
     \<lparr>v_pending = k_pending w, v_socks = {fd. k_file w fd = None},
      v_files = {fd. \<exists>i. k_file w fd = Some i \<and> i < 2 ^ 30 \<and> length (k_data w i) < 2 ^ 32}\<rparr>"

lemma k_mmap_file:
  assumes "k_file w fd = Some i" and "i < 2 ^ 30" and "length (k_data w i) < 2 ^ 32"
    and "len_of (k_data w i) \<noteq> 0"
  shows "k_mmap (len_of (k_data w i)) fd w = (Some (k_address i), w)"
proof -
  have "unat (len_of (k_data w i)) = length (k_data w i)"
    by (rule unat_usize_of) (use assms(3) in simp)
  then show ?thesis using assms by (simp add: k_mmap_def)
qed

lemma k_receiving: "receiving k_sys k_view"
  unfolding receiving_def
proof (intro conjI allI impI)
  fix fd w assume "fd \<in> v_files (k_view w)"
  then show "\<exists>mode sz w'. sys_fstat k_sys fd w = ((0, mode, sz), w') \<and> \<not> S_ISSOCK mode \<and>
      k_view w' = k_view w \<and>
      (sz \<noteq> 0 \<longrightarrow> (\<exists>a w''. sys_mmap k_sys sz fd w' = (Some a, w'') \<and> a \<noteq> 0 \<and> k_view w'' = k_view w))"
    by (auto simp: k_view_def k_sys_def k_fstat_def S_ISSOCK_def k_mmap_file k_address_not_0)
qed (auto simp: k_view_def k_sys_def k_recvmsg_def k_recv_def k_receive_def k_poll_def k_setfl_def
  k_close_def k_fstat_def S_ISSOCK_def taken_def)

section \<open>Properties\<close>

lemma filter_message_fds:
  assumes "\<forall>ch \<in> set channels. \<rho> (os_ipc_channel_fd ch) \<in> S"
    and "\<forall>shm \<in> set shms. \<rho> (store_fd (shm_store shm)) \<notin> S"
  shows "[f \<leftarrow> map \<rho> (message_fds channels shms). f \<in> S] = map (\<lambda>ch. \<rho> (os_ipc_channel_fd ch)) channels"
    and "[f \<leftarrow> map \<rho> (message_fds channels shms). f \<notin> S] = map \<rho> (store_fds shms)"
  using assms by (induction channels) (auto simp: message_fds_def filter_id_conv filter_empty_conv)

lemma os_send_wire:
  assumes "sendbuf_ok ssb" and "rust_len data" and "4 * (length (message_fds channels shms) + 1) < 2 ^ 63"
    and "seqpacket_sends sys sent" and "socketpair_fresh sys sent open_fds"
    and "tx_fd self \<in> open_fds w"
    and "os_send sys ssb shared self data channels shms w = Some (Ok (), w')"
  obtains pkt rx chunks where "is_transfer ssb data (message_fds channels shms) pkt rx chunks"
    "sent w' (tx_fd self) = sent w (tx_fd self) @ [pkt]"
    "\<forall>b. rx = Some b \<longrightarrow> (\<exists>i a w1 w2. sys_socketpair sys w1 = ((i, a, b), w2) \<and> i \<ge> 0 \<and>
       a \<notin> open_fds w \<and> sent w' a = bare chunks)"
proof -
  obtain w1 where s: "send sys ssb (tx_fd self) data (message_fds channels shms) w = Some (Ok (), w1)"
    and eq: "sent w' = sent w1"
    using os_send_sent [OF assms(4,7)] .
  from assms(1-6) s show thesis
  proof (cases rule: send_transfer)
    case single
    then show thesis
      using eq by (intro that [of "(header data @ data, message_fds channels shms)" None])
        (auto simp: is_transfer_def)
  next
    case (fragmented i w2 a b w3 chunks pkt)
    have "sent w' (tx_fd self) = sent w (tx_fd self) @ [pkt]" "sent w' a = bare chunks"
      using fragmented(3,7) eq assms(6) by auto
    then show thesis
      using fragmented(1-3,6) by (intro that [of pkt "Some b" chunks]) blast+
  qed
qed

lemma recv_of_transfer:
  assumes "sendbuf_ok ssb" and "rust_len data" and "length (message_fds channels shms) < 64"
    and t: "is_transfer ssb data (message_fds channels shms) pkt rx chunks"
    and "receiving rsys view" and "v_pending (view wr) fd = (fst pkt, map \<rho> (snd pkt)) # ps"
    and chs: "\<forall>ch \<in> set channels. \<rho> (os_ipc_channel_fd ch) \<in> v_socks (view wr)"
    and files: "\<forall>shm \<in> set shms. \<rho> (store_fd (shm_store shm)) \<in> v_files (view wr) - v_socks (view wr)"
    and rx: "\<forall>b. rx = Some b \<longrightarrow> \<rho> b \<in> v_socks (view wr) \<and> \<rho> b \<noteq> fd \<and>
      v_pending (view wr) (\<rho> b) = bare chunks @ later"
  shows "\<exists>rshms wr'. recv rsys ssb fd mode wr =
      Some (Ok (data, map (\<lambda>ch. opaque_from_fd (\<rho> (os_ipc_channel_fd ch))) channels, rshms), wr') \<and>
    store_fds rshms = map \<rho> (store_fds shms) \<and> v_pending (view wr') fd = ps"
proof -
  have pkt: "snd pkt = message_fds channels shms @ (case rx of None \<Rightarrow> [] | Some b \<Rightarrow> [b])"
    using t by (auto simp: is_transfer_def split: option.splits)
  then have len: "length (snd pkt) \<le> 64"
    using assms(3) by (simp split: option.split)
  have "\<rho> ` set (snd pkt) \<subseteq> v_socks (view wr) \<union> v_files (view wr)"
    using chs files rx by (auto simp: pkt message_fds_def split: option.splits)
  with assms(5,6) rx obtain rshms wr' where "recv rsys ssb fd mode wr = Some (Ok (data,
        map opaque_from_fd [f \<leftarrow> map \<rho> (message_fds channels shms). f \<in> v_socks (view wr)], rshms), wr')"
      "store_fds rshms = [f \<leftarrow> map \<rho> (message_fds channels shms). f \<notin> v_socks (view wr)]"
      "v_pending (view wr') fd = ps"
    using recv_transfer [OF _ assms(1,2) t len, of rsys view wr fd \<rho> ps later] by metis
  then show ?thesis
    using chs files filter_message_fds [of channels \<rho> "v_socks (view wr)" shms] by (auto simp: comp_def)
qed

text \<open>C1: A message arrives as it was sent. A successful send of fewer than 64 channels and regions
  leaves a packet on the channel, and the rest of the data on a dedicated socket if it was cut;
  whenever a receiver finds that packet next on its socket and the rest on the socket that came with
  it, its receive in any blocking mode returns exactly the data, the channels and the regions, each in
  the order they were sent, and takes nothing else from its socket. \<open>\<rho>\<close> is the renumbering of the
  descriptors between the two processes.\<close>

theorem send_recv_roundtrip:
  assumes "sendbuf_ok ssb" and "rust_len data" and "length (message_fds channels shms) < 64"
    and "seqpacket_sends sys sent" and "socketpair_fresh sys sent open_fds"
    and "tx_fd self \<in> open_fds w"
    and "os_send sys ssb shared self data channels shms w = Some (Ok (), w')"
  shows "\<exists>pkt rx chunks. is_transfer ssb data (message_fds channels shms) pkt rx chunks \<and>
    sent w' (tx_fd self) = sent w (tx_fd self) @ [pkt] \<and>
    (\<forall>b. rx = Some b \<longrightarrow> (\<exists>i a w1 w2. sys_socketpair sys w1 = ((i, a, b), w2) \<and> i \<ge> 0 \<and>
       a \<notin> open_fds w \<and> sent w' a = bare chunks)) \<and>
    (\<forall>(rsys :: 'v unix_sys) view wr fd \<rho> ps later mode.
       receiving rsys view \<and> v_pending (view wr) fd = (fst pkt, map \<rho> (snd pkt)) # ps \<and>
       (\<forall>ch \<in> set channels. \<rho> (os_ipc_channel_fd ch) \<in> v_socks (view wr)) \<and>
       (\<forall>shm \<in> set shms. \<rho> (store_fd (shm_store shm)) \<in> v_files (view wr) - v_socks (view wr)) \<and>
       (\<forall>b. rx = Some b \<longrightarrow> \<rho> b \<in> v_socks (view wr) \<and> \<rho> b \<noteq> fd \<and>
          v_pending (view wr) (\<rho> b) = bare chunks @ later) \<longrightarrow>
       (\<exists>rshms wr'. recv rsys ssb fd mode wr =
            Some (Ok (data, map (\<lambda>ch. opaque_from_fd (\<rho> (os_ipc_channel_fd ch))) channels, rshms), wr') \<and>
          store_fds rshms = map \<rho> (store_fds shms) \<and> v_pending (view wr') fd = ps))"
proof -
  have "4 * (length (message_fds channels shms) + 1) < 2 ^ 63" using assms(3) by simp
  from os_send_wire [OF assms(1,2) this assms(4-7)] obtain pkt rx chunks where
    t: "is_transfer ssb data (message_fds channels shms) pkt rx chunks"
      "sent w' (tx_fd self) = sent w (tx_fd self) @ [pkt]"
      "\<forall>b. rx = Some b \<longrightarrow> (\<exists>i a w1 w2. sys_socketpair sys w1 = ((i, a, b), w2) \<and> i \<ge> 0 \<and>
         a \<notin> open_fds w \<and> sent w' a = bare chunks)" .
  note received = recv_of_transfer [OF assms(1-3) t(1)]
  show ?thesis
    by (rule exI [of _ pkt], rule exI [of _ rx], rule exI [of _ chunks], intro conjI allI impI t(1,2) t(3) [rule_format],
      assumption, elim conjE, rule received, assumption+)
qed

theorem send_recv_roundtrip_witness:
  "\<exists>w'. recv k_sys 48 4 Nonblocking example_sent = Some (Ok (example_data, [], []), w')"
proof -
  have hyps: "sendbuf_ok 48" "rust_len example_data" "length (message_fds [] []) < 64"
      "tx_fd \<lparr>tx_fd = 3\<rparr> \<in> k_open example_pair"
    by (simp_all add: example_data_def message_fds_def example_pair_def k_open_def k_defs)
  note inst = send_recv_roundtrip [OF hyps(1-3) k_seqpacket_sends k_socketpair_fresh hyps(4)
    os_send_example, where ?'v = knl]
  then obtain pkt rx chunks where t: "is_transfer 48 example_data (message_fds [] []) pkt rx chunks"
    and s: "k_sent example_sent (tx_fd \<lparr>tx_fd = 3\<rparr>) = k_sent example_pair (tx_fd \<lparr>tx_fd = 3\<rparr>) @ [pkt]"
    and d: "\<forall>b. rx = Some b \<longrightarrow> (\<exists>i a w1 w2. sys_socketpair k_sys w1 = ((i, a, b), w2) \<and> i \<ge> 0 \<and>
       a \<notin> k_open example_pair \<and> k_sent example_sent a = bare chunks)"
    and r: "\<forall>(rsys :: knl unix_sys) view wr fd \<rho> ps later mode.
       receiving rsys view \<and> v_pending (view wr) fd = (fst pkt, map \<rho> (snd pkt)) # ps \<and>
       (\<forall>ch \<in> set []. \<rho> (os_ipc_channel_fd ch) \<in> v_socks (view wr)) \<and>
       (\<forall>shm \<in> set ([] :: os_ipc_shared_memory list). \<rho> (store_fd (shm_store shm)) \<in> v_files (view wr) - v_socks (view wr)) \<and>
       (\<forall>b. rx = Some b \<longrightarrow> \<rho> b \<in> v_socks (view wr) \<and> \<rho> b \<noteq> fd \<and>
          v_pending (view wr) (\<rho> b) = bare chunks @ later) \<longrightarrow>
       (\<exists>rshms wr'. recv rsys 48 fd mode wr =
            Some (Ok (example_data, map (\<lambda>ch. opaque_from_fd (\<rho> (os_ipc_channel_fd ch))) [], rshms), wr') \<and>
          store_fds rshms = map \<rho> (store_fds []) \<and> v_pending (view wr') fd = ps)"
    by (elim exE conjE) (rule that)
  have pkt: "pkt = ([10, 0, 0, 0, 0, 0, 0, 0, 1, 2, 3, 4, 5, 6, 7, 8], [6])"
    using s by (simp add: example_sent_def example_pair_def k_defs)
  have rx: "rx = Some 6"
    using t by (auto simp: pkt is_transfer_def message_fds_def example_data_def split: option.splits)
  obtain i a w1 w2 where "sys_socketpair k_sys w1 = ((i, a, 6), w2)" "k_sent example_sent a = bare chunks"
    using d rx by blast
  moreover from this have "a = 5" by (simp add: k_sys_def k_socketpair_def Let_def)
  ultimately have "bare chunks = [([9, 10], [])]" by (simp add: example_sent_def)
  then show ?thesis
    using r [rule_format, of k_sys k_view example_sent 4 "\<lambda>f. f" "[]" "[]" Nonblocking] k_receiving
    by (auto simp: pkt rx k_view_def example_sent_def k_init_def)
qed

section \<open>Termination\<close>

text \<open>The kernel returns from every read and poll, and a read gives at most the bytes asked for.\<close>

definition recvs_return :: "'w unix_sys \<Rightarrow> bool" where
  "recvs_return sys \<longleftrightarrow>
     (\<forall>fd m w. \<exists>r w'. sys_recvmsg sys fd m w = Some (r, w') \<and>
        (\<forall>out. r = Some out \<longrightarrow> length (out_data out) \<le> sum_list (map unat (msg_iov m)))) \<and>
     (\<forall>fd t w. sys_poll sys fd t w \<noteq> None) \<and>
     (\<forall>fd n w. \<exists>r w'. sys_recv sys fd n w = Some (r, w') \<and>
        (\<forall>bytes. r = Some bytes \<longrightarrow> length bytes \<le> unat n))"

lemma recv_step_grows:
  assumes "recvs_return sys" and "unat tot_sz < 2 ^ 63" and "len_of buf < tot_sz"
    and "rust_len buf"
  obtains r w' where "recv_step sys ssb rx tot_sz buf w = Some (r, w')"
    "\<forall>buf'. r = Ok buf' \<longrightarrow> length buf < length buf' \<and> length buf' \<le> unat tot_sz"
proof (cases "fragment_size ssb :: (usize, unix_error) res")
  case (Ok n)
  show thesis
  proof (cases "checked_add (len_of buf) n :: (usize, unix_error) res")
    case add: (Ok e)
    define f where "f = min e tot_sz"
    obtain q w1 where r: "sys_recv sys rx (f - len_of buf) w = Some (q, w1)"
        "\<forall>bytes. q = Some bytes \<longrightarrow> length bytes \<le> unat (f - len_of buf)"
      using assms(1) unfolding recvs_return_def by blast
    have step: "recv_step sys ssb rx tot_sz buf w =
        (if \<not> f \<ge> len_of buf then io_panic
         else io_bind (call_blocking (sys_recv sys rx (f - len_of buf))) (\<lambda>result.
           case result of None \<Rightarrow> unix_last sys
           | Some bytes \<Rightarrow> if bytes = [] then io_throw ChannelClosedError
               else io_return (buf @ bytes))) w"
      by (simp only: recv_step_def Let_def Ok add io_bind_lift_Ok f_def)
    show thesis
    proof (cases "len_of buf \<le> f")
      case True
      then have "unat (f - len_of buf) = unat f - length buf" "length buf \<le> unat f"
        using assms(4) by (simp_all add: unat_sub word_le_nat_alt)
      moreover have "unat f \<le> unat tot_sz"
        by (simp add: f_def min_def word_le_nat_alt)
      ultimately show thesis
        using r True that step
        by (cases q) (auto simp: call_blocking_def unix_last_def split: if_splits)
    qed (use that step in auto)
  qed (use that Ok in \<open>auto simp: recv_step_def Let_def\<close>)
qed (use that in \<open>auto simp: recv_step_def Let_def\<close>)

lemma recv_loop_returns:
  assumes "recvs_return sys" and "unat tot_sz < 2 ^ 63" and "rust_len buf"
  shows "returns (recv_loop sys ssb rx tot_sz buf) w"
  using assms(3)
proof (induction "unat tot_sz - length buf" arbitrary: buf w rule: less_induct)
  case (less buf w)
  show ?case
  proof (cases "len_of buf < tot_sz")
    case True
    obtain r w' where s: "recv_step sys ssb rx tot_sz buf w = Some (r, w')"
        "\<forall>buf'. r = Ok buf' \<longrightarrow> length buf < length buf' \<and> length buf' \<le> unat tot_sz"
      using recv_step_grows [OF assms(1,2) True less.prems] .
    show ?thesis
    proof (cases r)
      case (Ok buf')
      then have "unat tot_sz - length buf' < unat tot_sz - length buf" "rust_len buf'"
        using s(2) Ok assms(2) by auto
      from less.hyps [OF this] show ?thesis
        using s(1) True Ok by (simp add: returns_def recv_loop.simps [of sys ssb rx tot_sz buf w])
    qed (use s(1) True in \<open>simp_all add: returns_def recv_loop.simps [of sys ssb rx tot_sz buf w]\<close>)
  next
    case False
    then show ?thesis by (simp add: returns_def recv_loop.simps [of sys ssb rx tot_sz buf w])
  qed
qed

lemma mapped_store_returns [io_none]: "returns (mapped_store sys store given) w"
  by (auto simp: mapped_store_def map_file_def map_region_def drop_backing_store_def io_none
    split: option.split)

lemma shm_from_fd_returns [io_none]: "returns (shm_from_fd sys fd) w"
  by (auto simp: shm_from_fd_def Let_def io_none split: prod.split)

lemma drop_shm_returns [io_none]: "returns (drop_shm sys p shm) w"
  by (auto simp: drop_shm_def drop_backing_store_def io_none)

lemma drop_received_returns [io_none]:
  assumes "returns m w"
  shows "returns (drop_received sys channels shms m) w"
proof -
  obtain r w' where m: "m w = Some (r, w')"
    using assms by (auto simp: returns_iff)
  have "returns (drop_all (drop_shm sys) p shms) w'"
      "returns (drop_all drop_opaque p channels) w'" for p w'
    by (rule drop_all_returns, simp add: io_none drop_opaque_def)+
  then have "returns (io_finally (io_lift r) (\<lambda>p. io_finally (drop_all (drop_shm sys) p shms)
      (\<lambda>u. drop_all drop_opaque (p \<or> u) channels))) w'"
    by (simp add: io_none)
  then show ?thesis
    using m by (cases r) (simp_all add: returns_def drop_received_def)
qed

lemma sort_fds_returns [io_none]: "returns (sort_fds sys fds channels shms) w"
proof (induction fds arbitrary: channels shms w)
  case (Cons fd fds)
  then show ?case by (auto simp: io_none is_socket_def split: prod.split)
qed (simp add: io_none)

lemma reassemble_returns:
  assumes "recvs_return sys" and "rust_len buf"
  shows "returns (reassemble sys ssb tot_sz buf channels) w"
  using recv_loop_returns [OF assms(1) _ assms(2)]
  by (auto simp: reassemble_def Let_def io_none)

lemma unix_cmsg_recv_returns:
  assumes "recvs_return sys"
  shows "returns (unix_cmsg_recv sys fd m mode) w"
    and "unix_cmsg_recv sys fd m mode w = Some (Ok out, w') \<Longrightarrow>
      length (out_data out) \<le> sum_list (map unat (msg_iov m))"
proof -
  have r: "\<exists>q w'. sys_recvmsg sys fd m w = Some (q, w') \<and>
      (\<forall>out. q = Some out \<longrightarrow> length (out_data out) \<le> sum_list (map unat (msg_iov m)))"
    and p: "sys_poll sys fd t w \<noteq> None" for w t
    using assms unfolding recvs_return_def by blast+
  have "sys_recvmsg sys fd m w \<noteq> None" for w
    using r by (metis option.distinct(1))
  then have "returns (recvmsg_result sys fd m) w" for w
    by (simp add: recvmsg_result_def io_none) (simp add: returns_def)
  moreover have "returns (before_recvmsg sys fd mode) w"
    using p by (cases mode) (simp_all add: before_recvmsg_def io_none)
  ultimately show "returns (unix_cmsg_recv sys fd m mode) w"
    by (simp add: unix_cmsg_recv_def io_none)
  assume "unix_cmsg_recv sys fd m mode w = Some (Ok out, w')"
  then have "\<exists>w1 w2. sys_recvmsg sys fd m w1 = Some (Some out, w2)"
    by (fastforce simp: unix_cmsg_recv_def recvmsg_result_def io_inv split: if_splits option.splits)
  then obtain w1 w2 where "sys_recvmsg sys fd m w1 = Some (Some out, w2)" by blast
  then show "length (out_data out) \<le> sum_list (map unat (msg_iov m))"
    using r [of w1] by auto
qed

text \<open>C15: A receive returns whenever the kernel's own calls do: the loop that collects the fragments
  makes progress with every read and stops at the announced length.\<close>

theorem recv_terminates:
  assumes "recvs_return sys" and "sendbuf_ok ssb"
  shows "returns (recv sys ssb fd mode) w"
proof -
  have "returns (unix_cmsg_new sys iov) w" for iov w
    by (simp add: unix_cmsg_new_def io_none)
  moreover have "rust_len (drop 8 (out_data out))"
    if "unix_cmsg_recv sys fd m mode w1 = Some (Ok out, w2)"
      and "unix_cmsg_new sys [8, (ssb - 40) AND - 8] w = Some (Ok m, w1)" for m w1 out w2
  proof -
    have "msg_iov m = [8, (ssb - 40) AND - 8]"
      using that(2) by (auto simp: unix_cmsg_new_def cmsg_space_272 io_inv new_msghdr_def split: if_splits)
    then have "length (out_data out) \<le> 8 + max_fragment ssb"
      using unix_cmsg_recv_returns(2) [OF assms(1) that(1)] get_max_fragment_size_eq(2) [OF assms(2)]
      by simp
    moreover have "max_fragment ssb \<le> unat ssb - 40" by (rule div_times_less_eq_dividend)
    ultimately show ?thesis using assms(2) by (simp only: length_drop) linarith
  qed
  ultimately show ?thesis
    using unix_cmsg_recv_returns(1) [OF assms(1)] reassemble_returns [OF assms(1)]
    by (auto simp: recv_def get_max_fragment_size_eq(1) [OF assms(2)] Let_def io_none
      split: prod.split)
qed

definition ready_sys :: "knl unix_sys" where
  "ready_sys = k_sys\<lparr>
     sys_recvmsg := (\<lambda>fd m w. Some (Some (delivered m ([5, 0, 0, 0, 0, 0, 0, 0, 1], [7])), w)),
     sys_recv := (\<lambda>fd n w. Some (Some (take (unat n) [2]), w)),
     sys_poll := (\<lambda>fd t w. Some (1, w))\<rparr>"

theorem recv_terminates_witness: "returns (recv ready_sys 48 4 (Timeout 10)) (k_init 100)"
  by (rule recv_terminates) (auto simp: recvs_return_def ready_sys_def delivered_def Let_def)

section \<open>Messages that do not arrive whole\<close>

text \<open>Once the sending end is gone, a read on an empty socket reports the end of the stream.\<close>

definition hung_up :: "'w unix_sys \<Rightarrow> ('w \<Rightarrow> net_view) \<Rightarrow> fd \<Rightarrow> bool" where
  "hung_up sys view fd \<longleftrightarrow>
     (\<forall>w n. v_pending (view w) fd = [] \<longrightarrow>
        (\<exists>w'. sys_recv sys fd n w = Some (Some [], w') \<and> view w' = view w))"

lemma recv_loop_torn:
  assumes "receiving sys view" and "sendbuf_ok ssb" and "hung_up sys view rx"
    and "unat tot_sz < 2 ^ 63" and "chunks_ok (unat ssb - 32) part chunks"
    and "length (buf @ part) < unat tot_sz" and "v_pending (view w) rx = bare chunks"
  shows "\<exists>w'. recv_loop sys ssb rx tot_sz buf w = Some (Err ChannelClosedError, w')"
  using assms(5-7)
proof (induction chunks arbitrary: buf part w)
  case Nil
  have len: "len_of buf < tot_sz" and buf: "unat (len_of buf) = length buf"
    using Nil.prems(2) assms(4) by (simp_all add: word_less_nat_alt)
  have frag: "fragment_size ssb = Ok (ssb - 32)" "unat (ssb - 32) = unat ssb - 32"
    using assms(2) by (simp_all add: fragment_size_eq)
  have "unat (len_of buf) + unat (ssb - 32) < 2 ^ 64"
    using Nil.prems(2) assms(2,4) unfolding buf frag(2) by simp linarith
  note add = checked_add_nat [OF this]
  have ge: "min (len_of buf + (ssb - 32)) tot_sz \<ge> len_of buf"
    using add(2) len by (simp add: min_def word_le_nat_alt word_less_nat_alt)
  obtain w1 where "sys_recv sys rx (min (len_of buf + (ssb - 32)) tot_sz - len_of buf) w =
      Some (Some [], w1)"
    using assms(3) Nil.prems(3) unfolding hung_up_def by auto
  then have "recv_step sys ssb rx tot_sz buf w = Some (Err ChannelClosedError, w1)"
    using ge unfolding recv_step_def Let_def frag(1) add(1) io_bind_lift_Ok
    by (simp add: call_blocking_def)
  then show ?case
    using len by (simp add: recv_loop.simps [of sys ssb rx tot_sz buf w])
next
  case (Cons c chunks)
  have part: "part = c @ concat chunks" "c \<noteq> []" "length c \<le> unat ssb - 32"
      "chunks_ok (unat ssb - 32) (concat chunks) chunks"
    using Cons.prems(1) by (auto simp: chunks_ok_def)
  have "v_pending (view w) rx = (c, []) # bare chunks" "length buf + length c \<le> unat tot_sz"
    using Cons.prems part(1) by simp_all
  from recv_step_run [OF assms(1,2,4) this(1) part(2,3) this(2)] obtain w1 where
    w1: "recv_step sys ssb rx tot_sz buf w = Some (Ok (buf @ c), w1)"
      "view w1 = taken (view w) rx (bare chunks)" .
  have "len_of buf < tot_sz"
    using Cons.prems(2) assms(4) by (simp add: word_less_nat_alt)
  moreover have "\<exists>w'. recv_loop sys ssb rx tot_sz (buf @ c) w1 = Some (Err ChannelClosedError, w')"
    by (rule Cons.IH) (use Cons.prems(2) part(1,4) w1(2) in simp_all)
  ultimately show ?case
    using w1 by (simp add: recv_loop.simps [of sys ssb rx tot_sz buf w])
qed

lemma reassemble_torn:
  assumes "receiving sys view" and "sendbuf_ok ssb" and "hung_up sys view rx"
    and "unat tot_sz < 2 ^ 63" and "chunks_ok (unat ssb - 32) part chunks"
    and "length (buf @ part) < unat tot_sz" and "v_pending (view w) rx = bare chunks"
  shows "\<exists>w'. reassemble sys ssb tot_sz buf (channels @ [opaque_from_fd rx]) w =
    Some (Err ChannelClosedError, w')"
proof -
  obtain w1 where l: "recv_loop sys ssb rx tot_sz buf w = Some (Err ChannelClosedError, w1)"
    using recv_loop_torn [OF assms] by blast
  obtain w' where c: "sys_close sys rx w1 = (0, w')"
    using receivingD(6) [OF assms(1)] by blast
  have sub: "checked_sub tot_sz (len_of buf) = Ok (tot_sz - len_of buf)"
    using assms(4,6) by (simp add: checked_sub_def word_less_nat_alt)
  show ?thesis
    using l c assms(4)
    by (simp add: sub Let_def reassemble_def to_receiver_def opaque_from_fd_def receiver_from_fd_def
      io_finally_def drop_receiver_def close_checked_def call_def)
qed

lemma drop_all_opaque:
  "drop_all drop_opaque p (map opaque_from_fd fds) w =
     Some (if \<exists>f \<in> set fds. f \<noteq> -1 then Panic else Ok (), w)"
  by (induction fds arbitrary: p w) (auto simp: drop_opaque_def opaque_from_fd_def io_finally_def)

text \<open>The first packet of a cut message, with nothing but sockets attached.\<close>

lemma recv_cut:
  assumes "receiving sys view" and "sendbuf_ok ssb" and "rust_len data"
    and "v_pending (view w) fd = (header data @ take n data, fds) # ps"
    and "n < length data" and "n \<le> max_fragment ssb" and "set (take 64 fds) \<subseteq> v_socks (view w)"
  obtains w1 where "view w1 = taken (view w) fd ps"
    "recv sys ssb fd mode w =
      io_bind (drop_received sys (butlast (map opaque_from_fd (take 64 fds))) []
          (reassemble sys ssb (len_of data) (take n data) (map opaque_from_fd (take 64 fds))))
        (\<lambda>(data, channels'). io_return (data, channels', [])) w1"
proof -
  have "length (take n data) \<le> max_fragment ssb" "set (take 64 fds) \<subseteq> v_socks (view w) \<union> v_files (view w)"
    using assms(6,7) by auto
  from recv_first [OF assms(1-4) this] obtain shms w1 where
      w1: "view w1 = taken (view w) fd ps"
    and shms: "store_fds shms = [f \<leftarrow> take 64 fds. f \<notin> v_socks (view w)]"
    and run: "recv sys ssb fd mode w =
      (let channels = map opaque_from_fd [f \<leftarrow> take 64 fds. f \<in> v_socks (view w)] in
       if len_of data = len_of (take n data) then io_return (take n data, channels, shms)
       else io_bind (drop_received sys (butlast channels) shms
           (reassemble sys ssb (len_of data) (take n data) channels))
         (\<lambda>(data, channels'). io_return (data, channels', shms))) w1" .
  have "unat (len_of data) \<noteq> unat (len_of (take n data))"
    using assms(3,5) by simp
  then have "len_of data \<noteq> len_of (take n data)" by metis
  moreover have "[f \<leftarrow> take 64 fds. f \<in> v_socks (view w)] = take 64 fds"
      "[f \<leftarrow> take 64 fds. f \<notin> v_socks (view w)] = []"
    using assms(7) by (auto simp: filter_id_conv filter_empty_conv)
  ultimately show thesis
    using that w1 run shms by (simp add: Let_def)
qed

text \<open>C38: When the sender disappears in the middle of a long message, the receiver reports a closed
  channel, unless the message carried channels: then the unused channels are dropped on the way out
  and their assertion panics.\<close>

theorem recv_torn_message:
  assumes "receiving sys view" and "sendbuf_ok ssb" and "rust_len data"
    and "v_pending (view w) fd = (header data @ take n data, fds @ [b]) # ps"
    and "n < length data" and "n \<le> max_fragment ssb" and "length fds < 64"
    and "set fds \<subseteq> v_socks (view w) \<inter> {0..}" and "b \<in> v_socks (view w)" and "b \<noteq> fd"
    and "hung_up sys view b" and "v_pending (view w) b = bare chunks"
    and "chunks_ok (unat ssb - 32) part chunks" and "length part < length data - n"
  shows "\<exists>w'. recv sys ssb fd mode w =
    Some (if fds = [] then Err ChannelClosedError else Panic, w')"
proof -
  have all: "take 64 (fds @ [b]) = fds @ [b]" using assms(7) by simp
  then have "set (take 64 (fds @ [b])) \<subseteq> v_socks (view w)" using assms(8,9) by auto
  from recv_cut [OF assms(1-6) this] obtain w1 where w1: "view w1 = taken (view w) fd ps"
    and run: "recv sys ssb fd mode w =
      io_bind (drop_received sys (map opaque_from_fd fds) []
          (reassemble sys ssb (len_of data) (take n data) (map opaque_from_fd fds @ [opaque_from_fd b])))
        (\<lambda>(data, channels'). io_return (data, channels', [])) w1"
    unfolding all by auto
  have tot: "unat (len_of data) = length data" using assms(3) by simp
  have "unat (len_of data) < 2 ^ 63" "length (take n data @ part) < unat (len_of data)"
      "v_pending (view w1) b = bare chunks"
    using assms(3,5,10,12,14) w1 unfolding tot by simp_all
  from reassemble_torn [OF assms(1,2,11) this(1) assms(13) this(2,3), of "map opaque_from_fd fds"]
  obtain w2 where re: "reassemble sys ssb (len_of data) (take n data)
      (map opaque_from_fd fds @ [opaque_from_fd b]) w1 = Some (Err ChannelClosedError, w2)" by blast
  have "(\<exists>f \<in> set fds. f \<noteq> -1) \<longleftrightarrow> fds \<noteq> []"
    using assms(8) by (cases fds) auto
  then have "drop_received sys (map opaque_from_fd fds) [] (reassemble sys ssb (len_of data)
      (take n data) (map opaque_from_fd fds @ [opaque_from_fd b])) w1 =
      Some (if fds = [] then Err ChannelClosedError else Panic, w2)"
    using re by (simp add: drop_received_def io_finally_def drop_all_opaque)
  then show ?thesis unfolding run by simp
qed

definition dead_sys :: "knl unix_sys" where
  "dead_sys = k_sys\<lparr>sys_recv := (\<lambda>fd n w.
     if k_pending w fd = [] then Some (Some [], w) else k_recv fd n w)\<rparr>"

lemma dead_receiving: "receiving dead_sys k_view"
  using k_receiving unfolding receiving_def
  by (simp add: dead_sys_def k_view_def k_sys_def del: split_paired_All)

definition example_torn :: "fd list \<Rightarrow> knl" where
  "example_torn fds = (k_init 100)\<lparr>k_pending := (\<lambda>_. [])(4 := [(header [1, 2, 3] @ [1, 2], fds)])\<rparr>"

theorem recv_torn_message_witness:
  "(\<exists>w'. recv dead_sys 48 4 Blocking (example_torn [6]) = Some (Err ChannelClosedError, w')) \<and>
   (\<exists>w'. recv dead_sys 48 4 Blocking (example_torn [7, 6]) = Some (Panic, w'))"
proof -
  have "\<exists>w'. recv dead_sys 48 4 Blocking (example_torn (fds @ [6])) =
      Some (if fds = [] then Err ChannelClosedError else Panic, w')" if "fds = [] \<or> fds = [7]" for fds
    by (rule recv_torn_message [OF dead_receiving, where n = 2 and data = "[1, 2, 3]" and ps = "[]"
        and chunks = "[]" and part = "[]"])
      (use that in \<open>auto simp: example_torn_def k_view_def k_init_def chunks_ok_def hung_up_def
        dead_sys_def\<close>)
  from this [of "[]"] this [of "[7]"] show ?thesis by simp
qed

text \<open>C39: The control buffer holds 64 descriptors. A cut message with 64 channels has the dedicated
  socket as its 65th descriptor, which is discarded: the receiver takes the last of the message's own
  channels for it and completes the message with whatever packets wait there.\<close>

theorem recv_descriptor_overflow:
  assumes "receiving sys view" and "sendbuf_ok ssb" and "rust_len data"
    and "v_pending (view w) fd = (header data @ take n data, fds @ [b]) # ps"
    and "n < length data" and "n \<le> max_fragment ssb" and "length fds = 64"
    and "set fds \<subseteq> v_socks (view w)" and "last fds \<noteq> fd"
    and "v_pending (view w) (last fds) = bare chunks @ later"
    and "chunks_ok (unat ssb - 32) other chunks" and "length other = length data - n"
  shows "\<exists>w'. recv sys ssb fd mode w =
    Some (Ok (take n data @ other, map opaque_from_fd (butlast fds), []), w')"
proof -
  have all: "take 64 (fds @ [b]) = fds" using assms(7) by simp
  then have "set (take 64 (fds @ [b])) \<subseteq> v_socks (view w)" using assms(8) by simp
  from recv_cut [OF assms(1-6) this] obtain w1 where w1: "view w1 = taken (view w) fd ps"
    and run: "recv sys ssb fd mode w =
      io_bind (drop_received sys (butlast (map opaque_from_fd fds)) []
          (reassemble sys ssb (len_of data) (take n data) (map opaque_from_fd fds)))
        (\<lambda>(data, channels'). io_return (data, channels', [])) w1"
    unfolding all .
  have "fds \<noteq> []" using assms(7) by auto
  then have split: "map opaque_from_fd fds = map opaque_from_fd (butlast fds) @ [opaque_from_fd (last fds)]"
    by (metis append_butlast_last_id list.simps(8,9) map_append)
  have len: "length (take n data @ other) = length data" using assms(5,12) by simp
  then have "rust_len (take n data @ other)" using assms(3) by simp
  moreover have "v_pending (view w1) (last fds) = bare chunks @ later"
    using assms(9,10) w1 by simp
  ultimately obtain w2 where "reassemble sys ssb (len_of (take n data @ other)) (take n data)
      (map opaque_from_fd (butlast fds) @ [opaque_from_fd (last fds)]) w1 =
      Some (Ok (take n data @ other, map opaque_from_fd (butlast fds)), w2)"
    using reassemble_run [OF assms(1,2) _ assms(11)] by blast
  then show ?thesis
    unfolding run len split by (simp add: drop_received_def)
qed

definition example_overflow :: knl where
  "example_overflow = (k_init 100)\<lparr>k_pending := (\<lambda>_. [])
     (4 := [(header [1, 2, 3] @ [1, 2], replicate 64 7 @ [6])], 6 := [([3], [])], 7 := [([99], [])])\<rparr>"

theorem recv_descriptor_overflow_witness:
  "\<exists>w'. recv k_sys 48 4 Blocking example_overflow =
    Some (Ok (take 2 [1, 2, 3] @ [99], map opaque_from_fd (butlast (replicate 64 7)), []), w')"
  by (rule recv_descriptor_overflow [OF k_receiving, where b = 6 and ps = "[]" and later = "[]"
      and chunks = "[[99]]"])
    (auto simp: example_overflow_def k_view_def k_init_def chunks_ok_def last_replicate)

section \<open>The blocking flag\<close>

text \<open>\<open>nb w fd\<close> tells whether \<open>O_NONBLOCK\<close> is set; only \<open>fcntl\<close> changes it.\<close>

definition tracks_flag :: "'w unix_sys \<Rightarrow> ('w \<Rightarrow> fd \<Rightarrow> bool) \<Rightarrow> bool" where
  "tracks_flag sys nb \<longleftrightarrow>
     (\<forall>fd b w r w'. sys_setfl sys fd b w = (r, w') \<longrightarrow> r \<ge> 0 \<and> nb w' = (nb w)(fd := b)) \<and>
     (\<forall>fd m w r w'. sys_recvmsg sys fd m w = Some (r, w') \<longrightarrow> nb w' = nb w) \<and>
     (\<forall>fd t w r w'. sys_poll sys fd t w = Some (r, w') \<longrightarrow> nb w' = nb w)"

text \<open>C29: Whatever the outcome of reading a packet in any mode (data, nothing there, an error, a closed
  channel), the socket is in blocking mode again afterwards.\<close>

theorem unix_cmsg_recv_restores_blocking:
  assumes "tracks_flag sys nb" and "\<not> nb w fd" and "unix_cmsg_recv sys fd m mode w = Some (r, w')"
  shows "\<not> nb w' fd"
proof -
  have set: "nb w' = (nb w)(fd := b)" if "sys_setfl sys fd b w = (i, w')" for b w i w'
    using assms(1) that unfolding tracks_flag_def by blast
  have read: "nb w' = nb w" if "sys_recvmsg sys fd m w = Some (q, w')" for w q w'
    using assms(1) that unfolding tracks_flag_def by blast
  have poll: "nb w' = nb w" if "sys_poll sys fd t w = Some (q, w')" for t w q w'
    using assms(1) that unfolding tracks_flag_def by blast
  have ge: "0 \<le> i" if "sys_setfl sys fd b w = (i, w')" for b w i w'
    using assms(1) that unfolding tracks_flag_def by blast
  have res: "nb w2 = nb w1" if "recvmsg_result sys fd m w1 = Some (q, w2)" for w1 q w2
    using that read by (auto simp: recvmsg_result_def io_inv)
  show ?thesis
  proof (cases "mode = Nonblocking")
    case True
    then obtain w1 where "before_recvmsg sys fd mode w = Some (Ok (), w1)"
      by (cases "sys_setfl sys fd True w") (auto simp: before_recvmsg_def call_def dest: ge)
    with True assms(3) show ?thesis
      by (auto simp: unix_cmsg_recv_def recvmsg_result_def io_inv dest: set ge split: if_splits)
  next
    case False
    then have "nb w1 = nb w" if "before_recvmsg sys fd mode w = Some (q, w1)" for q w1
      using that by (cases mode) (auto simp: before_recvmsg_def io_inv dest: poll split: if_splits)
    with False assms(2,3) show ?thesis
      by (auto simp: unix_cmsg_recv_def io_inv dest: res)
  qed
qed

lemma k_tracks_flag: "tracks_flag k_sys k_nonblock"
  by (auto simp: tracks_flag_def k_sys_def k_setfl_def k_recvmsg_def k_receive_def k_poll_def
    split: list.splits if_splits)

theorem unix_cmsg_recv_restores_blocking_witness:
  "\<not> k_nonblock ((snd (k_socketpair (k_init 100)))\<lparr>k_nonblock := (\<lambda>_. False)(4 := False), k_errno := 11\<rparr>) 4"
  by (rule unix_cmsg_recv_restores_blocking [OF k_tracks_flag, of example_pair 4
      "\<lparr>msg_iov = [8, 8], msg_control = (), msg_controllen = 272\<rparr>" Nonblocking "Err (Errno 11)"])
    (simp_all add: example_pair_def unix_cmsg_recv_def before_recvmsg_def recvmsg_result_def
      k_defs io_defs Let_def EAGAIN_def)

end
