(* ===== verification/Ipc_Errors.thy ===== *)
theory Ipc_Errors
  imports Platform
begin

text \<open>
  Errors of the public interface (\<open>IpcError\<close> and \<open>TryRecvError\<close> of \<open>src/src/ipc.rs\<close>), the standard
  library's \<open>io::Error\<close> they wrap, and the contract that every back end's error type meets: which of
  its errors mean that the channel is closed, and which that it is only empty.
\<close>

section \<open>\<open>std::io::Error\<close>\<close>

text \<open>
  An error code of the system, or a kind with a payload of the back end's own type \<open>'p\<close>. Of the kinds
  the crate looks at \<open>Interrupted\<close> and \<open>ConnectionReset\<close>; \<open>CodeKind\<close> stands for those the standard
  library gives to the other codes.
\<close>

datatype io_kind =
  Interrupted | ConnectionReset | BrokenPipe | WouldBlock | NotFound | TimedOut | InvalidData | InvalidInput
| OtherKind | CodeKind int

datatype 'p io_error = RawOs int | Custom io_kind 'p

definition EINTR :: int where "EINTR = 4"
definition ECONNRESET :: int where "ECONNRESET = 104"

definition decode_error_kind :: "int \<Rightarrow> io_kind" where
  "decode_error_kind code =
     (if code = EINTR then Interrupted else if code = ECONNRESET then ConnectionReset
      else if code = 32 then BrokenPipe else if code = 11 then WouldBlock
      else if code = 2 then NotFound else if code = 110 then TimedOut else if code = 22 then InvalidInput
      else CodeKind code)"

fun io_error_kind :: "'p io_error \<Rightarrow> io_kind" where
  "io_error_kind (RawOs code) = decode_error_kind code"
| "io_error_kind (Custom k p) = k"

fun raw_os_error :: "'p io_error \<Rightarrow> int option" where
  "raw_os_error (RawOs code) = Some code"
| "raw_os_error (Custom k p) = None"

text \<open>Errors of \<open>bincode\<close>: one that wraps an \<open>io::Error\<close>, and its own, by their message.\<close>

datatype 'p bincode_error = BincodeIo "'p io_error" | BincodeMsg string

section \<open>The public error types\<close>

datatype 'p ipc_error = Bincode "'p bincode_error" | Io "'p io_error" | Disconnected

datatype 'p try_recv_error = IpcErr "'p ipc_error" | Empty

text \<open>\<open>Display\<close>, over the texts of the wrapped errors, and \<open>StdError::source\<close>.\<close>

fun display_ipc_error ::
  "('p bincode_error \<Rightarrow> string) \<Rightarrow> ('p io_error \<Rightarrow> string) \<Rightarrow> 'p ipc_error \<Rightarrow> string" where
  "display_ipc_error b i (Bincode err) = ''bincode error: '' @ b err"
| "display_ipc_error b i (Io err) = ''io error: '' @ i err"
| "display_ipc_error b i Disconnected = ''disconnected''"

fun display_try_recv_error ::
  "('p bincode_error \<Rightarrow> string) \<Rightarrow> ('p io_error \<Rightarrow> string) \<Rightarrow> 'p try_recv_error \<Rightarrow> string" where
  "display_try_recv_error b i (IpcErr err) = ''ipc error: '' @ display_ipc_error b i err"
| "display_try_recv_error b i Empty = ''empty''"

fun source_ipc_error :: "'p ipc_error \<Rightarrow> ('p bincode_error + 'p io_error) option" where
  "source_ipc_error (Bincode err) = Some (Inl err)"
| "source_ipc_error (Io err) = Some (Inr err)"
| "source_ipc_error Disconnected = None"

fun source_try_recv_error :: "'p try_recv_error \<Rightarrow> 'p ipc_error option" where
  "source_try_recv_error (IpcErr err) = Some err"
| "source_try_recv_error Empty = None"

section \<open>The contract of a back end's errors\<close>

text \<open>
  \<open>closed\<close> is the back end's \<open>channel_is_closed\<close>, \<open>empty\<close> its condition for \<open>TryRecvError::Empty\<close>, and
  the others are its \<open>From\<close> conversions.
\<close>

locale backend_error =
  fixes closed :: "'e \<Rightarrow> bool"
    and empty :: "'e \<Rightarrow> bool"
    and to_ipc :: "'e \<Rightarrow> 'p ipc_error"
    and to_try :: "'e \<Rightarrow> 'p try_recv_error"
    and to_io :: "'e \<Rightarrow> 'p io_error"
  assumes to_ipc: "to_ipc e \<in> (if closed e then {Disconnected} else {Io (to_io e), Bincode (BincodeIo (to_io e))})"
    and to_try_empty: "to_try e = Empty \<longleftrightarrow> empty e"
    and to_try_other: "\<not> empty e \<Longrightarrow> to_try e = IpcErr (to_ipc e)"
    and closed_not_empty: "closed e \<Longrightarrow> \<not> empty e"
begin

lemma to_ipc_closed: "to_ipc e = Disconnected \<longleftrightarrow> closed e"
  using to_ipc [of e] by (auto split: if_splits)

lemma try_disconnected: "to_try e = IpcErr Disconnected \<longleftrightarrow> closed e"
  by (metis closed_not_empty to_ipc_closed to_try_empty to_try_other try_recv_error.distinct(1)
    try_recv_error.inject)

lemma source_of_closed: "closed e \<Longrightarrow> source_ipc_error (to_ipc e) = None"
  by (simp add: to_ipc_closed [THEN iffD2])

lemma try_source: "source_try_recv_error (to_try e) = (if empty e then None else Some (to_ipc e))"
  by (cases "empty e") (simp_all add: to_try_empty [THEN iffD2] to_try_other)

end

end
