(* ===== verification/Unix_Error.thy ===== *)
theory Unix_Error
  imports Unix_Sys Ipc_Errors
begin

text \<open>
  The conversions of the Unix back end's \<open>UnixError\<close>: into \<open>io::Error\<close> and back, into the error of
  \<open>bincode\<close>, and into the two error types of the public interface.
\<close>

type_synonym unix_io_error = "unix_error io_error"

fun unix_to_io :: "unix_error \<Rightarrow> unix_io_error" where
  "unix_to_io (Errno code) = RawOs code"
| "unix_to_io ChannelClosedError = Custom ConnectionReset ChannelClosedError"

definition unix_to_bincode :: "unix_error \<Rightarrow> unix_error bincode_error" where
  "unix_to_bincode e = BincodeIo (unix_to_io e)"

fun unix_to_ipc :: "unix_error \<Rightarrow> unix_error ipc_error" where
  "unix_to_ipc ChannelClosedError = Disconnected"
| "unix_to_ipc e = Io (unix_to_io e)"

definition unix_is_empty :: "unix_error \<Rightarrow> bool" where
  "unix_is_empty e \<longleftrightarrow> e = Errno EAGAIN \<or> e = Errno EWOULDBLOCK"

fun unix_to_try :: "unix_error \<Rightarrow> unix_error try_recv_error" where
  "unix_to_try ChannelClosedError = IpcErr Disconnected"
| "unix_to_try (Errno code) =
     (if code = EAGAIN \<or> code = EWOULDBLOCK then Empty else IpcErr (Io (unix_to_io (Errno code))))"

text \<open>\<open>From<io::Error>\<close> asserts that an error without a code is a reset connection.\<close>

definition io_to_unix :: "'p io_error \<Rightarrow> (unix_error, 'e) res" where
  "io_to_unix e =
     (case raw_os_error e of
        Some code \<Rightarrow> Ok (Errno code)
      | None \<Rightarrow> if io_error_kind e = ConnectionReset then Ok ChannelClosedError else Panic)"

definition display_unix_error :: "(unix_io_error \<Rightarrow> string) \<Rightarrow> unix_error \<Rightarrow> string" where
  "display_unix_error show_io e =
     (case e of
        Errno code \<Rightarrow> show_io (RawOs code)
      | ChannelClosedError \<Rightarrow> ''All senders for this socket closed'')"

interpretation ue: backend_error unix_channel_is_closed unix_is_empty unix_to_ipc unix_to_try unix_to_io
proof
  fix e
  show "unix_to_ipc e \<in> (if unix_channel_is_closed e then {Disconnected}
      else {Io (unix_to_io e), Bincode (BincodeIo (unix_to_io e))})" by (cases e) auto
  show "unix_to_try e = Empty \<longleftrightarrow> unix_is_empty e" by (cases e) (auto simp: unix_is_empty_def)
  show "\<not> unix_is_empty e \<Longrightarrow> unix_to_try e = IpcErr (unix_to_ipc e)"
    by (cases e) (auto simp: unix_is_empty_def)
  show "unix_channel_is_closed e \<Longrightarrow> \<not> unix_is_empty e" by (auto simp: unix_is_empty_def)
qed

text \<open>C30: The errors of the Unix back end survive the trip through \<open>io::Error\<close>, and a caller of the
  public interface sees \<open>Disconnected\<close> exactly for a closed channel and \<open>Empty\<close> exactly for
  \<open>EAGAIN\<close>; every other code arrives as an I/O error with that code.\<close>

theorem unix_error_conversions:
  "io_to_unix (unix_to_io e) = Ok e \<and>
   (unix_to_try e = IpcErr Disconnected \<longleftrightarrow> unix_channel_is_closed e) \<and>
   (unix_to_try e = Empty \<longleftrightarrow> e = Errno EAGAIN) \<and>
   (unix_to_ipc e = Disconnected \<longleftrightarrow> unix_channel_is_closed e) \<and>
   (\<not> unix_channel_is_closed e \<and> e \<noteq> Errno EAGAIN \<longrightarrow>
      (\<exists>code. e = Errno code \<and> unix_to_ipc e = Io (RawOs code) \<and> unix_to_try e = IpcErr (Io (RawOs code))))"
  using ue.to_ipc_closed [of e] ue.to_try_empty [of e] ue.try_disconnected [of e]
  by (cases e) (auto simp: io_to_unix_def unix_is_empty_def EAGAIN_def EWOULDBLOCK_def)

theorem unix_error_conversions_witness:
  "unix_to_ipc (Errno 32) = Io (RawOs 32) \<and> unix_to_try (Errno 32) = IpcErr (Io (RawOs 32))"
  using unix_error_conversions [of "Errno 32"] by (simp add: EAGAIN_def EWOULDBLOCK_def)

end
