(* ===== verification/Transport.thy ===== *)
theory Transport
  imports Platform
begin

text \<open>
  What a channel promises to its two ends: messages come out in the order they went in, each of them
  once. The locale is stated for one channel; \<open>out\<close> is what the receiver gets to see of a message.
\<close>

text \<open>Sending messages one after the other, and receiving a number of them.\<close>

primrec in_sequence :: "('a \<Rightarrow> ('w, unit, 'e) io) \<Rightarrow> 'a list \<Rightarrow> ('w, unit, 'e) io" where
  "in_sequence f [] = io_return ()"
| "in_sequence f (x # xs) = io_bind (f x) (\<lambda>_. in_sequence f xs)"

primrec repeated :: "nat \<Rightarrow> ('w, 'r, 'e) io \<Rightarrow> ('w, 'r list, 'e) io" where
  "repeated 0 m = io_return []"
| "repeated (Suc n) m = io_bind m (\<lambda>x. io_bind (repeated n m) (\<lambda>xs. io_return (x # xs)))"

locale fifo_receiver =
  fixes live :: "'w \<Rightarrow> bool"
    and queue :: "'w \<Rightarrow> 'm list"
    and recv :: "('w, 'r, 'f) io"
    and out :: "'m \<Rightarrow> 'r"
  assumes recv_head: "live w \<Longrightarrow> queue w = m # ms \<Longrightarrow>
      \<exists>w'. recv w = Some (Ok (out m), w') \<and> live w' \<and> queue w' = ms"
begin

lemma recv_n_queue:
  assumes "live w" and "queue w = ms @ rest"
  shows "\<exists>w'. repeated (length ms) recv w = Some (Ok (map out ms), w') \<and> live w' \<and> queue w' = rest"
  using assms
proof (induction ms arbitrary: w)
  case Nil
  then show ?case by simp
next
  case (Cons m ms)
  then have "queue w = m # (ms @ rest)" by simp
  then obtain w1 where w1: "recv w = Some (Ok (out m), w1)" "live w1" "queue w1 = ms @ rest"
    using recv_head [OF Cons.prems(1)] by blast
  obtain w' where "repeated (length ms) recv w1 = Some (Ok (map out ms), w')" "live w'" "queue w' = rest"
    using Cons.IH [OF w1(2,3)] by blast
  with w1 show ?case by simp
qed

end

text \<open>A channel that takes every message at once.\<close>

locale fifo_transport = fifo_receiver live queue recv out
  for live :: "'w \<Rightarrow> bool" and queue :: "'w \<Rightarrow> 'm list" and recv :: "('w, 'r, 'f) io" and out :: "'m \<Rightarrow> 'r" +
  fixes send :: "'m \<Rightarrow> ('w, unit, 'e) io"
  assumes send_live: "live w \<Longrightarrow>
      \<exists>w'. send m w = Some (Ok (), w') \<and> live w' \<and> queue w' = queue w @ [m]"
begin

lemma send_all_queue:
  assumes "live w"
  shows "\<exists>w'. in_sequence send ms w = Some (Ok (), w') \<and> live w' \<and> queue w' = queue w @ ms"
  using assms
proof (induction ms arbitrary: w)
  case Nil
  then show ?case by simp
next
  case (Cons m ms)
  obtain w1 where w1: "send m w = Some (Ok (), w1)" "live w1" "queue w1 = queue w @ [m]"
    using send_live [OF Cons.prems] by blast
  obtain w' where "in_sequence send ms w1 = Some (Ok (), w')" "live w'" "queue w' = queue w1 @ ms"
    using Cons.IH [OF w1(2)] by blast
  with w1 show ?case by simp
qed

text \<open>What was sent is received, in order, behind what was there before.\<close>

lemma fifo:
  assumes "live w" and "queue w = []"
  shows "\<exists>w1 w2. in_sequence send ms w = Some (Ok (), w1) \<and> live w1 \<and>
    repeated (length ms) recv w1 = Some (Ok (map out ms), w2) \<and> live w2 \<and> queue w2 = []"
proof -
  obtain w1 where w1: "in_sequence send ms w = Some (Ok (), w1)" "live w1" "queue w1 = ms"
    using send_all_queue [OF assms(1)] assms(2) by auto
  then obtain w2 where "repeated (length ms) recv w1 = Some (Ok (map out ms), w2)" "live w2" "queue w2 = []"
    using recv_n_queue [OF w1(2), of ms "[]"] by auto
  with w1(1,2) show ?thesis by blast
qed

end

end
