(* ===== verification/Receiver_Set.thy ===== *)
theory Receiver_Set
  imports Transport
begin

text \<open>
  What a receiver set promises to the code that routes its messages: an identifier given out by \<open>add\<close>
  is not one of a current member, and \<open>select\<close> reports only members, each of them no more once it has
  reported it closed. Every back end's \<open>OsIpcReceiverSet\<close> provides this; \<open>IpcReceiverSet\<close> and the routers
  rely on it.
\<close>

section \<open>Reports\<close>

text \<open>A report is the member it is about and whether it says that the member is closed.\<close>

type_synonym set_report = "u64 \<times> bool"

fun os_report :: "('op, 'shm) os_ipc_selection_result \<Rightarrow> set_report" where
  "os_report (DataReceived i d c s) = (i, False)"
| "os_report (ChannelClosed i) = (i, True)"

fun report_ok :: "u64 set \<Rightarrow> set_report list \<Rightarrow> bool" where
  "report_ok M [] \<longleftrightarrow> True"
| "report_ok M ((i, closed) # rs) \<longleftrightarrow> i \<in> M \<and> report_ok (if closed then M - {i} else M) rs"

fun left_after :: "u64 set \<Rightarrow> set_report list \<Rightarrow> u64 set" where
  "left_after M [] = M"
| "left_after M ((i, closed) # rs) = left_after (if closed then M - {i} else M) rs"

lemma report_ok_append [simp]:
  "report_ok M (rs @ qs) \<longleftrightarrow> report_ok M rs \<and> report_ok (left_after M rs) qs"
  by (induction M rs rule: report_ok.induct) auto

lemma left_after_append [simp]: "left_after M (rs @ qs) = left_after (left_after M rs) qs"
  by (induction M rs rule: left_after.induct) auto

lemma left_after_eq: "left_after M rs = M - {i. (i, True) \<in> set rs}"
  by (induction M rs rule: left_after.induct) auto

lemma report_ok_members: "report_ok M rs \<Longrightarrow> (i, c) \<in> set rs \<Longrightarrow> i \<in> M"
  by (induction M rs rule: report_ok.induct) (auto split: if_splits)

lemma report_ok_subset: "report_ok M (map f xs) \<Longrightarrow> fst ` f ` set xs \<subseteq> M"
  by (force dest: report_ok_members [where c = "snd (f x)" and i = "fst (f x)" for x])

lemma report_ok_mono: "report_ok M rs \<Longrightarrow> M \<subseteq> N \<Longrightarrow> report_ok N rs"
proof (induction M rs arbitrary: N rule: report_ok.induct)
  case (2 M i closed rs)
  then show ?case by (cases closed) (auto simp: Diff_mono)
qed simp

lemma report_ok_closed_once:
  "report_ok M (rs @ (i, True) # qs) \<Longrightarrow> (i, c) \<notin> set qs"
  by (auto dest: report_ok_members)

section \<open>The contract\<close>

locale receiver_set =
  fixes invar :: "'s \<Rightarrow> bool"
    and members :: "'s \<Rightarrow> u64 set"
    and add :: "'r \<Rightarrow> ('s, u64, 'e) io"
    and select :: "('s, 'sel list, 'e) io"
    and report :: "'sel \<Rightarrow> set_report"
  assumes add_Ok: "invar s \<Longrightarrow> add r s = Some (Ok i, s') \<Longrightarrow>
      invar s' \<and> i \<notin> members s \<and> members s' = insert i (members s)"
    and add_Err: "invar s \<Longrightarrow> add r s = Some (Err e, s') \<Longrightarrow> invar s' \<and> members s' = members s"
    and select_Ok: "invar s \<Longrightarrow> select s = Some (Ok rs, s') \<Longrightarrow>
      invar s' \<and> report_ok (members s) (map report rs) \<and>
      members s' = left_after (members s) (map report rs)"
    and select_Err: "invar s \<Longrightarrow> select s = Some (Err e, s') \<Longrightarrow> invar s' \<and> members s' \<subseteq> members s"
begin

text \<open>Selecting again and again: over the whole run a member is reported closed once, and never after.\<close>

lemma repeated_select_Ok:
  assumes "invar s" and "repeated n select s = Some (Ok rss, s')"
  shows "invar s' \<and> report_ok (members s) (map report (concat rss)) \<and>
    members s' = left_after (members s) (map report (concat rss))"
  using assms
proof (induction n arbitrary: s rss)
  case 0
  then show ?case by simp
next
  case (Suc n)
  obtain rs1 s1 rss2 where 1: "select s = Some (Ok rs1, s1)"
    and 2: "repeated n select s1 = Some (Ok rss2, s')" and rss: "rss = rs1 # rss2"
    using Suc.prems(2) by (simp add: io_bind_eq_Some) blast
  note s1 = select_Ok [OF Suc.prems(1) 1]
  then have "invar s1" ..
  note s2 = Suc.IH [OF this 2]
  have m: "members s1 = left_after (members s) (map report rs1)"
    using s1 by blast
  show ?case
    using s1 s2 unfolding rss concat.simps map_append report_ok_append left_after_append m by blast
qed

lemma closed_is_final:
  assumes "invar s" and "repeated n select s = Some (Ok rss, s')"
    and "concat rss = xs @ x # ys" and "report x = (i, True)"
  shows "i \<notin> fst ` report ` set ys \<and> i \<notin> members s'"
proof -
  note run = repeated_select_Ok [OF assms(1,2), unfolded assms(3)]
  then have "report_ok (members s) (map report xs @ (i, True) # map report ys)"
    using assms(4) by simp
  then have "(i, c) \<notin> set (map report ys)" for c
    by (rule report_ok_closed_once)
  then have "fst r \<noteq> i" if "r \<in> set (map report ys)" for r
    using that by (cases r) auto
  then have "i \<notin> fst ` report ` set ys"
    by auto
  moreover have "members s' = members s - {j. (j, True) \<in> set (map report (xs @ x # ys))}"
    unfolding left_after_eq [symmetric] using run by blast
  then have "i \<notin> members s'"
    by (simp add: assms(4))
  ultimately show ?thesis ..
qed

end

section \<open>Sets that number their members\<close>

text \<open>
  An identifier is not given out twice: \<open>bound\<close> is above all that were given out so far. So the events
  of one \<open>select\<close> cannot be confused with those of a receiver added while they are handled.
\<close>

locale numbered_receiver_set = receiver_set invar members add select report
  for invar :: "'s \<Rightarrow> bool" and members :: "'s \<Rightarrow> u64 set" and add :: "'r \<Rightarrow> ('s, u64, 'e) io"
    and select :: "('s, 'sel list, 'e) io" and report :: "'sel \<Rightarrow> set_report" +
  fixes bound :: "'s \<Rightarrow> u64"
  assumes members_bound: "invar s \<Longrightarrow> i \<in> members s \<Longrightarrow> i < bound s"
    and add_bound: "invar s \<Longrightarrow> add r s = Some (Ok i, s') \<Longrightarrow> bound s \<le> i \<and> i < bound s'"
    and select_bound: "invar s \<Longrightarrow> select s = Some (Ok rs, s') \<Longrightarrow> bound s' = bound s"

section \<open>Sets behind another interface\<close>

text \<open>Code that acts on a part of an object.\<close>

definition on_part :: "('t \<Rightarrow> 's) \<Rightarrow> ('s \<Rightarrow> 't \<Rightarrow> 't) \<Rightarrow> ('s, 'a, 'e) io \<Rightarrow> ('t, 'a, 'e) io" where
  "on_part get put m = (\<lambda>t. map_option (\<lambda>(r, s). (r, put s t)) (m (get t)))"

lemma on_part_eq_Some [io_inv]:
  "on_part get put m t = Some (r, t') \<longleftrightarrow> (\<exists>s. m (get t) = Some (r, s) \<and> t' = put s t)"
  by (auto simp: on_part_def)

text \<open>
  A set that holds another one and whose operations are those of the one inside, with the errors
  converted and the results wrapped, keeps the contract.
\<close>

locale wrapped_receiver_set = numbered_receiver_set invar members add select report bound
  for invar :: "'s \<Rightarrow> bool" and members :: "'s \<Rightarrow> u64 set" and add :: "'r \<Rightarrow> ('s, u64, 'e) io"
    and select :: "('s, 'sel list, 'e) io" and report :: "'sel \<Rightarrow> set_report" and bound :: "'s \<Rightarrow> u64" +
  fixes get :: "'t \<Rightarrow> 's"
    and put :: "'s \<Rightarrow> 't \<Rightarrow> 't"
    and receiver :: "'q \<Rightarrow> 'r"
    and conv :: "'e \<Rightarrow> 'f"
    and wrap :: "'sel \<Rightarrow> 'x"
    and wrap_report :: "'x \<Rightarrow> set_report"
  assumes get_put: "get (put s t) = s"
    and wrap_report: "wrap_report (wrap x) = report x"

sublocale wrapped_receiver_set \<subseteq> wrapped: numbered_receiver_set "\<lambda>t. invar (get t)" "\<lambda>t. members (get t)"
  "\<lambda>r. on_part get put (io_map_err conv (add (receiver r)))"
  "on_part get put (io_bind (io_map_err conv select) (\<lambda>rs. io_return (map wrap rs)))" wrap_report
  "\<lambda>t. bound (get t)"
proof
  fix t r i t' e rs
  assume inv: "invar (get t)"
  show "invar (get t') \<and> i \<notin> members (get t) \<and> members (get t') = insert i (members (get t))"
    if "on_part get put (io_map_err conv (add (receiver r))) t = Some (Ok i, t')"
    using add_Ok [OF inv, of "receiver r" i] that by (auto simp: on_part_eq_Some io_map_err_eq_Some get_put)
  show "invar (get t') \<and> members (get t') = members (get t)"
    if "on_part get put (io_map_err conv (add (receiver r))) t = Some (Err e, t')"
    using add_Err [OF inv, of "receiver r"] that by (auto simp: on_part_eq_Some io_map_err_eq_Some get_put)
  show "invar (get t') \<and> report_ok (members (get t)) (map wrap_report rs) \<and>
      members (get t') = left_after (members (get t)) (map wrap_report rs)"
    if run: "on_part get put (io_bind (io_map_err conv select) (\<lambda>rs. io_return (map wrap rs))) t = Some (Ok rs, t')"
  proof -
    obtain os s' where "select (get t) = Some (Ok os, s')" and rs: "rs = map wrap os" and t': "t' = put s' t"
      using run by (auto simp: on_part_eq_Some io_bind_eq_Some io_map_err_eq_Some)
    moreover have "map wrap_report rs = map report os" by (simp add: rs wrap_report)
    ultimately show ?thesis using select_Ok [OF inv] unfolding t' get_put by (simp only: refl)
  qed
  show "invar (get t') \<and> members (get t') \<subseteq> members (get t)"
    if "on_part get put (io_bind (io_map_err conv select) (\<lambda>rs. io_return (map wrap rs))) t = Some (Err e, t')"
    using select_Err [OF inv] that
    by (auto simp: on_part_eq_Some io_bind_eq_Some io_map_err_eq_Some get_put)
  show "i < bound (get t)" if "i \<in> members (get t)"
    using members_bound [OF inv that] .
  show "bound (get t) \<le> i \<and> i < bound (get t')"
    if "on_part get put (io_map_err conv (add (receiver r))) t = Some (Ok i, t')"
    using add_bound [OF inv, of "receiver r" i] that by (auto simp: on_part_eq_Some io_map_err_eq_Some get_put)
  show "bound (get t') = bound (get t)"
    if "on_part get put (io_bind (io_map_err conv select) (\<lambda>rs. io_return (map wrap rs))) t = Some (Ok rs, t')"
    using select_bound [OF inv] that by (auto simp: on_part_eq_Some io_bind_eq_Some io_map_err_eq_Some get_put)
qed

end
