(* ===== verification/Unix_Set.thy ===== *)
theory Unix_Set
  imports Unix_Recv Unix_Error Receiver_Set
begin

text \<open>
  \<open>OsIpcReceiverSet\<close> of the Unix back end: receivers registered with a poll object under their
  descriptor as token, and \<open>select\<close>, which waits for events and receives one message for each. The
  poll object is \<open>mio\<close>'s, a parameter of the model.
\<close>

section \<open>\<open>mio\<close>\<close>

text \<open>
  \<open>Poll::new\<close>, \<open>register\<close> (level-triggered, for reading), \<open>deregister\<close> and \<open>poll\<close> without a timeout, which
  gives the events: their tokens and whether they are readable.
\<close>

record 'w mio =
  mio_new :: "'w \<Rightarrow> (unix_io_error + nat) \<times> 'w"
  mio_register :: "nat \<Rightarrow> fd \<Rightarrow> usize \<Rightarrow> 'w \<Rightarrow> (unix_io_error + unit) \<times> 'w"
  mio_deregister :: "nat \<Rightarrow> fd \<Rightarrow> 'w \<Rightarrow> (unix_io_error + unit) \<times> 'w"
  mio_poll :: "nat \<Rightarrow> 'w \<Rightarrow> ((unix_io_error + (usize \<times> bool) list) \<times> 'w) option"

text \<open>\<open>?\<close> on a result of \<open>mio\<close> converts the error with \<open>From<io::Error>\<close>.\<close>

definition mio_try :: "('w \<Rightarrow> (unix_io_error + 'a) \<times> 'w) \<Rightarrow> ('w, 'a, unix_error) io" where
  "mio_try f =
     io_bind (call f) (\<lambda>r. case r of
         Inr x \<Rightarrow> io_return x
       | Inl e \<Rightarrow> io_bind (io_lift (io_to_unix e)) io_throw)"

definition mio_unwrap :: "('w \<Rightarrow> (unix_io_error + 'a) \<times> 'w) \<Rightarrow> ('w, 'a, unix_error) io" where
  "mio_unwrap f = io_bind (call f) (\<lambda>r. case r of Inr x \<Rightarrow> io_return x | Inl e \<Rightarrow> io_panic)"

section \<open>The set\<close>

record poll_entry =
  pe_id :: u64
  pe_fd :: fd

record unix_receiver_set =
  incrementor :: u64
  set_poll :: nat
  pollfds :: "usize \<Rightarrow> poll_entry option"

type_synonym 'w set_io_world = "'w \<times> unix_receiver_set"

definition fd_token :: "fd \<Rightarrow> usize" where
  "fd_token fd = word_of_int fd"

definition unix_set_new :: "'w mio \<Rightarrow> ('w, unix_receiver_set, unix_error) io" where
  "unix_set_new mio =
     io_bind (mio_try (mio_new mio)) (\<lambda>poll.
       io_return \<lparr>incrementor = 0, set_poll = poll, pollfds = (\<lambda>_. None)\<rparr>)"

text \<open>\<open>incrementor.next().unwrap()\<close>: the range \<open>0..\<close> of \<open>u64\<close> overflows after its last element.\<close>

definition next_index :: "('w set_io_world, u64, unix_error) io" where
  "next_index = (\<lambda>(w, s).
     if incrementor s = -1 then Some (Panic, (w, s))
     else Some (Ok (incrementor s), (w, s\<lparr>incrementor := incrementor s + 1\<rparr>)))"

text \<open>
  After \<open>consume_fd\<close> the receiver holds no descriptor, so dropping it does nothing; before, when the
  incrementor overflows, dropping it closes the descriptor.
\<close>

definition unix_set_add ::
  "'w unix_sys \<Rightarrow> 'w mio \<Rightarrow> os_ipc_receiver \<Rightarrow> ('w set_io_world, u64, unix_error) io" where
  "unix_set_add sys mio receiver =
     io_bind (io_on_failure next_index (\<lambda>panicking. on_world (drop_receiver sys panicking receiver)))
       (\<lambda>last_index.
     let fd = fst (consume_fd receiver); tok = fd_token fd in
     io_bind (\<lambda>(w, s). on_world (mio_try (mio_register mio (set_poll s) fd tok)) (w, s)) (\<lambda>_.
     io_bind (on_self (\<lambda>s. ((), s\<lparr>pollfds := (pollfds s)(tok \<mapsto> \<lparr>pe_id = last_index, pe_fd = fd\<rparr>)\<rparr>)))
       (\<lambda>_. io_return last_index)))"

text \<open>
  Waiting for at least one event. An interrupted wait is repeated; so is one that reports nothing, so
  that waiting may go on forever.
\<close>

partial_function (option) wait_events ::
  "'w unix_sys \<Rightarrow> 'w mio \<Rightarrow> nat \<Rightarrow> 'w \<Rightarrow> (((usize \<times> bool) list, unix_error) res \<times> 'w) option" where
  "wait_events sys mio poll w =
     Option.bind (mio_poll mio poll w) (\<lambda>(r, w').
       case r of
         Inr events \<Rightarrow> if events = [] then wait_events sys mio poll w' else Some (Ok events, w')
       | Inl e \<Rightarrow>
           if io_error_kind e \<noteq> Interrupted then Some (Err (Errno (sys_errno sys w')), w')
           else wait_events sys mio poll w')"

type_synonym unix_selection_result =
  "(os_opaque_ipc_channel, os_ipc_shared_memory) os_ipc_selection_result"

text \<open>A closed channel leaves the set: it is removed, deregistered and its descriptor is closed.\<close>

definition remove_closed ::
  "'w unix_sys \<Rightarrow> 'w mio \<Rightarrow> usize \<Rightarrow> poll_entry \<Rightarrow> ('w set_io_world, unix_selection_result, unix_error) io" where
  "remove_closed sys mio tok e =
     io_bind (on_self (\<lambda>s. ((), s\<lparr>pollfds := (pollfds s)(tok := None)\<rparr>))) (\<lambda>_.
     io_bind (\<lambda>(w, s). on_world (mio_unwrap (mio_deregister mio (set_poll s) (pe_fd e))) (w, s)) (\<lambda>_.
     io_bind (on_world (call (sys_close sys (pe_fd e)))) (\<lambda>_.
     io_return (ChannelClosed (pe_id e)))))"

definition handle_event ::
  "'w unix_sys \<Rightarrow> usize \<Rightarrow> 'w mio \<Rightarrow> usize \<times> bool
     \<Rightarrow> ('w set_io_world, unix_selection_result, unix_error) io" where
  "handle_event sys ssb mio evt = (\<lambda>(w, s).
     case (snd evt, pollfds s (fst evt)) of
       (True, Some e) \<Rightarrow>
         io_match (on_world (recv sys ssb (pe_fd e) Blocking))
           (\<lambda>(data, channels, shms). io_return (DataReceived (pe_id e) data channels shms))
           (\<lambda>err. if unix_channel_is_closed err then remove_closed sys mio (fst evt) e else io_throw err)
           (w, s)
     | (True, None) \<Rightarrow> io_panic (w, s)
     | (False, _) \<Rightarrow> io_panic (w, s))"

text \<open>Returning an error drops the results gathered before it.\<close>

definition drop_selection_result ::
  "'w unix_sys \<Rightarrow> bool \<Rightarrow> unix_selection_result \<Rightarrow> ('w, unit, unix_error) io" where
  "drop_selection_result sys panicking r =
     (case r of
        DataReceived i d channels shms \<Rightarrow>
          io_finally (drop_all drop_opaque panicking channels)
            (\<lambda>unwinding. drop_all (drop_shm sys) (panicking \<or> unwinding) shms)
      | ChannelClosed i \<Rightarrow> io_return ())"

fun handle_events ::
  "'w unix_sys \<Rightarrow> usize \<Rightarrow> 'w mio \<Rightarrow> (usize \<times> bool) list \<Rightarrow> unix_selection_result list
     \<Rightarrow> ('w set_io_world, unix_selection_result list, unix_error) io" where
  "handle_events sys ssb mio [] results = io_return results"
| "handle_events sys ssb mio (evt # evts) results =
     io_bind (io_on_failure (handle_event sys ssb mio evt)
         (\<lambda>panicking. on_world (drop_all (drop_selection_result sys) panicking results)))
       (\<lambda>r. handle_events sys ssb mio evts (results @ [r]))"

definition unix_select ::
  "'w unix_sys \<Rightarrow> usize \<Rightarrow> 'w mio \<Rightarrow> ('w set_io_world, unix_selection_result list, unix_error) io" where
  "unix_select sys ssb mio =
     io_bind (\<lambda>(w, s). on_world (wait_events sys mio (set_poll s)) (w, s)) (\<lambda>events.
       handle_events sys ssb mio events [])"

text \<open>\<open>Drop\<close> closes every descriptor, in the order \<open>entries\<close> in which the hash map gives its values, and
  stops at a failed assertion.\<close>

fun unix_set_drop :: "'w unix_sys \<Rightarrow> bool \<Rightarrow> poll_entry list \<Rightarrow> ('w, unit, unix_error) io" where
  "unix_set_drop sys panicking [] = io_return ()"
| "unix_set_drop sys panicking (e # entries) =
     io_bind (close_checked sys panicking (pe_fd e)) (\<lambda>_. unix_set_drop sys panicking entries)"

section \<open>What receiving leaves alone\<close>

text \<open>
  Descriptors \<open>R\<close> that receiving has nothing to do with: the calls it makes keep a property \<open>I\<close> of the
  world as long as they close nothing of \<open>R\<close>, and descriptors that arrive are new ones.
\<close>

definition spares :: "'w unix_sys \<Rightarrow> ('w \<Rightarrow> bool) \<Rightarrow> fd set \<Rightarrow> bool" where
  "spares sys I R \<longleftrightarrow>
     (\<forall>n. ensures I (call (sys_malloc sys n) :: ('w, _, unix_error) io) (\<lambda>_. True)) \<and>
     (\<forall>fd m. ensures I (call_blocking (sys_recvmsg sys fd m) :: ('w, _, unix_error) io)
        (\<lambda>out. case out of None \<Rightarrow> True | Some out \<Rightarrow> set (cmsg_fds (out_cmsg out)) \<inter> R = {})) \<and>
     (\<forall>fd n. ensures I (call_blocking (sys_recv sys fd n) :: ('w, _, unix_error) io) (\<lambda>_. True)) \<and>
     (\<forall>fd. ensures I (call (sys_fstat sys fd) :: ('w, _, unix_error) io) (\<lambda>_. True)) \<and>
     (\<forall>n fd. ensures I (call (sys_mmap sys n fd) :: ('w, _, unix_error) io) (\<lambda>_. True)) \<and>
     (\<forall>a n. ensures I (call (sys_munmap sys a n) :: ('w, _, unix_error) io) (\<lambda>_. True)) \<and>
     (\<forall>fd. fd \<notin> R \<longrightarrow> ensures I (call (sys_close sys fd) :: ('w, _, unix_error) io) (\<lambda>_. True))"

lemma sparesD:
  assumes "spares sys I R"
  shows "ensures I (call (sys_malloc sys n) :: ('w, _, unix_error) io) (\<lambda>_. True)"
    and "ensures I (call_blocking (sys_recvmsg sys fd m) :: ('w, _, unix_error) io)
      (\<lambda>out. case out of None \<Rightarrow> True | Some out \<Rightarrow> set (cmsg_fds (out_cmsg out)) \<inter> R = {})"
    and "ensures I (call_blocking (sys_recv sys fd k) :: ('w, _, unix_error) io) (\<lambda>_. True)"
    and "ensures I (call (sys_fstat sys fd) :: ('w, _, unix_error) io) (\<lambda>_. True)"
    and "ensures I (call (sys_mmap sys k fd) :: ('w, _, unix_error) io) (\<lambda>_. True)"
    and "ensures I (call (sys_munmap sys a k) :: ('w, _, unix_error) io) (\<lambda>_. True)"
    and "fd \<notin> R \<Longrightarrow> ensures I (call (sys_close sys fd) :: ('w, _, unix_error) io) (\<lambda>_. True)"
  using assms unfolding spares_def by simp_all

lemma unix_last_ensures [io_ensures]: "ensures I (unix_last sys) Q"
  by (simp add: ensures_def unix_last_def)

lemma close_checked_ensures:
  assumes "spares sys I R" and "fd \<notin> R"
  shows "ensures I (close_checked sys p fd) (\<lambda>_. True)"
  unfolding close_checked_def by (rule io_ensures sparesD(7) [OF assms] | simp)+

lemma drop_shm_ensures:
  assumes "spares sys I R" and "store_fd (shm_store shm) \<notin> R"
  shows "ensures I (drop_shm sys p shm) (\<lambda>_. True)"
  unfolding drop_shm_def drop_backing_store_def
  by (rule io_ensures sparesD(6) [OF assms(1)] close_checked_ensures [OF assms] | simp)+

lemma drop_opaque_ensures: "ensures I (drop_opaque p c) (\<lambda>_. True)"
  by (simp add: drop_opaque_def ensures_def)

lemma drop_received_eq:
  "drop_received sys channels shms m = io_on_failure m (\<lambda>panicking.
     io_finally (drop_all (drop_shm sys) panicking shms)
       (\<lambda>unwinding. drop_all drop_opaque (panicking \<or> unwinding) channels))"
  unfolding drop_received_def io_on_failure_def ..

abbreviation shm_away :: "fd set \<Rightarrow> os_ipc_shared_memory list \<Rightarrow> bool" where
  "shm_away R shms \<equiv> \<forall>shm\<in>set shms. store_fd (shm_store shm) \<notin> R"

abbreviation op_away :: "fd set \<Rightarrow> os_opaque_ipc_channel list \<Rightarrow> bool" where
  "op_away R channels \<equiv> \<forall>c\<in>set channels. op_fd c \<notin> R"

lemma drop_received_ensures:
  assumes "spares sys I R" and "shm_away R shms" and "ensures I m Q"
  shows "ensures I (drop_received sys channels shms m) Q"
  unfolding drop_received_eq
  by (intro ensures_on_failure ensures_finally drop_all_ensures drop_opaque_ensures assms(3)
    drop_shm_ensures [OF assms(1)]) (use assms(2) in auto)

lemma shm_from_fd_ensures:
  assumes "spares sys I R" and "fd \<notin> R"
  shows "ensures I (shm_from_fd sys fd) (\<lambda>shm. store_fd (shm_store shm) \<notin> R)"
proof -
  have st: "store_fd (store_from_fd fd) = fd" by (simp add: store_from_fd_def)
  have region: "ensures I (map_region sys fd n) (\<lambda>_. True)" for n
    unfolding map_region_def by (rule io_ensures sparesD(5) [OF assms(1)] TrueI)+
  have size: "ensures I (io_bind (call (sys_fstat sys fd)) (\<lambda>(r, mode, size).
      if r = 0 then io_return size else io_panic) :: (_, _, unix_error) io) (\<lambda>_. True)"
    by (rule io_ensures sparesD(4) [OF assms(1)] TrueI)+
  have "ensures I (mapped_store sys (store_from_fd fd) None) (\<lambda>_. True)"
    unfolding mapped_store_def map_file_def drop_backing_store_def st option.case
    by (intro ensures_finally ensures_bind [OF size] region ensures_if ensures_basic TrueI
         close_checked_ensures [OF assms])
  then show ?thesis
    unfolding shm_from_fd_def Let_def
    by (rule ensures_bind) (simp add: ensures_def shm_from_raw_parts_def store_from_fd_def assms(2)
      split: prod.split)
qed

lemma sort_fds_ensures:
  assumes "spares sys I R" and "set fds \<inter> R = {}" and "shm_away R shms" and "op_away R channels"
  shows "ensures I (sort_fds sys fds channels shms) (\<lambda>(cs, ss). op_away R cs \<and> shm_away R ss)"
  using assms(2-4)
proof (induction fds arbitrary: channels shms)
  case Nil
  then show ?case by (simp add: ensures_def)
next
  case (Cons fd fds)
  have sock: "ensures I (is_socket sys fd) (\<lambda>_. True)"
    unfolding is_socket_def by (rule io_ensures sparesD(4) [OF assms(1)] | simp)+
  have shm: "ensures I (drop_received sys channels shms (shm_from_fd sys fd))
      (\<lambda>shm. store_fd (shm_store shm) \<notin> R)"
    using Cons.prems by (intro drop_received_ensures [OF assms(1)] shm_from_fd_ensures [OF assms(1)]) auto
  show ?case
    unfolding sort_fds.simps
    by (intro ensures_bind [OF sock] ensures_if Cons.IH ensures_bind [OF shm])
      (use Cons.prems in \<open>auto simp: opaque_from_fd_def\<close>)
qed

lemma recvmsg_result_ensures:
  assumes "spares sys I R"
  shows "ensures I (recvmsg_result sys fd m)
    (\<lambda>r. case r of Ok out \<Rightarrow> set (cmsg_fds (out_cmsg out)) \<inter> R = {} | _ \<Rightarrow> True)"
  unfolding recvmsg_result_def
  by (rule ensures_bind [OF sparesD(2) [OF assms]])
    (auto simp: ensures_def split: option.splits if_splits)

lemma unix_cmsg_recv_ensures:
  assumes "spares sys I R"
  shows "ensures I (unix_cmsg_recv sys fd m Blocking) (\<lambda>out. set (cmsg_fds (out_cmsg out)) \<inter> R = {})"
proof -
  have "ensures I (before_recvmsg sys fd Blocking) (\<lambda>_. True)"
    by (simp add: before_recvmsg_def ensures_def)
  then show ?thesis
    unfolding unix_cmsg_recv_def
    by (rule ensures_bind, intro ensures_bind [OF recvmsg_result_ensures [OF assms]])
      (auto simp: ensures_def)
qed

lemma recv_step_ensures:
  assumes "spares sys I R"
  shows "ensures I (recv_step sys ssb rx tot_sz buf) (\<lambda>_. True)"
  unfolding recv_step_def Let_def
  by (intro ensures_bind [where P = "\<lambda>_. True"] ensures_if ensures_option ensures_basic TrueI
    sparesD(3) [OF assms] unix_last_ensures)

lemma recv_loop_ensures:
  assumes "spares sys I R"
  shows "ensures I (recv_loop sys ssb rx tot_sz buf) (\<lambda>_. True)"
proof -
  have "spares sys I R \<longrightarrow> I w \<longrightarrow> I (snd out)" if "recv_loop sys ssb rx tot_sz buf w = Some out" for w out
  proof (rule recv_loop.raw_induct [OF _ that,
        where P = "\<lambda>sys ssb rx tot_sz buf w out. spares sys I R \<longrightarrow> I w \<longrightarrow> I (snd out)"], intro impI)
    fix loop sys ssb rx tot_sz buf w out
    assume IH: "\<And>sys ssb rx tot_sz buf w out. loop sys ssb rx tot_sz buf w = Some out \<Longrightarrow>
        spares sys I R \<longrightarrow> I w \<longrightarrow> I (snd out)"
      and run: "(if len_of buf < tot_sz then
           Option.bind (recv_step sys ssb rx tot_sz buf w)
             (\<lambda>(r, w'). case r of Ok buf' \<Rightarrow> loop sys ssb rx tot_sz buf' w'
                | Err e \<Rightarrow> Some (Err e, w') | Panic \<Rightarrow> Some (Panic, w'))
         else Some (Ok buf, w)) = Some out"
      and sp: "spares sys I R" and I: "I w"
    show "I (snd out)"
    proof (cases "len_of buf < tot_sz")
      case True
      with run obtain r w' where step: "recv_step sys ssb rx tot_sz buf w = Some (r, w')"
        and rest: "(case r of Ok buf' \<Rightarrow> loop sys ssb rx tot_sz buf' w'
             | Err e \<Rightarrow> Some (Err e, w') | Panic \<Rightarrow> Some (Panic, w')) = Some out"
        by (auto simp: bind_eq_Some_conv)
      have "I w'" by (rule ensuresD(1) [OF recv_step_ensures [OF sp] I step])
      then show ?thesis using IH [of sys ssb rx tot_sz] sp rest by (cases r) auto
    next
      case False
      then show ?thesis using run I by auto
    qed
  qed
  then have "I w'" if "I w" "recv_loop sys ssb rx tot_sz buf w = Some (r, w')" for w r w'
    using that assms by fastforce
  then show ?thesis unfolding ensures_def by blast
qed

lemma reassemble_ensures:
  assumes "spares sys I R" and "op_away R channels"
  shows "ensures I (reassemble sys ssb tot_sz buf channels) (\<lambda>(d, cs). op_away R cs)"
proof (cases "channels = []")
  case True
  then show ?thesis by (simp add: reassemble_def ensures_def)
next
  case False
  then have "op_fd (last channels) \<notin> R" using assms(2) by simp
  then have drop: "ensures I (drop_receiver sys p (fst (to_receiver (last channels)))) (\<lambda>_. True)" for p
    unfolding drop_receiver_def to_receiver_def receiver_from_fd_def
    by (auto intro!: ensures_if ensures_basic(1) close_checked_ensures [OF assms(1)])
  have b: "op_away R (butlast channels)" using assms(2) by (auto dest: in_set_butlastD)
  have "ensures I (io_bind (io_lift (checked_sub tot_sz (len_of buf))) (\<lambda>_.
      if \<not> unat tot_sz < 2 ^ 63 then io_panic
      else io_bind (recv_loop sys ssb rx tot_sz buf) (\<lambda>data. io_return (data, butlast channels))))
    (\<lambda>(d, cs). op_away R cs)" for rx
    by (intro ensures_bind [where P = "\<lambda>_. True"] ensures_if ensures_basic TrueI
      recv_loop_ensures [OF assms(1)]) (use b in auto)
  from ensures_finally [OF this drop] show ?thesis
    using False by (simp add: reassemble_def Let_def)
qed

lemma recv_ensures:
  assumes "spares sys I R"
  shows "ensures I (recv sys ssb fd Blocking) (\<lambda>(d, cs, ss). op_away R cs \<and> shm_away R ss)"
proof -
  have new: "ensures I (unix_cmsg_new sys iov) (\<lambda>_. True)" for iov
    unfolding unix_cmsg_new_def
    by (intro ensures_bind [where P = "\<lambda>_. True"] ensures_if ensures_basic TrueI
      sparesD(1) [OF assms] unix_last_ensures)
  show ?thesis
    unfolding recv_def Let_def
    apply (rule ensures_bind [where P = "\<lambda>_. True"], simp add: ensures_def)
    apply (rule ensures_bind [OF new])
    apply (rule ensures_bind [OF unix_cmsg_recv_ensures [OF assms]])
    apply (rule ensures_bind [where P = "\<lambda>_. True"], simp add: ensures_def)
    apply (rule ensures_bind [where P = "\<lambda>_. True"], simp add: ensures_def)
    apply (rule ensures_bind [OF sort_fds_ensures [OF assms]])
    apply (auto dest: in_set_takeD)[3]
    apply (clarsimp split: prod.splits)
    apply (intro conjI impI ensures_basic(1))
    apply blast
    apply (rule ensures_bind [OF drop_received_ensures [OF assms _ reassemble_ensures [OF assms]]])
    apply (auto simp: ensures_def)
    done
qed

section \<open>The contract of the set\<close>

text \<open>
  Documented behaviour of \<open>mio\<close> on Linux. \<open>reg w p\<close> are the registrations of the poll object \<open>p\<close>, each a
  token and a descriptor: registering succeeds for an open descriptor that is not registered yet, an
  event is readable and about a registration, and no two events of one call are about the same one.
  Descriptors that arrive with a message are new, so none of them is registered.
\<close>

definition polls :: "'w unix_sys \<Rightarrow> 'w mio \<Rightarrow> ('w \<Rightarrow> nat \<Rightarrow> (usize \<times> fd) set) \<Rightarrow> bool" where
  "polls sys mio reg \<longleftrightarrow>
     (\<forall>w p w'. mio_new mio w = (Inr p, w') \<longrightarrow> reg w' p = {}) \<and>
     (\<forall>p fd tok w w'. mio_register mio p fd tok w = (Inr (), w') \<longrightarrow>
        0 \<le> fd \<and> fd < 2 ^ 31 \<and> fd \<notin> snd ` reg w p \<and> reg w' p = insert (tok, fd) (reg w p)) \<and>
     (\<forall>p fd tok w e w'. mio_register mio p fd tok w = (Inl e, w') \<longrightarrow> reg w' p = reg w p) \<and>
     (\<forall>p fd w r w'. mio_deregister mio p fd w = (r, w') \<longrightarrow>
        (fd \<in> snd ` reg w p \<longrightarrow> r = Inr ()) \<and> reg w' p = {x \<in> reg w p. snd x \<noteq> fd}) \<and>
     (\<forall>p w r w'. mio_poll mio p w = Some (r, w') \<longrightarrow> reg w' p = reg w p \<and>
        (\<forall>evts. r = Inr evts \<longrightarrow> distinct (map fst evts) \<and>
           (\<forall>evt\<in>set evts. snd evt \<and> fst evt \<in> fst ` reg w p))) \<and>
     (\<forall>p S. spares sys (\<lambda>w. reg w p = S) (snd ` S))"

lemma pollsD:
  assumes "polls sys mio reg"
  shows "mio_new mio w = (Inr p, w') \<Longrightarrow> reg w' p = {}"
    and "mio_register mio p fd tok w = (Inr (), w') \<Longrightarrow>
      0 \<le> fd \<and> fd < 2 ^ 31 \<and> fd \<notin> snd ` reg w p \<and> reg w' p = insert (tok, fd) (reg w p)"
    and "mio_register mio p fd tok w = (Inl e, w') \<Longrightarrow> reg w' p = reg w p"
    and "mio_deregister mio p fd w = (r, w') \<Longrightarrow>
      (fd \<in> snd ` reg w p \<longrightarrow> r = Inr ()) \<and> reg w' p = {x \<in> reg w p. snd x \<noteq> fd}"
    and "mio_poll mio p w = Some (q, w') \<Longrightarrow> reg w' p = reg w p \<and>
      (\<forall>evts. q = Inr evts \<longrightarrow> distinct (map fst evts) \<and>
         (\<forall>evt\<in>set evts. snd evt \<and> fst evt \<in> fst ` reg w p))"
    and "spares sys (\<lambda>w. reg w p = S) (snd ` S)"
proof -
  note l = assms [unfolded polls_def]
  note l1 = l [THEN conjunct2] and l2 = l [THEN conjunct2, THEN conjunct2]
  note l3 = l2 [THEN conjunct2] and l4 = l2 [THEN conjunct2, THEN conjunct2]
  show "mio_new mio w = (Inr p, w') \<Longrightarrow> reg w' p = {}"
    by (rule l [THEN conjunct1, rule_format])
  show "mio_register mio p fd tok w = (Inr (), w') \<Longrightarrow>
      0 \<le> fd \<and> fd < 2 ^ 31 \<and> fd \<notin> snd ` reg w p \<and> reg w' p = insert (tok, fd) (reg w p)"
    by (rule l1 [THEN conjunct1, THEN spec, THEN spec, THEN spec, THEN spec, THEN spec, THEN mp])
  show "mio_register mio p fd tok w = (Inl e, w') \<Longrightarrow> reg w' p = reg w p"
    by (rule l2 [THEN conjunct1, rule_format])
  show "mio_deregister mio p fd w = (r, w') \<Longrightarrow>
      (fd \<in> snd ` reg w p \<longrightarrow> r = Inr ()) \<and> reg w' p = {x \<in> reg w p. snd x \<noteq> fd}"
    by (rule l3 [THEN conjunct1, THEN spec, THEN spec, THEN spec, THEN spec, THEN spec, THEN mp])
  show "mio_poll mio p w = Some (q, w') \<Longrightarrow> reg w' p = reg w p \<and>
      (\<forall>evts. q = Inr evts \<longrightarrow> distinct (map fst evts) \<and>
         (\<forall>evt\<in>set evts. snd evt \<and> fst evt \<in> fst ` reg w p))"
    by (rule l4 [THEN conjunct1, THEN spec, THEN spec, THEN spec, THEN spec, THEN mp])
  show "spares sys (\<lambda>w. reg w p = S) (snd ` S)"
    using l4 [THEN conjunct2] by blast
qed

definition entries :: "unix_receiver_set \<Rightarrow> (usize \<times> fd) set" where
  "entries s = {(t, pe_fd e) | t e. pollfds s t = Some e}"

definition set_ids :: "unix_receiver_set \<Rightarrow> u64 set" where
  "set_ids s = pe_id ` ran (pollfds s)"

text \<open>
  The invariant of a set: its map holds exactly what is registered, under the descriptor's token, and
  the identifiers are distinct ones that were given out.
\<close>

definition set_table_ok :: "unix_receiver_set \<Rightarrow> bool" where
  "set_table_ok s \<longleftrightarrow>
     (\<forall>t e. pollfds s t = Some e \<longrightarrow>
        t = fd_token (pe_fd e) \<and> 0 \<le> pe_fd e \<and> pe_fd e < 2 ^ 31 \<and> pe_id e < incrementor s) \<and>
     (\<forall>t u e f. pollfds s t = Some e \<and> pollfds s u = Some f \<and> pe_id e = pe_id f \<longrightarrow> t = u)"

definition set_inv :: "('w \<Rightarrow> nat \<Rightarrow> (usize \<times> fd) set) \<Rightarrow> 'w set_io_world \<Rightarrow> bool" where
  "set_inv reg ws \<longleftrightarrow> set_table_ok (snd ws) \<and> reg (fst ws) (set_poll (snd ws)) = entries (snd ws)"

lemma fd_token_inj:
  assumes "0 \<le> a" "a < 2 ^ 31" "0 \<le> b" "b < 2 ^ 31" "fd_token a = fd_token b"
  shows "a = b"
proof -
  have "uint (fd_token a) = a" "uint (fd_token b) = b"
    using assms(1-4) by (simp_all add: fd_token_def uint_word_of_int)
  with assms(5) show ?thesis by metis
qed

definition without :: "usize \<Rightarrow> unix_receiver_set \<Rightarrow> unix_receiver_set" where
  "without tok s = s\<lparr>pollfds := (pollfds s)(tok := None)\<rparr>"

lemma set_ids_iff: "i \<in> set_ids s \<longleftrightarrow> (\<exists>t e. pollfds s t = Some e \<and> pe_id e = i)"
  by (auto simp: set_ids_def ran_def)

lemma pollfds_without [simp]: "pollfds (without tok s) t = Some f \<longleftrightarrow> t \<noteq> tok \<and> pollfds s t = Some f"
  by (simp add: without_def)

lemma without_table:
  assumes "set_table_ok s" and "pollfds s tok = Some e"
  shows "set_table_ok (without tok s)" and "set_ids (without tok s) = set_ids s - {pe_id e}"
    and "entries (without tok s) = {x \<in> entries s. snd x \<noteq> pe_fd e}"
proof -
  note ok = assms(1) [unfolded set_table_ok_def]
  show "set_table_ok (without tok s)"
    using ok unfolding set_table_ok_def without_def by simp
  have "pe_id f \<noteq> pe_id e" if "pollfds s t = Some f" "t \<noteq> tok" for t f
    using ok [THEN conjunct2, rule_format, of t f tok e] that assms(2) by blast
  then show "set_ids (without tok s) = set_ids s - {pe_id e}"
    using assms(2) by (auto simp: set_ids_iff set_eq_iff) (metis option.inject)
  have "pe_fd f \<noteq> pe_fd e" if "pollfds s t = Some f" "t \<noteq> tok" for t f
    using ok [THEN conjunct1, rule_format, OF that(1)] ok [THEN conjunct1, rule_format, OF assms(2)]
      that(2) by auto
  then have "pollfds (without tok s) t = Some f \<longleftrightarrow> pollfds s t = Some f \<and> pe_fd f \<noteq> pe_fd e" for t f
    using assms(2) by (cases "t = tok") auto
  then show "entries (without tok s) = {x \<in> entries s. snd x \<noteq> pe_fd e}"
    unfolding entries_def by force
qed

text \<open>Adding an entry under a new identifier.\<close>

definition with_entry :: "fd \<Rightarrow> unix_receiver_set \<Rightarrow> unix_receiver_set" where
  "with_entry fd s = s\<lparr>incrementor := incrementor s + 1,
     pollfds := (pollfds s)(fd_token fd \<mapsto> \<lparr>pe_id = incrementor s, pe_fd = fd\<rparr>)\<rparr>"

lemma skip_id_table:
  assumes "set_table_ok s" and "incrementor s \<noteq> -1"
  shows "set_table_ok (s\<lparr>incrementor := incrementor s + 1\<rparr>)"
proof -
  have "pe_id e < incrementor s + 1" if "pollfds s t = Some e" for t e
    using assms(1) that word_less_inc [OF assms(2), of "pe_id e"] less_imp_le
    unfolding set_table_ok_def by blast
  with assms(1) show ?thesis unfolding set_table_ok_def by simp
qed

lemma with_entry_table:
  assumes "set_table_ok s" and "incrementor s \<noteq> -1" and "0 \<le> fd" "fd < 2 ^ 31"
    and "fd \<notin> snd ` entries s"
  shows "set_table_ok (with_entry fd s)" and "incrementor s \<notin> set_ids s"
    and "set_ids (with_entry fd s) = insert (incrementor s) (set_ids s)"
    and "entries (with_entry fd s) = insert (fd_token fd, fd) (entries s)"
proof -
  note ok = assms(1) [unfolded set_table_ok_def]
  have less: "x < incrementor s + 1" if "x \<le> incrementor s" for x
    using word_less_inc [OF assms(2) that] .
  have none: "pollfds s (fd_token fd) = None"
  proof (rule ccontr)
    assume "pollfds s (fd_token fd) \<noteq> None"
    then obtain e where e: "pollfds s (fd_token fd) = Some e" by blast
    then have "fd = pe_fd e"
      using ok [THEN conjunct1, rule_format, OF e] assms(3,4) fd_token_inj by blast
    with e assms(5) show False by (force simp: entries_def)
  qed
  have lt: "pe_id e < incrementor s" if "pollfds s t = Some e" for t e
    using ok that by blast
  then show "incrementor s \<notin> set_ids s" by (metis less_irrefl set_ids_iff)
  show "set_ids (with_entry fd s) = insert (incrementor s) (set_ids s)"
    using none by (auto simp: set_ids_def with_entry_def)
  show "entries (with_entry fd s) = insert (fd_token fd, fd) (entries s)"
    using none by (auto simp: entries_def with_entry_def split: if_splits)
  show "set_table_ok (with_entry fd s)"
    unfolding set_table_ok_def
  proof (intro conjI allI impI; (elim conjE)?)
    fix t e
    assume "pollfds (with_entry fd s) t = Some e"
    then show "t = fd_token (pe_fd e)" "0 \<le> pe_fd e" "pe_fd e < 2 ^ 31"
      "pe_id e < incrementor (with_entry fd s)"
      using ok [THEN conjunct1, rule_format, of t e] assms(3,4) less [of "pe_id e"]
      by (auto simp: with_entry_def split: if_splits)
  next
    fix t u e f
    assume "pollfds (with_entry fd s) t = Some e" "pollfds (with_entry fd s) u = Some f" "pe_id e = pe_id f"
    then show "t = u"
      using ok [THEN conjunct2, rule_format, of t e u f] lt [of t e] lt [of u f]
      by (auto simp: with_entry_def split: if_splits)
  qed
qed

lemma mio_try_cases:
  assumes "mio_try f w = Some (q, w')"
  obtains x where "f w = (Inr x, w')" "q = Ok x"
    | e where "f w = (Inl e, w')" "\<And>x. q \<noteq> Ok x"
proof (cases "f w")
  case (Pair r w1)
  then show thesis
    using assms that
    by (cases r) (auto simp: mio_try_def call_def io_inv io_to_unix_def split: option.splits if_splits)
qed

lemma unix_set_add_run:
  assumes "unix_set_add sys mio r (w, s) = Some (q, ws')" and "q \<noteq> Panic"
  obtains w1 where "incrementor s \<noteq> -1"
    "mio_register mio (set_poll s) (rx_fd r) (fd_token (rx_fd r)) w = (Inr (), w1)"
    "q = Ok (incrementor s)" "ws' = (w1, with_entry (rx_fd r) s)"
  | w1 e e' where "incrementor s \<noteq> -1"
    "mio_register mio (set_poll s) (rx_fd r) (fd_token (rx_fd r)) w = (Inl e, w1)"
    "q = Err e'" "ws' = (w1, s\<lparr>incrementor := incrementor s + 1\<rparr>)"
proof -
  let ?s1 = "s\<lparr>incrementor := incrementor s + 1\<rparr>"
  have inc: "incrementor s \<noteq> -1"
  proof
    assume "incrementor s = -1"
    then have "io_on_failure next_index (\<lambda>panicking. on_world (drop_receiver sys panicking r)) (w, s) =
        Some (p, z) \<Longrightarrow> p = Panic" for p z
      by (auto simp: io_inv next_index_def)
    then show False using assms unfolding unix_set_add_def io_bind_eq_Some by auto
  qed
  then have "next_index (w, s) = Some (Ok (incrementor s), (w, ?s1))"
    by (simp add: next_index_def)
  then have "io_bind (on_world (mio_try (mio_register mio (set_poll s) (rx_fd r) (fd_token (rx_fd r))))) (\<lambda>_.
      io_bind (on_self (\<lambda>t. ((), t\<lparr>pollfds := (pollfds t)(fd_token (rx_fd r) \<mapsto>
        \<lparr>pe_id = incrementor s, pe_fd = rx_fd r\<rparr>)\<rparr>))) (\<lambda>_. io_return (incrementor s))) (w, ?s1) =
      Some (q, ws')"
    using assms(1) by (simp add: unix_set_add_def consume_fd_def Let_def io_bind_def io_match_def)
  then consider (ok) w1 where
      "mio_try (mio_register mio (set_poll s) (rx_fd r) (fd_token (rx_fd r))) w = Some (Ok (), w1)"
      "q = Ok (incrementor s)" "ws' = (w1, with_entry (rx_fd r) s)"
    | (err) e' w1 where
      "mio_try (mio_register mio (set_poll s) (rx_fd r) (fd_token (rx_fd r))) w = Some (Err e', w1)"
      "q = Err e'" "ws' = (w1, ?s1)"
    using assms(2) by (auto simp: io_inv with_entry_def)
  then show thesis
  proof cases
    case ok
    from this(1) show thesis by (rule mio_try_cases) (use that inc ok in auto)
  next
    case err
    from this(1) show thesis by (rule mio_try_cases) (use that inc err in auto)
  qed
qed

lemma unix_set_add_inv:
  assumes "polls sys mio reg" and "set_inv reg ws" and "unix_set_add sys mio r ws = Some (q, ws')"
  shows "q = Ok i \<Longrightarrow> set_inv reg ws' \<and> i \<notin> set_ids (snd ws) \<and>
      set_ids (snd ws') = insert i (set_ids (snd ws))"
    and "q = Err e \<Longrightarrow> set_inv reg ws' \<and> set_ids (snd ws') = set_ids (snd ws)"
proof -
  obtain w s where ws: "ws = (w, s)" by force
  have tab: "set_table_ok s" and reg: "reg w (set_poll s) = entries s"
    using assms(2) by (auto simp: ws set_inv_def)
  note run = assms(3) [unfolded ws]
  show "set_inv reg ws' \<and> i \<notin> set_ids (snd ws) \<and> set_ids (snd ws') = insert i (set_ids (snd ws))"
    if "q = Ok i"
  proof (rule unix_set_add_run [OF run])
    show "q \<noteq> Panic" using that by simp
  next
    fix w1
    assume inc: "incrementor s \<noteq> -1" and ok: "q = Ok (incrementor s)" "ws' = (w1, with_entry (rx_fd r) s)"
      and reg1: "mio_register mio (set_poll s) (rx_fd r) (fd_token (rx_fd r)) w = (Inr (), w1)"
    note r = pollsD(2) [OF assms(1) reg1]
    have "rx_fd r \<notin> snd ` entries s" using r reg by auto
    note t = with_entry_table [OF tab inc _ _ this]
    have "set_poll (with_entry (rx_fd r) s) = set_poll s" by (simp add: with_entry_def)
    with r t ok that ws reg show ?thesis by (auto simp: set_inv_def)
  qed (use that in auto)
  show "set_inv reg ws' \<and> set_ids (snd ws') = set_ids (snd ws)" if "q = Err e"
  proof (rule unix_set_add_run [OF run])
    show "q \<noteq> Panic" using that by simp
  next
    fix w1 d d'
    assume inc: "incrementor s \<noteq> -1" and err: "ws' = (w1, s\<lparr>incrementor := incrementor s + 1\<rparr>)"
      and reg1: "mio_register mio (set_poll s) (rx_fd r) (fd_token (rx_fd r)) w = (Inl d, w1)"
    have "entries (s\<lparr>incrementor := incrementor s + 1\<rparr>) = entries s"
        "set_ids (s\<lparr>incrementor := incrementor s + 1\<rparr>) = set_ids s"
      by (simp_all add: entries_def set_ids_def)
    with pollsD(3) [OF assms(1) reg1] skip_id_table [OF tab inc] err reg ws show ?thesis
      by (simp add: set_inv_def)
  qed (use that in auto)
qed

definition result_away :: "fd set \<Rightarrow> unix_selection_result \<Rightarrow> bool" where
  "result_away R r = (case r of DataReceived i d cs ss \<Rightarrow> shm_away R ss | ChannelClosed i \<Rightarrow> True)"

lemma drop_selection_ensures:
  assumes "spares sys I R" and "\<forall>r\<in>set results. result_away R r"
  shows "ensures I (drop_all (drop_selection_result sys) p results) (\<lambda>_. True)"
proof (rule drop_all_ensures)
  fix p r
  assume "r \<in> set results"
  with assms(2) have "result_away R r" by blast
  then show "ensures I (drop_selection_result sys p r) (\<lambda>_. True)"
    by (cases r) (auto simp: drop_selection_result_def result_away_def intro!: ensures_finally
      drop_all_ensures drop_opaque_ensures drop_shm_ensures [OF assms(1)] ensures_basic(1))
qed

text \<open>Handling one event: a message, a closed channel that leaves the set, or an error.\<close>

lemma handle_event_run:
  assumes "polls sys mio reg" and "set_inv reg (w, s)" and "pollfds s tok = Some e"
    and "handle_event sys ssb mio (tok, True) (w, s) = Some (q, (w', s'))" and "q \<noteq> Panic"
  shows "set_inv reg (w', s') \<and> set_poll s' = set_poll s \<and> entries s' \<subseteq> entries s \<and>
    ((\<exists>d cs ss. q = Ok (DataReceived (pe_id e) d cs ss) \<and> s' = s \<and> shm_away (snd ` entries s) ss) \<or>
     (q = Ok (ChannelClosed (pe_id e)) \<and> s' = without tok s) \<or>
     (\<exists>x. q = Err x \<and> s' = s))"
proof -
  define p where "p = set_poll s"
  have tab: "set_table_ok s" and reg: "reg w p = entries s"
    using assms(2) by (auto simp: set_inv_def p_def)
  note sp = pollsD(6) [OF assms(1), of p "entries s"]
  from assms(3,4) have run: "io_match (on_world (recv sys ssb (pe_fd e) Blocking))
      (\<lambda>(data, channels, shms). io_return (DataReceived (pe_id e) data channels shms))
      (\<lambda>err. if unix_channel_is_closed err then remove_closed sys mio tok e else io_throw err)
      (w, s) = Some (q, (w', s'))"
    by (simp add: handle_event_def cong: if_cong)
  then obtain o1 w1 where r: "recv sys ssb (pe_fd e) Blocking w = Some (o1, w1)"
    by (auto simp: io_match_eq_Some on_world_eq_Some)
  note k = ensuresD [OF recv_ensures [OF sp] reg r]
  have on: "on_world (recv sys ssb (pe_fd e) Blocking) (w, s) = Some (o1, (w1, s))"
    using r by (simp add: on_world_def)
  show ?thesis
  proof (cases o1)
    case (Ok x)
    then obtain d cs ss where x: "o1 = Ok (d, cs, ss)" by (cases x) auto
    then have "q = Ok (DataReceived (pe_id e) d cs ss)" "w' = w1" "s' = s"
      using run on by simp_all
    then show ?thesis
      using k(2) [OF x] k(1) tab by (simp add: set_inv_def p_def)
  next
    case (Err x)
    show ?thesis
    proof (cases "unix_channel_is_closed x")
      case False
      then have "q = Err x" "w' = w1" "s' = s"
        using Err run on by simp_all
      then show ?thesis
        using k(1) tab by (simp add: set_inv_def p_def)
    next
      case True
      have "(tok, pe_fd e) \<in> entries s"
        using assms(3) by (auto simp: entries_def)
      then have "pe_fd e \<in> snd ` reg w1 p"
        unfolding k(1) by (rule rev_image_eqI) simp
      moreover obtain d w2 where d: "mio_deregister mio p (pe_fd e) w1 = (d, w2)" by force
      ultimately have de: "d = Inr ()" "reg w2 p = entries (without tok s)"
        using pollsD(4) [OF assms(1) d] without_table(3) [OF tab assms(3)] k(1) by auto
      obtain c w3 where c: "sys_close sys (pe_fd e) w2 = (c, w3)" by force
      have "pe_fd e \<notin> snd ` entries (without tok s)"
        using without_table(3) [OF tab assms(3)] by auto
      from ensuresD(1) [OF sparesD(7) [OF pollsD(6) [OF assms(1)] this] de(2) call_run [of "sys_close sys (pe_fd e)", OF c]]
      have w3: "reg w3 p = entries (without tok s)" .
      have "remove_closed sys mio tok e (w1, s) = Some (Ok (ChannelClosed (pe_id e)), (w3, without tok s))"
        using d de(1) c
        by (simp add: remove_closed_def on_self_def on_world_def mio_unwrap_def call_def p_def without_def)
      then have "q = Ok (ChannelClosed (pe_id e))" "w' = w3" "s' = without tok s"
        using run on Err True by auto
      then show ?thesis
        using w3 without_table [OF tab assms(3)] by (auto simp: set_inv_def p_def without_def)
    qed
  next
    case Panic
    then show ?thesis using run on assms(5) by auto
  qed
qed

text \<open>One pass of the loop over the events: it goes on with one more result, or leaves with an error.\<close>

lemma handle_events_step:
  assumes "polls sys mio reg" and "set_inv reg (w, s)" and "distinct (map fst (evt # evts))"
    and "\<forall>x\<in>set (evt # evts). snd x \<and> pollfds s (fst x) \<noteq> None"
    and "\<forall>r\<in>set results. result_away (snd ` entries s) r"
    and "handle_events sys ssb mio (evt # evts) results (w, s) = Some (q, (w', s'))" and "q \<noteq> Panic"
  obtains (more) r w1 s1 where
    "handle_events sys ssb mio evts (results @ [r]) (w1, s1) = Some (q, (w', s'))"
    "set_inv reg (w1, s1)" "report_ok (set_ids s) [os_report r]"
    "set_ids s1 = left_after (set_ids s) [os_report r]"
    "\<forall>x\<in>set evts. snd x \<and> pollfds s1 (fst x) \<noteq> None"
    "\<forall>x\<in>set (results @ [r]). result_away (snd ` entries s1) x"
  | (error) e where "q = Err e" "set_inv reg (w', s')" "s' = s"
proof -
  obtain tok e where evt: "evt = (tok, True)" and e: "pollfds s tok = Some e"
    using assms(4) by (cases evt) auto
  have id: "pe_id e \<in> set_ids s" using e by (auto simp: set_ids_iff)
  have tab: "set_table_ok s" using assms(2) by (simp add: set_inv_def)
  let ?d = "\<lambda>panicking. on_world (drop_all (drop_selection_result sys) panicking results)"
  from assms(6) consider (ok) r w1 s1 where
      "handle_event sys ssb mio (tok, True) (w, s) = Some (Ok r, (w1, s1))"
      "handle_events sys ssb mio evts (results @ [r]) (w1, s1) = Some (q, (w', s'))"
    | (fail) x w1 s1 u where "handle_event sys ssb mio (tok, True) (w, s) = Some (Err x, (w1, s1))"
      "?d False (w1, s1) = Some (u, (w', s'))" "q = Err x"
    using assms(7) unfolding evt handle_events.simps io_bind_eq_Some io_on_failure_eq_Some
    by (elim disjE exE conjE) (auto split: if_splits res.splits)
  then show thesis
  proof cases
    case ok
    note h = handle_event_run [OF assms(1,2) e ok(1)]
    have mono: "result_away (snd ` entries s) x \<Longrightarrow> result_away (snd ` entries s1) x" for x
      using h by (auto simp: result_away_def split: os_ipc_selection_result.splits)
    have same: "pollfds s1 t = pollfds s t" if "t \<noteq> tok" for t
      using h that by (auto simp: without_def)
    have "fst x \<noteq> tok" if "x \<in> set evts" for x
      using that assms(3) evt by force
    then have other: "\<forall>x\<in>set evts. snd x \<and> pollfds s1 (fst x) \<noteq> None"
      using same assms(4) by simp
    have r: "report_ok (set_ids s) [os_report r] \<and> set_ids s1 = left_after (set_ids s) [os_report r] \<and>
        result_away (snd ` entries s) r"
      using h id without_table(2) [OF tab e] by (auto simp: result_away_def)
    have "\<forall>x\<in>set (results @ [r]). result_away (snd ` entries s1) x"
      using assms(5) r mono by (metis set_append Un_iff empty_iff empty_set set_ConsD)
    then show thesis
      using more [OF ok(2) _ _ _ other] h r by blast
  next
    case fail
    note h = handle_event_run [OF assms(1,2) e fail(1)]
    then have s1: "s1 = s" "reg w1 (set_poll s) = entries s" by (auto simp: set_inv_def)
    from fail(2) have "drop_all (drop_selection_result sys) False results w1 = Some (u, w')" and "s' = s1"
      by (auto simp: on_world_eq_Some)
    from ensuresD(1) [OF drop_selection_ensures [OF pollsD(6) [OF assms(1)] assms(5)] s1(2) this(1)]
    have "reg w' (set_poll s) = entries s" .
    then show thesis
      using error [OF fail(3)] tab s1(1) \<open>s' = s1\<close> by (simp add: set_inv_def)
  qed
qed

lemma handle_events_run:
  assumes "polls sys mio reg" and "set_inv reg (w, s)" and "distinct (map fst evts)"
    and "\<forall>x\<in>set evts. snd x \<and> pollfds s (fst x) \<noteq> None"
    and "\<forall>r\<in>set results. result_away (snd ` entries s) r"
    and "handle_events sys ssb mio evts results (w, s) = Some (q, (w', s'))" and "q \<noteq> Panic"
  shows "set_inv reg (w', s') \<and>
    (case q of
       Ok rs \<Rightarrow> \<exists>rs'. rs = results @ rs' \<and> report_ok (set_ids s) (map os_report rs') \<and>
         set_ids s' = left_after (set_ids s) (map os_report rs')
     | _ \<Rightarrow> set_ids s' \<subseteq> set_ids s)"
  using assms(2-6)
proof (induction evts arbitrary: w s results)
  case Nil
  then show ?case by auto
next
  case (Cons evt evts)
  show ?case
  proof (rule handle_events_step [OF assms(1) Cons.prems assms(7)])
    fix r w1 s1
    assume run: "handle_events sys ssb mio evts (results @ [r]) (w1, s1) = Some (q, (w', s'))"
      and inv: "set_inv reg (w1, s1)" and ok: "report_ok (set_ids s) [os_report r]"
      and ids: "set_ids s1 = left_after (set_ids s) [os_report r]"
      and all: "\<forall>x\<in>set evts. snd x \<and> pollfds s1 (fst x) \<noteq> None"
      and away: "\<forall>x\<in>set (results @ [r]). result_away (snd ` entries s1) x"
    have dist: "distinct (map fst evts)" using Cons.prems(2) by simp
    note IH = Cons.IH [OF inv dist all away run]
    show ?thesis
    proof (cases q)
      case (Ok rs)
      then obtain rs' where rs': "rs = (results @ [r]) @ rs'" "report_ok (set_ids s1) (map os_report rs')"
          "set_ids s' = left_after (set_ids s1) (map os_report rs')"
        using IH by (simp only: Ok res.case) blast
      have split: "map os_report (r # rs') = [os_report r] @ map os_report rs'" by simp
      have "report_ok (set_ids s) (map os_report (r # rs'))"
        unfolding split report_ok_append ids [symmetric] using ok rs'(2) ..
      moreover have "set_ids s' = left_after (set_ids s) (map os_report (r # rs'))"
        unfolding split left_after_append ids [symmetric] by (rule rs'(3))
      moreover have "rs = results @ r # rs'" using rs'(1) by simp
      ultimately show ?thesis
        using IH unfolding Ok res.case by blast
    next
      case (Err e)
      have "set_ids s1 \<subseteq> set_ids s" unfolding ids by (auto simp: left_after_eq)
      then show ?thesis using IH unfolding Err res.case by blast
    next
      case Panic
      with assms(7) show ?thesis by blast
    qed
  next
    fix e
    assume "q = Err e" "set_inv reg (w', s')" "s' = s"
    then show ?thesis by simp
  qed
qed

lemma wait_events_run:
  assumes "polls sys mio reg" and "wait_events sys mio p w = Some (q, w')"
  shows "reg w' p = reg w p"
    and "q = Ok evts \<Longrightarrow> distinct (map fst evts) \<and> (\<forall>evt\<in>set evts. snd evt \<and> fst evt \<in> fst ` reg w p)"
proof -
  define P where "P sys mio p w out \<longleftrightarrow> (polls sys mio reg \<longrightarrow> reg (snd out) p = reg w p \<and>
    (\<forall>evts. fst out = Ok evts \<longrightarrow> distinct (map fst evts) \<and> (\<forall>evt\<in>set evts. snd evt \<and> fst evt \<in> fst ` reg w p)))"
    for sys :: "'a unix_sys" and mio p w and out :: "((usize \<times> bool) list, unix_error) res \<times> 'a"
  have "P sys mio p w (q, w')"
  proof (rule wait_events.raw_induct [OF _ assms(2)])
    fix loop sys mio p w out
    assume IH: "\<And>sys mio p w out. loop sys mio p w = Some out \<Longrightarrow> P sys mio p w out"
      and run: "Option.bind (mio_poll mio p w) (\<lambda>(r, w').
         case r of
           Inl e \<Rightarrow> if io_error_kind e \<noteq> Interrupted then Some (Err (Errno (sys_errno sys w')), w')
             else loop sys mio p w'
         | Inr events \<Rightarrow> if events = [] then loop sys mio p w' else Some (Ok events, w')) = Some out"
    then obtain r w1 where poll: "mio_poll mio p w = Some (r, w1)"
      and rest: "(case r of
           Inl e \<Rightarrow> if io_error_kind e \<noteq> Interrupted then Some (Err (Errno (sys_errno sys w1)), w1)
             else loop sys mio p w1
         | Inr events \<Rightarrow> if events = [] then loop sys mio p w1 else Some (Ok events, w1)) = Some out"
      by (auto simp: bind_eq_Some_conv)
    show "P sys mio p w out"
      unfolding P_def
    proof (rule impI)
      assume ok: "polls sys mio reg"
      note l = pollsD(5) [OF ok poll]
      show "reg (snd out) p = reg w p \<and> (\<forall>evts. fst out = Ok evts \<longrightarrow>
          distinct (map fst evts) \<and> (\<forall>evt\<in>set evts. snd evt \<and> fst evt \<in> fst ` reg w p))"
      proof (cases "loop sys mio p w1 = Some out")
        case True
        then show ?thesis using IH [OF True] ok l unfolding P_def by simp
      next
        case False
        with rest have "out = (Err (Errno (sys_errno sys w1)), w1) \<or> (\<exists>evts. r = Inr evts \<and> out = (Ok evts, w1))"
          by (auto split: sum.splits if_splits)
        then show ?thesis using l by auto
      qed
    qed
  qed
  then show "reg w' p = reg w p" and "q = Ok evts \<Longrightarrow> distinct (map fst evts) \<and>
      (\<forall>evt\<in>set evts. snd evt \<and> fst evt \<in> fst ` reg w p)"
    using assms(1) unfolding P_def by auto
qed

lemma unix_select_inv:
  assumes "polls sys mio reg" and "set_inv reg ws" and "unix_select sys ssb mio ws = Some (q, ws')"
    and "q \<noteq> Panic"
  shows "set_inv reg ws' \<and>
    (case q of
       Ok rs \<Rightarrow> report_ok (set_ids (snd ws)) (map os_report rs) \<and>
         set_ids (snd ws') = left_after (set_ids (snd ws)) (map os_report rs)
     | _ \<Rightarrow> set_ids (snd ws') \<subseteq> set_ids (snd ws))"
proof -
  obtain w s w' s' where ws: "ws = (w, s)" and ws': "ws' = (w', s')" by force
  have tab: "set_table_ok s" and reg: "reg w (set_poll s) = entries s"
    using assms(2) by (auto simp: ws set_inv_def)
  from assms(3,4) consider (ok) evts w1 where "wait_events sys mio (set_poll s) w = Some (Ok evts, w1)"
      "handle_events sys ssb mio evts [] (w1, s) = Some (q, (w', s'))"
    | (err) e where "wait_events sys mio (set_poll s) w = Some (Err e, w')" "q = Err e" "s' = s"
    unfolding unix_select_def ws ws' by (auto simp: io_bind_eq_Some on_world_eq_Some)
  then show ?thesis
  proof cases
    case ok
    note wait = wait_events_run [OF assms(1) ok(1)]
    have "pollfds s t \<noteq> None" if "t \<in> fst ` reg w (set_poll s)" for t
      using that unfolding reg entries_def by auto
    then have "\<forall>x\<in>set evts. snd x \<and> pollfds s (fst x) \<noteq> None"
      using wait(2) by blast
    moreover have "set_inv reg (w1, s)"
      using wait(1) reg tab by (simp add: set_inv_def)
    ultimately have "set_inv reg (w', s') \<and>
      (case q of
         Ok rs \<Rightarrow> \<exists>rs'. rs = [] @ rs' \<and> report_ok (set_ids s) (map os_report rs') \<and>
           set_ids s' = left_after (set_ids s) (map os_report rs')
       | _ \<Rightarrow> set_ids s' \<subseteq> set_ids s)"
      using wait(2) by (intro handle_events_run [OF assms(1) _ _ _ _ ok(2) assms(4)]) auto
    then show ?thesis by (cases q) (auto simp: ws ws')
  next
    case err
    then show ?thesis
      using wait_events_run(1) [OF assms(1) err(1)] reg tab by (simp add: ws ws' set_inv_def)
  qed
qed

lemma handle_event_incrementor:
  "handle_event sys ssb mio evt (w, s) = Some (q, (w', s')) \<Longrightarrow> incrementor s' = incrementor s"
  by (auto simp: handle_event_def remove_closed_def io_inv split: prod.splits if_splits bool.splits option.splits)

lemma handle_events_incrementor:
  "handle_events sys ssb mio evts rs (w, s) = Some (Ok rs', (w', s')) \<Longrightarrow> incrementor s' = incrementor s"
proof (induction evts arbitrary: rs w s)
  case (Cons evt evts)
  then obtain r w1 s1 where "handle_event sys ssb mio evt (w, s) = Some (Ok r, (w1, s1))"
      "handle_events sys ssb mio evts (rs @ [r]) (w1, s1) = Some (Ok rs', (w', s'))"
    by (auto simp: io_bind_eq_Some io_on_failure_eq_Some split: if_splits)
  with Cons.IH handle_event_incrementor show ?case by metis
qed simp

lemma unix_select_incrementor:
  "unix_select sys ssb mio (w, s) = Some (Ok rs, (w', s')) \<Longrightarrow> incrementor s' = incrementor s"
  by (auto simp: unix_select_def io_bind_eq_Some on_world_eq_Some dest: handle_events_incrementor)

lemma unix_set_add_incrementor:
  "unix_set_add sys mio r (w, s) = Some (Ok i, (w', s')) \<Longrightarrow>
     i = incrementor s \<and> incrementor s \<noteq> -1 \<and> incrementor s' = incrementor s + 1"
  by (auto simp: unix_set_add_def next_index_def io_inv Let_def split: if_splits)

interpretation us: numbered_receiver_set "\<lambda>ws. polls sys mio reg \<and> set_inv reg ws" "\<lambda>ws. set_ids (snd ws)"
  "unix_set_add sys mio" "unix_select sys ssb mio" os_report "\<lambda>ws. incrementor (snd ws)"
proof
  show "(polls sys mio reg \<and> set_inv reg ws') \<and> i \<notin> set_ids (snd ws) \<and>
      set_ids (snd ws') = insert i (set_ids (snd ws))"
    if "polls sys mio reg \<and> set_inv reg ws" "unix_set_add sys mio r ws = Some (Ok i, ws')" for ws r i ws'
    using unix_set_add_inv(1) [of sys mio reg ws r "Ok i" ws' i] that by blast
  show "(polls sys mio reg \<and> set_inv reg ws') \<and> set_ids (snd ws') = set_ids (snd ws)"
    if "polls sys mio reg \<and> set_inv reg ws" "unix_set_add sys mio r ws = Some (Err e, ws')" for ws r e ws'
    using unix_set_add_inv(2) [of sys mio reg ws r "Err e" ws' e] that by blast
  show "(polls sys mio reg \<and> set_inv reg ws') \<and> report_ok (set_ids (snd ws)) (map os_report rs) \<and>
      set_ids (snd ws') = left_after (set_ids (snd ws)) (map os_report rs)"
    if "polls sys mio reg \<and> set_inv reg ws" "unix_select sys ssb mio ws = Some (Ok rs, ws')" for ws rs ws'
    using unix_select_inv [of sys mio reg ws ssb "Ok rs" ws'] that by simp
  show "(polls sys mio reg \<and> set_inv reg ws') \<and> set_ids (snd ws') \<subseteq> set_ids (snd ws)"
    if "polls sys mio reg \<and> set_inv reg ws" "unix_select sys ssb mio ws = Some (Err e, ws')" for ws e ws'
    using unix_select_inv [of sys mio reg ws ssb "Err e" ws'] that by simp
  show "i < incrementor (snd ws)" if "polls sys mio reg \<and> set_inv reg ws" "i \<in> set_ids (snd ws)" for ws i
    using that by (auto simp: set_inv_def set_table_ok_def set_ids_iff)
  show "incrementor (snd ws) \<le> i \<and> i < incrementor (snd ws')"
    if "unix_set_add sys mio r ws = Some (Ok i, ws')" for ws r i ws'
    using unix_set_add_incrementor [of sys mio r "fst ws" "snd ws" i "fst ws'" "snd ws'"] that
      word_less_inc [of "incrementor (snd ws)" "incrementor (snd ws)"] by simp
  show "incrementor (snd ws') = incrementor (snd ws)"
    if "unix_select sys ssb mio ws = Some (Ok rs, ws')" for ws rs ws'
    using unix_select_incrementor [of sys ssb mio "fst ws" "snd ws" rs "fst ws'" "snd ws'"] that by simp
qed

section \<open>Delivery\<close>

text \<open>
  Documented behaviour of a wait: \<open>quiet\<close> are the descriptors that have no packets and were not hung up.
  While a registered descriptor is not quiet, the wait returns with events, each about one that is not
  quiet; and about all of those when they are at most ten, the capacity of \<open>events\<close>.
\<close>

definition announces ::
  "'w mio \<Rightarrow> ('w \<Rightarrow> net_view) \<Rightarrow> ('w \<Rightarrow> nat \<Rightarrow> (usize \<times> fd) set) \<Rightarrow> ('w \<Rightarrow> fd set) \<Rightarrow> bool" where
  "announces mio view reg quiet \<longleftrightarrow>
     (\<forall>w fd. v_pending (view w) fd \<noteq> [] \<longrightarrow> fd \<notin> quiet w) \<and>
     (\<forall>p w fd. fd \<in> snd ` reg w p \<and> fd \<notin> quiet w \<longrightarrow>
        (\<exists>evts w'. mio_poll mio p w = Some (Inr evts, w') \<and> evts \<noteq> [] \<and> view w' = view w \<and>
           (\<forall>evt\<in>set evts. \<exists>fd. (fst evt, fd) \<in> reg w p \<and> fd \<notin> quiet w) \<and>
           (card {x \<in> reg w p. snd x \<notin> quiet w} \<le> 10 \<longrightarrow>
             (\<forall>x\<in>reg w p. snd x \<notin> quiet w \<longrightarrow> (fst x, True) \<in> set evts))))"

text \<open>Closing a descriptor leaves the others as they are.\<close>

definition closes_apart :: "'w unix_sys \<Rightarrow> ('w \<Rightarrow> net_view) \<Rightarrow> bool" where
  "closes_apart sys view \<longleftrightarrow>
     (\<forall>fd w w' x. sys_close sys fd w = (0, w') \<and> x \<noteq> fd \<longrightarrow>
        v_pending (view w') x = v_pending (view w) x \<and>
        (x \<in> v_socks (view w') \<longleftrightarrow> x \<in> v_socks (view w)) \<and> (x \<in> v_files (view w') \<longleftrightarrow> x \<in> v_files (view w)))"

text \<open>
  A whole message that waits for a member: the packet of its transfer is the next on the member's socket,
  with the descriptors numbered as they will arrive, and the rest of a message that was cut is on its
  dedicated socket.
\<close>

record mail =
  ml_data :: "u8 list"
  ml_fds :: "fd list"
  ml_pkt :: packet
  ml_rx :: "fd option"
  ml_chunks :: "u8 list list"
  ml_map :: "fd \<Rightarrow> fd"
  ml_rest :: "packet list"
  ml_later :: "packet list"

definition mail_arrives :: "mail \<Rightarrow> fd set" where
  "mail_arrives m = ml_map m ` set (snd (ml_pkt m))"

definition mail_waits :: "usize \<Rightarrow> net_view \<Rightarrow> fd \<Rightarrow> mail \<Rightarrow> bool" where
  "mail_waits ssb v fd m \<longleftrightarrow>
     rust_len (ml_data m) \<and> is_transfer ssb (ml_data m) (ml_fds m) (ml_pkt m) (ml_rx m) (ml_chunks m) \<and>
     length (snd (ml_pkt m)) \<le> 64 \<and>
     v_pending v fd = (fst (ml_pkt m), map (ml_map m) (snd (ml_pkt m))) # ml_rest m \<and>
     mail_arrives m \<subseteq> v_socks v \<union> v_files v \<and>
     (\<forall>b. ml_rx m = Some b \<longrightarrow> ml_map m b \<in> v_socks v \<and> ml_map m b \<noteq> fd \<and>
        v_pending v (ml_map m b) = bare (ml_chunks m) @ ml_later m)"

definition same_on :: "fd set \<Rightarrow> net_view \<Rightarrow> net_view \<Rightarrow> bool" where
  "same_on X v v' \<longleftrightarrow>
     (\<forall>x\<in>X. v_pending v' x = v_pending v x \<and> (x \<in> v_socks v' \<longleftrightarrow> x \<in> v_socks v) \<and> (x \<in> v_files v' \<longleftrightarrow> x \<in> v_files v))"

lemma same_on_mono: "same_on X v v' \<Longrightarrow> Y \<subseteq> X \<Longrightarrow> same_on Y v v'"
  by (auto simp: same_on_def)

lemma mail_transfer:
  assumes "mail_waits ssb v fd m"
  shows "set (ml_fds m) \<subseteq> set (snd (ml_pkt m))" and "\<And>b. ml_rx m = Some b \<Longrightarrow> b \<in> set (snd (ml_pkt m))"
  using assms by (auto simp: mail_waits_def is_transfer_def split: option.splits)

lemma mail_waits_same:
  assumes "mail_waits ssb v fd m" and "same_on (insert fd (mail_arrives m)) v v'"
  shows "mail_waits ssb v' fd m"
    and "\<forall>f\<in>set (ml_fds m). ml_map m f \<in> v_socks v' \<longleftrightarrow> ml_map m f \<in> v_socks v"
proof -
  have "ml_map m b \<in> mail_arrives m" if "ml_rx m = Some b" for b
    using mail_transfer(2) [OF assms(1) that] by (simp add: mail_arrives_def)
  then show "mail_waits ssb v' fd m"
    using assms unfolding mail_waits_def same_on_def by (auto simp: subset_iff)
  have "ml_map m ` set (ml_fds m) \<subseteq> mail_arrives m"
    using mail_transfer(1) [OF assms(1)] by (auto simp: mail_arrives_def)
  then show "\<forall>f\<in>set (ml_fds m). ml_map m f \<in> v_socks v' \<longleftrightarrow> ml_map m f \<in> v_socks v"
    using assms(2) by (auto simp: same_on_def)
qed

lemma recv_mail:
  assumes "receiving sys view" and "closes_apart sys view" and "sendbuf_ok ssb" and m: "mail_waits ssb (view w) fd m"
  obtains shms w' where "recv sys ssb fd Blocking w = Some (Ok (ml_data m,
      map opaque_from_fd [f \<leftarrow> map (ml_map m) (ml_fds m). f \<in> v_socks (view w)], shms), w')"
    "store_fds shms = [f \<leftarrow> map (ml_map m) (ml_fds m). f \<notin> v_socks (view w)]"
    "v_pending (view w') fd = ml_rest m" "same_on (- insert fd (mail_arrives m)) (view w) (view w')"
proof -
  obtain shms w' where r: "recv sys ssb fd Blocking w = Some (Ok (ml_data m,
      map opaque_from_fd [f \<leftarrow> map (ml_map m) (ml_fds m). f \<in> v_socks (view w)], shms), w')"
    "store_fds shms = [f \<leftarrow> map (ml_map m) (ml_fds m). f \<notin> v_socks (view w)]" "v_pending (view w') fd = ml_rest m"
    and none: "ml_rx m = None \<longrightarrow> view w' = taken (view w) fd (ml_rest m)"
    and some: "\<forall>b. ml_rx m = Some b \<longrightarrow> (\<exists>w1. view w1 = taken (taken (view w) fd (ml_rest m)) (ml_map m b) (ml_later m) \<and>
       (w' = w1 \<or> sys_close sys (ml_map m b) w1 = (0, w')))"
    by (rule recv_transfer_effect [OF assms(1,3), of "ml_data m" "ml_fds m" "ml_pkt m" "ml_rx m" "ml_chunks m" w fd
        "ml_map m" "ml_rest m" "ml_later m" Blocking])
      (use m in \<open>auto simp: mail_waits_def mail_arrives_def\<close>)
  have "same_on (- insert fd (mail_arrives m)) (view w) (view w')"
  proof (cases "ml_rx m")
    case None
    then show ?thesis using none by (auto simp: same_on_def taken_def)
  next
    case (Some b)
    then obtain w1 where w1: "view w1 = taken (taken (view w) fd (ml_rest m)) (ml_map m b) (ml_later m)"
      "w' = w1 \<or> sys_close sys (ml_map m b) w1 = (0, w')" using some by blast
    have "ml_map m b \<in> mail_arrives m" using mail_transfer(2) [OF m Some] by (simp add: mail_arrives_def)
    moreover have "same_on (- {ml_map m b}) (view w1) (view w')"
      using w1(2) assms(2) unfolding same_on_def closes_apart_def by blast
    ultimately have "same_on (- insert fd (mail_arrives m)) (view w1) (view w')"
        "same_on (- insert fd (mail_arrives m)) (view w) (view w1)"
      using w1(1) by (auto intro: same_on_mono simp: same_on_def [of _ "view w"] taken_def)
    then show ?thesis by (simp add: same_on_def)
  qed
  then show thesis using that r by blast
qed

text \<open>What \<open>select\<close> returns for a member: its message under its identifier.\<close>

definition mail_result ::
  "unix_receiver_set \<Rightarrow> net_view \<Rightarrow> (usize \<Rightarrow> mail) \<Rightarrow> (usize \<Rightarrow> os_ipc_shared_memory list) \<Rightarrow> usize \<Rightarrow> unix_selection_result" where
  "mail_result s v mail shms t =
     DataReceived (pe_id (the (pollfds s t))) (ml_data (mail t))
       (map opaque_from_fd [f \<leftarrow> map (ml_map (mail t)) (ml_fds (mail t)). f \<in> v_socks v]) (shms t)"

abbreviation touched :: "unix_receiver_set \<Rightarrow> (usize \<Rightarrow> mail) \<Rightarrow> usize \<Rightarrow> fd set" where
  "touched s mail t \<equiv> insert (pe_fd (the (pollfds s t))) (mail_arrives (mail t))"

lemma handle_mail:
  assumes "receiving sys view" and "closes_apart sys view" and "sendbuf_ok ssb"
    and "distinct toks" and "\<forall>t\<in>set toks. pollfds s t \<noteq> None \<and> mail_waits ssb (view w) (pe_fd (the (pollfds s t))) (mail t)"
    and "\<forall>t\<in>set toks. \<forall>u\<in>set toks. t \<noteq> u \<longrightarrow> touched s mail t \<inter> touched s mail u = {}"
  shows "\<exists>shms w'. handle_events sys ssb mio (map (\<lambda>t. (t, True)) toks) results (w, s) =
      Some (Ok (results @ map (mail_result s (view w) mail shms) toks), (w', s)) \<and>
    (\<forall>t\<in>set toks. store_fds (shms t) = [f \<leftarrow> map (ml_map (mail t)) (ml_fds (mail t)). f \<notin> v_socks (view w)] \<and>
      v_pending (view w') (pe_fd (the (pollfds s t))) = ml_rest (mail t)) \<and>
    same_on (- (\<Union>t\<in>set toks. touched s mail t)) (view w) (view w')"
  using assms(4-)
proof (induction toks arbitrary: w results)
  case Nil
  then show ?case by (simp add: same_on_def)
next
  case (Cons t toks)
  let ?m = "mail t" and ?fd = "pe_fd (the (pollfds s t))"
  obtain sh w1 where r: "recv sys ssb ?fd Blocking w = Some (Ok (ml_data ?m,
      map opaque_from_fd [f \<leftarrow> map (ml_map ?m) (ml_fds ?m). f \<in> v_socks (view w)], sh), w1)"
    and sh: "store_fds sh = [f \<leftarrow> map (ml_map ?m) (ml_fds ?m). f \<notin> v_socks (view w)]"
    and rest: "v_pending (view w1) ?fd = ml_rest ?m" and same: "same_on (- touched s mail t) (view w) (view w1)"
    using recv_mail [OF assms(1-3), of w ?fd ?m] Cons.prems(2) by auto
  have apart: "touched s mail u \<subseteq> - touched s mail t" if "u \<in> set toks" for u
    using Cons.prems(1,3) that by fastforce
  note same_u = same_on_mono [OF same apart]
  have tail: "mail_waits ssb (view w1) (pe_fd (the (pollfds s u))) (mail u)" if "u \<in> set toks" for u
    using mail_waits_same(1) [OF _ same_u [OF that]] Cons.prems(2) that by simp
  have socks: "\<forall>f\<in>set (ml_fds (mail u)). ml_map (mail u) f \<in> v_socks (view w1) \<longleftrightarrow> ml_map (mail u) f \<in> v_socks (view w)"
    if "u \<in> set toks" for u
    using mail_waits_same(2) [OF _ same_u [OF that], of ssb] Cons.prems(2) that by simp
  have kinds: "[f \<leftarrow> map (ml_map (mail u)) (ml_fds (mail u)). f \<in> v_socks (view w1)] =
        [f \<leftarrow> map (ml_map (mail u)) (ml_fds (mail u)). f \<in> v_socks (view w)]"
      "[f \<leftarrow> map (ml_map (mail u)) (ml_fds (mail u)). f \<notin> v_socks (view w1)] =
        [f \<leftarrow> map (ml_map (mail u)) (ml_fds (mail u)). f \<notin> v_socks (view w)]"
    if "u \<in> set toks" for u
    by (intro filter_cong; use socks [OF that] in auto)+
  let ?res = "DataReceived (pe_id (the (pollfds s t))) (ml_data ?m)
    (map opaque_from_fd [f \<leftarrow> map (ml_map ?m) (ml_fds ?m). f \<in> v_socks (view w)]) sh"
  obtain shms w2 where IH: "handle_events sys ssb mio (map (\<lambda>t. (t, True)) toks) (results @ [?res]) (w1, s) =
      Some (Ok ((results @ [?res]) @ map (mail_result s (view w1) mail shms) toks), (w2, s))"
    and each: "\<forall>u\<in>set toks. store_fds (shms u) = [f \<leftarrow> map (ml_map (mail u)) (ml_fds (mail u)). f \<notin> v_socks (view w1)] \<and>
      v_pending (view w2) (pe_fd (the (pollfds s u))) = ml_rest (mail u)"
    and others: "same_on (- (\<Union>u\<in>set toks. touched s mail u)) (view w1) (view w2)"
    using Cons.IH [of w1 "results @ [?res]"] Cons.prems tail by auto
  let ?shms = "shms(t := sh)"
  have new: "u \<noteq> t" if "u \<in> set toks" for u using Cons.prems(1) that by auto
  have "handle_event sys ssb mio (t, True) (w, s) = Some (Ok ?res, (w1, s))"
    using r Cons.prems(2) by (auto simp: handle_event_def on_world_def)
  then have "handle_events sys ssb mio (map (\<lambda>t. (t, True)) (t # toks)) results (w, s) =
      Some (Ok (results @ ?res # map (mail_result s (view w1) mail shms) toks), (w2, s))"
    using IH by (simp add: io_on_failure_Ok)
  moreover have "mail_result s (view w) mail ?shms t = ?res" by (simp add: mail_result_def)
  moreover have "map (mail_result s (view w1) mail shms) toks = map (mail_result s (view w) mail ?shms) toks"
    using kinds(1) new by (intro map_cong) (auto simp: mail_result_def)
  ultimately have run: "handle_events sys ssb mio (map (\<lambda>t. (t, True)) (t # toks)) results (w, s) =
      Some (Ok (results @ map (mail_result s (view w) mail ?shms) (t # toks)), (w2, s))"
    by (simp del: handle_events.simps)
  have "?fd \<in> - (\<Union>u\<in>set toks. touched s mail u)" using apart by blast
  then have "v_pending (view w2) ?fd = ml_rest ?m" using others rest unfolding same_on_def by simp
  then have each': "\<forall>u\<in>set (t # toks).
      store_fds (?shms u) = [f \<leftarrow> map (ml_map (mail u)) (ml_fds (mail u)). f \<notin> v_socks (view w)] \<and>
      v_pending (view w2) (pe_fd (the (pollfds s u))) = ml_rest (mail u)"
    using sh each kinds(2) new by auto
  have "same_on (- (\<Union>u\<in>set (t # toks). touched s mail u)) (view w) (view w2)"
    using same others by (auto simp: same_on_def)
  with run each' show ?case by blast
qed

text \<open>The members that are not quiet, by their tokens.\<close>

definition loud :: "unix_receiver_set \<Rightarrow> fd set \<Rightarrow> usize set" where
  "loud s q = {t. \<exists>e. pollfds s t = Some e \<and> pe_fd e \<notin> q}"

lemma wait_loud:
  assumes "polls sys mio reg" and "announces mio view reg quiet" and "set_inv reg (w, s)" and "loud s (quiet w) \<noteq> {}"
  obtains toks w1 where "wait_events sys mio (set_poll s) w = Some (Ok (map (\<lambda>t. (t, True)) toks), w1)" "view w1 = view w"
    "toks \<noteq> []" "distinct toks" "set toks \<subseteq> loud s (quiet w)"
    "card (loud s (quiet w)) \<le> 10 \<longrightarrow> set toks = loud s (quiet w)"
proof -
  have reg: "reg w (set_poll s) = entries s" using assms(3) by (simp add: set_inv_def)
  have loud: "loud s (quiet w) = fst ` {x \<in> entries s. snd x \<notin> quiet w}"
    by (force simp: loud_def entries_def)
  have inj: "inj_on fst {x \<in> entries s. snd x \<notin> quiet w}"
    by (auto simp: inj_on_def entries_def)
  obtain t fd where "(t, fd) \<in> entries s" "fd \<notin> quiet w" using assms(4) unfolding loud by auto
  then have "fd \<in> snd ` reg w (set_poll s) \<and> fd \<notin> quiet w" unfolding reg by force
  then obtain evts w1 where poll: "mio_poll mio (set_poll s) w = Some (Inr evts, w1)" "evts \<noteq> []" "view w1 = view w"
    and about: "\<forall>evt\<in>set evts. \<exists>fd. (fst evt, fd) \<in> reg w (set_poll s) \<and> fd \<notin> quiet w"
    and all: "card {x \<in> reg w (set_poll s). snd x \<notin> quiet w} \<le> 10 \<longrightarrow>
      (\<forall>x\<in>reg w (set_poll s). snd x \<notin> quiet w \<longrightarrow> (fst x, True) \<in> set evts)"
    using assms(2) unfolding announces_def by blast
  note ev = pollsD(5) [OF assms(1) poll(1)]
  then have "distinct (map fst evts)" and "\<forall>evt\<in>set evts. snd evt" by blast+
  then have evts: "evts = map (\<lambda>t. (t, True)) (map fst evts)"
    by (auto simp: comp_def intro!: map_idI [symmetric] prod_eqI)
  have sub: "set (map fst evts) \<subseteq> loud s (quiet w)"
    using about unfolding loud reg by force
  moreover have "set (map fst evts) = loud s (quiet w)" if "card (loud s (quiet w)) \<le> 10"
  proof
    have "card {x \<in> entries s. snd x \<notin> quiet w} \<le> 10" using that card_image [OF inj] unfolding loud by simp
    then show "loud s (quiet w) \<subseteq> set (map fst evts)"
      using all unfolding loud reg by force
  qed (rule sub)
  moreover have "wait_events sys mio (set_poll s) w = Some (Ok (map (\<lambda>t. (t, True)) (map fst evts)), w1)"
    using poll evts wait_events.simps [of sys mio "set_poll s" w] by simp
  ultimately show thesis using that [of "map fst evts" w1] poll \<open>distinct (map fst evts)\<close> by auto
qed

text \<open>C8: The set of receivers keeps its promise to whoever routes its messages, whatever the kernel and
  \<open>mio\<close> do within their documentation. Adding a receiver gives an identifier that no member has. A
  \<open>select\<close> that returns reports only members, and none again once it has reported it closed; the members
  left are exactly those not reported closed. The table stays in step with the registrations, also
  after an error.\<close>

theorem unix_set_contract:
  assumes "polls sys mio reg" and "set_inv reg ws"
  shows "(\<forall>r i ws'. unix_set_add sys mio r ws = Some (Ok i, ws') \<longrightarrow>
      set_inv reg ws' \<and> i \<notin> set_ids (snd ws) \<and> set_ids (snd ws') = insert i (set_ids (snd ws))) \<and>
    (\<forall>r e ws'. unix_set_add sys mio r ws = Some (Err e, ws') \<longrightarrow>
      set_inv reg ws' \<and> set_ids (snd ws') = set_ids (snd ws)) \<and>
    (\<forall>rs ws'. unix_select sys ssb mio ws = Some (Ok rs, ws') \<longrightarrow>
      set_inv reg ws' \<and> report_ok (set_ids (snd ws)) (map os_report rs) \<and>
      set_ids (snd ws') = left_after (set_ids (snd ws)) (map os_report rs)) \<and>
    (\<forall>e ws'. unix_select sys ssb mio ws = Some (Err e, ws') \<longrightarrow>
      set_inv reg ws' \<and> set_ids (snd ws') \<subseteq> set_ids (snd ws))"
proof -
  from assms have inv: "polls sys mio reg \<and> set_inv reg ws" ..
  show ?thesis
    using us.add_Ok [OF inv] us.add_Err [OF inv] us.select_Ok [OF inv] us.select_Err [OF inv] by blast
qed

text \<open>C14: Messages that wait for members of the set are delivered by the next \<open>select\<close>, provided that every member
  that is not quiet has a whole message waiting: no channel was hung up, and nobody sends torn messages.
  Then \<open>select\<close> returns a message for each of some of these members, at least one, and for all of them
  when they are at most ten, the number of events that it takes at once. Each is reported under the
  identifier that \<open>add\<close> gave out, with its bytes, channels and regions, and what else waits for the member
  stays. The others' messages are left for the next call.\<close>

theorem unix_select_delivers:
  assumes "polls sys mio reg" and "announces mio view reg quiet" and "receiving sys view" and "closes_apart sys view"
    and "sendbuf_ok ssb" and "set_inv reg (w, s)"
    and "\<forall>t\<in>loud s (quiet w). mail_waits ssb (view w) (pe_fd (the (pollfds s t))) (mail t)"
    and "\<forall>t\<in>loud s (quiet w). \<forall>u\<in>loud s (quiet w). t \<noteq> u \<longrightarrow> touched s mail t \<inter> touched s mail u = {}"
    and "loud s (quiet w) \<noteq> {}"
  shows "\<exists>toks shms w'. toks \<noteq> [] \<and> distinct toks \<and> set toks \<subseteq> loud s (quiet w) \<and>
    (card (loud s (quiet w)) \<le> 10 \<longrightarrow> set toks = loud s (quiet w)) \<and>
    unix_select sys ssb mio (w, s) =
      Some (Ok (map (\<lambda>t. DataReceived (pe_id (the (pollfds s t))) (ml_data (mail t))
          (map opaque_from_fd [f \<leftarrow> map (ml_map (mail t)) (ml_fds (mail t)). f \<in> v_socks (view w)]) (shms t)) toks),
        (w', s)) \<and>
    (\<forall>t\<in>set toks. store_fds (shms t) = [f \<leftarrow> map (ml_map (mail t)) (ml_fds (mail t)). f \<notin> v_socks (view w)] \<and>
      v_pending (view w') (pe_fd (the (pollfds s t))) = ml_rest (mail t)) \<and>
    (\<forall>t\<in>loud s (quiet w) - set toks. mail_waits ssb (view w') (pe_fd (the (pollfds s t))) (mail t))"
proof -
  obtain toks w1 where wait: "wait_events sys mio (set_poll s) w = Some (Ok (map (\<lambda>t. (t, True)) toks), w1)" "view w1 = view w"
    and toks: "toks \<noteq> []" "distinct toks" "set toks \<subseteq> loud s (quiet w)"
      "card (loud s (quiet w)) \<le> 10 \<longrightarrow> set toks = loud s (quiet w)"
    using wait_loud [OF assms(1,2,6,9)] .
  have waits: "\<forall>t\<in>set toks. pollfds s t \<noteq> None \<and> mail_waits ssb (view w1) (pe_fd (the (pollfds s t))) (mail t)"
    using toks(3) assms(7) wait(2) by (auto simp: loud_def)
  have apart: "\<forall>t\<in>set toks. \<forall>u\<in>set toks. t \<noteq> u \<longrightarrow> touched s mail t \<inter> touched s mail u = {}"
    using toks(3) assms(8) by blast
  obtain shms w' where run: "handle_events sys ssb mio (map (\<lambda>t. (t, True)) toks) [] (w1, s) =
      Some (Ok ([] @ map (mail_result s (view w1) mail shms) toks), (w', s))"
    and each: "\<forall>t\<in>set toks. store_fds (shms t) = [f \<leftarrow> map (ml_map (mail t)) (ml_fds (mail t)). f \<notin> v_socks (view w1)] \<and>
      v_pending (view w') (pe_fd (the (pollfds s t))) = ml_rest (mail t)"
    and same: "same_on (- (\<Union>t\<in>set toks. touched s mail t)) (view w1) (view w')"
    using handle_mail [OF assms(3-5) toks(2) waits apart, of mio "[]"] by (elim exE conjE) (rule that)
  have "unix_select sys ssb mio (w, s) = Some (Ok (map (mail_result s (view w) mail shms) toks), (w', s))"
    using wait run by (simp add: unix_select_def on_world_def)
  moreover have "mail_waits ssb (view w') (pe_fd (the (pollfds s t))) (mail t)" if "t \<in> loud s (quiet w) - set toks" for t
  proof (rule mail_waits_same(1))
    show "mail_waits ssb (view w) (pe_fd (the (pollfds s t))) (mail t)" using assms(7) that by blast
    have "touched s mail t \<subseteq> - (\<Union>u\<in>set toks. touched s mail u)"
    proof -
      have "touched s mail t \<inter> touched s mail u = {}" if "u \<in> set toks" for u
        using assms(8) \<open>t \<in> loud s (quiet w) - set toks\<close> toks(3) that by (metis DiffD1 DiffD2 subsetD)
      then show ?thesis by blast
    qed
    then show "same_on (touched s mail t) (view w) (view w')"
      using same_on_mono [OF same] wait(2) by simp
  qed
  ultimately show ?thesis
    using toks each wait(2) unfolding mail_result_def [abs_def]
    by (intro exI [of _ toks] exI [of _ shms] exI [of _ w'] conjI ballI) simp_all
qed

section \<open>An example\<close>

text \<open>
  The example kernel with one poll object, number 0. Descriptors that arrive are new ones: none of
  them is registered.
\<close>

definition fresh_fds :: "knl \<Rightarrow> packet \<Rightarrow> packet" where
  "fresh_fds w p = (fst p, [f \<leftarrow> snd p. f \<notin> snd ` set (k_polled w)])"

definition p_sys :: "knl unix_sys" where
  "p_sys = k_sys\<lparr>sys_recvmsg := (\<lambda>fd m w. k_receive fd (\<lambda>p. delivered m (fresh_fds w p)) w)\<rparr>"

definition p_view :: "knl \<Rightarrow> net_view" where
  "p_view w = (k_view w)\<lparr>v_pending := (\<lambda>fd. map (fresh_fds w) (k_pending w fd))\<rparr>"

definition k_quiet :: "knl \<Rightarrow> fd set" where
  "k_quiet w = {fd. k_pending w fd = [] \<and> \<not> k_hung_up w fd}"

definition k_reg :: "knl \<Rightarrow> nat \<Rightarrow> (usize \<times> fd) set" where
  "k_reg w p = (if p = 0 then set (k_polled w) else {})"

definition k_mio :: "knl mio" where
  "k_mio = \<lparr>mio_new = (\<lambda>w. (Inr 0, w\<lparr>k_polled := []\<rparr>)),
     mio_register = (\<lambda>p fd tok w.
       if p = 0 \<and> 0 \<le> fd \<and> fd < 2 ^ 31 \<and> fd \<notin> snd ` set (k_polled w)
       then (Inr (), w\<lparr>k_polled := k_polled w @ [(tok, fd)]\<rparr>) else (Inl (RawOs 17), w)),
     mio_deregister = (\<lambda>p fd w.
       (Inr (), if p = 0 then w\<lparr>k_polled := [x \<leftarrow> k_polled w. snd x \<noteq> fd]\<rparr> else w)),
     mio_poll = (\<lambda>p w.
       let ready = remdups (map fst [x \<leftarrow> if p = 0 then k_polled w else []. snd x \<notin> k_quiet w]) in
       if ready = [] then None else Some (Inr (map (\<lambda>t. (t, True)) (take 10 ready)), w))\<rparr>"

lemma p_spares: "spares p_sys (\<lambda>w. k_reg w p = S) (snd ` S)"
proof -
  have new: "set (cmsg_fds (out_cmsg (delivered m (fresh_fds w q)))) \<inter> snd ` k_reg w p = {}" for m w q
  proof -
    have "set (cmsg_fds (out_cmsg (delivered m (fresh_fds w q)))) \<subseteq>
        set [f \<leftarrow> snd q. f \<notin> snd ` set (k_polled w)]"
      unfolding delivered_def fresh_fds_def Let_def by (simp add: set_take_subset del: set_filter)
    then show ?thesis
      unfolding k_reg_def set_filter by simp blast
  qed
  have recvmsg: "ensures (\<lambda>w. k_reg w p = S)
      (call_blocking (sys_recvmsg p_sys fd m) :: (knl, recvmsg_out option, unix_error) io)
      (\<lambda>out. case out of None \<Rightarrow> True | Some out \<Rightarrow> set (cmsg_fds (out_cmsg out)) \<inter> snd ` S = {})" for fd m
  proof (rule ensures_call_blocking)
    fix w x w'
    assume I: "k_reg w p = S" and "sys_recvmsg p_sys fd m w = Some (x, w')"
    then have "k_reg w' p = S" "x = None \<or> (\<exists>q. x = Some (delivered m (fresh_fds w q)))"
      by (auto simp: p_sys_def k_receive_def k_reg_def split: list.splits if_splits)
    then show "k_reg w' p = S \<and>
        (case x of None \<Rightarrow> True | Some out \<Rightarrow> set (cmsg_fds (out_cmsg out)) \<inter> snd ` S = {})"
      using new [of m w, unfolded I] by (elim disjE exE) simp_all
  qed
  show ?thesis
    unfolding spares_def
    by (intro conjI allI impI recvmsg; intro ensures_call ensures_call_blocking)
      (auto simp: p_sys_def k_defs k_reg_def split: list.splits if_splits option.splits)
qed

lemma k_polls: "polls p_sys k_mio k_reg"
  unfolding polls_def
proof (intro conjI allI impI p_spares)
  fix p w r w'
  assume poll: "mio_poll k_mio p w = Some (r, w')"
  define ready where "ready = map fst [x \<leftarrow> if p = 0 then k_polled w else []. snd x \<notin> k_quiet w]"
  have r: "r = Inr (map (\<lambda>t. (t, True)) (take 10 (remdups ready)))" and w': "w' = w"
    using poll by (auto simp: k_mio_def Let_def ready_def split: if_splits)
  have "set ready \<subseteq> fst ` k_reg w p" by (auto simp: ready_def k_reg_def)
  then have sub: "set (take 10 (remdups ready)) \<subseteq> fst ` k_reg w p" by (auto dest!: in_set_takeD)
  show "k_reg w' p = k_reg w p" by (simp add: w')
  fix evts
  assume "r = Inr evts"
  with r sub show "distinct (map fst evts)" and "\<forall>evt\<in>set evts. snd evt \<and> fst evt \<in> fst ` k_reg w p"
    by (auto simp: comp_def)
qed (auto simp: k_mio_def k_reg_def split: if_splits)

lemma p_receiving: "receiving p_sys p_view"
  unfolding receiving_def
proof (intro conjI allI impI)
  fix fd w assume "fd \<in> v_files (p_view w)"
  then show "\<exists>mode sz w'. sys_fstat p_sys fd w = ((0, mode, sz), w') \<and> \<not> S_ISSOCK mode \<and>
      p_view w' = p_view w \<and>
      (sz \<noteq> 0 \<longrightarrow> (\<exists>a w''. sys_mmap p_sys sz fd w' = (Some a, w'') \<and> a \<noteq> 0 \<and> p_view w'' = p_view w))"
    by (auto simp: p_view_def p_sys_def k_view_def k_sys_def k_fstat_def S_ISSOCK_def k_mmap_file
      k_address_not_0)
qed (auto simp: p_view_def p_sys_def fresh_fds_def k_view_def k_sys_def k_recvmsg_def k_recv_def k_receive_def k_poll_def k_setfl_def
  k_close_def k_fstat_def S_ISSOCK_def taken_def fun_eq_iff split: list.splits)

lemma k_announces: "announces k_mio p_view k_reg k_quiet"
  unfolding announces_def
proof (intro conjI allI impI, goal_cases)
  case (1 w fd)
  then show ?case by (auto simp: p_view_def k_quiet_def)
next
  case (2 p w fd)
  define ready where "ready = map fst [x \<leftarrow> if p = 0 then k_polled w else []. snd x \<notin> k_quiet w]"
  have "ready \<noteq> []" using 2 by (fastforce simp: ready_def k_reg_def filter_empty_conv split: if_splits)
  then have poll: "mio_poll k_mio p w = Some (Inr (map (\<lambda>t. (t, True)) (take 10 (remdups ready))), w)"
    by (simp add: k_mio_def Let_def ready_def)
  have set: "set ready = fst ` {x \<in> k_reg w p. snd x \<notin> k_quiet w}" by (auto simp: ready_def k_reg_def)
  have "(fst x, True) \<in> set (map (\<lambda>t. (t, True)) (take 10 (remdups ready)))"
    if "card {x \<in> k_reg w p. snd x \<notin> k_quiet w} \<le> 10" and "x \<in> k_reg w p" "snd x \<notin> k_quiet w" for x
  proof -
    have "finite {x \<in> k_reg w p. snd x \<notin> k_quiet w}" by (simp add: k_reg_def)
    then have "length (remdups ready) \<le> 10"
      using that(1) card_image_le [of _ fst] by (fastforce simp: set length_remdups_card_conv)
    moreover have "fst x \<in> set ready" using that(2,3) unfolding set by blast
    ultimately show ?thesis by simp
  qed
  moreover have "\<exists>fd. (fst evt, fd) \<in> k_reg w p \<and> fd \<notin> k_quiet w"
    if "evt \<in> set (map (\<lambda>t. (t, True)) (take 10 (remdups ready)))" for evt
  proof -
    have "fst evt \<in> set ready" using that by (auto dest!: in_set_takeD)
    then show ?thesis unfolding set by auto
  qed
  ultimately show ?case
    unfolding poll using \<open>ready \<noteq> []\<close> by (intro exI conjI) (auto simp del: set_map)
qed

definition example_polled :: knl where
  "example_polled = (k_init 100)\<lparr>k_polled := [(4, 4)],
     k_pending := (\<lambda>_. [])(4 := [(header [1, 2] @ [1, 2], [])])\<rparr>"

definition example_set :: unix_receiver_set where
  "example_set = \<lparr>incrementor = 1, set_poll = 0, pollfds = [4 \<mapsto> \<lparr>pe_id = 0, pe_fd = 4\<rparr>]\<rparr>"

lemma example_set_inv: "set_inv k_reg (example_polled, example_set)"
  by (auto simp: set_inv_def set_table_ok_def example_set_def example_polled_def k_reg_def entries_def
    fd_token_def split: if_splits)

theorem unix_set_contract_witness:
  "\<exists>ws'. unix_set_add p_sys k_mio \<lparr>rx_fd = 5\<rparr> (example_polled, example_set) = Some (Ok 1, ws') \<and>
     set_inv k_reg ws' \<and> set_ids (snd ws') = {0, 1}"
proof -
  let ?ws' = "(example_polled\<lparr>k_polled := [(4, 4), (5, 5)]\<rparr>,
    \<lparr>incrementor = 2, set_poll = 0, pollfds = [4 \<mapsto> \<lparr>pe_id = 0, pe_fd = 4\<rparr>, 5 \<mapsto> \<lparr>pe_id = 1, pe_fd = 5\<rparr>]\<rparr>)"
  have run: "unix_set_add p_sys k_mio \<lparr>rx_fd = 5\<rparr> (example_polled, example_set) = Some (Ok 1, ?ws')"
    by (simp add: unix_set_add_def next_index_def consume_fd_def example_set_def example_polled_def
      on_world_def on_self_def mio_try_def call_def k_mio_def fd_token_def io_on_failure_def)
  have ids: "set_ids example_set = {0}" by (simp add: set_ids_def example_set_def)
  have "set_inv k_reg ?ws' \<and> set_ids (snd ?ws') = insert 1 (set_ids (snd (example_polled, example_set)))"
    using unix_set_contract [OF k_polls example_set_inv] run by blast
  with run ids show ?thesis by (intro exI [of _ ?ws']) auto
qed

lemma p_closes_apart: "closes_apart p_sys p_view"
  by (auto simp: closes_apart_def p_sys_def k_sys_def k_close_def p_view_def k_view_def fresh_fds_def)

text \<open>Two members, with a message each.\<close>

definition example_two :: knl where
  "example_two = (k_init 100)\<lparr>k_polled := [(4, 4), (5, 5)],
     k_pending := (\<lambda>_. [])(4 := [(header [1, 2] @ [1, 2], [])], 5 := [(header [3] @ [3], [])])\<rparr>"

definition example_both :: unix_receiver_set where
  "example_both = \<lparr>incrementor = 2, set_poll = 0,
     pollfds = [4 \<mapsto> \<lparr>pe_id = 0, pe_fd = 4\<rparr>, 5 \<mapsto> \<lparr>pe_id = 1, pe_fd = 5\<rparr>]\<rparr>"

definition example_mail :: "usize \<Rightarrow> mail" where
  "example_mail t = (let data = (if t = 4 then [1, 2] else [3]) in
     \<lparr>ml_data = data, ml_fds = [], ml_pkt = (header data @ data, []), ml_rx = None, ml_chunks = [], ml_map = (\<lambda>f. f),
      ml_rest = [], ml_later = []\<rparr>)"

theorem unix_select_delivers_witness:
  "\<exists>rs w'. unix_select p_sys 48 k_mio (example_two, example_both) = Some (Ok rs, (w', example_both)) \<and>
     set rs = {DataReceived 0 [1, 2] [] [], DataReceived 1 [3] [] []}"
proof -
  have loud: "loud example_both (k_quiet example_two) = {4, 5}"
    by (auto simp: loud_def example_both_def k_quiet_def example_two_def)
  have inv: "set_inv k_reg (example_two, example_both)"
    by (auto simp: set_inv_def set_table_ok_def example_both_def example_two_def k_reg_def entries_def
      fd_token_def split: if_splits)
  have mail: "\<forall>t\<in>{4, 5}. mail_waits 48 (p_view example_two) (pe_fd (the (pollfds example_both t))) (example_mail t)"
    by (auto simp: mail_waits_def mail_arrives_def example_mail_def example_both_def example_two_def p_view_def fresh_fds_def
      is_transfer_def Let_def)
  have apart: "\<forall>t\<in>{4, 5}. \<forall>u\<in>{4, 5}. t \<noteq> u \<longrightarrow>
      touched example_both example_mail t \<inter> touched example_both example_mail u = {}"
    by (auto simp: mail_arrives_def example_mail_def example_both_def Let_def)
  obtain toks shms w' where "card {4, 5 :: usize} \<le> 10 \<longrightarrow> set toks = {4, 5}"
    and "unix_select p_sys 48 k_mio (example_two, example_both) =
      Some (Ok (map (\<lambda>t. DataReceived (pe_id (the (pollfds example_both t))) (ml_data (example_mail t))
          (map opaque_from_fd [f \<leftarrow> map (ml_map (example_mail t)) (ml_fds (example_mail t)).
             f \<in> v_socks (p_view example_two)]) (shms t)) toks), (w', example_both))"
    and "\<forall>t\<in>set toks. store_fds (shms t) = [f \<leftarrow> map (ml_map (example_mail t)) (ml_fds (example_mail t)).
      f \<notin> v_socks (p_view example_two)]"
    using unix_select_delivers [OF k_polls k_announces p_receiving p_closes_apart _ inv, unfolded loud, OF _ mail apart] by auto
  moreover from calculation have "set toks = {4, 5}" by simp
  moreover from calculation have "shms 4 = []" "shms 5 = []" by (simp_all add: example_mail_def Let_def)
  ultimately show ?thesis by (auto simp: example_mail_def example_both_def Let_def)
qed

end
