(* ===== verification/Unix_Server.thy ===== *)
theory Unix_Server
  imports Unix_Recv
begin

text \<open>
  Named sockets of the Unix back end: the address of a socket file, \<open>OsIpcSender::connect\<close>,
  \<open>OsIpcOneShotServer\<close>, and the size of the kernel's send buffer.
\<close>

section \<open>Addresses\<close>

definition AF_UNIX :: int where "AF_UNIX = 1"

text \<open>
  \<open>strncpy\<close> of at most 107 characters into the zeroed \<open>sun_path\<close> of 108; it stops at the end of the
  C string.
\<close>

definition new_sockaddr_un :: "string \<Rightarrow> sockaddr_un" where
  "new_sockaddr_un path =
     (let copied = take 107 (takeWhile (\<lambda>c. c \<noteq> CHR 0x00) path) in
      \<lparr>sun_family = AF_UNIX, sun_path = copied @ replicate (108 - length copied) (CHR 0x00)\<rparr>)"

text \<open>\<open>CString::new\<close> refuses a string with a NUL in it.\<close>

definition c_string_new :: "string \<Rightarrow> ('w, string, unix_error) io" where
  "c_string_new s = (if CHR 0x00 \<in> set s then io_panic else io_return s)"

section \<open>The size of the send buffer\<close>

definition get_system_sendbuf_size :: "'w unix_sys \<Rightarrow> os_ipc_sender \<Rightarrow> ('w, usize, unix_error) io" where
  "get_system_sendbuf_size sys tx =
     io_bind (call (sys_sndbuf sys (tx_fd tx))) (\<lambda>(r, n). if r < 0 then unix_last sys else io_return n)"

text \<open>
  \<open>SYSTEM_SENDBUF_SIZE\<close>: \<open>expect\<close> turns an error into a panic. The receiver is dropped at once, the
  sender at the end.
\<close>

definition system_sendbuf_size :: "'w unix_sys \<Rightarrow> ('w, usize, unix_error) io" where
  "system_sendbuf_size sys =
     io_match (channel sys)
       (\<lambda>(tx, rx).
          io_finally
            (io_bind (drop_receiver sys False rx) (\<lambda>_.
              io_match (get_system_sendbuf_size sys tx) io_return (\<lambda>_. io_panic)))
            (\<lambda>panicking. drop_shared_fd sys panicking (tx_fd tx)))
       (\<lambda>_. io_panic)"

section \<open>Connecting\<close>

definition connect :: "'w unix_sys \<Rightarrow> string \<Rightarrow> ('w, os_ipc_sender, unix_error) io" where
  "connect sys name =
     io_bind (c_string_new name) (\<lambda>name.
     io_bind (call (sys_socket sys)) (\<lambda>fd.
     io_bind (call_blocking (sys_connect sys fd (new_sockaddr_un name))) (\<lambda>r.
     if r < 0 then unix_last sys else io_return (sender_from_fd fd))))"

section \<open>The one-shot server\<close>

record os_ipc_one_shot_server =
  server_fd :: fd
  temp_dir :: string

definition drop_temp_dir :: "'w unix_sys \<Rightarrow> string \<Rightarrow> ('w, unit, unix_error) io" where
  "drop_temp_dir sys dir = (\<lambda>w. Some (Ok (), sys_rmdir sys dir w))"

definition drop_server :: "'w unix_sys \<Rightarrow> bool \<Rightarrow> os_ipc_one_shot_server \<Rightarrow> ('w, unit, unix_error) io" where
  "drop_server sys panicking server =
     io_finally (close_checked sys panicking (server_fd server)) (\<lambda>_. drop_temp_dir sys (temp_dir server))"

definition socket_path :: "string \<Rightarrow> string" where
  "socket_path dir = dir @ ''/socket''"

text \<open>An error or a panic after the directory was made removes it again; the socket stays open.\<close>

definition server_new :: "'w unix_sys \<Rightarrow> ('w, os_ipc_one_shot_server \<times> string, unix_error) io" where
  "server_new sys =
     io_bind (call (sys_socket sys)) (\<lambda>fd.
     io_bind (call (sys_tempdir sys)) (\<lambda>dir.
     case dir of
       None \<Rightarrow> io_panic
     | Some dir \<Rightarrow>
         io_on_failure
           (io_bind (c_string_new (socket_path dir)) (\<lambda>path.
            io_bind (call (sys_bind sys fd (new_sockaddr_un path))) (\<lambda>r.
            if r \<noteq> 0 then unix_last sys else
            io_bind (call (sys_listen sys fd 10)) (\<lambda>r.
            if r \<noteq> 0 then unix_last sys
            else io_return (\<lparr>server_fd = fd, temp_dir = dir\<rparr>, path)))))
           (\<lambda>_. drop_temp_dir sys dir)))"

definition make_socket_lingering :: "'w unix_sys \<Rightarrow> fd \<Rightarrow> ('w, unit, unix_error) io" where
  "make_socket_lingering sys sockfd =
     io_bind (call (sys_linger sys sockfd (1, 30))) (\<lambda>err.
     if err < 0 then unix_last sys else io_return ())"

text \<open>The server is consumed: it is dropped on every way out, after the receiver of a failed receive.\<close>

definition server_accept ::
  "'w unix_sys \<Rightarrow> usize \<Rightarrow> os_ipc_one_shot_server
     \<Rightarrow> ('w, os_ipc_receiver \<times> u8 list \<times> os_opaque_ipc_channel list \<times> os_ipc_shared_memory list,
          unix_error) io" where
  "server_accept sys ssb server =
     io_finally
       (io_bind (call_blocking (sys_accept sys (server_fd server))) (\<lambda>client_fd.
        if client_fd < 0 then unix_last sys else
        io_bind (make_socket_lingering sys client_fd) (\<lambda>_.
        let receiver = receiver_from_fd client_fd in
        io_on_failure
          (io_bind (receiver_recv sys ssb receiver) (\<lambda>(data, channels, shms).
             io_return (receiver, data, channels, shms)))
          (\<lambda>panicking. drop_receiver sys panicking receiver))))
       (\<lambda>panicking. drop_server sys panicking server)"

section \<open>What an address holds\<close>

definition address_path :: "sockaddr_un \<Rightarrow> string" where
  "address_path a = takeWhile (\<lambda>c. c \<noteq> CHR 0x00) (sun_path a)"

lemma new_sockaddr_un_holds:
  "length (sun_path (new_sockaddr_un path)) = 108 \<and> last (sun_path (new_sockaddr_un path)) = CHR 0x00 \<and>
   (address_path (new_sockaddr_un path) = path \<longleftrightarrow> length path \<le> 107 \<and> CHR 0x00 \<notin> set path) \<and>
   (CHR 0x00 \<notin> set path \<longrightarrow> address_path (new_sockaddr_un path) = take 107 path)"
proof -
  define copied where "copied = take 107 (takeWhile (\<lambda>c. c \<noteq> CHR 0x00) path)"
  have len: "length copied \<le> 107" by (simp add: copied_def)
  have nul: "CHR 0x00 \<notin> set copied"
    by (auto simp: copied_def dest!: in_set_takeD set_takeWhileD)
  have sun: "sun_path (new_sockaddr_un path) = copied @ replicate (108 - length copied) (CHR 0x00)"
    by (simp add: new_sockaddr_un_def copied_def Let_def)
  obtain k where k: "108 - length copied = Suc k" using len by (cases "108 - length copied") auto
  have held: "address_path (new_sockaddr_un path) = copied"
    using nul unfolding address_path_def sun k by (induction copied) auto
  have "takeWhile (\<lambda>c. c \<noteq> CHR 0x00) path = path" if "CHR 0x00 \<notin> set path"
    using that by (auto simp: takeWhile_eq_all_conv)
  then have all: "CHR 0x00 \<notin> set path \<longrightarrow> copied = take 107 path"
    by (metis copied_def)
  moreover have "copied = path \<longleftrightarrow> length path \<le> 107 \<and> CHR 0x00 \<notin> set path"
    using len nul all by auto
  ultimately show ?thesis
    using len sun held k by auto
qed

text \<open>C40: The address of a socket file is 108 characters and always ends its path with a NUL; it holds the
  whole name exactly when the name is at most 107 characters without a NUL, and a longer one is cut
  off without an error.\<close>

theorem new_sockaddr_un_path:
  "length (sun_path (new_sockaddr_un path)) = 108 \<and> last (sun_path (new_sockaddr_un path)) = CHR 0x00 \<and>
   (address_path (new_sockaddr_un path) = path \<longleftrightarrow> length path \<le> 107 \<and> CHR 0x00 \<notin> set path) \<and>
   (CHR 0x00 \<notin> set path \<longrightarrow> address_path (new_sockaddr_un path) = take 107 path)"
  by (rule new_sockaddr_un_holds)

theorem new_sockaddr_un_path_witness:
  "address_path (new_sockaddr_un (replicate 200 CHR ''x'')) = replicate 107 CHR ''x''"
  using new_sockaddr_un_path [of "replicate 200 CHR ''x''"] by simp

section \<open>Rendezvous\<close>

text \<open>
  Documented behaviour of named sockets (\<open>unix(7)\<close>), in the states \<open>n_ok\<close> of the system. An address of the
  family \<open>AF_UNIX\<close> whose \<open>sun_path\<close> holds a string that a NUL ends is the address of the file of that
  name, whatever wrote it there.

  \<^item> \<open>n_bound\<close> gives the socket that is bound to a path, \<open>n_dirs\<close> the directories there are, and \<open>n_room\<close>
    says that a temporary directory can be made: it is new, so nothing is bound below it.
  \<^item> A new socket is not bound, and does not listen. \<open>bind\<close> succeeds on one that is not bound yet, when
    the path is free and its directory exists; \<open>listen\<close> succeeds on a socket that is bound.
  \<^item> \<open>n_listening\<close> is the length that \<open>listen\<close> set for the queue of a socket, and \<open>n_backlog\<close> the
    connections that wait in it, each by the descriptor that \<open>accept\<close> will return. \<open>connect\<close> succeeds when
    the address is that of a socket that listens, with room in its queue; \<open>n_peer v w a c\<close> says that \<open>a\<close>
    and \<open>c\<close> are the two ends of a connection.
\<close>

record 'w named_view =
  n_ok :: "'w \<Rightarrow> bool"
  n_room :: "'w \<Rightarrow> bool"
  n_dirs :: "'w \<Rightarrow> string set"
  n_bound :: "'w \<Rightarrow> string \<Rightarrow> fd option"
  n_listening :: "'w \<Rightarrow> fd \<Rightarrow> int option"
  n_backlog :: "'w \<Rightarrow> fd \<Rightarrow> fd list"
  n_peer :: "'w \<Rightarrow> fd \<Rightarrow> fd \<Rightarrow> bool"

definition pathname_address :: "sockaddr_un \<Rightarrow> string \<Rightarrow> bool" where
  "pathname_address a p \<longleftrightarrow> sun_family a = 1 \<and> p \<noteq> [] \<and> CHR 0x00 \<in> set (sun_path a) \<and> address_path a = p"

definition named_sockets :: "'w unix_sys \<Rightarrow> 'w named_view \<Rightarrow> bool" where
  "named_sockets sys v \<longleftrightarrow>
     (\<forall>w. n_ok v w \<longrightarrow> (\<exists>fd w'. sys_socket sys w = (fd, w') \<and> fd \<ge> 0 \<and> n_ok v w' \<and> n_room v w' = n_room v w \<and>
        n_dirs v w' = n_dirs v w \<and> n_bound v w' = n_bound v w \<and> n_listening v w' = (n_listening v w)(fd := None) \<and>
        n_backlog v w' = (n_backlog v w)(fd := []) \<and> (\<forall>p. n_bound v w p \<noteq> Some fd))) \<and>
     (\<forall>w. n_ok v w \<and> n_room v w \<longrightarrow> (\<exists>dir w'. sys_tempdir sys w = (Some dir, w') \<and> CHR 0x00 \<notin> set dir \<and>
        n_ok v w' \<and> dir \<in> n_dirs v w' \<and> n_bound v w' = n_bound v w \<and> n_listening v w' = n_listening v w \<and>
        n_backlog v w' = n_backlog v w \<and> (\<forall>file. n_bound v w (dir @ ''/'' @ file) = None))) \<and>
     (\<forall>w fd a dir file. n_ok v w \<and> pathname_address a (dir @ ''/'' @ file) \<and> dir \<in> n_dirs v w \<and>
        file \<noteq> [] \<and> CHR ''/'' \<notin> set file \<and>
        n_bound v w (dir @ ''/'' @ file) = None \<and> (\<forall>p. n_bound v w p \<noteq> Some fd) \<longrightarrow>
        (\<exists>w'. sys_bind sys fd a w = (0, w') \<and> n_ok v w' \<and> n_bound v w' = (n_bound v w)(dir @ ''/'' @ file \<mapsto> fd) \<and>
           n_listening v w' = n_listening v w \<and> n_backlog v w' = n_backlog v w)) \<and>
     (\<forall>w fd n p. n_ok v w \<and> n_bound v w p = Some fd \<longrightarrow> (\<exists>w'. sys_listen sys fd n w = (0, w') \<and> n_ok v w' \<and>
        n_bound v w' = n_bound v w \<and> n_listening v w' = (n_listening v w)(fd \<mapsto> n) \<and> n_backlog v w' = n_backlog v w)) \<and>
     (\<forall>w fd a p l n. n_ok v w \<and> pathname_address a p \<and> n_bound v w p = Some l \<and> n_listening v w l = Some n \<and>
        int (length (n_backlog v w l)) < n \<and> l \<noteq> fd \<longrightarrow>
        (\<exists>c w'. sys_connect sys fd a w = Some (0, w') \<and> c \<ge> 0 \<and> n_peer v w' fd c \<and>
           n_bound v w' = n_bound v w \<and> n_backlog v w' = (n_backlog v w)(l := n_backlog v w l @ [c])))"

lemma named_socketsD:
  assumes "named_sockets sys v" and ok: "n_ok v w"
  shows "\<exists>fd w'. sys_socket sys w = (fd, w') \<and> fd \<ge> 0 \<and> n_ok v w' \<and> n_room v w' = n_room v w \<and>
      n_dirs v w' = n_dirs v w \<and> n_bound v w' = n_bound v w \<and> n_listening v w' = (n_listening v w)(fd := None) \<and>
      n_backlog v w' = (n_backlog v w)(fd := []) \<and> (\<forall>p. n_bound v w p \<noteq> Some fd)"
    and "n_room v w \<Longrightarrow> \<exists>dir w'. sys_tempdir sys w = (Some dir, w') \<and> CHR 0x00 \<notin> set dir \<and>
      n_ok v w' \<and> dir \<in> n_dirs v w' \<and> n_bound v w' = n_bound v w \<and> n_listening v w' = n_listening v w \<and>
      n_backlog v w' = n_backlog v w \<and> (\<forall>file. n_bound v w (dir @ ''/'' @ file) = None)"
    and "pathname_address a (dir @ ''/'' @ file) \<Longrightarrow> dir \<in> n_dirs v w \<Longrightarrow> file \<noteq> [] \<Longrightarrow> CHR ''/'' \<notin> set file \<Longrightarrow>
      n_bound v w (dir @ ''/'' @ file) = None \<Longrightarrow> \<forall>p. n_bound v w p \<noteq> Some fd \<Longrightarrow>
      \<exists>w'. sys_bind sys fd a w = (0, w') \<and> n_ok v w' \<and> n_bound v w' = (n_bound v w)(dir @ ''/'' @ file \<mapsto> fd) \<and>
         n_listening v w' = n_listening v w \<and> n_backlog v w' = n_backlog v w"
    and "n_bound v w p = Some fd \<Longrightarrow> \<exists>w'. sys_listen sys fd n w = (0, w') \<and> n_ok v w' \<and>
      n_bound v w' = n_bound v w \<and> n_listening v w' = (n_listening v w)(fd \<mapsto> n) \<and> n_backlog v w' = n_backlog v w"
    and "pathname_address a p \<Longrightarrow> n_bound v w p = Some l \<Longrightarrow> n_listening v w l = Some n \<Longrightarrow>
      int (length (n_backlog v w l)) < n \<Longrightarrow> l \<noteq> fd \<Longrightarrow>
      \<exists>c w'. sys_connect sys fd a w = Some (0, w') \<and> c \<ge> 0 \<and> n_peer v w' fd c \<and>
         n_bound v w' = n_bound v w \<and> n_backlog v w' = (n_backlog v w)(l := n_backlog v w l @ [c])"
proof -
  note c1 = assms(1) [unfolded named_sockets_def]
  note c2 = c1 [THEN conjunct2] note c3 = c2 [THEN conjunct2] note c4 = c3 [THEN conjunct2]
  note laws = c1 [THEN conjunct1, rule_format, OF ok] c2 [THEN conjunct1, rule_format, OF conjI, OF ok]
    c3 [THEN conjunct1, rule_format, OF conjI, OF ok] c4 [THEN conjunct1, rule_format, OF conjI, OF ok]
    c4 [THEN conjunct2, rule_format, OF conjI, OF ok]
  show "\<exists>fd w'. sys_socket sys w = (fd, w') \<and> fd \<ge> 0 \<and> n_ok v w' \<and> n_room v w' = n_room v w \<and>
      n_dirs v w' = n_dirs v w \<and> n_bound v w' = n_bound v w \<and> n_listening v w' = (n_listening v w)(fd := None) \<and>
      n_backlog v w' = (n_backlog v w)(fd := []) \<and> (\<forall>p. n_bound v w p \<noteq> Some fd)"
    by (fact laws(1))
  show "\<exists>dir w'. sys_tempdir sys w = (Some dir, w') \<and> CHR 0x00 \<notin> set dir \<and>
      n_ok v w' \<and> dir \<in> n_dirs v w' \<and> n_bound v w' = n_bound v w \<and> n_listening v w' = n_listening v w \<and>
      n_backlog v w' = n_backlog v w \<and> (\<forall>file. n_bound v w (dir @ ''/'' @ file) = None)" if "n_room v w"
    by (fact laws(2) [OF that])
  show "\<exists>w'. sys_bind sys fd a w = (0, w') \<and> n_ok v w' \<and> n_bound v w' = (n_bound v w)(dir @ ''/'' @ file \<mapsto> fd) \<and>
      n_listening v w' = n_listening v w \<and> n_backlog v w' = n_backlog v w"
    if "pathname_address a (dir @ ''/'' @ file)" "dir \<in> n_dirs v w" "file \<noteq> []" "CHR ''/'' \<notin> set file"
      "n_bound v w (dir @ ''/'' @ file) = None" "\<forall>p. n_bound v w p \<noteq> Some fd"
    by (rule laws(3)) (intro conjI that)
  show "\<exists>w'. sys_listen sys fd n w = (0, w') \<and> n_ok v w' \<and>
      n_bound v w' = n_bound v w \<and> n_listening v w' = (n_listening v w)(fd \<mapsto> n) \<and> n_backlog v w' = n_backlog v w"
    if "n_bound v w p = Some fd"
    by (fact laws(4) [OF that])
  show "\<exists>c w'. sys_connect sys fd a w = Some (0, w') \<and> c \<ge> 0 \<and> n_peer v w' fd c \<and>
      n_bound v w' = n_bound v w \<and> n_backlog v w' = (n_backlog v w)(l := n_backlog v w l @ [c])"
    if "pathname_address a p" "n_bound v w p = Some l" "n_listening v w l = Some n"
      "int (length (n_backlog v w l)) < n" "l \<noteq> fd"
    by (rule laws(5) [where p = p and n = n]) (intro conjI that)
qed

text \<open>A short path without a NUL makes the address of that file.\<close>

lemma new_sockaddr_un_pathname:
  assumes "length path \<le> 107" and "CHR 0x00 \<notin> set path" and "path \<noteq> []"
  shows "pathname_address (new_sockaddr_un path) path"
proof -
  have "sun_path (new_sockaddr_un path) \<noteq> []" "last (sun_path (new_sockaddr_un path)) = CHR 0x00"
    using new_sockaddr_un_holds [of path] by auto
  then have "CHR 0x00 \<in> set (sun_path (new_sockaddr_un path))" by (metis last_in_set)
  then show ?thesis
    using new_sockaddr_un_holds [of path] assms by (simp add: pathname_address_def new_sockaddr_un_def AF_UNIX_def Let_def)
qed

lemma connect_reaches:
  assumes "named_sockets sys v" and ok: "n_ok v w"
    and path: "length name \<le> 107" "CHR 0x00 \<notin> set name" "name \<noteq> []"
    and bound: "n_bound v w name = Some l" and listening: "n_listening v w l = Some n"
    and room: "int (length (n_backlog v w l)) < n"
  shows "\<exists>tx c w'. connect sys name w = Some (Ok tx, w') \<and> n_peer v w' (tx_fd tx) c \<and> n_bound v w' = n_bound v w \<and>
    n_backlog v w' = (n_backlog v w)(tx_fd tx := [], l := n_backlog v w l @ [c])"
proof -
  obtain fd w1 where s: "sys_socket sys w = (fd, w1)" "n_ok v w1" "n_bound v w1 = n_bound v w"
      "n_listening v w1 = (n_listening v w)(fd := None)" "n_backlog v w1 = (n_backlog v w)(fd := [])"
      "\<forall>p. n_bound v w p \<noteq> Some fd"
    using named_socketsD(1) [OF assms(1) ok] by blast
  have ne: "l \<noteq> fd" using s(6) bound by auto
  have pre: "n_bound v w1 name = Some l" "n_listening v w1 l = Some n" "int (length (n_backlog v w1 l)) < n"
    using bound listening room ne s(3-5) by simp_all
  obtain c w2 where c: "sys_connect sys fd (new_sockaddr_un name) w1 = Some (0, w2)" "n_peer v w2 fd c"
      "n_bound v w2 = n_bound v w1" "n_backlog v w2 = (n_backlog v w1)(l := n_backlog v w1 l @ [c])"
    using named_socketsD(5) [OF assms(1) s(2) new_sockaddr_un_pathname [OF path] pre ne] by blast
  have "connect sys name w = Some (Ok (sender_from_fd fd), w2)"
    using path(2) by (simp add: connect_def c_string_new_def call_def call_blocking_def s(1) c(1))
  then show ?thesis
    using c(2-4) s(3,5) ne by (intro exI [of _ "sender_from_fd fd"] exI [of _ c] exI [of _ w2])
      (auto simp: sender_from_fd_def)
qed

text \<open>C23: A one-shot server is reached through its name, and only through it. Where a temporary directory with a
  path of at most 100 characters can be made, making a server succeeds: its socket is bound to the file
  that its name names, which was free, no other binding changes, and it listens with a queue for 10.
  Connecting to that name, as long as the socket is bound there and its queue is not full, succeeds and puts
  the other end of the new sender at the end of the queue that the server accepts from, and of no other
  server's. The laws of the system are about the addresses as they are passed to it, so this rests on
  the address that the code makes of a path.\<close>

theorem server_rendezvous:
  assumes "named_sockets sys v" and "n_ok v w" and "n_room v w"
    and "\<And>u dir u'. sys_tempdir sys u = (Some dir, u') \<Longrightarrow> length dir \<le> 100"
  shows "\<exists>server name w'. server_new sys w = Some (Ok (server, name), w') \<and> n_ok v w' \<and> n_bound v w name = None \<and>
    n_bound v w' = (n_bound v w)(name \<mapsto> server_fd server) \<and>
    n_listening v w' (server_fd server) = Some 10 \<and> n_backlog v w' (server_fd server) = [] \<and>
    (\<forall>w2. n_ok v w2 \<and> n_bound v w2 name = Some (server_fd server) \<and> n_listening v w2 (server_fd server) = Some 10 \<and>
        length (n_backlog v w2 (server_fd server)) < 10 \<longrightarrow>
       (\<exists>tx c w3. connect sys name w2 = Some (Ok tx, w3) \<and> n_peer v w3 (tx_fd tx) c \<and> n_bound v w3 = n_bound v w2 \<and>
          n_backlog v w3 = (n_backlog v w2)(tx_fd tx := [],
            server_fd server := n_backlog v w2 (server_fd server) @ [c])))"
proof -
  obtain fd w1 where s: "sys_socket sys w = (fd, w1)" "n_ok v w1" "n_room v w1 = n_room v w" "n_bound v w1 = n_bound v w"
      "n_backlog v w1 = (n_backlog v w)(fd := [])" "\<forall>p. n_bound v w p \<noteq> Some fd"
    using named_socketsD(1) [OF assms(1,2)] by blast
  then obtain dir w2 where d: "sys_tempdir sys w1 = (Some dir, w2)" "CHR 0x00 \<notin> set dir" "n_ok v w2" "dir \<in> n_dirs v w2"
      "n_bound v w2 = n_bound v w1" "n_backlog v w2 = n_backlog v w1" "\<forall>file. n_bound v w1 (dir @ ''/'' @ file) = None"
    using named_socketsD(2) [OF assms(1) s(2)] assms(3) by metis
  have path: "length (socket_path dir) \<le> 107" "CHR 0x00 \<notin> set (socket_path dir)" "socket_path dir \<noteq> []"
    using assms(4) [OF d(1)] d(2) by (simp_all add: socket_path_def)
  have split: "socket_path dir = dir @ ''/'' @ ''socket''" by (simp add: socket_path_def)
  have free: "n_bound v w2 (dir @ ''/'' @ ''socket'') = None" "\<forall>p. n_bound v w2 p \<noteq> Some fd" using d(5,7) s(4,6) by metis+
  obtain w3 where b: "sys_bind sys fd (new_sockaddr_un (socket_path dir)) w2 = (0, w3)" "n_ok v w3"
      "n_bound v w3 = (n_bound v w2)(socket_path dir \<mapsto> fd)" "n_backlog v w3 = n_backlog v w2"
    using named_socketsD(3) [OF assms(1) d(3) new_sockaddr_un_pathname [OF path, unfolded split] d(4) _ _ free]
    unfolding split by auto
  then obtain w4 where l: "sys_listen sys fd 10 w3 = (0, w4)" "n_ok v w4" "n_bound v w4 = n_bound v w3"
      "n_listening v w4 = (n_listening v w3)(fd \<mapsto> 10)" "n_backlog v w4 = n_backlog v w3"
    using named_socketsD(4) [OF assms(1) b(2), of "socket_path dir" fd 10] by auto
  have "server_new sys w = Some (Ok (\<lparr>server_fd = fd, temp_dir = dir\<rparr>, socket_path dir), w4)"
    using path(2) by (simp add: server_new_def call_def s(1) d(1) b(1) l(1) c_string_new_def)
  moreover have "n_bound v w (socket_path dir) = None" using free(1) d(5) s(4) by (simp add: split)
  ultimately show ?thesis
    using connect_reaches [OF assms(1) _ path, of _ fd 10] s(4,5) d(5,6) b(3,4) l
    by (intro exI [of _ "\<lparr>server_fd = fd, temp_dir = dir\<rparr>"] exI [of _ "socket_path dir"] exI [of _ w4]) auto
qed

text \<open>
  An example, with the calls that matter here: a file system in which the directory \<open>/tmp/ipc\<close> can be made
  while nothing is bound below it.
\<close>

record nworld =
  nw_next :: fd
  nw_bound :: "string \<Rightarrow> fd option"
  nw_listening :: "fd \<Rightarrow> int option"
  nw_backlog :: "fd \<Rightarrow> fd list"
  nw_peer :: "fd \<Rightarrow> fd option"

definition nw_init :: nworld where
  "nw_init = \<lparr>nw_next = 3, nw_bound = (\<lambda>_. None), nw_listening = (\<lambda>_. None), nw_backlog = (\<lambda>_. []), nw_peer = (\<lambda>_. None)\<rparr>"

definition n_sys :: "nworld unix_sys" where
  "n_sys = undefined\<lparr>
     sys_socket := (\<lambda>w. (nw_next w, w\<lparr>nw_next := nw_next w + 1, nw_listening := (nw_listening w)(nw_next w := None),
       nw_backlog := (nw_backlog w)(nw_next w := [])\<rparr>)),
     sys_tempdir := (\<lambda>w. (Some ''/tmp/ipc'', w)),
     sys_bind := (\<lambda>fd a w. case nw_bound w (address_path a) of
         Some _ \<Rightarrow> (-1, w) | None \<Rightarrow> (0, w\<lparr>nw_bound := (nw_bound w)(address_path a \<mapsto> fd),
         nw_next := max (nw_next w) (fd + 1)\<rparr>)),
     sys_listen := (\<lambda>fd n w. (0, w\<lparr>nw_listening := (nw_listening w)(fd \<mapsto> n)\<rparr>)),
     sys_connect := (\<lambda>fd a w. case nw_bound w (address_path a) of
         Some l \<Rightarrow> Some (0, w\<lparr>nw_next := nw_next w + 1, nw_backlog := (nw_backlog w)(l := nw_backlog w l @ [nw_next w]),
           nw_peer := (nw_peer w)(fd \<mapsto> nw_next w)\<rparr>)
       | None \<Rightarrow> Some (-1, w))\<rparr>"

definition n_view :: "nworld named_view" where
  "n_view =
     \<lparr>n_ok = (\<lambda>w. 0 \<le> nw_next w \<and> (\<forall>p. \<forall>fd\<in>set_option (nw_bound w p). fd < nw_next w)),
      n_room = (\<lambda>w. \<forall>file. nw_bound w (''/tmp/ipc/'' @ file) = None), n_dirs = (\<lambda>w. {''/tmp/ipc''}),
      n_bound = nw_bound, n_listening = nw_listening, n_backlog = nw_backlog, n_peer = (\<lambda>w a c. nw_peer w a = Some c)\<rparr>"

lemma n_named_sockets: "named_sockets n_sys n_view"
  unfolding named_sockets_def
  by (intro conjI allI impI)
    (force simp: n_sys_def n_view_def pathname_address_def)+

theorem server_rendezvous_witness:
  "\<exists>server name w' tx c w3. server_new n_sys nw_init = Some (Ok (server, name), w') \<and>
     n_bound n_view w' name = Some (server_fd server) \<and>
     connect n_sys name w' = Some (Ok tx, w3) \<and> n_peer n_view w3 (tx_fd tx) c \<and>
     n_backlog n_view w3 (server_fd server) = [c]"
proof -
  have "n_ok n_view nw_init" "n_room n_view nw_init" by (simp_all add: n_view_def nw_init_def)
  moreover have "length dir \<le> 100" if "sys_tempdir n_sys u = (Some dir, u')" for u dir u'
    using that by (auto simp: n_sys_def)
  ultimately obtain server name w' where new: "server_new n_sys nw_init = Some (Ok (server, name), w')"
    and w': "n_ok n_view w'" "n_bound n_view w' = (n_bound n_view nw_init)(name \<mapsto> server_fd server)"
      "n_listening n_view w' (server_fd server) = Some 10" "n_backlog n_view w' (server_fd server) = []"
    and conn: "\<forall>w2. n_ok n_view w2 \<and> n_bound n_view w2 name = Some (server_fd server) \<and>
        n_listening n_view w2 (server_fd server) = Some 10 \<and> length (n_backlog n_view w2 (server_fd server)) < 10 \<longrightarrow>
       (\<exists>tx c w3. connect n_sys name w2 = Some (Ok tx, w3) \<and> n_peer n_view w3 (tx_fd tx) c \<and>
          n_bound n_view w3 = n_bound n_view w2 \<and>
          n_backlog n_view w3 = (n_backlog n_view w2)(tx_fd tx := [],
            server_fd server := n_backlog n_view w2 (server_fd server) @ [c]))"
    using server_rendezvous [OF n_named_sockets, of nw_init] by blast
  then obtain tx c w3 where "connect n_sys name w' = Some (Ok tx, w3)" "n_peer n_view w3 (tx_fd tx) c"
      "n_backlog n_view w3 (server_fd server) = [c]"
    by fastforce
  with new w'(2) show ?thesis by fastforce
qed

section \<open>The first message\<close>

text \<open>C24: \<open>accept\<close> takes the first connection that waits and returns its receiver together with the first
  message sent on it, data, channels and regions; the listening socket is closed and the directory of
  the socket file removed.\<close>

theorem server_accept_receives:
  assumes "receiving sys view" and "sendbuf_ok ssb" and "rust_len data"
    and "sys_accept sys (server_fd server) w = Some (c, w1)" and "0 \<le> c"
    and "sys_linger sys c (1, 30) w1 = (0, w2)"
    and "is_transfer ssb data fds pkt rx chunks" and "length (snd pkt) \<le> 64"
    and "v_pending (view w2) c = (fst pkt, map \<rho> (snd pkt)) # ps"
    and "\<rho> ` set (snd pkt) \<subseteq> v_socks (view w2) \<union> v_files (view w2)"
    and "\<forall>b. rx = Some b \<longrightarrow> \<rho> b \<in> v_socks (view w2) \<and> \<rho> b \<noteq> c \<and>
      v_pending (view w2) (\<rho> b) = bare chunks @ later"
  shows "\<exists>shms w3 w4. server_accept sys ssb server w =
      Some (Ok (\<lparr>rx_fd = c\<rparr>, data, map opaque_from_fd [f \<leftarrow> map \<rho> fds. f \<in> v_socks (view w2)], shms),
        sys_rmdir sys (temp_dir server) w4) \<and>
    store_fds shms = [f \<leftarrow> map \<rho> fds. f \<notin> v_socks (view w2)] \<and>
    v_pending (view w3) c = ps \<and> sys_close sys (server_fd server) w3 = (0, w4)"
proof -
  obtain shms w3 where r: "recv sys ssb c Blocking w2 =
      Some (Ok (data, map opaque_from_fd [f \<leftarrow> map \<rho> fds. f \<in> v_socks (view w2)], shms), w3)"
    "store_fds shms = [f \<leftarrow> map \<rho> fds. f \<notin> v_socks (view w2)]" "v_pending (view w3) c = ps"
    using recv_transfer [OF assms(1-3,7-10), of later Blocking] assms(11) by blast
  obtain w4 where cl: "sys_close sys (server_fd server) w3 = (0, w4)"
    using receivingD(6) [OF assms(1)] by blast
  have "server_accept sys ssb server w =
      Some (Ok (\<lparr>rx_fd = c\<rparr>, data, map opaque_from_fd [f \<leftarrow> map \<rho> fds. f \<in> v_socks (view w2)], shms),
        sys_rmdir sys (temp_dir server) w4)"
    using assms(4-6) r(1) cl
    by (simp add: server_accept_def make_socket_lingering_def receiver_recv_def receiver_from_fd_def
      drop_server_def drop_temp_dir_def close_checked_def call_def call_blocking_def io_finally_def Let_def)
  with r(2,3) cl show ?thesis by blast
qed

definition example_backlog :: knl where
  "example_backlog = (k_init 100)\<lparr>k_backlog := (\<lambda>_. [])(3 := [5]),
     k_pending := (\<lambda>_. [])(5 := [(header [1, 2] @ [1, 2], [])])\<rparr>"

theorem server_accept_receives_witness:
  "\<exists>w'. server_accept k_sys 48 \<lparr>server_fd = 3, temp_dir = ''/tmp/ipc''\<rparr> example_backlog =
     Some (Ok (\<lparr>rx_fd = 5\<rparr>, [1, 2], [], []), w')"
proof -
  have t: "is_transfer 48 [1, 2] [] (header [1, 2] @ [1, 2], []) None []"
    by (simp add: is_transfer_def)
  have "\<exists>shms w3 w4. server_accept k_sys 48 \<lparr>server_fd = 3, temp_dir = ''/tmp/ipc''\<rparr> example_backlog =
      Some (Ok (\<lparr>rx_fd = 5\<rparr>, [1, 2], map opaque_from_fd [f \<leftarrow> map (\<lambda>f. f) []. f \<in>
          v_socks (k_view (example_backlog\<lparr>k_backlog := \<lambda>_. []\<rparr>))], shms),
        sys_rmdir k_sys (temp_dir \<lparr>server_fd = 3, temp_dir = ''/tmp/ipc''\<rparr>) w4) \<and>
    store_fds shms = [f \<leftarrow> map (\<lambda>f. f) []. f \<notin> v_socks (k_view (example_backlog\<lparr>k_backlog := \<lambda>_. []\<rparr>))] \<and>
    v_pending (k_view w3) 5 = [] \<and>
    sys_close k_sys (server_fd \<lparr>server_fd = 3, temp_dir = ''/tmp/ipc''\<rparr>) w3 = (0, w4)"
    by (rule server_accept_receives [OF k_receiving _ _ _ _ _ t])
      (auto simp: example_backlog_def k_sys_def k_accept_def k_view_def fun_upd_idem_iff)
  then show ?thesis by auto
qed

end
