(* ===== verification/Crossbeam.thy ===== *)
theory Crossbeam
  imports Prelude
begin

text \<open>
  The unbounded channels of \<open>crossbeam_channel\<close>, which the in-process back end and the router are built
  on: a parameter of the model, a record of functions on a world \<open>'w\<close>. A channel is known by a number;
  senders and receivers are handles on it that can be cloned and dropped.
\<close>

datatype 'm try_received = Received 'm | NothingYet | NoSenders

record ('w, 'm) crossbeam =
  cb_unbounded :: "'w \<Rightarrow> nat \<times> 'w"
  cb_clone_tx :: "nat \<Rightarrow> 'w \<Rightarrow> 'w"
  cb_clone_rx :: "nat \<Rightarrow> 'w \<Rightarrow> 'w"
  cb_drop_tx :: "nat \<Rightarrow> 'w \<Rightarrow> 'w"
  cb_drop_rx :: "nat \<Rightarrow> 'w \<Rightarrow> 'w"
  cb_send :: "nat \<Rightarrow> 'm \<Rightarrow> 'w \<Rightarrow> bool \<times> 'w"  \<comment> \<open>\<open>False\<close>: no receiver is left\<close>
  cb_recv :: "nat \<Rightarrow> 'w \<Rightarrow> ('m option \<times> 'w) option"  \<comment> \<open>\<open>None\<close> inside: no sender is left\<close>
  cb_try_recv :: "nat \<Rightarrow> 'w \<Rightarrow> 'm try_received \<times> 'w"
  cb_recv_timeout :: "nat \<Rightarrow> nat \<Rightarrow> 'w \<Rightarrow> 'm try_received \<times> 'w"
  cb_select :: "nat list \<Rightarrow> 'w \<Rightarrow> ((nat \<times> 'm option) \<times> 'w) option"
    \<comment> \<open>\<open>Select\<close> over receive operations: the index of the one completed and its result\<close>

definition cb_do :: "('w \<Rightarrow> 'w) \<Rightarrow> ('w, unit, 'e) io" where
  [io_defs]: "cb_do f = (\<lambda>w. Some (Ok (), f w))"

lemma cb_do_eq_Some [io_inv]: "cb_do f w = Some (r, w') \<longleftrightarrow> r = Ok () \<and> w' = f w"
  by (auto simp: cb_do_def)

lemma returns_cb_do [io_none]: "returns (cb_do f) w"
  by (simp add: returns_def cb_do_def)

section \<open>Documented behaviour\<close>

text \<open>
  \<open>v_queue\<close> is what waits in a channel, \<open>v_rx\<close> how many receivers it has, and \<open>v_own\<close> how many of its
  senders no other thread may drop while the call lasts: those that the calling thread holds, or that
  are kept where only it may take them from. Other threads may act while a call waits, but a channel
  with such a sender does not lose its last one.
\<close>

record ('w, 'm) cb_view =
  v_queue :: "'w \<Rightarrow> nat \<Rightarrow> 'm list"
  v_rx :: "'w \<Rightarrow> nat \<Rightarrow> nat"
  v_own :: "'w \<Rightarrow> nat \<Rightarrow> nat"

definition cb_laws :: "('w, 'm) crossbeam \<Rightarrow> ('w, 'm) cb_view \<Rightarrow> bool" where
  "cb_laws cb v \<longleftrightarrow>
     (\<forall>w. \<exists>i w'. cb_unbounded cb w = (i, w') \<and> v_queue v w' i = [] \<and> v_rx v w' i = 1 \<and> v_own v w' i = 1) \<and>
     (\<forall>i m w. \<exists>ok w'. cb_send cb i m w = (ok, w') \<and> (ok \<longleftrightarrow> v_rx v w i > 0) \<and> v_rx v w' = v_rx v w \<and>
        v_own v w' = v_own v w \<and>
        v_queue v w' = (if ok then (v_queue v w)(i := v_queue v w i @ [m]) else v_queue v w)) \<and>
     (\<forall>i w m ms. v_queue v w i = m # ms \<longrightarrow>
        (\<exists>w'. cb_recv cb i w = Some (Some m, w') \<and> v_queue v w' = (v_queue v w)(i := ms) \<and>
           v_rx v w' = v_rx v w \<and> v_own v w' = v_own v w)) \<and>
     (\<forall>i w. v_own v (cb_clone_tx cb i w) = (v_own v w)(i := Suc (v_own v w i))) \<and>
     (\<forall>i w. v_own v (cb_drop_tx cb i w) = (v_own v w)(i := v_own v w i - 1)) \<and>
     (\<forall>i w m w'. cb_recv cb i w = Some (m, w') \<longrightarrow> v_own v w' = v_own v w \<and>
        (v_own v w i > 0 \<longrightarrow> m \<noteq> None)) \<and>
     (\<forall>i w m ms. v_queue v w i = m # ms \<longrightarrow>
        (\<exists>w'. cb_try_recv cb i w = (Received m, w') \<and> v_queue v w' = (v_queue v w)(i := ms))) \<and>
     (\<forall>i w. v_queue v w i = [] \<and> v_own v w i > 0 \<longrightarrow> (\<exists>w'. cb_try_recv cb i w = (NothingYet, w'))) \<and>
     (\<forall>is w k r w'. cb_select cb is w = Some ((k, r), w') \<longrightarrow> k < length is \<and>
        (\<forall>m ms. v_queue v w (is ! k) = m # ms \<longrightarrow> r = Some m \<and> v_queue v w' = (v_queue v w)(is ! k := ms)) \<and>
        (v_own v w (is ! k) > 0 \<longrightarrow> r \<noteq> None)) \<and>
     (\<forall>is w i. i \<in> set is \<and> v_queue v w i \<noteq> [] \<longrightarrow> cb_select cb is w \<noteq> None) \<and>
     (\<forall>i w. v_queue v (cb_clone_tx cb i w) = v_queue v w \<and> v_rx v (cb_clone_tx cb i w) = v_rx v w)"

lemma cb_lawsD:
  assumes "cb_laws cb v"
  shows "\<exists>i w'. cb_unbounded cb w = (i, w') \<and> v_queue v w' i = [] \<and> v_rx v w' i = 1 \<and> v_own v w' i = 1"
    and "\<exists>ok w'. cb_send cb i m w = (ok, w') \<and> (ok \<longleftrightarrow> v_rx v w i > 0) \<and> v_rx v w' = v_rx v w \<and>
      v_own v w' = v_own v w \<and>
      v_queue v w' = (if ok then (v_queue v w)(i := v_queue v w i @ [m]) else v_queue v w)"
    and "v_queue v w i = m # ms \<Longrightarrow>
      \<exists>w'. cb_recv cb i w = Some (Some m, w') \<and> v_queue v w' = (v_queue v w)(i := ms) \<and>
        v_rx v w' = v_rx v w \<and> v_own v w' = v_own v w"
    and "v_own v (cb_clone_tx cb i w) = (v_own v w)(i := Suc (v_own v w i))"
    and "v_own v (cb_drop_tx cb i w) = (v_own v w)(i := v_own v w i - 1)"
    and "cb_recv cb i w = Some (r, w') \<Longrightarrow> v_own v w' = v_own v w \<and> (v_own v w i > 0 \<longrightarrow> r \<noteq> None)"
    and "v_queue v w i = m # ms \<Longrightarrow>
      \<exists>w'. cb_try_recv cb i w = (Received m, w') \<and> v_queue v w' = (v_queue v w)(i := ms)"
    and "v_queue v w i = [] \<Longrightarrow> v_own v w i > 0 \<Longrightarrow> \<exists>w'. cb_try_recv cb i w = (NothingYet, w')"
    and "cb_select cb is w = Some ((k, q), w') \<Longrightarrow> k < length is \<and>
      (\<forall>m ms. v_queue v w (is ! k) = m # ms \<longrightarrow> q = Some m \<and> v_queue v w' = (v_queue v w)(is ! k := ms)) \<and>
      (v_own v w (is ! k) > 0 \<longrightarrow> q \<noteq> None)"
    and "i \<in> set is \<Longrightarrow> v_queue v w i \<noteq> [] \<Longrightarrow> cb_select cb is w \<noteq> None"
    and "v_queue v (cb_clone_tx cb i w) = v_queue v w \<and> v_rx v (cb_clone_tx cb i w) = v_rx v w"
  using assms unfolding cb_laws_def by (simp_all del: split_paired_All) (blast | metis)+

section \<open>An instance\<close>

text \<open>One thread, so that a call that would wait never returns.\<close>

record 'm cb_world =
  w_next :: nat
  w_queue :: "nat \<Rightarrow> 'm list"
  w_tx :: "nat \<Rightarrow> nat"
  w_rx :: "nat \<Rightarrow> nat"

definition cb_init :: "'m cb_world" where
  "cb_init = \<lparr>w_next = 0, w_queue = (\<lambda>_. []), w_tx = (\<lambda>_. 0), w_rx = (\<lambda>_. 0)\<rparr>"

definition s_take :: "nat \<Rightarrow> 'm list \<Rightarrow> 'm cb_world \<Rightarrow> 'm cb_world" where
  "s_take i ms w = w\<lparr>w_queue := (w_queue w)(i := ms)\<rparr>"

definition s_try :: "nat \<Rightarrow> 'm cb_world \<Rightarrow> 'm try_received \<times> 'm cb_world" where
  "s_try i w =
     (case w_queue w i of
        m # ms \<Rightarrow> (Received m, s_take i ms w)
      | [] \<Rightarrow> (if w_tx w i = 0 then NoSenders else NothingYet, w))"

definition s_recv :: "nat \<Rightarrow> 'm cb_world \<Rightarrow> ('m option \<times> 'm cb_world) option" where
  "s_recv i w =
     (case s_try i w of
        (Received m, w') \<Rightarrow> Some (Some m, w')
      | (NoSenders, w') \<Rightarrow> Some (None, w')
      | (NothingYet, w') \<Rightarrow> None)"

text \<open>\<open>Select\<close>: the first operation that is ready.\<close>

fun s_select :: "nat \<Rightarrow> nat list \<Rightarrow> 'm cb_world \<Rightarrow> ((nat \<times> 'm option) \<times> 'm cb_world) option" where
  "s_select k [] w = None"
| "s_select k (i # is) w =
     (case s_recv i w of
        Some (m, w') \<Rightarrow> Some ((k, m), w')
      | None \<Rightarrow> s_select (Suc k) is w)"

definition s_crossbeam :: "('m cb_world, 'm) crossbeam" where
  "s_crossbeam =
     \<lparr>cb_unbounded = (\<lambda>w. (w_next w, w\<lparr>w_next := Suc (w_next w), w_queue := (w_queue w)(w_next w := []),
        w_tx := (w_tx w)(w_next w := 1), w_rx := (w_rx w)(w_next w := 1)\<rparr>)),
      cb_clone_tx = (\<lambda>i w. w\<lparr>w_tx := (w_tx w)(i := Suc (w_tx w i))\<rparr>),
      cb_clone_rx = (\<lambda>i w. w\<lparr>w_rx := (w_rx w)(i := Suc (w_rx w i))\<rparr>),
      cb_drop_tx = (\<lambda>i w. w\<lparr>w_tx := (w_tx w)(i := w_tx w i - 1)\<rparr>),
      cb_drop_rx = (\<lambda>i w. w\<lparr>w_rx := (w_rx w)(i := w_rx w i - 1)\<rparr>),
      cb_send = (\<lambda>i m w. if w_rx w i > 0 then (True, s_take i (w_queue w i @ [m]) w) else (False, w)),
      cb_recv = s_recv, cb_try_recv = s_try, cb_recv_timeout = (\<lambda>i t. s_try i),
      cb_select = s_select 0\<rparr>"

definition s_view :: "('m cb_world, 'm) cb_view" where
  "s_view = \<lparr>v_queue = w_queue, v_rx = w_rx, v_own = w_tx\<rparr>"

lemma s_select_Some:
  "s_select k is w = Some ((j, r), w') \<Longrightarrow>
     k \<le> j \<and> j < k + length is \<and> s_recv (is ! (j - k)) w = Some (r, w')"
proof (induction k "is" w rule: s_select.induct)
  case (2 k i "is" w)
  show ?case
  proof (cases "s_recv i w")
    case None
    then have "Suc k \<le> j \<and> j < Suc k + length is \<and> s_recv (is ! (j - Suc k)) w = Some (r, w')"
      using 2 by simp
    then show ?thesis by (simp add: nth_Cons')
  next
    case (Some x)
    then show ?thesis using 2 by (cases x) auto
  qed
qed simp

lemma s_select_None: "s_select k is w = None \<Longrightarrow> i \<in> set is \<Longrightarrow> s_recv i w = None"
  by (induction k "is" w rule: s_select.induct) (auto split: option.splits)

lemma s_laws: "cb_laws s_crossbeam s_view"
  unfolding cb_laws_def
proof (intro conjI allI impI)
  fix "is" :: "nat list" and w :: "'a cb_world" and k r w'
  assume "cb_select s_crossbeam is w = Some ((k, r), w')"
  then have "k < length is" and r: "s_recv (is ! k) w = Some (r, w')"
    using s_select_Some [of 0 "is" w k r w'] by (auto simp: s_crossbeam_def)
  then show "k < length is" by simp
  show "r = Some m" "v_queue s_view w' = (v_queue s_view w)(is ! k := ms)"
    if "v_queue s_view w (is ! k) = m # ms" for m ms
    using r that by (auto simp: s_view_def s_recv_def s_try_def s_take_def)
  show "v_own s_view w (is ! k) > 0 \<Longrightarrow> r \<noteq> None"
    using r by (auto simp: s_view_def s_recv_def s_try_def split: list.splits)
next
  fix "is" :: "nat list" and w :: "'a cb_world" and i
  assume i: "i \<in> set is \<and> v_queue s_view w i \<noteq> []"
  then have "s_recv i w \<noteq> None" by (auto simp: s_view_def s_recv_def s_try_def split: list.splits)
  then show "cb_select s_crossbeam is w \<noteq> None"
    using s_select_None i by (fastforce simp: s_crossbeam_def)
qed (auto simp: s_crossbeam_def s_view_def s_recv_def s_try_def s_take_def split: list.splits if_splits)

text \<open>Acting on a part of a larger world.\<close>

definition cb_on :: "('w \<Rightarrow> 's) \<Rightarrow> ('s \<Rightarrow> 'w \<Rightarrow> 'w) \<Rightarrow> ('s, 'm) crossbeam \<Rightarrow> ('w, 'm) crossbeam" where
  "cb_on get put cb =
     (let on = (\<lambda>f w. put (f (get w)) w); ret = (\<lambda>f w. case f (get w) of (x, s) \<Rightarrow> (x, put s w));
          opt = (\<lambda>f w. map_option (\<lambda>(x, s). (x, put s w)) (f (get w))) in
      \<lparr>cb_unbounded = (\<lambda>w. case cb_unbounded cb (get w) of (x, s) \<Rightarrow> (x, put s w)),
       cb_clone_tx = (\<lambda>i. on (cb_clone_tx cb i)), cb_clone_rx = (\<lambda>i. on (cb_clone_rx cb i)),
       cb_drop_tx = (\<lambda>i. on (cb_drop_tx cb i)), cb_drop_rx = (\<lambda>i. on (cb_drop_rx cb i)),
       cb_send = (\<lambda>i m w. case cb_send cb i m (get w) of (x, s) \<Rightarrow> (x, put s w)),
       cb_recv = (\<lambda>i w. map_option (\<lambda>(x, s). (x, put s w)) (cb_recv cb i (get w))),
       cb_try_recv = (\<lambda>i. ret (cb_try_recv cb i)), cb_recv_timeout = (\<lambda>i t. ret (cb_recv_timeout cb i t)),
       cb_select = (\<lambda>is. opt (cb_select cb is))\<rparr>)"

definition view_on :: "('w \<Rightarrow> 's) \<Rightarrow> ('s, 'm) cb_view \<Rightarrow> ('w, 'm) cb_view" where
  "view_on get v = \<lparr>v_queue = v_queue v \<circ> get, v_rx = v_rx v \<circ> get, v_own = v_own v \<circ> get\<rparr>"

lemma cb_on_laws:
  assumes "cb_laws cb v" and gp: "\<And>w s. get (put s w) = s"
  shows "cb_laws (cb_on get put cb) (view_on get v)"
proof -
  note l = cb_lawsD [OF assms(1)]
  show ?thesis
    unfolding cb_laws_def
  proof (intro conjI allI impI)
    show "\<exists>i w'. cb_unbounded (cb_on get put cb) w = (i, w') \<and> v_queue (view_on get v) w' i = [] \<and>
        v_rx (view_on get v) w' i = 1 \<and> v_own (view_on get v) w' i = 1" for w
      using l(1) [of "get w"] gp by (auto simp: cb_on_def view_on_def)
    show "\<exists>ok w'. cb_send (cb_on get put cb) i m w = (ok, w') \<and> (ok \<longleftrightarrow> v_rx (view_on get v) w i > 0) \<and>
        v_rx (view_on get v) w' = v_rx (view_on get v) w \<and> v_own (view_on get v) w' = v_own (view_on get v) w \<and>
        v_queue (view_on get v) w' = (if ok then (v_queue (view_on get v) w)(i := v_queue (view_on get v) w i @ [m])
          else v_queue (view_on get v) w)" for i m w
      using l(2) [of i m "get w"] gp by (auto simp: cb_on_def view_on_def)
    show "\<exists>w'. cb_recv (cb_on get put cb) i w = Some (Some m, w') \<and>
        v_queue (view_on get v) w' = (v_queue (view_on get v) w)(i := ms) \<and>
        v_rx (view_on get v) w' = v_rx (view_on get v) w \<and> v_own (view_on get v) w' = v_own (view_on get v) w"
      if "v_queue (view_on get v) w i = m # ms" for i w m ms
      using l(3) [of "get w" i m ms] that gp by (auto simp: cb_on_def view_on_def)
    show "v_own (view_on get v) (cb_clone_tx (cb_on get put cb) i w) =
        (v_own (view_on get v) w)(i := Suc (v_own (view_on get v) w i))"
      "v_own (view_on get v) (cb_drop_tx (cb_on get put cb) i w) =
        (v_own (view_on get v) w)(i := v_own (view_on get v) w i - 1)" for i w
      using l(4,5) gp by (simp_all add: cb_on_def view_on_def)
    show "v_own (view_on get v) w' = v_own (view_on get v) w" "v_own (view_on get v) w i > 0 \<Longrightarrow> m \<noteq> None"
      if "cb_recv (cb_on get put cb) i w = Some (m, w')" for i w m w'
      using l(6) [of i "get w" m] that gp by (auto simp: cb_on_def view_on_def)
    show "\<exists>w'. cb_try_recv (cb_on get put cb) i w = (Received m, w') \<and>
        v_queue (view_on get v) w' = (v_queue (view_on get v) w)(i := ms)"
      if "v_queue (view_on get v) w i = m # ms" for i w m ms
      using l(7) [of "get w" i m ms] that gp by (auto simp: cb_on_def view_on_def)
    show "\<exists>w'. cb_try_recv (cb_on get put cb) i w = (NothingYet, w')"
      if "v_queue (view_on get v) w i = [] \<and> 0 < v_own (view_on get v) w i" for i w
      using l(8) [of "get w" i] that gp by (auto simp: cb_on_def view_on_def)
    show "k < length is" "\<And>m ms. v_queue (view_on get v) w (is ! k) = m # ms \<Longrightarrow> r = Some m"
      "\<And>m ms. v_queue (view_on get v) w (is ! k) = m # ms \<Longrightarrow>
         v_queue (view_on get v) w' = (v_queue (view_on get v) w)(is ! k := ms)"
      "v_own (view_on get v) w (is ! k) > 0 \<Longrightarrow> r \<noteq> None"
      if "cb_select (cb_on get put cb) is w = Some ((k, r), w')" for "is" w k r w'
      using l(9) [of "is" "get w" k r] that gp by (auto simp: cb_on_def view_on_def)
    show "cb_select (cb_on get put cb) is w \<noteq> None"
      if "i \<in> set is \<and> v_queue (view_on get v) w i \<noteq> []" for "is" w i
      using l(10) [of i "is" "get w"] that by (auto simp: cb_on_def view_on_def)
    show "v_queue (view_on get v) (cb_clone_tx (cb_on get put cb) i w) = v_queue (view_on get v) w"
      "v_rx (view_on get v) (cb_clone_tx (cb_on get put cb) i w) = v_rx (view_on get v) w" for i w
      using l(11) gp by (simp_all add: cb_on_def view_on_def)
  qed
qed

end
