(* ===== verification/Inprocess.thy ===== *)
theory Inprocess
  imports Crossbeam Transport Receiver_Set Ipc_Errors
begin

text \<open>
  The in-process back end (\<open>src/src/platform/inprocess/mod.rs\<close>): channels between threads on top of
  \<open>crossbeam_channel\<close>, one-shot servers in a global table, and regions that share a vector.
\<close>

section \<open>Errors\<close>

datatype channel_error = ChannelClosedError | BrokenPipeError | ChannelEmpty | UnknownError

definition channel_is_closed :: "channel_error \<Rightarrow> bool" where
  "channel_is_closed e \<longleftrightarrow> e = ChannelClosedError"

fun display_channel_error :: "channel_error \<Rightarrow> string" where
  "display_channel_error ChannelClosedError = ''channel closed''"
| "display_channel_error BrokenPipeError = ''broken pipe''"
| "display_channel_error ChannelEmpty = ''channel empty''"
| "display_channel_error UnknownError = ''unknown error''"

text \<open>The payload of the \<open>io::Error\<close> is a text.\<close>

fun channel_to_io :: "channel_error \<Rightarrow> string io_error" where
  "channel_to_io ChannelClosedError = Custom ConnectionReset ''crossbeam-channel sender closed''"
| "channel_to_io ChannelEmpty =
     Custom ConnectionReset ''crossbeam-channel receiver has no received messages''"
| "channel_to_io BrokenPipeError = Custom BrokenPipe ''crossbeam-channel receiver closed''"
| "channel_to_io UnknownError = Custom OtherKind ''Other crossbeam-channel error''"

definition channel_to_bincode :: "channel_error \<Rightarrow> string bincode_error" where
  "channel_to_bincode e = BincodeIo (channel_to_io e)"

fun channel_to_ipc :: "channel_error \<Rightarrow> string ipc_error" where
  "channel_to_ipc ChannelClosedError = Disconnected"
| "channel_to_ipc e = Bincode (BincodeIo (channel_to_io e))"

fun channel_to_try :: "channel_error \<Rightarrow> string try_recv_error" where
  "channel_to_try ChannelClosedError = IpcErr Disconnected"
| "channel_to_try ChannelEmpty = Empty"
| "channel_to_try e = IpcErr (Bincode (BincodeIo (channel_to_io e)))"

interpretation ce: backend_error channel_is_closed "\<lambda>e. e = ChannelEmpty" channel_to_ipc channel_to_try
  channel_to_io
proof
  fix e
  show "channel_to_ipc e \<in> (if channel_is_closed e then {Disconnected}
      else {Io (channel_to_io e), Bincode (BincodeIo (channel_to_io e))})"
    by (cases e) (auto simp: channel_is_closed_def)
  show "channel_to_try e = Empty \<longleftrightarrow> e = ChannelEmpty" by (cases e) auto
  show "e \<noteq> ChannelEmpty \<Longrightarrow> channel_to_try e = IpcErr (channel_to_ipc e)" by (cases e) auto
  show "channel_is_closed e \<Longrightarrow> e \<noteq> ChannelEmpty" by (auto simp: channel_is_closed_def)
qed

section \<open>Regions\<close>

text \<open>
  \<open>ip_ptr\<close> is the address of the vector that \<open>ip_data\<close> shares; a vector's address is never null.
\<close>

record ip_shared_memory =
  ip_ptr :: usize
  ip_length :: usize
  ip_data :: "u8 list"

definition ip_shm_from_bytes :: "usize \<Rightarrow> u8 list \<Rightarrow> ip_shared_memory" where
  "ip_shm_from_bytes address bytes = \<lparr>ip_ptr = address, ip_length = len_of bytes, ip_data = bytes\<rparr>"

definition ip_shm_from_byte :: "usize \<Rightarrow> u8 \<Rightarrow> usize \<Rightarrow> ip_shared_memory" where
  "ip_shm_from_byte address byte len =
     \<lparr>ip_ptr = address, ip_length = len, ip_data = replicate (unat len) byte\<rparr>"

definition ip_shm_clone :: "ip_shared_memory \<Rightarrow> ip_shared_memory" where
  "ip_shm_clone shm = \<lparr>ip_ptr = ip_ptr shm, ip_length = ip_length shm, ip_data = ip_data shm\<rparr>"

definition ip_shm_deref :: "ip_shared_memory \<Rightarrow> (u8 list, channel_error) res" where
  "ip_shm_deref shm =
     (if ip_ptr shm = 0 then Panic else Ok (take (unat (ip_length shm)) (ip_data shm)))"

definition ip_shm_eq :: "ip_shared_memory \<Rightarrow> ip_shared_memory \<Rightarrow> (bool, channel_error) res" where
  "ip_shm_eq a b = res_bind (ip_shm_deref a) (\<lambda>x. res_bind (ip_shm_deref b) (\<lambda>y. Ok (x = y)))"

section \<open>Channels\<close>

record ip_sender = ip_tx :: nat

record ip_receiver = ip_rx :: "nat option"

type_synonym ip_channel = "(ip_sender, ip_receiver) os_ipc_channel"

record channel_message =
  cm_data :: "u8 list"
  cm_ports :: "ip_channel list"
  cm_shms :: "ip_shared_memory list"

type_synonym 'w ip_crossbeam = "('w, channel_message) crossbeam"

definition ip_channel :: "'w ip_crossbeam \<Rightarrow> ('w, ip_sender \<times> ip_receiver, channel_error) io" where
  "ip_channel cb = io_bind (call (cb_unbounded cb)) (\<lambda>i. io_return (\<lparr>ip_tx = i\<rparr>, \<lparr>ip_rx = Some i\<rparr>))"

definition ip_sender_clone :: "'w ip_crossbeam \<Rightarrow> ip_sender \<Rightarrow> ('w, ip_sender, channel_error) io" where
  "ip_sender_clone cb tx = io_bind (cb_do (cb_clone_tx cb (ip_tx tx))) (\<lambda>_. io_return tx)"

definition ip_drop_sender :: "'w ip_crossbeam \<Rightarrow> ip_sender \<Rightarrow> ('w, unit, channel_error) io" where
  "ip_drop_sender cb tx = cb_do (cb_drop_tx cb (ip_tx tx))"

definition ip_drop_receiver :: "'w ip_crossbeam \<Rightarrow> ip_receiver \<Rightarrow> ('w, unit, channel_error) io" where
  "ip_drop_receiver cb rx = (case ip_rx rx of None \<Rightarrow> io_return () | Some i \<Rightarrow> cb_do (cb_drop_rx cb i))"

fun ip_drop_ports :: "'w ip_crossbeam \<Rightarrow> ip_channel list \<Rightarrow> ('w, unit, channel_error) io" where
  "ip_drop_ports cb [] = io_return ()"
| "ip_drop_ports cb (Sender tx # ports) = io_bind (ip_drop_sender cb tx) (\<lambda>_. ip_drop_ports cb ports)"
| "ip_drop_ports cb (Receiver rx # ports) = io_bind (ip_drop_receiver cb rx) (\<lambda>_. ip_drop_ports cb ports)"

text \<open>\<open>take\<close> leaves \<open>None\<close> behind.\<close>

definition ip_consume :: "ip_receiver \<Rightarrow> ip_receiver \<times> ip_receiver" where
  "ip_consume r = (\<lparr>ip_rx = ip_rx r\<rparr>, r\<lparr>ip_rx := None\<rparr>)"

record ip_opaque = ip_inner :: "ip_channel option"

definition ip_opaque_new :: "ip_channel \<Rightarrow> ip_opaque" where
  "ip_opaque_new c = \<lparr>ip_inner = Some c\<rparr>"

text \<open>Also when the channel is of the other kind, it is taken out.\<close>

definition ip_to_receiver :: "ip_opaque \<Rightarrow> (ip_receiver, channel_error) res \<times> ip_opaque" where
  "ip_to_receiver c =
     (case ip_inner c of
        None \<Rightarrow> (Panic, c)
      | Some (Sender tx) \<Rightarrow> (Panic, c\<lparr>ip_inner := None\<rparr>)
      | Some (Receiver rx) \<Rightarrow> (Ok rx, c\<lparr>ip_inner := None\<rparr>))"

definition ip_to_sender :: "ip_opaque \<Rightarrow> (ip_sender, channel_error) res \<times> ip_opaque" where
  "ip_to_sender c =
     (case ip_inner c of
        None \<Rightarrow> (Panic, c)
      | Some (Sender tx) \<Rightarrow> (Ok tx, c\<lparr>ip_inner := None\<rparr>)
      | Some (Receiver rx) \<Rightarrow> (Panic, c\<lparr>ip_inner := None\<rparr>))"

type_synonym ip_received = "u8 list \<times> ip_opaque list \<times> ip_shared_memory list"

definition ip_parts :: "channel_message \<Rightarrow> ip_received" where
  "ip_parts m = (cm_data m, map ip_opaque_new (cm_ports m), cm_shms m)"

definition ip_recv :: "'w ip_crossbeam \<Rightarrow> ip_receiver \<Rightarrow> ('w, ip_received, channel_error) io" where
  "ip_recv cb rx =
     (case ip_rx rx of
        None \<Rightarrow> io_panic
      | Some r \<Rightarrow>
          io_bind (call_blocking (cb_recv cb r)) (\<lambda>m.
          case m of Some m \<Rightarrow> io_return (ip_parts m) | None \<Rightarrow> io_throw ChannelClosedError))"

definition ip_try_result :: "channel_message try_received \<Rightarrow> (ip_received, channel_error) res" where
  "ip_try_result r =
     (case r of Received m \<Rightarrow> Ok (ip_parts m) | NothingYet \<Rightarrow> Err ChannelEmpty | NoSenders \<Rightarrow> Err ChannelClosedError)"

definition ip_try_recv :: "'w ip_crossbeam \<Rightarrow> ip_receiver \<Rightarrow> ('w, ip_received, channel_error) io" where
  "ip_try_recv cb rx =
     (case ip_rx rx of
        None \<Rightarrow> io_panic
      | Some r \<Rightarrow> io_bind (call (cb_try_recv cb r)) (\<lambda>x. io_lift (ip_try_result x)))"

definition ip_try_recv_timeout ::
  "'w ip_crossbeam \<Rightarrow> ip_receiver \<Rightarrow> duration \<Rightarrow> ('w, ip_received, channel_error) io" where
  "ip_try_recv_timeout cb rx millis =
     (case ip_rx rx of
        None \<Rightarrow> io_panic
      | Some r \<Rightarrow> io_bind (call (cb_recv_timeout cb r millis)) (\<lambda>x. io_lift (ip_try_result x)))"

definition ip_get_max_fragment_size :: usize where
  "ip_get_max_fragment_size = -1"

text \<open>A message that cannot be sent comes back in the error, and is dropped with the channels in it.\<close>

definition ip_send ::
  "'w ip_crossbeam \<Rightarrow> ip_sender \<Rightarrow> u8 list \<Rightarrow> ip_channel list \<Rightarrow> ip_shared_memory list
     \<Rightarrow> ('w, unit, channel_error) io" where
  "ip_send cb tx data ports shms =
     io_bind (call (cb_send cb (ip_tx tx) \<lparr>cm_data = data, cm_ports = ports, cm_shms = shms\<rparr>)) (\<lambda>ok.
     if ok then io_return ()
     else io_bind (ip_drop_ports cb ports) (\<lambda>_. io_throw BrokenPipeError))"

section \<open>Receiver sets\<close>

record ip_receiver_set =
  ip_incrementor :: u64
  receiver_ids :: "u64 list"
  receivers :: "ip_receiver list"

type_synonym ip_selection_result = "(ip_opaque, ip_shared_memory) os_ipc_selection_result"

definition ip_set_new :: "('w, ip_receiver_set, channel_error) io" where
  "ip_set_new = io_return \<lparr>ip_incrementor = 0, receiver_ids = [], receivers = []\<rparr>"

text \<open>When the incrementor overflows, unwinding drops the receiver.\<close>

definition ip_set_add ::
  "'w ip_crossbeam \<Rightarrow> ip_receiver \<Rightarrow> ('w \<times> ip_receiver_set, u64, channel_error) io" where
  "ip_set_add cb receiver = (\<lambda>(w, s).
     if ip_incrementor s = -1
     then io_finally io_panic (\<lambda>_. on_world (ip_drop_receiver cb receiver)) (w, s)
     else
       let last_index = ip_incrementor s in
       Some (Ok last_index, (w, s\<lparr>ip_incrementor := ip_incrementor s + 1,
         receiver_ids := receiver_ids s @ [last_index],
         receivers := receivers s @ [fst (ip_consume receiver)]\<rparr>)))"

definition remove_at :: "nat \<Rightarrow> 'a list \<Rightarrow> 'a list" where
  "remove_at k xs = take k xs @ drop (Suc k) xs"

text \<open>
  The borrows fail on a receiver that was consumed before it was added. An index of \<open>Select\<close> beyond the
  identifiers would be a panic. A receiver that is removed is dropped.
\<close>

definition ip_select ::
  "'w ip_crossbeam \<Rightarrow> ('w \<times> ip_receiver_set, ip_selection_result list, channel_error) io" where
  "ip_select cb = (\<lambda>(w, s).
     if receivers s = [] then Some (Err UnknownError, (w, s))
     else if None \<in> set (map ip_rx (receivers s)) then Some (Panic, (w, s))
     else
       io_bind (on_world (call_blocking (cb_select cb (map (the \<circ> ip_rx) (receivers s))))) (\<lambda>(r_index, r).
         if r_index \<ge> length (receiver_ids s) then io_panic
         else
           let r_id = receiver_ids s ! r_index in
           case r of
             Some m \<Rightarrow>
               (case ip_parts m of (data, channels, shms) \<Rightarrow> io_return [DataReceived r_id data channels shms])
           | None \<Rightarrow>
               io_bind (on_world (ip_drop_receiver cb (receivers s ! r_index))) (\<lambda>_.
               io_bind (on_self (\<lambda>s. ((), s\<lparr>receivers := remove_at r_index (receivers s),
                   receiver_ids := remove_at r_index (receiver_ids s)\<rparr>))) (\<lambda>_.
               io_return [ChannelClosed r_id])))
         (w, s))"

section \<open>One-shot servers\<close>

text \<open>Both ends of the connection channel are in the record, so that it is never disconnected.\<close>

record server_record =
  sr_sender :: ip_sender
  sr_conn :: nat

text \<open>
  The global table behind its mutex, in a world that has more in it. A thread that panics while it
  holds the lock poisons the mutex, and every later \<open>lock().unwrap()\<close> panics.
\<close>

record ip_globals =
  one_shot_servers :: "string \<Rightarrow> server_record option"
  poisoned :: bool

type_synonym 'x ip_world = "'x ip_globals_scheme"

type_synonym 'x conn_crossbeam = "('x ip_world, bool) crossbeam"

definition server_record_new ::
  "'x conn_crossbeam \<Rightarrow> ip_sender \<Rightarrow> ('x ip_world, server_record, channel_error) io" where
  "server_record_new cbc sender =
     io_bind (call (cb_unbounded cbc)) (\<lambda>i. io_return \<lparr>sr_sender = sender, sr_conn = i\<rparr>)"

definition clone_record ::
  "'x ip_world ip_crossbeam \<Rightarrow> 'x conn_crossbeam \<Rightarrow> server_record \<Rightarrow> ('x ip_world, server_record, channel_error) io" where
  "clone_record cb cbc r =
     io_bind (ip_sender_clone cb (sr_sender r)) (\<lambda>tx.
     io_bind (cb_do (cb_clone_tx cbc (sr_conn r))) (\<lambda>_.
     io_bind (cb_do (cb_clone_rx cbc (sr_conn r))) (\<lambda>_.
     io_return \<lparr>sr_sender = tx, sr_conn = sr_conn r\<rparr>)))"

definition drop_conn :: "'x conn_crossbeam \<Rightarrow> server_record \<Rightarrow> ('x ip_world, unit, channel_error) io" where
  "drop_conn cbc r =
     io_bind (cb_do (cb_drop_tx cbc (sr_conn r))) (\<lambda>_. cb_do (cb_drop_rx cbc (sr_conn r)))"

definition drop_record ::
  "'x ip_world ip_crossbeam \<Rightarrow> 'x conn_crossbeam \<Rightarrow> server_record \<Rightarrow> ('x ip_world, unit, channel_error) io" where
  "drop_record cb cbc r = io_bind (ip_drop_sender cb (sr_sender r)) (\<lambda>_. drop_conn cbc r)"

definition record_accept :: "'x conn_crossbeam \<Rightarrow> server_record \<Rightarrow> ('x ip_world, unit, channel_error) io" where
  "record_accept cbc r =
     io_bind (call_blocking (cb_recv cbc (sr_conn r))) (\<lambda>m.
     case m of Some _ \<Rightarrow> io_return () | None \<Rightarrow> io_panic)"

definition record_connect :: "'x conn_crossbeam \<Rightarrow> server_record \<Rightarrow> ('x ip_world, unit, channel_error) io" where
  "record_connect cbc r =
     io_bind (call (cb_send cbc (sr_conn r) True)) (\<lambda>ok. if ok then io_return () else io_panic)"

text \<open>\<open>lock().unwrap().get(&name).unwrap()\<close>, all under the lock.\<close>

definition lookup_server :: "string \<Rightarrow> ('x ip_world, server_record, channel_error) io" where
  "lookup_server name = (\<lambda>w.
     if poisoned w then Some (Panic, w)
     else case one_shot_servers w name of
         None \<Rightarrow> Some (Panic, w\<lparr>poisoned := True\<rparr>)
       | Some r \<Rightarrow> Some (Ok r, w))"

definition insert_server :: "string \<Rightarrow> server_record \<Rightarrow> ('x ip_world, unit, channel_error) io" where
  "insert_server name r = (\<lambda>w.
     if poisoned w then Some (Panic, w)
     else Some (Ok (), w\<lparr>one_shot_servers := (one_shot_servers w)(name \<mapsto> r)\<rparr>))"

definition remove_server :: "string \<Rightarrow> ('x ip_world, server_record, channel_error) io" where
  "remove_server name = (\<lambda>w.
     if poisoned w then Some (Panic, w)
     else case one_shot_servers w name of
         None \<Rightarrow> Some (Panic, w\<lparr>poisoned := True\<rparr>)
       | Some r \<Rightarrow> Some (Ok r, w\<lparr>one_shot_servers := (one_shot_servers w)(name := None)\<rparr>))"

definition ip_connect ::
  "'x ip_world ip_crossbeam \<Rightarrow> 'x conn_crossbeam \<Rightarrow> string \<Rightarrow> ('x ip_world, ip_sender, channel_error) io" where
  "ip_connect cb cbc name =
     io_bind (lookup_server name) (\<lambda>r.
     io_bind (clone_record cb cbc r) (\<lambda>rec.
     io_bind (io_on_failure (record_connect cbc rec) (\<lambda>_. drop_record cb cbc rec)) (\<lambda>_.
     io_bind (drop_conn cbc rec) (\<lambda>_.
     io_return (sr_sender rec)))))"

record ip_one_shot_server =
  srv_receiver :: ip_receiver
  srv_name :: string

text \<open>The name is a new UUID, drawn by \<open>uuid\<close>.\<close>

definition ip_server_new ::
  "'x ip_world ip_crossbeam \<Rightarrow> 'x conn_crossbeam \<Rightarrow> ('x ip_world \<Rightarrow> string \<times> 'x ip_world)
     \<Rightarrow> ('x ip_world, ip_one_shot_server \<times> string, channel_error) io" where
  "ip_server_new cb cbc uuid =
     io_bind (ip_channel cb) (\<lambda>(sender, receiver).
     io_bind (call uuid) (\<lambda>name.
     io_bind (server_record_new cbc sender) (\<lambda>rec.
     io_bind (io_on_failure (insert_server name rec)
         (\<lambda>_. io_bind (drop_record cb cbc rec) (\<lambda>_. ip_drop_receiver cb receiver))) (\<lambda>_.
     io_return (\<lparr>srv_receiver = receiver, srv_name = name\<rparr>, name)))))"

text \<open>
  The cloned record lives to the end of \<open>accept\<close>, over the receive; the one taken from the table is
  dropped at once. The receiver is dropped when it is not returned.
\<close>

definition ip_accept ::
  "'x ip_world ip_crossbeam \<Rightarrow> 'x conn_crossbeam \<Rightarrow> ip_one_shot_server
     \<Rightarrow> ('x ip_world, ip_receiver \<times> ip_received, channel_error) io" where
  "ip_accept cb cbc srv =
     io_on_failure
       (io_bind (lookup_server (srv_name srv)) (\<lambda>r.
        io_bind (clone_record cb cbc r) (\<lambda>rec.
        io_finally
          (io_bind (record_accept cbc rec) (\<lambda>_.
           io_bind (remove_server (srv_name srv)) (\<lambda>removed.
           io_bind (drop_record cb cbc removed) (\<lambda>_.
           io_bind (ip_recv cb (srv_receiver srv)) (\<lambda>received.
           io_return (srv_receiver srv, received))))))
          (\<lambda>_. drop_record cb cbc rec))))
       (\<lambda>_. ip_drop_receiver cb (srv_receiver srv))"

section \<open>The contract of the set\<close>

definition ip_set_ok :: "ip_receiver_set \<Rightarrow> bool" where
  "ip_set_ok s \<longleftrightarrow> length (receiver_ids s) = length (receivers s) \<and> distinct (receiver_ids s) \<and>
     (\<forall>i\<in>set (receiver_ids s). i < ip_incrementor s)"

lemma remove_at_distinct:
  assumes "distinct xs" and "k < length xs"
  shows "distinct (remove_at k xs)" and "set (remove_at k xs) = set xs - {xs ! k}"
proof -
  have xs: "xs = take k xs @ xs ! k # drop (Suc k) xs" using assms(2) by (rule id_take_nth_drop)
  from assms(1) have "distinct (take k xs @ xs ! k # drop (Suc k) xs)" using xs by simp
  moreover have "set xs = set (take k xs) \<union> insert (xs ! k) (set (drop (Suc k) xs))"
    by (subst xs) simp
  ultimately show "distinct (remove_at k xs)" and "set (remove_at k xs) = set xs - {xs ! k}"
    by (auto simp: remove_at_def)
qed

lemma length_remove_at [simp]: "k < length xs \<Longrightarrow> length (remove_at k xs) = length xs - 1"
  by (simp add: remove_at_def)

lemma ip_drop_receiver_Ok:
  "ip_drop_receiver cb rx w = Some (r, w') \<Longrightarrow> r = Ok ()"
  by (auto simp: ip_drop_receiver_def io_inv split: option.splits)

lemma ip_select_cases:
  assumes "ip_select cb (w, s) = Some (q, (w', s'))" and "q \<noteq> Panic"
  obtains "receivers s = []" "q = Err UnknownError" "s' = s"
  | k and m :: channel_message where "k < length (receiver_ids s)" "s' = s"
      "q = Ok [DataReceived (receiver_ids s ! k) (cm_data m) (map ip_opaque_new (cm_ports m)) (cm_shms m)]"
  | k where "k < length (receiver_ids s)" "q = Ok [ChannelClosed (receiver_ids s ! k)]"
      "s' = s\<lparr>receivers := remove_at k (receivers s), receiver_ids := remove_at k (receiver_ids s)\<rparr>"
proof (cases "receivers s = [] \<or> None \<in> set (map ip_rx (receivers s))")
  case True
  then show thesis using assms that(1) by (auto simp: ip_select_def split: if_splits)
next
  case False
  with assms obtain k r w1 where
    sel: "cb_select cb (map (the \<circ> ip_rx) (receivers s)) w = Some ((k, r), w1)"
    unfolding ip_select_def by (auto simp: io_bind_eq_Some on_world_eq_Some call_blocking_eq_Some)
  then have "on_world (call_blocking (cb_select cb (map (the \<circ> ip_rx) (receivers s)))) (w, s) =
      Some (Ok (k, r) :: (_, channel_error) res, (w1, s))"
    by (simp add: on_world_def call_blocking_def)
  then have run: "(if k \<ge> length (receiver_ids s) then io_panic
      else case r of
          Some m \<Rightarrow> (case ip_parts m of (data, channels, shms) \<Rightarrow>
            io_return [DataReceived (receiver_ids s ! k) data channels shms])
        | None \<Rightarrow>
            io_bind (on_world (ip_drop_receiver cb (receivers s ! k))) (\<lambda>_.
            io_bind (on_self (\<lambda>s. ((), s\<lparr>receivers := remove_at k (receivers s),
                receiver_ids := remove_at k (receiver_ids s)\<rparr>))) (\<lambda>_.
            io_return [ChannelClosed (receiver_ids s ! k)]))) (w1, s) = Some (q, (w', s'))"
    using assms(1) False unfolding ip_select_def by (simp add: Let_def del: o_apply cong: if_cong)
  have k: "k < length (receiver_ids s)"
    using run assms(2) by (auto split: if_splits)
  show thesis
  proof (cases r)
    case None
    with run k show thesis
      by (intro that(3) [of k]) (auto simp: io_bind_eq_Some on_world_eq_Some on_self_eq_Some
        dest: ip_drop_receiver_Ok)
  next
    case (Some m)
    with run k show thesis by (intro that(2) [of k m]) (auto simp: ip_parts_def)
  qed
qed

lemma ip_select_inv:
  assumes "ip_set_ok s" and "ip_select cb (w, s) = Some (q, (w', s'))" and "q \<noteq> Panic"
  shows "ip_set_ok s' \<and>
    (case q of
       Ok rs \<Rightarrow> report_ok (set (receiver_ids s)) (map os_report rs) \<and>
         set (receiver_ids s') = left_after (set (receiver_ids s)) (map os_report rs)
     | _ \<Rightarrow> set (receiver_ids s') \<subseteq> set (receiver_ids s))"
  using assms(2,3)
proof (cases rule: ip_select_cases)
  case 1
  then show ?thesis using assms(1) by simp
next
  case (2 k m)
  then show ?thesis using assms(1) by simp
next
  case (3 k)
  have "distinct (receiver_ids s)" using assms(1) by (simp add: ip_set_ok_def)
  note r = remove_at_distinct [OF this 3(1)]
  then show ?thesis using 3 assms(1) by (auto simp: ip_set_ok_def)
qed

interpretation ips: numbered_receiver_set "\<lambda>ws. ip_set_ok (snd ws)" "\<lambda>ws. set (receiver_ids (snd ws))"
  "ip_set_add cb" "ip_select cb" os_report "\<lambda>ws. ip_incrementor (snd ws)"
proof
  fix ws ws' :: "'a \<times> ip_receiver_set" and r i e rs
  obtain w s w' s' where ws: "ws = (w, s)" and ws': "ws' = (w', s')" by force
  assume ok: "ip_set_ok (snd ws)"
  {
    assume run: "ip_set_add cb r ws = Some (Ok i, ws')"
    then have inc: "ip_incrementor s \<noteq> -1"
      by (auto simp: ws ip_set_add_def io_inv split: if_splits)
    with run have s': "i = ip_incrementor s" "s' = s\<lparr>ip_incrementor := ip_incrementor s + 1,
        receiver_ids := receiver_ids s @ [i], receivers := receivers s @ [fst (ip_consume r)]\<rparr>"
      by (auto simp: ws ws' ip_set_add_def Let_def)
    have "j < i + 1" if "j \<in> set (receiver_ids s)" for j
      using ok that word_less_inc [OF inc, of j] s'(1) by (auto simp: ws ip_set_ok_def)
    moreover have "i < i + 1" "i \<notin> set (receiver_ids s)"
      using word_less_inc [OF inc, of i] ok s'(1) by (auto simp: ws ip_set_ok_def)
    ultimately show "ip_set_ok (snd ws') \<and> i \<notin> set (receiver_ids (snd ws)) \<and>
        set (receiver_ids (snd ws')) = insert i (set (receiver_ids (snd ws)))"
      using ok s' by (auto simp: ws ws' ip_set_ok_def)
  next
    assume "ip_set_add cb r ws = Some (Err e, ws')"
    then show "ip_set_ok (snd ws') \<and> set (receiver_ids (snd ws')) = set (receiver_ids (snd ws))"
      by (auto simp: ws ip_set_add_def io_inv Let_def split: if_splits)
  next
    assume run: "ip_select cb ws = Some (Ok rs, ws')"
    show "ip_set_ok (snd ws') \<and> report_ok (set (receiver_ids (snd ws))) (map os_report rs) \<and>
        set (receiver_ids (snd ws')) = left_after (set (receiver_ids (snd ws))) (map os_report rs)"
      using ip_select_inv [OF _ run [unfolded ws ws']] ok by (simp add: ws ws')
  next
    assume run: "ip_select cb ws = Some (Err e, ws')"
    show "ip_set_ok (snd ws') \<and> set (receiver_ids (snd ws')) \<subseteq> set (receiver_ids (snd ws))"
      using ip_select_inv [OF _ run [unfolded ws ws']] ok by (simp add: ws ws')
  next
    assume "i \<in> set (receiver_ids (snd ws))"
    then show "i < ip_incrementor (snd ws)" using ok by (simp add: ip_set_ok_def)
  next
    assume "ip_set_add cb r ws = Some (Ok i, ws')"
    then show "ip_incrementor (snd ws) \<le> i \<and> i < ip_incrementor (snd ws')"
      using word_less_inc [of "ip_incrementor s" "ip_incrementor s"]
      by (auto simp: ws ws' ip_set_add_def io_inv Let_def split: if_splits)
  next
    assume run: "ip_select cb ws = Some (Ok rs, ws')"
    show "ip_incrementor (snd ws') = ip_incrementor (snd ws)"
      by (rule ip_select_cases [OF run [unfolded ws ws']]) (simp_all add: ws ws')
  }
qed

section \<open>Order of messages\<close>

interpretation ipf: fifo_transport "\<lambda>w. cb_laws cb v \<and> v_rx v w i > 0" "\<lambda>w. v_queue v w i"
  "ip_recv cb \<lparr>ip_rx = Some i\<rparr>" ip_parts "\<lambda>m. ip_send cb \<lparr>ip_tx = i\<rparr> (cm_data m) (cm_ports m) (cm_shms m)"
proof
  fix w and m :: channel_message
  assume live: "cb_laws cb v \<and> v_rx v w i > 0"
  then obtain w' where "cb_send cb i m w = (True, w')" "v_rx v w' = v_rx v w"
      "v_queue v w' = (v_queue v w)(i := v_queue v w i @ [m])"
    using cb_lawsD(2) [of cb v i m w] by auto
  moreover have "\<lparr>cm_data = cm_data m, cm_ports = cm_ports m, cm_shms = cm_shms m\<rparr> = m"
    by simp
  moreover from calculation have
      "ip_send cb \<lparr>ip_tx = i\<rparr> (cm_data m) (cm_ports m) (cm_shms m) w = Some (Ok (), w')"
    by (simp only: ip_send_def call_def ip_sender.select_convs) simp
  ultimately show "\<exists>w'. ip_send cb \<lparr>ip_tx = i\<rparr> (cm_data m) (cm_ports m) (cm_shms m) w = Some (Ok (), w') \<and>
      (cb_laws cb v \<and> v_rx v w' i > 0) \<and> v_queue v w' i = v_queue v w i @ [m]"
    using live by auto
next
  fix w and m :: channel_message and ms
  assume "cb_laws cb v \<and> v_rx v w i > 0" and "v_queue v w i = m # ms"
  moreover from this obtain w' where "cb_recv cb i w = Some (Some m, w')"
      "v_queue v w' = (v_queue v w)(i := ms)" "v_rx v w' = v_rx v w"
    using cb_lawsD(3) [of cb v w i m ms] by blast
  ultimately show "\<exists>w'. ip_recv cb \<lparr>ip_rx = Some i\<rparr> w = Some (Ok (ip_parts m), w') \<and>
      (cb_laws cb v \<and> v_rx v w' i > 0) \<and> v_queue v w' i = ms"
    by (auto simp: ip_recv_def call_blocking_def)
qed

section \<open>Properties\<close>

text \<open>What \<open>select\<close> makes of what \<open>Select\<close> gives it.\<close>

definition ip_selected ::
  "'w ip_crossbeam \<Rightarrow> ip_receiver_set \<Rightarrow> nat \<Rightarrow> channel_message option \<Rightarrow> 'w
     \<Rightarrow> ip_selection_result \<times> 'w \<times> ip_receiver_set" where
  "ip_selected cb s k r w =
     (case r of
        Some m \<Rightarrow> (DataReceived (receiver_ids s ! k) (cm_data m) (map ip_opaque_new (cm_ports m)) (cm_shms m), w, s)
      | None \<Rightarrow> (ChannelClosed (receiver_ids s ! k), cb_drop_rx cb (the (ip_rx (receivers s ! k))) w,
          s\<lparr>receivers := remove_at k (receivers s), receiver_ids := remove_at k (receiver_ids s)\<rparr>))"

lemma ip_select_run:
  assumes "None \<notin> ip_rx ` set (receivers s)" and "length (receiver_ids s) = length (receivers s)"
    and "k < length (receivers s)"
    and "cb_select cb (map (the \<circ> ip_rx) (receivers s)) w = Some ((k, r), w1)"
  shows "ip_select cb (w, s) = (case ip_selected cb s k r w1 of (res, ws') \<Rightarrow> Some (Ok [res], ws'))"
proof -
  have "ip_rx (receivers s ! k) \<noteq> None" using assms(1,3) by (metis image_eqI nth_mem)
  then have "ip_drop_receiver cb (receivers s ! k) w1 = Some (Ok (), cb_drop_rx cb (the (ip_rx (receivers s ! k))) w1)"
    by (auto simp: ip_drop_receiver_def cb_do_def)
  moreover have "on_world (call_blocking (cb_select cb (map (the \<circ> ip_rx) (receivers s)))) (w, s) =
      Some (Ok (k, r) :: (_, channel_error) res, (w1, s))"
    using assms(4) by (simp add: on_world_def call_blocking_def)
  moreover have "receivers s \<noteq> []" using assms(3) by auto
  ultimately show ?thesis
    using assms(1-3) by (auto simp: ip_select_def ip_selected_def on_world_def on_self_def Let_def ip_parts_def
      split: option.splits)
qed

text \<open>C7: The channels of the in-process back end are queues. On a new channel, sending messages one after the
  other succeeds, and receiving as many gives them back in that order, each with its bytes, with its
  channels wrapped as opaque ones in order, and with its regions.\<close>

theorem ip_channel_fifo:
  fixes cb :: "'w ip_crossbeam" and ms :: "channel_message list"
  assumes "cb_laws cb v"
  shows "\<exists>tx rx w1 w2 w3. ip_channel cb w = Some (Ok (tx, rx), w1) \<and>
    in_sequence (\<lambda>m. ip_send cb tx (cm_data m) (cm_ports m) (cm_shms m)) ms w1 = Some (Ok (), w2) \<and>
    repeated (length ms) (ip_recv cb rx) w2 =
      Some (Ok (map (\<lambda>m. (cm_data m, map ip_opaque_new (cm_ports m), cm_shms m)) ms), w3)"
proof -
  obtain i w1 where new: "cb_unbounded cb w = (i, w1)" "v_queue v w1 i = []" "v_rx v w1 i = 1"
    using cb_lawsD(1) [OF assms] by blast
  then have chan: "ip_channel cb w = Some (Ok (\<lparr>ip_tx = i\<rparr>, \<lparr>ip_rx = Some i\<rparr>), w1)"
    by (simp add: ip_channel_def call_def)
  have live: "cb_laws cb v \<and> v_rx v w1 i > 0"
    using assms new(3) by simp
  obtain w2 w3 where
    "in_sequence (\<lambda>m. ip_send cb \<lparr>ip_tx = i\<rparr> (cm_data m) (cm_ports m) (cm_shms m)) ms w1 = Some (Ok (), w2)"
    "repeated (length ms) (ip_recv cb \<lparr>ip_rx = Some i\<rparr>) w2 = Some (Ok (map ip_parts ms), w3)"
    using ipf.fifo [OF live new(2), of ms] by blast
  then show ?thesis
    unfolding ip_parts_def [abs_def] using chan by blast
qed

text \<open>C18: The receiver set of the in-process back end keeps the contract of a receiver set: new members get new
  identifiers, and \<open>select\<close> reports one member, removing it exactly when it reports it closed. A
  \<open>select\<close> on a set without members is an error. When a message waits for a member, crossbeam's \<open>Select\<close> completes
  the receive of one of them, and \<open>select\<close> reports it: under the identifier of that member,
  the bytes, the channels, made opaque, and the regions of the message that was received, which is
  the first that waits there if one does; or that the member is closed when no sender is left, and then its
  receiver is dropped and the set is without it.\<close>

theorem ip_set_contract:
  assumes "ip_set_ok s"
  shows "(\<forall>r i w' s'. ip_set_add cb r (w, s) = Some (Ok i, (w', s')) \<longrightarrow>
      ip_set_ok s' \<and> i \<notin> set (receiver_ids s) \<and> set (receiver_ids s') = insert i (set (receiver_ids s))) \<and>
    (\<forall>rs w' s'. ip_select cb (w, s) = Some (Ok rs, (w', s')) \<longrightarrow>
      ip_set_ok s' \<and> length rs = 1 \<and> report_ok (set (receiver_ids s)) (map os_report rs) \<and>
      set (receiver_ids s') = left_after (set (receiver_ids s)) (map os_report rs)) \<and>
    (receivers s = [] \<longrightarrow> ip_select cb (w, s) = Some (Err UnknownError, (w, s))) \<and>
    (cb_laws cb v \<and> None \<notin> ip_rx ` set (receivers s) \<and> \<lparr>ip_rx = Some i\<rparr> \<in> set (receivers s) \<and>
      v_queue v w i \<noteq> [] \<longrightarrow>
      (\<exists>k j r w1. k < length (receiver_ids s) \<and> ip_rx (receivers s ! k) = Some j \<and>
        cb_select cb (map (the \<circ> ip_rx) (receivers s)) w = Some ((k, r), w1) \<and>
        (\<forall>m ms. v_queue v w j = m # ms \<longrightarrow> r = Some m \<and> v_queue v w1 = (v_queue v w)(j := ms)) \<and>
        (v_own v w j > 0 \<longrightarrow> r \<noteq> None) \<and>
        ip_select cb (w, s) =
          Some (case r of
              Some m \<Rightarrow> (Ok [DataReceived (receiver_ids s ! k) (cm_data m) (map ip_opaque_new (cm_ports m))
                (cm_shms m)], (w1, s))
            | None \<Rightarrow> (Ok [ChannelClosed (receiver_ids s ! k)], (cb_drop_rx cb j w1,
                s\<lparr>receivers := remove_at k (receivers s), receiver_ids := remove_at k (receiver_ids s)\<rparr>)))))"
proof (intro conjI allI impI)
  fix r i w' s' assume "ip_set_add cb r (w, s) = Some (Ok i, (w', s'))"
  from ips.add_Ok [of "(w, s)", simplified, OF assms this]
  show "ip_set_ok s'" "i \<notin> set (receiver_ids s)" "set (receiver_ids s') = insert i (set (receiver_ids s))"
    by auto
next
  fix rs w' s' assume run: "ip_select cb (w, s) = Some (Ok rs, (w', s'))"
  from ips.select_Ok [of "(w, s)", simplified, OF assms run]
  show "ip_set_ok s'" "report_ok (set (receiver_ids s)) (map os_report rs)"
    "set (receiver_ids s') = left_after (set (receiver_ids s)) (map os_report rs)"
    by auto
  show "length rs = 1"
    by (rule ip_select_cases [OF run]) simp_all
next
  assume "receivers s = []"
  then show "ip_select cb (w, s) = Some (Err UnknownError, (w, s))" by (simp add: ip_select_def)
next
  let ?is = "map (the \<circ> ip_rx) (receivers s)"
  assume r: "cb_laws cb v \<and> None \<notin> ip_rx ` set (receivers s) \<and> \<lparr>ip_rx = Some i\<rparr> \<in> set (receivers s) \<and>
      v_queue v w i \<noteq> []"
  then have "i \<in> set ?is" by force
  with r obtain k x w1 where sel: "cb_select cb ?is w = Some ((k, x), w1)"
    using cb_lawsD(10) by (metis not_None_eq surj_pair)
  have len: "length (receiver_ids s) = length (receivers s)" using assms by (simp add: ip_set_ok_def)
  note l = cb_lawsD(9) [OF conjunct1 [OF r] sel]
  then have k: "k < length (receivers s)" by simp
  with r obtain j where j: "ip_rx (receivers s ! k) = Some j" by (metis image_eqI nth_mem not_Some_eq)
  then have "?is ! k = j" using k by simp
  with l k j len ip_select_run [OF _ len k sel] sel r
  show "\<exists>k j r w1. k < length (receiver_ids s) \<and> ip_rx (receivers s ! k) = Some j \<and>
      cb_select cb ?is w = Some ((k, r), w1) \<and>
      (\<forall>m ms. v_queue v w j = m # ms \<longrightarrow> r = Some m \<and> v_queue v w1 = (v_queue v w)(j := ms)) \<and>
      (v_own v w j > 0 \<longrightarrow> r \<noteq> None) \<and>
      ip_select cb (w, s) =
        Some (case r of
            Some m \<Rightarrow> (Ok [DataReceived (receiver_ids s ! k) (cm_data m) (map ip_opaque_new (cm_ports m))
              (cm_shms m)], (w1, s))
          | None \<Rightarrow> (Ok [ChannelClosed (receiver_ids s ! k)], (cb_drop_rx cb j w1,
              s\<lparr>receivers := remove_at k (receivers s), receiver_ids := remove_at k (receiver_ids s)\<rparr>)))"
    by (intro exI [of _ k] exI [of _ j] exI [of _ x] exI [of _ w1])
      (auto simp: ip_selected_def split: option.splits)
qed

text \<open>
  The two kinds of channels and the global table do not interfere: what is done to connection channels
  and to the table leaves the message channels' senders alone.
\<close>

definition conns_apart ::
  "'x conn_crossbeam \<Rightarrow> ('x ip_world, channel_message) cb_view \<Rightarrow> bool" where
  "conns_apart cbc v \<longleftrightarrow>
     (\<forall>i w. v_own v (cb_clone_tx cbc i w) = v_own v w \<and> v_own v (cb_clone_rx cbc i w) = v_own v w \<and>
        v_own v (cb_drop_tx cbc i w) = v_own v w \<and> v_own v (cb_drop_rx cbc i w) = v_own v w) \<and>
     (\<forall>i w m w'. cb_recv cbc i w = Some (m, w') \<longrightarrow> v_own v w' = v_own v w) \<and>
     (\<forall>w t p. v_own v (w\<lparr>one_shot_servers := t\<rparr>) = v_own v w \<and> v_own v (w\<lparr>poisoned := p\<rparr>) = v_own v w)"

lemma clone_record_run:
  assumes "cb_laws cb v" and "conns_apart cbc v" and "clone_record cb cbc r w = Some (q, w')"
  shows "q = Ok r" and "v_own v w' = (v_own v w)(ip_tx (sr_sender r) := Suc (v_own v w (ip_tx (sr_sender r))))"
  using assms cb_lawsD(4) [OF assms(1)]
  by (auto simp: clone_record_def ip_sender_clone_def io_inv conns_apart_def)

lemma drop_record_run:
  assumes "cb_laws cb v" and "conns_apart cbc v" and "drop_record cb cbc r w = Some (q, w')"
  shows "q = Ok ()" and "v_own v w' = (v_own v w)(ip_tx (sr_sender r) := v_own v w (ip_tx (sr_sender r)) - 1)"
  using assms cb_lawsD(5) [OF assms(1)]
  by (auto simp: drop_record_def drop_conn_def ip_drop_sender_def io_inv conns_apart_def)

lemma ip_accept_Err:
  assumes "cb_laws cb v" and "conns_apart cbc v" and "one_shot_servers w (srv_name srv) = Some r"
    and "ip_accept cb cbc srv w = Some (Err e, w')"
  obtains w2 w4 removed w5 w6 w3 where "clone_record cb cbc r w = Some (Ok r, w2)"
    "record_accept cbc r w2 = Some (Ok (), w4)" "remove_server (srv_name srv) w4 = Some (Ok removed, w5)"
    "drop_record cb cbc removed w5 = Some (Ok (), w6)" "ip_recv cb (srv_receiver srv) w6 = Some (Err e, w3)"
proof -
  obtain w1 where "io_bind (lookup_server (srv_name srv)) (\<lambda>r.
      io_bind (clone_record cb cbc r) (\<lambda>rec.
      io_finally
        (io_bind (record_accept cbc rec) (\<lambda>_.
         io_bind (remove_server (srv_name srv)) (\<lambda>removed.
         io_bind (drop_record cb cbc removed) (\<lambda>_.
         io_bind (ip_recv cb (srv_receiver srv)) (\<lambda>received.
         io_return (srv_receiver srv, received))))))
        (\<lambda>_. drop_record cb cbc rec))) w = Some (Err e, w1)"
    using assms(4) unfolding ip_accept_def io_on_failure_eq_Some by (auto split: if_splits)
  then obtain w2 w3 where c: "clone_record cb cbc r w = Some (Ok r, w2)"
    and body: "io_bind (record_accept cbc r) (\<lambda>_.
         io_bind (remove_server (srv_name srv)) (\<lambda>removed.
         io_bind (drop_record cb cbc removed) (\<lambda>_.
         io_bind (ip_recv cb (srv_receiver srv)) (\<lambda>received.
         io_return (srv_receiver srv, received))))) w2 = Some (Err e, w3)"
    using assms(3) clone_record_run(1) [OF assms(1,2)]
    by (force simp: lookup_server_def io_bind_eq_Some io_finally_eq_Some split: if_splits)
  have na: "record_accept cbc r u \<noteq> Some (Err d, u')" for u d u'
    by (auto simp: record_accept_def io_bind_eq_Some call_blocking_eq_Some split: option.splits)
  have nr: "remove_server n u \<noteq> Some (Err d, u')" for n d and u u' :: "'a ip_world"
    by (auto simp: remove_server_def split: option.splits)
  have nd: "drop_record cb cbc x u \<noteq> Some (Err d, u')" for x u d u'
    using drop_record_run(1) [OF assms(1,2)] by blast
  from io_bind_Err_later [OF body na] obtain w4 where a: "record_accept cbc r w2 = Some (Ok (), w4)"
    and 1: "io_bind (remove_server (srv_name srv)) (\<lambda>removed.
         io_bind (drop_record cb cbc removed) (\<lambda>_.
         io_bind (ip_recv cb (srv_receiver srv)) (\<lambda>received.
         io_return (srv_receiver srv, received)))) w4 = Some (Err e, w3)"
    by auto
  from io_bind_Err_later [OF 1 nr] obtain removed w5 where
    rm: "remove_server (srv_name srv) w4 = Some (Ok removed, w5)"
    and 2: "io_bind (drop_record cb cbc removed) (\<lambda>_.
         io_bind (ip_recv cb (srv_receiver srv)) (\<lambda>received.
         io_return (srv_receiver srv, received))) w5 = Some (Err e, w3)" .
  from io_bind_Err_later [OF 2 nd] obtain w6 where d: "drop_record cb cbc removed w5 = Some (Ok (), w6)"
    and "io_bind (ip_recv cb (srv_receiver srv)) (\<lambda>received.
         io_return (srv_receiver srv, received)) w6 = Some (Err e, w3)"
    by auto
  then show thesis using that [OF c a rm d] by (auto simp: io_bind_eq_Some)
qed

lemma ip_accept_no_Err:
  assumes "cb_laws cb v" and "conns_apart cbc v"
    and "one_shot_servers w (srv_name srv) = Some r" and "ip_rx (srv_receiver srv) = Some (ip_tx (sr_sender r))"
    and "v_own v w (ip_tx (sr_sender r)) > 0"
  shows "ip_accept cb cbc srv w \<noteq> Some (Err e, w')"
proof
  let ?i = "ip_tx (sr_sender r)"
  assume "ip_accept cb cbc srv w = Some (Err e, w')"
  then obtain w2 w4 removed w5 w6 w3 where c: "clone_record cb cbc r w = Some (Ok r, w2)"
    and a: "record_accept cbc r w2 = Some (Ok (), w4)"
    and rm: "remove_server (srv_name srv) w4 = Some (Ok removed, w5)"
    and d: "drop_record cb cbc removed w5 = Some (Ok (), w6)"
    and recv: "ip_recv cb (srv_receiver srv) w6 = Some (Err e, w3)"
    by (rule ip_accept_Err [OF assms(1-3)])
  have "v_own v w2 ?i > 1"
    using clone_record_run(2) [OF assms(1,2) c] assms(5) by simp
  moreover have "v_own v w4 = v_own v w2"
    using a assms(2) by (auto simp: record_accept_def io_inv conns_apart_def split: option.splits)
  moreover have "v_own v w5 = v_own v w4"
    using rm assms(2) by (auto simp: remove_server_def conns_apart_def split: if_splits option.splits)
  ultimately have "v_own v w6 ?i > 0"
    using drop_record_run(2) [OF assms(1,2) d] by auto
  then show False
    using recv assms(4) cb_lawsD(6) [OF assms(1), of ?i w6]
    by (auto simp: ip_recv_def io_inv split: option.splits)
qed

text \<open>
  What the documentation says of a receive that nobody can answer: \<open>recv\<close> blocks until a message is
  received or the channel is disconnected. \<open>alone w i\<close> says that every sender of the channel \<open>i\<close> is one
  that the calling thread holds or keeps. Cloning and dropping handles, taking a message that waits and
  changing the table do not wait, so nothing else changes meanwhile.
\<close>

definition ip_face ::
  "('x ip_world, channel_message) cb_view \<Rightarrow> ('x ip_world \<Rightarrow> nat \<Rightarrow> bool)
     \<Rightarrow> 'x ip_world \<Rightarrow> (nat \<Rightarrow> channel_message list) \<times> (nat \<Rightarrow> bool) \<times> (string \<Rightarrow> server_record option) \<times> bool" where
  "ip_face v alone w = (v_queue v w, alone w, one_shot_servers w, poisoned w)"

definition waits_alone ::
  "'x ip_world ip_crossbeam \<Rightarrow> 'x conn_crossbeam \<Rightarrow> ('x ip_world, channel_message) cb_view
     \<Rightarrow> ('x ip_world, bool) cb_view \<Rightarrow> ('x ip_world \<Rightarrow> nat \<Rightarrow> bool) \<Rightarrow> bool" where
  "waits_alone cb cbc v vc alone \<longleftrightarrow>
     (\<forall>i w. alone w i \<and> v_queue v w i = [] \<and> v_own v w i > 0 \<longrightarrow> cb_recv cb i w = None) \<and>
     (\<forall>i w. \<forall>f\<in>{cb_clone_tx cb i, cb_drop_tx cb i, cb_clone_tx cbc i, cb_clone_rx cbc i, cb_drop_tx cbc i,
        cb_drop_rx cbc i}. ip_face v alone (f w) = ip_face v alone w \<and> v_queue vc (f w) = v_queue vc w) \<and>
     (\<forall>i w c cs. v_queue vc w i = c # cs \<longrightarrow>
        (\<exists>w'. cb_recv cbc i w = Some (Some c, w') \<and> ip_face v alone w' = ip_face v alone w)) \<and>
     (\<forall>w t. v_queue v (w\<lparr>one_shot_servers := t\<rparr>) = v_queue v w \<and> alone (w\<lparr>one_shot_servers := t\<rparr>) = alone w)"

lemma clone_record_alone:
  assumes "waits_alone cb cbc v vc alone" and "clone_record cb cbc r w = Some (q, w')"
  shows "ip_face v alone w' = ip_face v alone w" and "v_queue vc w' = v_queue vc w"
  using assms by (auto simp: clone_record_def ip_sender_clone_def io_inv waits_alone_def)

lemma drop_record_alone:
  assumes "waits_alone cb cbc v vc alone" and "drop_record cb cbc r w = Some (q, w')"
  shows "ip_face v alone w' = ip_face v alone w"
  using assms by (auto simp: drop_record_def drop_conn_def ip_drop_sender_def io_inv waits_alone_def)

lemma ip_accept_waits:
  fixes w :: "'x ip_world"
  assumes "cb_laws cb v" and "conns_apart cbc v" and "waits_alone cb cbc v vc alone"
    and "one_shot_servers w (srv_name srv) = Some r" and "\<not> poisoned w"
    and "ip_rx (srv_receiver srv) = Some (ip_tx (sr_sender r))" and "v_own v w (ip_tx (sr_sender r)) > 0"
    and "v_queue vc w (sr_conn r) = c # cs"
    and "alone w (ip_tx (sr_sender r))" and "v_queue v w (ip_tx (sr_sender r)) = []"
  shows "ip_accept cb cbc srv w = None"
proof -
  let ?i = "ip_tx (sr_sender r)"
  obtain w2 where c: "clone_record cb cbc r w = Some (Ok r, w2)"
    by (simp add: clone_record_def ip_sender_clone_def cb_do_def io_bind_def io_return_def)
  note f2 = clone_record_alone [OF assms(3) c]
  then obtain w4 where "cb_recv cbc (sr_conn r) w2 = Some (Some c, w4)" and f4: "ip_face v alone w4 = ip_face v alone w2"
    using assms(3,8) unfolding waits_alone_def by metis
  then have a: "record_accept cbc r w2 = Some (Ok (), w4)" and own4: "v_own v w4 = v_own v w2"
    using assms(2) by (auto simp: record_accept_def call_blocking_def conns_apart_def)
  let ?w5 = "w4\<lparr>one_shot_servers := (one_shot_servers w4)(srv_name srv := None)\<rparr>"
  have rm: "remove_server (srv_name srv) w4 = Some (Ok r, ?w5)"
    using f2 f4 assms(4,5) by (simp add: remove_server_def ip_face_def)
  obtain w6 where d: "drop_record cb cbc r ?w5 = Some (Ok (), w6)"
    by (simp add: drop_record_def drop_conn_def ip_drop_sender_def cb_do_def io_bind_def)
  have "v_own v w6 ?i > 0"
    using drop_record_run(2) [OF assms(1,2) d] clone_record_run(2) [OF assms(1,2) c] own4 assms(2,7)
    by (simp add: conns_apart_def)
  moreover have "v_queue v ?w5 = v_queue v w4" "alone ?w5 = alone w4"
    using assms(3) by (simp_all add: waits_alone_def)
  then have "v_queue v w6 ?i = []" "alone w6 ?i"
    using drop_record_alone [OF assms(3) d] f2 f4 assms(9,10) by (simp_all add: ip_face_def)
  ultimately have "cb_recv cb ?i w6 = None" using assms(3) by (simp add: waits_alone_def)
  then have "ip_recv cb (srv_receiver srv) w6 = None"
    using assms(6) by (simp add: ip_recv_def call_blocking_def io_bind_def io_match_def)
  then show ?thesis
    using c a rm d assms(4,5)
    by (simp add: ip_accept_def lookup_server_def io_on_failure_def io_finally_def io_bind_def io_match_def)
qed

text \<open>C34: \<open>accept\<close> of the in-process back end never reports that the client has gone away: it keeps a sender
  of the channel itself while it receives, so that the channel is never disconnected. When the client
  has connected and is gone without a message, so that no sender of the channel is left but the ones
  that \<open>accept\<close> keeps, \<open>accept\<close> never returns, where the Unix back end returns an error.\<close>

theorem ip_accept_never_closed:
  assumes "cb_laws cb v" and "conns_apart cbc v" and "waits_alone cb cbc v vc alone"
    and "one_shot_servers w (srv_name srv) = Some r" and "ip_rx (srv_receiver srv) = Some (ip_tx (sr_sender r))"
    and "v_own v w (ip_tx (sr_sender r)) > 0"
  shows "ip_accept cb cbc srv w \<noteq> Some (Err e, w') \<and>
    (\<not> poisoned w \<and> v_queue vc w (sr_conn r) \<noteq> [] \<and>
      alone w (ip_tx (sr_sender r)) \<and> v_queue v w (ip_tx (sr_sender r)) = [] \<longrightarrow>
      ip_accept cb cbc srv w = None)"
  using ip_accept_no_Err [OF assms(1,2,4-6)] ip_accept_waits [OF assms(1-4) _ assms(5,6)]
  by (metis neq_Nil_conv)

text \<open>C35: Connecting to a name that no server has is not an error but a panic, and it happens while the table is
  locked: from then on making a server, connecting to one and accepting a connection all panic, in
  every thread of the process.\<close>

theorem ip_connect_unknown_poisons:
  assumes "\<not> poisoned w" and "one_shot_servers w name = None"
  shows "\<exists>w'. ip_connect cb cbc name w = Some (Panic, w') \<and> poisoned w' \<and>
    (\<forall>w2 other srv. poisoned w2 \<longrightarrow>
       ip_connect cb cbc other w2 = Some (Panic, w2) \<and>
       (\<forall>r w3. ip_accept cb cbc srv w2 = Some (r, w3) \<longrightarrow> r = Panic) \<and>
       (\<forall>uuid r w3. (\<forall>w. poisoned w \<longrightarrow> poisoned (snd (cb_unbounded cb w)) \<and> poisoned (snd (uuid w)) \<and>
            poisoned (snd (cb_unbounded cbc w))) \<longrightarrow>
          ip_server_new cb cbc uuid w2 = Some (r, w3) \<longrightarrow> r = Panic))"
proof (intro exI conjI allI impI)
  show "ip_connect cb cbc name w = Some (Panic, w\<lparr>poisoned := True\<rparr>)"
    using assms by (simp add: ip_connect_def lookup_server_def)
  show "poisoned (w\<lparr>poisoned := True\<rparr>)" by simp
  fix w2 :: "'a ip_world" and other srv
  assume p: "poisoned w2"
  show "ip_connect cb cbc other w2 = Some (Panic, w2)"
    using p by (simp add: ip_connect_def lookup_server_def)
  show "r = Panic" if "ip_accept cb cbc srv w2 = Some (r, w3)" for r w3
    using that p by (auto simp: ip_accept_def lookup_server_def io_on_failure_eq_Some io_bind_eq_Some)
  fix uuid r w3
  assume k: "\<forall>w. poisoned w \<longrightarrow> poisoned (snd (cb_unbounded cb w)) \<and> poisoned (snd (uuid w)) \<and>
      poisoned (snd (cb_unbounded cbc w))"
    and run: "ip_server_new cb cbc uuid w2 = Some (r, w3)"
  obtain i w4 name w5 j w6 where "cb_unbounded cb w2 = (i, w4)" "uuid w4 = (name, w5)" "cb_unbounded cbc w5 = (j, w6)"
    by (metis surj_pair)
  moreover from this have "poisoned w6" using k p by (metis snd_conv)
  ultimately show "r = Panic"
    using run
    by (auto simp: ip_server_new_def ip_channel_def server_record_new_def call_def insert_server_def
      io_on_failure_eq_Some io_bind_eq_Some split: if_splits)
qed

section \<open>Examples\<close>

record ip_example = ip_globals +
  ex_msgs :: "channel_message cb_world"
  ex_conns :: "bool cb_world"

definition ex_cb :: "ip_example ip_crossbeam" where
  "ex_cb = cb_on ex_msgs (\<lambda>s w. w\<lparr>ex_msgs := s\<rparr>) s_crossbeam"

definition ex_cbc :: "(ip_example, bool) crossbeam" where
  "ex_cbc = cb_on ex_conns (\<lambda>s w. w\<lparr>ex_conns := s\<rparr>) s_crossbeam"

definition ex_view :: "(ip_example, channel_message) cb_view" where
  "ex_view = view_on ex_msgs s_view"

lemma ex_laws: "cb_laws ex_cb ex_view"
  unfolding ex_cb_def ex_view_def by (rule cb_on_laws [OF s_laws]) simp

lemma ex_apart: "conns_apart ex_cbc ex_view"
  by (auto simp: conns_apart_def ex_cbc_def ex_view_def cb_on_def view_on_def)

definition ex_message :: channel_message where
  "ex_message = \<lparr>cm_data = [1, 2], cm_ports = [Sender \<lparr>ip_tx = 7\<rparr>], cm_shms = []\<rparr>"

theorem ip_channel_fifo_witness:
  "\<exists>tx rx w1 w2 w3. ip_channel s_crossbeam cb_init = Some (Ok (tx, rx), w1) \<and>
    in_sequence (\<lambda>m. ip_send s_crossbeam tx (cm_data m) (cm_ports m) (cm_shms m)) [ex_message] w1 =
      Some (Ok (), w2) \<and>
    repeated 1 (ip_recv s_crossbeam rx) w2 =
      Some (Ok [([1, 2], [\<lparr>ip_inner = Some (Sender \<lparr>ip_tx = 7\<rparr>)\<rparr>], [])], w3)"
  using ip_channel_fifo [OF s_laws, of cb_init "[ex_message]"]
  by (simp add: ex_message_def ip_opaque_new_def)

definition ex_set :: ip_receiver_set where
  "ex_set = \<lparr>ip_incrementor = 1, receiver_ids = [0], receivers = [\<lparr>ip_rx = Some 3\<rparr>]\<rparr>"

definition ex_waiting :: "channel_message cb_world" where
  "ex_waiting = cb_init\<lparr>w_queue := (\<lambda>_. [])(3 := [ex_message]), w_tx := (\<lambda>_. 1)\<rparr>"

theorem ip_set_contract_witness:
  "\<exists>w'. ip_select s_crossbeam (ex_waiting, ex_set) =
     Some (Ok [DataReceived 0 [1, 2] [\<lparr>ip_inner = Some (Sender \<lparr>ip_tx = 7\<rparr>)\<rparr>] []], (w', ex_set))"
  using ip_set_contract [of ex_set s_crossbeam ex_waiting s_view 3]
  by (simp add: ip_set_ok_def ex_set_def s_laws)
    (auto simp: s_view_def ex_set_def ex_waiting_def ex_message_def ip_opaque_new_def)

definition ex_servers :: ip_example where
  "ex_servers =
     \<lparr>one_shot_servers = [''server'' \<mapsto> \<lparr>sr_sender = \<lparr>ip_tx = 0\<rparr>, sr_conn = 0\<rparr>], poisoned = False,
      ex_msgs = cb_init\<lparr>w_tx := (\<lambda>_. 0)(0 := 1)\<rparr>,
      ex_conns = cb_init\<lparr>w_queue := (\<lambda>_. [])(0 := [True])\<rparr>\<rparr>"

definition ex_conn_view :: "(ip_example, bool) cb_view" where
  "ex_conn_view = view_on ex_conns s_view"

lemma ex_alone: "waits_alone ex_cb ex_cbc ex_view ex_conn_view (\<lambda>_ _. True)"
  by (auto simp: waits_alone_def ip_face_def ex_cb_def ex_cbc_def ex_view_def ex_conn_view_def cb_on_def view_on_def
    s_crossbeam_def s_view_def s_recv_def s_try_def s_take_def split: list.splits)

theorem ip_accept_never_closed_witness:
  "ip_accept ex_cb ex_cbc \<lparr>srv_receiver = \<lparr>ip_rx = Some 0\<rparr>, srv_name = ''server''\<rparr> ex_servers = None"
  using ip_accept_never_closed [OF ex_laws ex_apart ex_alone, of ex_servers
      "\<lparr>srv_receiver = \<lparr>ip_rx = Some 0\<rparr>, srv_name = ''server''\<rparr>" "\<lparr>sr_sender = \<lparr>ip_tx = 0\<rparr>, sr_conn = 0\<rparr>"]
  by (simp add: ex_servers_def ex_view_def ex_conn_view_def view_on_def s_view_def cb_init_def)

theorem ip_connect_unknown_poisons_witness:
  "\<exists>w'. ip_connect ex_cb ex_cbc ''nobody'' ex_servers = Some (Panic, w') \<and> poisoned w' \<and>
     ip_connect ex_cb ex_cbc ''server'' w' = Some (Panic, w')"
  using ip_connect_unknown_poisons [of ex_servers "''nobody''" ex_cb ex_cbc]
  by (simp add: ex_servers_def) blast

end
