(* ===== verification/Backend.thy ===== *)
theory Backend
  imports Unix_Set Unix_Server Unix_Error Inprocess
begin

text \<open>
  The interface that every back end has: what \<open>src/src/platform/mod.rs\<close> selects, by the target and the
  feature, for the public interface to build on. Here it is three records of functions, for channels,
  receiver sets and one-shot servers, with the Unix and the in-process back end as instances.
\<close>

section \<open>The interface of a back end\<close>

type_synonym ('op, 'shm) os_received = "u8 list \<times> 'op list \<times> 'shm list"

record ('w, 'tx, 'rx, 'op, 'shm, 'e, 'p) os_backend =
  os_channel :: "('w, 'tx \<times> 'rx, 'e) io"
  os_clone_tx :: "'tx \<Rightarrow> ('w, 'tx, 'e) io"
  os_consume :: "'rx \<Rightarrow> 'rx"
  os_send_message :: "'tx \<Rightarrow> u8 list \<Rightarrow> ('tx, 'rx) os_ipc_channel list \<Rightarrow> 'shm list \<Rightarrow> ('w, unit, 'e) io"
  os_recv_message :: "'rx \<Rightarrow> ('w, ('op, 'shm) os_received, 'e) io"
  os_try_recv_message :: "'rx \<Rightarrow> ('w, ('op, 'shm) os_received, 'e) io"
  os_recv_message_timeout :: "'rx \<Rightarrow> duration \<Rightarrow> ('w, ('op, 'shm) os_received, 'e) io"
  os_to_sender :: "'op \<Rightarrow> ('tx, 'e) res \<times> 'op"
  os_to_receiver :: "'op \<Rightarrow> ('rx, 'e) res \<times> 'op"
  os_clone_shm :: "'shm \<Rightarrow> ('w, 'shm, 'e) io"
  os_drop_channel :: "bool \<Rightarrow> ('tx, 'rx) os_ipc_channel \<Rightarrow> ('w, unit, 'e) io"
  os_drop_op :: "bool \<Rightarrow> 'op \<Rightarrow> ('w, unit, 'e) io"
  os_drop_region :: "bool \<Rightarrow> 'shm \<Rightarrow> ('w, unit, 'e) io"
  e_io :: "'e \<Rightarrow> 'p io_error"
  e_ipc :: "'e \<Rightarrow> 'p ipc_error"
  e_try :: "'e \<Rightarrow> 'p try_recv_error"

record ('w, 'rx, 'op, 'shm, 'set, 'e) os_sets =
  os_set_new :: "('w, 'set, 'e) io"
  os_set_add :: "'rx \<Rightarrow> ('w \<times> 'set, u64, 'e) io"
  os_set_select :: "('w \<times> 'set, ('op, 'shm) os_ipc_selection_result list, 'e) io"

record ('w, 'tx, 'rx, 'op, 'shm, 'srv, 'e) os_servers =
  os_connect :: "string \<Rightarrow> ('w, 'tx, 'e) io"
  os_server_new :: "('w, 'srv \<times> string, 'e) io"
  os_accept :: "'srv \<Rightarrow> ('w, 'rx \<times> ('op, 'shm) os_received, 'e) io"

section \<open>The Unix back end\<close>

text \<open>
  A sender shares its descriptor, so that a clone is the same sender; \<open>shared\<close> says whether others still
  share it when one is dropped.
\<close>

definition unix_backend ::
  "'w unix_sys \<Rightarrow> usize \<Rightarrow> (os_ipc_sender \<Rightarrow> bool)
     \<Rightarrow> ('w, os_ipc_sender, os_ipc_receiver, os_opaque_ipc_channel, os_ipc_shared_memory, unix_error, unix_error) os_backend" where
  "unix_backend sys ssb shared =
     \<lparr>os_channel = channel sys, os_clone_tx = io_return, os_consume = fst \<circ> consume,
      os_send_message = os_send sys ssb shared,
      os_recv_message = receiver_recv sys ssb, os_try_recv_message = receiver_try_recv sys ssb,
      os_recv_message_timeout = receiver_try_recv_timeout sys ssb,
      os_to_sender = apfst Ok \<circ> to_sender, os_to_receiver = apfst Ok \<circ> to_receiver,
      os_clone_shm = shm_clone sys,
      os_drop_channel = drop_channel sys shared, os_drop_op = drop_opaque, os_drop_region = drop_shm sys,
      e_io = unix_to_io, e_ipc = unix_to_ipc, e_try = unix_to_try\<rparr>"

definition unix_sets ::
  "'w unix_sys \<Rightarrow> usize \<Rightarrow> 'w mio
     \<Rightarrow> ('w, os_ipc_receiver, os_opaque_ipc_channel, os_ipc_shared_memory, unix_receiver_set, unix_error) os_sets" where
  "unix_sets sys ssb mio =
     \<lparr>os_set_new = unix_set_new mio, os_set_add = unix_set_add sys mio, os_set_select = unix_select sys ssb mio\<rparr>"

definition unix_servers ::
  "'w unix_sys \<Rightarrow> usize
     \<Rightarrow> ('w, os_ipc_sender, os_ipc_receiver, os_opaque_ipc_channel, os_ipc_shared_memory, os_ipc_one_shot_server,
          unix_error) os_servers" where
  "unix_servers sys ssb =
     \<lparr>os_connect = connect sys, os_server_new = server_new sys, os_accept = server_accept sys ssb\<rparr>"

section \<open>The in-process back end\<close>

definition ip_drop_channel :: "'w ip_crossbeam \<Rightarrow> bool \<Rightarrow> ip_channel \<Rightarrow> ('w, unit, channel_error) io" where
  "ip_drop_channel cb panicking c =
     (case c of Sender tx \<Rightarrow> ip_drop_sender cb tx | Receiver rx \<Rightarrow> ip_drop_receiver cb rx)"

definition ip_drop_opaque :: "'w ip_crossbeam \<Rightarrow> bool \<Rightarrow> ip_opaque \<Rightarrow> ('w, unit, channel_error) io" where
  "ip_drop_opaque cb panicking c =
     (case ip_inner c of None \<Rightarrow> io_return () | Some ch \<Rightarrow> ip_drop_channel cb panicking ch)"

definition ip_backend ::
  "'w ip_crossbeam
     \<Rightarrow> ('w, ip_sender, ip_receiver, ip_opaque, ip_shared_memory, channel_error, string) os_backend" where
  "ip_backend cb =
     \<lparr>os_channel = Inprocess.ip_channel cb, os_clone_tx = ip_sender_clone cb, os_consume = fst \<circ> ip_consume,
      os_send_message = ip_send cb,
      os_recv_message = ip_recv cb, os_try_recv_message = ip_try_recv cb,
      os_recv_message_timeout = ip_try_recv_timeout cb,
      os_to_sender = ip_to_sender, os_to_receiver = ip_to_receiver,
      os_clone_shm = io_return \<circ> ip_shm_clone,
      os_drop_channel = ip_drop_channel cb, os_drop_op = ip_drop_opaque cb, os_drop_region = (\<lambda>_ _. io_return ()),
      e_io = channel_to_io, e_ipc = channel_to_ipc, e_try = channel_to_try\<rparr>"

definition ip_sets ::
  "'w ip_crossbeam
     \<Rightarrow> ('w, ip_receiver, ip_opaque, ip_shared_memory, ip_receiver_set, channel_error) os_sets" where
  "ip_sets cb = \<lparr>os_set_new = ip_set_new, os_set_add = ip_set_add cb, os_set_select = ip_select cb\<rparr>"

definition ip_servers ::
  "'x ip_world ip_crossbeam \<Rightarrow> 'x conn_crossbeam \<Rightarrow> ('x ip_world \<Rightarrow> string \<times> 'x ip_world)
     \<Rightarrow> ('x ip_world, ip_sender, ip_receiver, ip_opaque, ip_shared_memory, ip_one_shot_server,
          channel_error) os_servers" where
  "ip_servers cb cbc uuid =
     \<lparr>os_connect = ip_connect cb cbc, os_server_new = ip_server_new cb cbc uuid, os_accept = ip_accept cb cbc\<rparr>"

end
