(* ===== verification/Ipc_Message.thy ===== *)
theory Ipc_Message
  imports Backend
begin

text \<open>
  Messages of the public interface (\<open>src/src/ipc.rs\<close>): how a value with channels and regions in it becomes
  bytes, a list of channels and a list of regions, and how it is put together again. The lists are
  collected in thread-local vectors while \<open>serde\<close> walks over the value, and the bytes hold indices into
  them.

  What the value's own \<open>Serialize\<close> and \<open>Deserialize\<close> do is a parameter: a list of steps, and a program that
  asks for what it reads. The value itself, which \<open>send\<close> owns, is dropped by its own \<open>Drop\<close> afterwards;
  that is not part of the model.
\<close>

section \<open>Thread-local vectors\<close>

record ('tx, 'rx, 'op, 'shm) tls =
  channels_for_serialization :: "('tx, 'rx) os_ipc_channel list"
  regions_for_serialization :: "'shm list"
  channels_for_deserialization :: "'op list"
  regions_for_deserialization :: "'shm option list"

section \<open>Serializing\<close>

text \<open>
  What the \<open>Serialize\<close> implementation of a value does, in order: it writes bytes of its own, it serializes a
  sender, a receiver or a region inside it, it fails, or it sends another value itself while it is being
  serialized and ignores the outcome.
\<close>

datatype ('tx, 'rx, 'shm) ser_step =
    SerBytes "u8 list"
  | SerSender 'tx
  | SerReceiver 'rx
  | SerRegion 'shm
  | SerFail string
  | SerSend 'tx "('tx, 'rx, 'shm) ser_step list"

text \<open>How \<open>bincode\<close> writes and reads a \<open>usize\<close>.\<close>

record bincode =
  put_usize :: "usize \<Rightarrow> u8 list"
  get_usize :: "u8 list \<Rightarrow> (usize \<times> u8 list) option"

definition bincode_ok :: "bincode \<Rightarrow> bool" where
  "bincode_ok bc \<longleftrightarrow> (\<forall>n rest. get_usize bc (put_usize bc n @ rest) = Some (n, rest))"

type_synonym ('w, 'tx, 'rx, 'op, 'shm, 'a, 'p) ipc_io =
  "('w \<times> ('tx, 'rx, 'op, 'shm) tls, 'a, 'p bincode_error) io"

text \<open>An error of the back end becomes one of \<open>bincode\<close>.\<close>

definition lift_os ::
  "('w, 'tx, 'rx, 'op, 'shm, 'e, 'p) os_backend \<Rightarrow> ('w, 'a, 'e) io \<Rightarrow> ('w, 'tx, 'rx, 'op, 'shm, 'a, 'p) ipc_io" where
  "lift_os be m = on_world (io_map_err (\<lambda>e. BincodeIo (e_io be e)) m)"

lemma lift_os_eq_Some:
  "lift_os be m wt = Some (Ok x, wt') \<longleftrightarrow> (\<exists>w w' t. wt = (w, t) \<and> wt' = (w', t) \<and> m w = Some (Ok x, w'))"
  "lift_os be m wt = Some (Err e, wt') \<longleftrightarrow>
     (\<exists>w w' t d. wt = (w, t) \<and> wt' = (w', t) \<and> m w = Some (Err d, w') \<and> e = BincodeIo (e_io be d))"
  "lift_os be m wt = Some (Panic, wt') \<longleftrightarrow> (\<exists>w w' t. wt = (w, t) \<and> wt' = (w', t) \<and> m w = Some (Panic, w'))"
  by (auto simp: lift_os_def io_inv)

lemma lift_os_keeps: "lift_os be m (w, t) = Some (r, (w', t')) \<Longrightarrow> t' = t"
  by (auto simp: lift_os_def io_inv)

lemma lift_os_run: "m w = Some (r, w') \<Longrightarrow>
    lift_os be m (w, t) = Some (res_map_err (\<lambda>e. BincodeIo (e_io be e)) r, (w', t))"
  by (simp add: lift_os_def on_world_def io_map_err_def)

definition serialize_os_ipc_sender ::
  "('w, 'tx, 'rx, 'op, 'shm, 'e, 'p) os_backend \<Rightarrow> bincode \<Rightarrow> 'tx
     \<Rightarrow> ('w, 'tx, 'rx, 'op, 'shm, u8 list, 'p) ipc_io" where
  "serialize_os_ipc_sender be bc tx =
     io_bind (lift_os be (os_clone_tx be tx)) (\<lambda>tx'.
     on_self (\<lambda>t. (put_usize bc (len_of (channels_for_serialization t)),
       t\<lparr>channels_for_serialization := channels_for_serialization t @ [Sender tx']\<rparr>)))"

definition serialize_os_ipc_receiver ::
  "('w, 'tx, 'rx, 'op, 'shm, 'e, 'p) os_backend \<Rightarrow> bincode \<Rightarrow> 'rx
     \<Rightarrow> ('w, 'tx, 'rx, 'op, 'shm, u8 list, 'p) ipc_io" where
  "serialize_os_ipc_receiver be bc rx =
     on_self (\<lambda>t. (put_usize bc (len_of (channels_for_serialization t)),
       t\<lparr>channels_for_serialization := channels_for_serialization t @ [Receiver (os_consume be rx)]\<rparr>))"

definition serialize_region ::
  "('w, 'tx, 'rx, 'op, 'shm, 'e, 'p) os_backend \<Rightarrow> bincode \<Rightarrow> 'shm
     \<Rightarrow> ('w, 'tx, 'rx, 'op, 'shm, u8 list, 'p) ipc_io" where
  "serialize_region be bc shm =
     io_bind (lift_os be (os_clone_shm be shm)) (\<lambda>shm'.
     on_self (\<lambda>t. (put_usize bc (len_of (regions_for_serialization t)),
       t\<lparr>regions_for_serialization := regions_for_serialization t @ [shm']\<rparr>)))"

definition replace_serialization_vectors ::
  "('tx, 'rx) os_ipc_channel list \<Rightarrow> 'shm list
     \<Rightarrow> ('w, 'tx, 'rx, 'op, 'shm, ('tx, 'rx) os_ipc_channel list \<times> 'shm list, 'p) ipc_io" where
  "replace_serialization_vectors channels shms =
     on_self (\<lambda>t. ((channels_for_serialization t, regions_for_serialization t),
       t\<lparr>channels_for_serialization := channels, regions_for_serialization := shms\<rparr>))"

text \<open>Vectors that go out of scope.\<close>

definition drop_vectors ::
  "('w, 'tx, 'rx, 'op, 'shm, 'e, 'p) os_backend \<Rightarrow> bool \<Rightarrow> ('tx, 'rx) os_ipc_channel list \<Rightarrow> 'shm list
     \<Rightarrow> ('w, 'tx, 'rx, 'op, 'shm, unit, 'p) ipc_io" where
  "drop_vectors be panicking channels shms =
     io_finally (lift_os be (drop_all (os_drop_region be) panicking shms))
       (\<lambda>unwinding. lift_os be (drop_all (os_drop_channel be) (panicking \<or> unwinding) channels))"

text \<open>
  \<open>IpcSender::send\<close>: the vectors are put aside, the value fills new ones, and the old ones are put back. An
  error of the serialization returns before that; the vectors put aside are then dropped.
\<close>

fun serialize_steps ::
  "('w, 'tx, 'rx, 'op, 'shm, 'e, 'p) os_backend \<Rightarrow> bincode \<Rightarrow> ('tx, 'rx, 'shm) ser_step list
     \<Rightarrow> ('w, 'tx, 'rx, 'op, 'shm, u8 list, 'p) ipc_io"
and ipc_send ::
  "('w, 'tx, 'rx, 'op, 'shm, 'e, 'p) os_backend \<Rightarrow> bincode \<Rightarrow> 'tx \<Rightarrow> ('tx, 'rx, 'shm) ser_step list
     \<Rightarrow> ('w, 'tx, 'rx, 'op, 'shm, unit, 'p) ipc_io" where
  "serialize_steps be bc [] = io_return []"
| "serialize_steps be bc (SerBytes bs # steps) =
     io_bind (serialize_steps be bc steps) (\<lambda>rest. io_return (bs @ rest))"
| "serialize_steps be bc (SerSender tx # steps) =
     io_bind (serialize_os_ipc_sender be bc tx) (\<lambda>bs.
     io_bind (serialize_steps be bc steps) (\<lambda>rest. io_return (bs @ rest)))"
| "serialize_steps be bc (SerReceiver rx # steps) =
     io_bind (serialize_os_ipc_receiver be bc rx) (\<lambda>bs.
     io_bind (serialize_steps be bc steps) (\<lambda>rest. io_return (bs @ rest)))"
| "serialize_steps be bc (SerRegion shm # steps) =
     io_bind (serialize_region be bc shm) (\<lambda>bs.
     io_bind (serialize_steps be bc steps) (\<lambda>rest. io_return (bs @ rest)))"
| "serialize_steps be bc (SerFail msg # steps) = io_throw (BincodeMsg msg)"
| "serialize_steps be bc (SerSend tx inner # steps) =
     io_bind (io_match (ipc_send be bc tx inner) io_return (\<lambda>_. io_return ())) (\<lambda>_.
     serialize_steps be bc steps)"
| "ipc_send be bc tx steps =
     io_bind (replace_serialization_vectors [] []) (\<lambda>(old_channels, old_shms).
     io_bind (io_on_failure (serialize_steps be bc steps)
         (\<lambda>panicking. drop_vectors be panicking old_channels old_shms)) (\<lambda>bytes.
     io_bind (replace_serialization_vectors old_channels old_shms) (\<lambda>(channels, shms).
     lift_os be (os_send_message be tx bytes channels shms))))"

section \<open>Deserializing\<close>

text \<open>What the \<open>Deserialize\<close> implementation asks for, and what it makes of it.\<close>

datatype ('tx, 'rx, 'shm, 'a) deser =
    DeReturn 'a
  | DeFail string
  | DeBytes nat "u8 list \<Rightarrow> ('tx, 'rx, 'shm, 'a) deser"
  | DeSender "'tx \<Rightarrow> ('tx, 'rx, 'shm, 'a) deser"
  | DeReceiver "'rx \<Rightarrow> ('tx, 'rx, 'shm, 'a) deser"
  | DeRegion "'shm \<Rightarrow> ('tx, 'rx, 'shm, 'a) deser"

definition deserialize_usize ::
  "bincode \<Rightarrow> u8 list \<Rightarrow> ('w, 'tx, 'rx, 'op, 'shm, usize \<times> u8 list, 'p) ipc_io" where
  "deserialize_usize bc bs =
     (case get_usize bc bs of None \<Rightarrow> io_throw (BincodeMsg ''unexpected end of file'') | Some r \<Rightarrow> io_return r)"

text \<open>
  An index out of bounds is a panic, not an error; so is one whose channel is of the other kind or was
  taken out before, where the back end notices.
\<close>

definition take_channel ::
  "('op \<Rightarrow> ('c, 'e) res \<times> 'op) \<Rightarrow> ('w, 'tx, 'rx, 'op, 'shm, 'e, 'p) os_backend \<Rightarrow> usize
     \<Rightarrow> ('w, 'tx, 'rx, 'op, 'shm, 'c, 'p) ipc_io" where
  "take_channel to be index = (\<lambda>(w, t).
     if unat index \<ge> length (channels_for_deserialization t) then Some (Panic, (w, t))
     else case to (channels_for_deserialization t ! unat index) of (r, op) \<Rightarrow>
       Some (res_map_err (\<lambda>e. BincodeIo (e_io be e)) r,
         (w, t\<lparr>channels_for_deserialization := (channels_for_deserialization t)[unat index := op]\<rparr>)))"

definition take_region :: "usize \<Rightarrow> ('w, 'tx, 'rx, 'op, 'shm, 'shm, 'p) ipc_io" where
  "take_region index = (\<lambda>(w, t).
     if unat index \<ge> length (regions_for_deserialization t) then Some (Panic, (w, t))
     else case regions_for_deserialization t ! unat index of
         None \<Rightarrow> Some (Panic, (w, t))
       | Some shm \<Rightarrow>
           Some (Ok shm, (w, t\<lparr>regions_for_deserialization :=
             (regions_for_deserialization t)[unat index := None]\<rparr>)))"

primrec deserialize ::
  "('w, 'tx, 'rx, 'op, 'shm, 'e, 'p) os_backend \<Rightarrow> bincode \<Rightarrow> ('tx, 'rx, 'shm, 'a) deser \<Rightarrow> u8 list
     \<Rightarrow> ('w, 'tx, 'rx, 'op, 'shm, 'a, 'p) ipc_io" where
  "deserialize be bc (DeReturn x) = (\<lambda>bs. io_return x)"
| "deserialize be bc (DeFail msg) = (\<lambda>bs. io_throw (BincodeMsg msg))"
| "deserialize be bc (DeBytes n k) = (\<lambda>bs.
     if length bs < n then io_throw (BincodeMsg ''unexpected end of file'')
     else deserialize be bc (k (take n bs)) (drop n bs))"
| "deserialize be bc (DeSender k) = (\<lambda>bs.
     io_bind (deserialize_usize bc bs) (\<lambda>(index, bs').
     io_bind (take_channel (os_to_sender be) be index) (\<lambda>tx. deserialize be bc (k tx) bs')))"
| "deserialize be bc (DeReceiver k) = (\<lambda>bs.
     io_bind (deserialize_usize bc bs) (\<lambda>(index, bs').
     io_bind (take_channel (os_to_receiver be) be index) (\<lambda>rx. deserialize be bc (k rx) bs')))"
| "deserialize be bc (DeRegion k) = (\<lambda>bs.
     io_bind (deserialize_usize bc bs) (\<lambda>(index, bs').
     io_bind (take_region index) (\<lambda>shm. deserialize be bc (k shm) bs')))"

section \<open>Opaque messages\<close>

record ('op, 'shm) opaque_ipc_message =
  msg_data :: "u8 list"
  msg_channels :: "'op list"
  msg_regions :: "'shm option list"

definition opaque_message_new :: "('op, 'shm) os_received \<Rightarrow> ('op, 'shm) opaque_ipc_message" where
  "opaque_message_new r =
     (case r of (data, channels, shms) \<Rightarrow>
        \<lparr>msg_data = data, msg_channels = channels, msg_regions = map Some shms\<rparr>)"

definition swap_deserialization_vectors ::
  "'op list \<Rightarrow> 'shm option list \<Rightarrow> ('w, 'tx, 'rx, 'op, 'shm, 'op list \<times> 'shm option list, 'p) ipc_io" where
  "swap_deserialization_vectors channels shms =
     on_self (\<lambda>t. ((channels_for_deserialization t, regions_for_deserialization t),
       t\<lparr>channels_for_deserialization := channels, regions_for_deserialization := shms\<rparr>))"

fun drop_region_option ::
  "('w, 'tx, 'rx, 'op, 'shm, 'e, 'p) os_backend \<Rightarrow> bool \<Rightarrow> 'shm option \<Rightarrow> ('w, unit, 'e) io" where
  "drop_region_option be panicking None = io_return ()"
| "drop_region_option be panicking (Some shm) = os_drop_region be panicking shm"

definition drop_message ::
  "('w, 'tx, 'rx, 'op, 'shm, 'e, 'p) os_backend \<Rightarrow> bool \<Rightarrow> 'op list \<Rightarrow> 'shm option list
     \<Rightarrow> ('w, 'tx, 'rx, 'op, 'shm, unit, 'p) ipc_io" where
  "drop_message be panicking channels shms =
     io_finally (lift_os be (drop_all (os_drop_op be) panicking channels))
       (\<lambda>unwinding. lift_os be (drop_all (drop_region_option be) (panicking \<or> unwinding) shms))"

text \<open>
  \<open>OpaqueIpcMessage::to\<close>: the message's vectors are swapped in for the deserialization and swapped out after it,
  whether it succeeded or failed; then what is left of the message is dropped. A panic skips the second
  swap, so that the thread keeps the message's vectors and the ones put aside are dropped.
\<close>

definition message_to ::
  "('w, 'tx, 'rx, 'op, 'shm, 'e, 'p) os_backend \<Rightarrow> bincode \<Rightarrow> ('tx, 'rx, 'shm, 'a) deser
     \<Rightarrow> ('op, 'shm) opaque_ipc_message \<Rightarrow> ('w, 'tx, 'rx, 'op, 'shm, 'a, 'p) ipc_io" where
  "message_to be bc des m =
     io_bind (swap_deserialization_vectors (msg_channels m) (msg_regions m)) (\<lambda>(old_channels, old_shms). (\<lambda>wt.
       Option.bind (deserialize be bc des (msg_data m) wt) (\<lambda>(result, wt').
         case result of
           Panic \<Rightarrow> io_finally io_panic (\<lambda>_. drop_message be True old_channels old_shms) wt'
         | _ \<Rightarrow>
             io_bind (swap_deserialization_vectors old_channels old_shms) (\<lambda>(channels, shms).
               io_finally (io_lift result) (\<lambda>_. drop_message be False channels shms)) wt')))"

section \<open>Sending keeps the vectors\<close>

fun no_fail :: "('tx, 'rx, 'shm) ser_step list \<Rightarrow> bool" where
  "no_fail [] \<longleftrightarrow> True"
| "no_fail (SerFail msg # steps) \<longleftrightarrow> False"
| "no_fail (SerSend tx inner # steps) \<longleftrightarrow> no_fail inner \<and> no_fail steps"
| "no_fail (_ # steps) \<longleftrightarrow> no_fail steps"

text \<open>Cloning a sender or a region either succeeds or panics, in every back end.\<close>

definition clones_ok :: "('w, 'tx, 'rx, 'op, 'shm, 'e, 'p) os_backend \<Rightarrow> bool" where
  "clones_ok be \<longleftrightarrow>
     (\<forall>tx w e w'. os_clone_tx be tx w \<noteq> Some (Err e, w')) \<and>
     (\<forall>shm w e w'. os_clone_shm be shm w \<noteq> Some (Err e, w'))"

lemma clones_okD:
  assumes "clones_ok be"
  shows "os_clone_tx be tx w \<noteq> Some (Err e, w')" and "os_clone_shm be shm w \<noteq> Some (Err e, w')"
  using assms unfolding clones_ok_def by blast+

definition grows :: "('tx, 'rx, 'op, 'shm) tls \<Rightarrow> ('tx, 'rx, 'op, 'shm) tls \<Rightarrow> bool" where
  "grows t t' \<longleftrightarrow>
     (\<exists>cs ss. t' = t\<lparr>channels_for_serialization := channels_for_serialization t @ cs,
        regions_for_serialization := regions_for_serialization t @ ss\<rparr>)"

lemma grows_refl [simp]: "grows t t"
  unfolding grows_def by (rule exI [of _ "[]"], rule exI [of _ "[]"]) simp

lemma grows_trans: "grows t u \<Longrightarrow> grows u v \<Longrightarrow> grows t v"
  unfolding grows_def by (elim exE) (simp, blast)

lemma grows_push:
  "grows t (t\<lparr>channels_for_serialization := channels_for_serialization t @ cs\<rparr>)"
  "grows t (t\<lparr>regions_for_serialization := regions_for_serialization t @ ss\<rparr>)"
  unfolding grows_def
  by (rule exI [of _ cs], rule exI [of _ "[]"], simp) (rule exI [of _ "[]"], rule exI [of _ ss], simp)

lemma serialize_parts_grow:
  "serialize_os_ipc_sender be bc tx (w, t) = Some (Ok bs, (w', t')) \<Longrightarrow> grows t t'"
  "serialize_os_ipc_receiver be bc rx (w, t) = Some (Ok bs, (w', t')) \<Longrightarrow> grows t t'"
  "serialize_region be bc shm (w, t) = Some (Ok bs, (w', t')) \<Longrightarrow> grows t t'"
  by (auto simp: serialize_os_ipc_sender_def serialize_os_ipc_receiver_def serialize_region_def lift_os_eq_Some
    io_bind_eq_Some on_self_eq_Some intro: grows_push)

lemma serialize_parts_no_Err:
  assumes "clones_ok be"
  shows "serialize_os_ipc_sender be bc tx wt \<noteq> Some (Err e, wt')"
    "serialize_os_ipc_receiver be bc rx wt \<noteq> Some (Err e, wt')"
    "serialize_region be bc shm wt \<noteq> Some (Err e, wt')"
  using clones_okD [OF assms]
  by (auto simp: serialize_os_ipc_sender_def serialize_os_ipc_receiver_def serialize_region_def lift_os_eq_Some
    io_bind_eq_Some on_self_eq_Some)

lemma replace_vectors_run [simp]:
  "replace_serialization_vectors cs ss (w, t) =
     Some (Ok (channels_for_serialization t, regions_for_serialization t),
       (w, t\<lparr>channels_for_serialization := cs, regions_for_serialization := ss\<rparr>))"
  by (simp add: replace_serialization_vectors_def on_self_def)

lemma serialize_first_grows:
  assumes "\<And>w t bs w' t'. m (w, t) = Some (Ok bs, (w', t')) \<Longrightarrow> grows t t'"
    and "\<And>wt e wt'. m wt \<noteq> Some (Err e, wt')"
    and "io_bind m (\<lambda>bs. io_bind n (\<lambda>rest. io_return (bs @ rest))) (w, t) = Some (r, (w', t'))" and "r \<noteq> Panic"
    and IH: "\<And>w1 t1 q. n (w1, t1) = Some (q, (w', t')) \<Longrightarrow> q \<noteq> Panic \<Longrightarrow> (\<exists>x. q = Ok x) \<and> grows t1 t'"
  shows "(\<exists>x. r = Ok x) \<and> grows t t'"
proof -
  obtain bs w1 t1 where m: "m (w, t) = Some (Ok bs, (w1, t1))"
    and n: "io_bind n (\<lambda>rest. io_return (bs @ rest)) (w1, t1) = Some (r, (w', t'))"
    using assms(2-4) by (auto simp: io_bind_eq_Some)
  from n obtain q where q: "n (w1, t1) = Some (q, (w', t'))" "q \<noteq> Panic" "(\<exists>x. q = Ok x) \<longrightarrow> (\<exists>x. r = Ok x)"
    using assms(4) by (auto simp: io_bind_eq_Some)
  from IH [OF q(1,2)] q(3) assms(1) [OF m] show ?thesis by (blast intro: grows_trans)
qed

lemma serialize_keeps:
  shows "clones_ok be \<Longrightarrow> no_fail steps \<Longrightarrow> serialize_steps be bc steps (w, t) = Some (r, (w', t')) \<Longrightarrow>
      r \<noteq> Panic \<Longrightarrow> (\<exists>bs. r = Ok bs) \<and> grows t t'"
    and "clones_ok be \<Longrightarrow> no_fail steps \<Longrightarrow> ipc_send be bc tx steps (w, t) = Some (q, (w', t')) \<Longrightarrow>
      q \<noteq> Panic \<Longrightarrow> t' = t"
proof (induction be bc steps and be bc tx steps arbitrary: w t r w' t' and w t q w' t'
    rule: serialize_steps_ipc_send.induct)
  case (1 be bc)
  then show ?case by auto
next
  case (2 be bc bs steps)
  from "2.prems"(3,4) obtain q where "serialize_steps be bc steps (w, t) = Some (q, (w', t'))" "q \<noteq> Panic"
      "(\<exists>x. q = Ok x) \<longrightarrow> (\<exists>x. r = Ok x)"
    by (auto simp: io_bind_eq_Some)
  with "2.IH" [of w t q w' t'] "2.prems"(1,2) show ?case by simp
next
  case (3 be bc tx steps)
  show ?case
    by (rule serialize_first_grows [OF serialize_parts_grow(1) serialize_parts_no_Err(1) [OF "3.prems"(1)]
        "3.prems"(3) [unfolded serialize_steps.simps] "3.prems"(4)])
      (use "3.IH" "3.prems"(1,2) in auto)
next
  case (4 be bc rx steps)
  show ?case
    by (rule serialize_first_grows [OF serialize_parts_grow(2) serialize_parts_no_Err(2) [OF "4.prems"(1)]
        "4.prems"(3) [unfolded serialize_steps.simps] "4.prems"(4)])
      (use "4.IH" "4.prems"(1,2) in auto)
next
  case (5 be bc shm steps)
  show ?case
    by (rule serialize_first_grows [OF serialize_parts_grow(3) serialize_parts_no_Err(3) [OF "5.prems"(1)]
        "5.prems"(3) [unfolded serialize_steps.simps] "5.prems"(4)])
      (use "5.IH" "5.prems"(1,2) in auto)
next
  case (6 be bc msg steps)
  then show ?case by simp
next
  case (7 be bc tx inner steps)
  from "7.prems"(3,4) obtain q w1 t1 where s: "ipc_send be bc tx inner (w, t) = Some (q, (w1, t1))" "q \<noteq> Panic"
      "serialize_steps be bc steps (w1, t1) = Some (r, (w', t'))"
    by (auto simp: io_bind_eq_Some io_match_eq_Some)
  have "t1 = t" using "7.IH"(1) [OF "7.prems"(1) _ s(1,2)] "7.prems"(2) by simp
  then show ?case using "7.IH"(2) [OF "7.prems"(1) _ s(3) "7.prems"(4)] "7.prems"(2) by simp
next
  case (8 be bc tx steps)
  let ?t0 = "t\<lparr>channels_for_serialization := [], regions_for_serialization := []\<rparr>"
  let ?d = "\<lambda>panicking. drop_vectors be panicking (channels_for_serialization t) (regions_for_serialization t)"
  from "8.prems"(3) have run: "io_bind (io_on_failure (serialize_steps be bc steps) ?d) (\<lambda>bytes.
      io_bind (replace_serialization_vectors (channels_for_serialization t) (regions_for_serialization t))
        (\<lambda>(channels, shms). lift_os be (os_send_message be tx bytes channels shms))) (w, ?t0) = Some (q, (w', t'))"
    by simp
  have "serialize_steps be bc steps (w, ?t0) \<noteq> Some (Err e, (w1, t1))" for e w1 t1
    using "8.IH" [of w ?t0 "Err e" w1 t1] "8.prems"(1,2) by auto
  then obtain bytes w1 t1 where s: "serialize_steps be bc steps (w, ?t0) = Some (Ok bytes, (w1, t1))"
    using run "8.prems"(4) by (auto simp: io_bind_eq_Some io_on_failure_eq_Some split: if_splits) 
  then have "grows ?t0 t1" using "8.IH" [OF "8.prems"(1,2) s] by simp
  with s run "8.prems"(4) show ?case
    by (auto simp: grows_def io_bind_eq_Some io_on_failure_eq_Some dest: lift_os_keeps)
qed

section \<open>What a value becomes\<close>

text \<open>For a value that only writes bytes, channels and regions: the lists it fills and the bytes, when \<open>c\<close>
  channels and \<open>g\<close> regions are there already.\<close>

fun plain :: "('tx, 'rx, 'shm) ser_step list \<Rightarrow> bool" where
  "plain [] \<longleftrightarrow> True"
| "plain (SerFail msg # steps) \<longleftrightarrow> False"
| "plain (SerSend tx inner # steps) \<longleftrightarrow> False"
| "plain (_ # steps) \<longleftrightarrow> plain steps"

fun channels_of ::
  "('w, 'tx, 'rx, 'op, 'shm, 'e, 'p) os_backend \<Rightarrow> ('tx, 'rx, 'shm) ser_step list \<Rightarrow> ('tx, 'rx) os_ipc_channel list" where
  "channels_of be [] = []"
| "channels_of be (SerSender tx # steps) = Sender tx # channels_of be steps"
| "channels_of be (SerReceiver rx # steps) = Receiver (os_consume be rx) # channels_of be steps"
| "channels_of be (_ # steps) = channels_of be steps"

fun regions_of :: "('tx, 'rx, 'shm) ser_step list \<Rightarrow> 'shm list" where
  "regions_of [] = []"
| "regions_of (SerRegion shm # steps) = shm # regions_of steps"
| "regions_of (_ # steps) = regions_of steps"

fun bytes_of :: "bincode \<Rightarrow> nat \<Rightarrow> nat \<Rightarrow> ('tx, 'rx, 'shm) ser_step list \<Rightarrow> u8 list" where
  "bytes_of bc c g [] = []"
| "bytes_of bc c g (SerBytes bs # steps) = bs @ bytes_of bc c g steps"
| "bytes_of bc c g (SerSender tx # steps) = put_usize bc (usize_of c) @ bytes_of bc (Suc c) g steps"
| "bytes_of bc c g (SerReceiver rx # steps) = put_usize bc (usize_of c) @ bytes_of bc (Suc c) g steps"
| "bytes_of bc c g (SerRegion shm # steps) = put_usize bc (usize_of g) @ bytes_of bc c (Suc g) steps"
| "bytes_of bc c g (_ # steps) = bytes_of bc c g steps"

text \<open>
  A back end whose clones are the original and change nothing that \<open>view\<close> shows, as for the in-process one,
  where senders and regions are shared handles.
\<close>

definition clones_same :: "('w, 'tx, 'rx, 'op, 'shm, 'e, 'p) os_backend \<Rightarrow> ('w \<Rightarrow> 'v) \<Rightarrow> bool" where
  "clones_same be view \<longleftrightarrow>
     (\<forall>tx w. \<exists>w'. os_clone_tx be tx w = Some (Ok tx, w') \<and> view w' = view w) \<and>
     (\<forall>shm w. \<exists>w'. os_clone_shm be shm w = Some (Ok shm, w') \<and> view w' = view w)"

lemma serialize_plain:
  assumes "clones_same be view" and "plain steps"
  shows "\<exists>w'. serialize_steps be bc steps (w, t) =
      Some (Ok (bytes_of bc (length (channels_for_serialization t)) (length (regions_for_serialization t)) steps),
        (w', t\<lparr>channels_for_serialization := channels_for_serialization t @ channels_of be steps,
               regions_for_serialization := regions_for_serialization t @ regions_of steps\<rparr>)) \<and> view w' = view w"
  using assms(2)
proof (induction steps arbitrary: w t)
  case Nil
  then show ?case by simp
next
  case (Cons a steps)
  note IH = Cons.IH
  have clone: "\<exists>w'. os_clone_tx be tx w = Some (Ok tx, w') \<and> view w' = view w"
    "\<exists>w'. os_clone_shm be shm w = Some (Ok shm, w') \<and> view w' = view w" for tx shm w
    using assms(1) unfolding clones_same_def by blast+
  show ?case
  proof (cases a)
    case (SerBytes bs)
    then show ?thesis using IH [of w t] Cons.prems by auto
  next
    case (SerSender tx)
    obtain w1 where w1: "os_clone_tx be tx w = Some (Ok tx, w1)" "view w1 = view w" using clone by blast
    let ?t1 = "t\<lparr>channels_for_serialization := channels_for_serialization t @ [Sender tx]\<rparr>"
    have "serialize_os_ipc_sender be bc tx (w, t) = Some (Ok (put_usize bc (len_of (channels_for_serialization t))), (w1, ?t1))"
      by (simp add: serialize_os_ipc_sender_def lift_os_run [of _ _ _ w1] w1 on_self_def)
    with IH [of w1 ?t1] Cons.prems w1 SerSender show ?thesis by auto
  next
    case (SerReceiver rx)
    let ?t1 = "t\<lparr>channels_for_serialization := channels_for_serialization t @ [Receiver (os_consume be rx)]\<rparr>"
    have "serialize_os_ipc_receiver be bc rx (w, t) = Some (Ok (put_usize bc (len_of (channels_for_serialization t))), (w, ?t1))"
      by (simp add: serialize_os_ipc_receiver_def on_self_def)
    with IH [of w ?t1] Cons.prems SerReceiver show ?thesis by auto
  next
    case (SerRegion shm)
    obtain w1 where w1: "os_clone_shm be shm w = Some (Ok shm, w1)" "view w1 = view w" using clone by blast
    let ?t1 = "t\<lparr>regions_for_serialization := regions_for_serialization t @ [shm]\<rparr>"
    have "serialize_region be bc shm (w, t) = Some (Ok (put_usize bc (len_of (regions_for_serialization t))), (w1, ?t1))"
      by (simp add: serialize_region_def lift_os_run [of _ _ _ w1] w1 on_self_def)
    with IH [of w1 ?t1] Cons.prems w1 SerRegion show ?thesis by auto
  qed (use Cons.prems in auto)
qed

text \<open>So sending a value is sending its bytes, channels and regions, with the vectors as before.\<close>

lemma ipc_send_plain:
  assumes "clones_same be view" and "plain steps"
  obtains w' where "ipc_send be bc tx steps (w, t) =
      lift_os be (os_send_message be tx (bytes_of bc 0 0 steps) (channels_of be steps) (regions_of steps)) (w', t)"
    "view w' = view w"
proof -
  let ?t0 = "t\<lparr>channels_for_serialization := [], regions_for_serialization := []\<rparr>"
  obtain w' where w': "serialize_steps be bc steps (w, ?t0) =
      Some (Ok (bytes_of bc 0 0 steps), (w', t\<lparr>channels_for_serialization := channels_of be steps,
         regions_for_serialization := regions_of steps\<rparr>))" "view w' = view w"
    using serialize_plain [OF assms, of bc w ?t0] by auto
  then have "ipc_send be bc tx steps (w, t) =
      lift_os be (os_send_message be tx (bytes_of bc 0 0 steps) (channels_of be steps) (regions_of steps)) (w', t)"
    by simp
  with w'(2) show thesis using that by blast
qed

section \<open>What a message becomes\<close>

text \<open>
  What the \<open>Deserialize\<close> of a type makes of the steps of a \<open>Serialize\<close>: it asks for the pieces in the order
  in which they were written.
\<close>

primrec reads :: "('tx, 'rx, 'shm, 'a) deser \<Rightarrow> ('tx, 'rx, 'shm) ser_step list \<Rightarrow> 'a option" where
  "reads (DeReturn x) = (\<lambda>steps. if steps = [] then Some x else None)"
| "reads (DeFail msg) = (\<lambda>steps. None)"
| "reads (DeBytes n k) = (\<lambda>steps.
     case steps of SerBytes bs # rest \<Rightarrow> if length bs = n then reads (k bs) rest else None | _ \<Rightarrow> None)"
| "reads (DeSender k) = (\<lambda>steps. case steps of SerSender tx # rest \<Rightarrow> reads (k tx) rest | _ \<Rightarrow> None)"
| "reads (DeReceiver k) = (\<lambda>steps. case steps of SerReceiver rx # rest \<Rightarrow> reads (k rx) rest | _ \<Rightarrow> None)"
| "reads (DeRegion k) = (\<lambda>steps. case steps of SerRegion shm # rest \<Rightarrow> reads (k shm) rest | _ \<Rightarrow> None)"

text \<open>
  The channels and regions that arrived are those of the steps: turned into senders and receivers they
  give the ones in the steps. \<open>used_up\<close> is what is left of the channels then.
\<close>

fun arrived_as ::
  "('w, 'tx, 'rx, 'op, 'shm, 'e, 'p) os_backend \<Rightarrow> 'op list \<Rightarrow> 'shm list \<Rightarrow> ('tx, 'rx, 'shm) ser_step list \<Rightarrow> bool" where
  "arrived_as be ops shms [] \<longleftrightarrow> ops = [] \<and> shms = []"
| "arrived_as be ops shms (SerBytes bs # steps) \<longleftrightarrow> arrived_as be ops shms steps"
| "arrived_as be (op # ops) shms (SerSender tx # steps) \<longleftrightarrow>
     fst (os_to_sender be op) = Ok tx \<and> arrived_as be ops shms steps"
| "arrived_as be (op # ops) shms (SerReceiver rx # steps) \<longleftrightarrow>
     fst (os_to_receiver be op) = Ok rx \<and> arrived_as be ops shms steps"
| "arrived_as be ops (shm # shms) (SerRegion shm' # steps) \<longleftrightarrow> shm = shm' \<and> arrived_as be ops shms steps"
| "arrived_as be ops shms steps \<longleftrightarrow> False"

fun used_up :: "('w, 'tx, 'rx, 'op, 'shm, 'e, 'p) os_backend \<Rightarrow> 'op list \<Rightarrow> ('tx, 'rx, 'shm) ser_step list \<Rightarrow> 'op list" where
  "used_up be (op # ops) (SerSender tx # steps) = snd (os_to_sender be op) # used_up be ops steps"
| "used_up be (op # ops) (SerReceiver rx # steps) = snd (os_to_receiver be op) # used_up be ops steps"
| "used_up be ops (s # steps) = used_up be ops steps"
| "used_up be ops [] = []"

lemma used_up_skip [simp]:
  "used_up be ops (SerBytes bs # steps) = used_up be ops steps"
  "used_up be ops (SerRegion shm # steps) = used_up be ops steps"
  by (cases ops; simp)+

lemma take_channel_at:
  assumes "channels_for_deserialization t = pre @ op # ops" and "length pre < 2 ^ 63"
    and "fst (to op) = Ok x"
  shows "take_channel to be (usize_of (length pre)) (w, t) =
    Some (Ok x, (w, t\<lparr>channels_for_deserialization := pre @ snd (to op) # ops\<rparr>))"
  using assms by (cases "to op") (simp add: take_channel_def unat_usize_of [OF assms(2)])

lemma take_region_at:
  assumes "regions_for_deserialization t = pre @ Some shm # shms" and "length pre < 2 ^ 63"
  shows "take_region (usize_of (length pre)) (w, t) =
    Some (Ok shm, (w, t\<lparr>regions_for_deserialization := pre @ None # shms\<rparr>))"
  using assms by (simp add: take_region_def unat_usize_of [OF assms(2)])

lemma deserialize_usize_put:
  "bincode_ok bc \<Longrightarrow> deserialize_usize bc (put_usize bc n @ rest) = io_return (n, rest)"
  by (simp add: deserialize_usize_def bincode_ok_def)

lemma deserialize_arrived:
  assumes "bincode_ok bc" and "reads des steps = Some v"
    and "arrived_as be ops shms steps"
    and "channels_for_deserialization t = pre @ ops" and "regions_for_deserialization t = gone @ map Some shms"
    and "length pre + length ops < 2 ^ 63" and "length gone + length shms < 2 ^ 63"
  shows "deserialize be bc des (bytes_of bc (length pre) (length gone) steps @ junk) (w, t) =
    Some (Ok v, (w, t\<lparr>channels_for_deserialization := pre @ used_up be ops steps,
      regions_for_deserialization := gone @ replicate (length shms) None\<rparr>))"
  using assms(2-7)
proof (induction des arbitrary: steps ops shms pre gone t)
  case (DeReturn x)
  then show ?case by (auto split: if_splits)
next
  case (DeFail msg)
  then show ?case by simp
next
  case (DeBytes n k)
  then obtain bs rest where steps: "steps = SerBytes bs # rest" "length bs = n" "reads (k bs) rest = Some v"
    by (auto split: list.splits ser_step.splits if_splits)
  have "deserialize be bc (k bs) (bytes_of bc (length pre) (length gone) rest @ junk) (w, t) =
      Some (Ok v, (w, t\<lparr>channels_for_deserialization := pre @ used_up be ops rest,
        regions_for_deserialization := gone @ replicate (length shms) None\<rparr>))"
    by (rule DeBytes.IH [OF rangeI]) (use DeBytes.prems steps in auto)
  with steps(1,2) show ?case by simp
next
  case (DeSender k)
  then obtain tx rest where steps: "steps = SerSender tx # rest" "reads (k tx) rest = Some v"
    by (auto split: list.splits ser_step.splits)
  then obtain op ops' where ops: "ops = op # ops'" "fst (os_to_sender be op) = Ok tx" "arrived_as be ops' shms rest"
    using DeSender.prems(2) by (cases ops) auto
  let ?t1 = "t\<lparr>channels_for_deserialization := (pre @ [snd (os_to_sender be op)]) @ ops'\<rparr>"
  have "take_channel (os_to_sender be) be (usize_of (length pre)) (w, t) = Some (Ok tx, (w, ?t1))"
    using take_channel_at [of t pre op ops'] ops DeSender.prems by simp
  moreover have "deserialize be bc (k tx) (bytes_of bc (length (pre @ [snd (os_to_sender be op)])) (length gone) rest @ junk) (w, ?t1) =
      Some (Ok v, (w, ?t1\<lparr>channels_for_deserialization := (pre @ [snd (os_to_sender be op)]) @ used_up be ops' rest,
        regions_for_deserialization := gone @ replicate (length shms) None\<rparr>))"
    by (rule DeSender.IH [OF rangeI]) (use DeSender.prems steps ops in auto)
  ultimately show ?case
    by (simp add: steps(1) ops(1) deserialize_usize_put [OF assms(1)])
next
  case (DeReceiver k)
  then obtain rx rest where steps: "steps = SerReceiver rx # rest" "reads (k rx) rest = Some v"
    by (auto split: list.splits ser_step.splits)
  then obtain op ops' where ops: "ops = op # ops'" "fst (os_to_receiver be op) = Ok rx" "arrived_as be ops' shms rest"
    using DeReceiver.prems(2) by (cases ops) auto
  let ?t1 = "t\<lparr>channels_for_deserialization := (pre @ [snd (os_to_receiver be op)]) @ ops'\<rparr>"
  have "take_channel (os_to_receiver be) be (usize_of (length pre)) (w, t) = Some (Ok rx, (w, ?t1))"
    using take_channel_at [of t pre op ops'] ops DeReceiver.prems by simp
  moreover have "deserialize be bc (k rx) (bytes_of bc (length (pre @ [snd (os_to_receiver be op)])) (length gone) rest @ junk) (w, ?t1) =
      Some (Ok v, (w, ?t1\<lparr>channels_for_deserialization := (pre @ [snd (os_to_receiver be op)]) @ used_up be ops' rest,
        regions_for_deserialization := gone @ replicate (length shms) None\<rparr>))"
    by (rule DeReceiver.IH [OF rangeI]) (use DeReceiver.prems steps ops in auto)
  ultimately show ?case
    by (simp add: steps(1) ops(1) deserialize_usize_put [OF assms(1)])
next
  case (DeRegion k)
  then obtain shm rest where steps: "steps = SerRegion shm # rest" "reads (k shm) rest = Some v"
    by (auto split: list.splits ser_step.splits)
  then obtain shms' where shms: "shms = shm # shms'" "arrived_as be ops shms' rest"
    using DeRegion.prems(2) by (cases shms) auto
  let ?t1 = "t\<lparr>regions_for_deserialization := (gone @ [None]) @ map Some shms'\<rparr>"
  have r: "regions_for_deserialization t = gone @ Some shm # map Some shms'" "length gone < 2 ^ 63"
    using shms DeRegion.prems by simp_all
  have "deserialize be bc (k shm) (bytes_of bc (length pre) (length (gone @ [None])) rest @ junk) (w, ?t1) =
      Some (Ok v, (w, ?t1\<lparr>channels_for_deserialization := pre @ used_up be ops rest,
        regions_for_deserialization := (gone @ [None]) @ replicate (length shms') None\<rparr>))"
    by (rule DeRegion.IH [OF rangeI]) (use DeRegion.prems steps shms in auto)
  then show ?case
    by (simp add: steps(1) shms(1) deserialize_usize_put [OF assms(1)] take_region_at [OF r])
qed

text \<open>Dropping a message from which everything was taken does nothing.\<close>

definition drops_used :: "('w, 'tx, 'rx, 'op, 'shm, 'e, 'p) os_backend \<Rightarrow> bool" where
  "drops_used be \<longleftrightarrow>
     (\<forall>op x w. fst (os_to_sender be op) = Ok x \<longrightarrow> os_drop_op be False (snd (os_to_sender be op)) w = Some (Ok (), w)) \<and>
     (\<forall>op x w. fst (os_to_receiver be op) = Ok x \<longrightarrow> os_drop_op be False (snd (os_to_receiver be op)) w = Some (Ok (), w))"

lemma drop_used_up:
  assumes "drops_used be" and "arrived_as be ops shms steps"
  shows "drop_all (os_drop_op be) False (used_up be ops steps) w = Some (Ok (), w)"
  using assms
proof (induction be ops shms steps rule: arrived_as.induct)
  case (3 be op ops shms tx steps)
  then have "os_drop_op be False (snd (os_to_sender be op)) w = Some (Ok (), w)"
    by (auto simp: drops_used_def)
  with 3 show ?case by (simp add: io_finally_def)
next
  case (4 be op ops shms rx steps)
  then have "os_drop_op be False (snd (os_to_receiver be op)) w = Some (Ok (), w)"
    by (auto simp: drops_used_def)
  with 4 show ?case by (simp add: io_finally_def)
qed simp_all

lemma drop_all_None: "drop_all (drop_region_option be) p (replicate n None) w = Some (Ok (), w)"
  by (induction n) (auto simp: io_finally_def)

lemma lift_os_drop_None:
  "lift_os be (drop_all (drop_region_option be) p (replicate n None)) (w, t) = Some (Ok (), (w, t))"
  by (simp add: lift_os_def on_world_def io_map_err_def drop_all_None)

lemma swap_vectors_run [simp]:
  "swap_deserialization_vectors cs ss (w, t) =
     Some (Ok (channels_for_deserialization t, regions_for_deserialization t),
       (w, t\<lparr>channels_for_deserialization := cs, regions_for_deserialization := ss\<rparr>))"
  by (simp add: swap_deserialization_vectors_def on_self_def)

lemma drop_message_keeps: "drop_message be p cs ss (w, t) = Some (r, (w', t')) \<Longrightarrow> t' = t"
  by (auto simp: drop_message_def io_finally_eq_Some dest!: lift_os_keeps)

lemma message_to_arrived:
  assumes "bincode_ok bc" and "drops_used be" and "reads des steps = Some v" and "arrived_as be ops shms steps"
    and "length ops < 2 ^ 63" and "length shms < 2 ^ 63"
  shows "message_to be bc des (opaque_message_new (bytes_of bc 0 0 steps @ junk, ops, shms)) (w, t) =
    Some (Ok v, (w, t))"
proof -
  let ?t1 = "t\<lparr>channels_for_deserialization := ops, regions_for_deserialization := map Some shms\<rparr>"
  have des: "deserialize be bc des (bytes_of bc 0 0 steps @ junk) (w, ?t1) =
      Some (Ok v, (w, ?t1\<lparr>channels_for_deserialization := used_up be ops steps,
        regions_for_deserialization := replicate (length shms) None\<rparr>))"
    using deserialize_arrived [OF assms(1,3,4), of ?t1 "[]" "[]" junk w] assms(5,6) by simp
  have drop: "drop_message be False (used_up be ops steps) (replicate (length shms) None) (w, t) = Some (Ok (), (w, t))"
    using lift_os_run [of "drop_all (os_drop_op be) False (used_up be ops steps)" w "Ok ()" w be t]
      drop_used_up [OF assms(2,4)]
    by (simp add: drop_message_def io_finally_def lift_os_drop_None)
  show ?thesis
    using des drop by (simp add: message_to_def opaque_message_new_def io_finally_def)
qed

section \<open>The back ends\<close>

lemma ip_backend_simps [simp]:
  "os_clone_tx (ip_backend cb) = ip_sender_clone cb" "os_clone_shm (ip_backend cb) = io_return \<circ> ip_shm_clone"
  "os_consume (ip_backend cb) = fst \<circ> ip_consume" "os_to_sender (ip_backend cb) = ip_to_sender"
  "os_to_receiver (ip_backend cb) = ip_to_receiver" "os_drop_op (ip_backend cb) = ip_drop_opaque cb"
  "os_send_message (ip_backend cb) = ip_send cb" "os_recv_message (ip_backend cb) = ip_recv cb"
  "os_channel (ip_backend cb) = Inprocess.ip_channel cb" "os_drop_channel (ip_backend cb) = ip_drop_channel cb"
  by (simp_all add: ip_backend_def)

lemma ip_clones_same:
  assumes "cb_laws cb v"
  shows "clones_same (ip_backend cb) (\<lambda>w. (v_queue v w, v_rx v w))"
  unfolding clones_same_def
  using cb_lawsD(11) [OF assms]
  by (auto simp: ip_sender_clone_def cb_do_def ip_shm_clone_def io_bind_def io_match_def)

lemma ip_clones_ok: "clones_ok (ip_backend cb)"
  by (auto simp: clones_ok_def ip_sender_clone_def io_inv)

lemma ip_drops_used: "drops_used (ip_backend cb)"
  by (auto simp: drops_used_def ip_to_sender_def ip_to_receiver_def ip_drop_opaque_def
    split: option.splits os_ipc_channel.splits)

lemma ip_arrived:
  "plain steps \<Longrightarrow> arrived_as (ip_backend cb) (map ip_opaque_new (channels_of (ip_backend cb) steps)) (regions_of steps) steps"
  by (induction steps rule: plain.induct)
    (auto simp: ip_opaque_new_def ip_to_sender_def ip_to_receiver_def ip_consume_def)

lemma ip_drop_channel_runs: "\<exists>w'. ip_drop_channel cb p c w = Some (Ok (), w')"
  by (cases c) (auto simp: ip_drop_channel_def ip_drop_sender_def ip_drop_receiver_def cb_do_def split: option.splits)

text \<open>On Unix a failing clone is a panic as well.\<close>

lemma unix_clones_ok: "clones_ok (unix_backend sys ssb shared)"
  by (auto simp: clones_ok_def unix_backend_def shm_clone_def mapped_store_def map_file_def map_region_def
    io_inv Let_def split: if_splits option.splits)

text \<open>The fixed-width encoding that \<open>bincode\<close> uses by default.\<close>

definition bincode_le :: bincode where
  "bincode_le =
     \<lparr>put_usize = (\<lambda>n. le_bytes 8 (unat n)),
      get_usize = (\<lambda>bs. if length bs < 8 then None else Some (usize_of (le_nat (take 8 bs)), drop 8 bs))\<rparr>"

lemma bincode_le_ok: "bincode_ok bincode_le"
proof -
  have "unat (n :: usize) < 256 ^ 8" for n
    using unsigned_less [of n, where ?'a = nat] by simp
  then show ?thesis by (simp add: bincode_ok_def bincode_le_def)
qed

section \<open>Properties\<close>

text \<open>C6: A value survives the trip. Sending it hands its bytes, the channels in it and the regions in it to the
  back end and leaves the thread's vectors as they were; from a message with these bytes, whose
  channels and regions are those of the value, \<open>to\<close> makes the value again, also when more bytes
  follow, and leaves the thread's vectors as they were.\<close>

theorem ipc_value_roundtrip:
  fixes be :: "('w, 'tx, 'rx, 'op, 'shm, 'e, 'p) os_backend" and des :: "('tx, 'rx, 'shm, 'a) deser"
  assumes "bincode_ok bc" and "clones_same be view" and "drops_used be" and "plain steps"
    and "reads des steps = Some v" and "arrived_as be ops shms steps"
    and "length ops < 2 ^ 63" and "length shms < 2 ^ 63"
  shows "\<exists>w' :: 'w. view w' = view w \<and>
    ipc_send be bc tx steps (w, t) =
      lift_os be (os_send_message be tx (bytes_of bc 0 0 steps) (channels_of be steps) (regions_of steps)) (w', t) \<and>
    message_to be bc des (opaque_message_new (bytes_of bc 0 0 steps @ junk, ops, shms)) (w2, t2) = Some (Ok v, (w2, t2))"
  using ipc_send_plain [OF assms(2,4), of bc tx w t] message_to_arrived [OF assms(1,3,5-8), of junk w2 t2]
  by metis

text \<open>C19: The vectors of a thread belong to the value that is being serialized. Sending a value puts them back
  as they were, whatever the back end returns and however many other values are sent while this one
  is serialized, as long as no serialization among them fails; and making a value from a message puts
  the other two back unless it panics.\<close>

theorem ipc_vectors_restored:
  assumes "clones_ok be" and "no_fail steps"
  shows "(\<forall>r w' t'. ipc_send be bc tx steps (w, t) = Some (r, (w', t')) \<and> r \<noteq> Panic \<longrightarrow> t' = t) \<and>
    (\<forall>des m r w' t'. message_to be bc des m (w, t) = Some (r, (w', t')) \<and> r \<noteq> Panic \<longrightarrow>
       channels_for_deserialization t' = channels_for_deserialization t \<and>
       regions_for_deserialization t' = regions_for_deserialization t)"
proof (intro conjI allI impI)
  fix r w' t' assume "ipc_send be bc tx steps (w, t) = Some (r, (w', t')) \<and> r \<noteq> Panic"
  then show "t' = t" using serialize_keeps(2) [OF assms] by blast
next
  fix des m r w' t'
  assume run: "message_to be bc des m (w, t) = Some (r, (w', t')) \<and> r \<noteq> Panic"
  then obtain result w1 t1 where d: "deserialize be bc des (msg_data m)
      (w, t\<lparr>channels_for_deserialization := msg_channels m, regions_for_deserialization := msg_regions m\<rparr>) =
      Some (result, (w1, t1))"
    by (auto simp: message_to_def bind_eq_Some_conv)
  have "result \<noteq> Panic"
    using run d by (auto simp: message_to_def io_finally_eq_Some split: if_splits)
  then have "t' = t1\<lparr>channels_for_deserialization := channels_for_deserialization t,
      regions_for_deserialization := regions_for_deserialization t\<rparr>"
    using run d by (cases result) (auto simp: message_to_def io_finally_eq_Some dest!: drop_message_keeps)
  then show "channels_for_deserialization t' = channels_for_deserialization t"
    "regions_for_deserialization t' = regions_for_deserialization t"
    by simp_all
qed

text \<open>C33: A serialization that fails while another value is being serialized damages that value. The failed
  \<open>send\<close> returns before it has put the outer value's channels back, and drops them; the outer message
  then goes out, without an error, with the inner value's channel \<open>b\<close> at the index where its own
  channel \<open>a\<close> should be.\<close>

theorem failed_inner_send_misdirects:
  assumes "clones_same be view" and "\<And>p c w. \<exists>w'. os_drop_channel be p c w = Some (Ok (), w')"
  shows "\<exists>w'. ipc_send be bc tx [SerSender a, SerSend tx' [SerSender b, SerFail msg]] (w, t) =
    lift_os be (os_send_message be tx (put_usize bc 0) [Sender b] []) (w', t)"
proof -
  have clone: "\<exists>w'. os_clone_tx be x w = Some (Ok x, w')" for x w
    using assms(1) unfolding clones_same_def by blast
  have ser: "\<exists>w'. serialize_os_ipc_sender be bc x (w, u) =
      Some (Ok (put_usize bc (len_of (channels_for_serialization u))),
        (w', u\<lparr>channels_for_serialization := channels_for_serialization u @ [Sender x]\<rparr>))" for x w u
  proof -
    obtain w' where "os_clone_tx be x w = Some (Ok x, w')" using clone by blast
    then show ?thesis by (simp add: serialize_os_ipc_sender_def lift_os_run [of _ _ _ w'] on_self_def)
  qed
  let ?t0 = "t\<lparr>channels_for_serialization := [], regions_for_serialization := []\<rparr>"
  let ?ta = "t\<lparr>channels_for_serialization := [Sender a], regions_for_serialization := []\<rparr>"
  let ?tb = "t\<lparr>channels_for_serialization := [Sender b], regions_for_serialization := []\<rparr>"
  obtain w1 where a: "serialize_os_ipc_sender be bc a (w, ?t0) = Some (Ok (put_usize bc 0), (w1, ?ta))"
    using ser [of a w ?t0] by auto
  obtain w2 where b: "serialize_os_ipc_sender be bc b (w1, ?t0) = Some (Ok (put_usize bc 0), (w2, ?tb))"
    using ser [of b w1 ?t0] by auto
  obtain w3 where d: "os_drop_channel be False (Sender a) w2 = Some (Ok (), w3)" using assms(2) by blast
  have "drop_vectors be False [Sender a] [] (w2, ?tb) = Some (Ok (), (w3, ?tb))"
    using d by (simp add: drop_vectors_def lift_os_def on_world_def io_map_err_def io_finally_def)
  then have inner: "ipc_send be bc tx' [SerSender b, SerFail msg] (w1, ?ta) = Some (Err (BincodeMsg msg), (w3, ?tb))"
    using b by (simp add: io_on_failure_def io_finally_def)
  have "serialize_steps be bc [SerSender a, SerSend tx' [SerSender b, SerFail msg]] (w, ?t0) =
      Some (Ok (put_usize bc 0), (w3, ?tb))"
    using a inner by (simp del: ipc_send.simps)
  then show ?thesis by (intro exI [of _ w3]) (simp del: serialize_steps.simps)
qed

text \<open>A message whose bytes hold an index that has no channel, as corrupt data may, makes \<open>to\<close> panic instead of
  returning an error; the thread then keeps the channels and regions of that message in its vectors.\<close>

theorem message_to_bad_index:
  assumes "bincode_ok bc" and "msg_data m = put_usize bc n @ rest" and "unat n \<ge> length (msg_channels m)"
    and "message_to be bc (DeSender k) m (w, t) = Some (r, (w', t'))"
  shows "r = Panic \<and> channels_for_deserialization t' = msg_channels m \<and> regions_for_deserialization t' = msg_regions m"
proof -
  let ?t1 = "t\<lparr>channels_for_deserialization := msg_channels m, regions_for_deserialization := msg_regions m\<rparr>"
  have "deserialize be bc (DeSender k) (msg_data m) (w, ?t1) = Some (Panic, (w, ?t1))"
    using assms(3) by (simp add: assms(2) deserialize_usize_put [OF assms(1)] take_channel_def)
  with assms(4) show ?thesis
    by (auto simp: message_to_def io_finally_eq_Some simp del: deserialize.simps dest!: drop_message_keeps)
qed

section \<open>Examples\<close>

definition no_vectors :: "(ip_sender, ip_receiver, ip_opaque, ip_shared_memory) tls" where
  "no_vectors =
     \<lparr>channels_for_serialization = [], regions_for_serialization = [],
      channels_for_deserialization = [], regions_for_deserialization = []\<rparr>"

definition ex_steps :: "(ip_sender, ip_receiver, ip_shared_memory) ser_step list" where
  "ex_steps = [SerBytes [9], SerSender \<lparr>ip_tx = 5\<rparr>]"

definition ex_des :: "(ip_sender, ip_receiver, ip_shared_memory, u8 list \<times> ip_sender) deser" where
  "ex_des = DeBytes 1 (\<lambda>bs. DeSender (\<lambda>tx. DeReturn (bs, tx)))"

theorem ipc_value_roundtrip_witness:
  "message_to (ip_backend s_crossbeam) bincode_le ex_des
     (opaque_message_new (bytes_of bincode_le 0 0 ex_steps @ [], [ip_opaque_new (Sender \<lparr>ip_tx = 5\<rparr>)], []))
     (cb_init, no_vectors) = Some (Ok ([9], \<lparr>ip_tx = 5\<rparr>), (cb_init, no_vectors))"
proof -
  have "plain ex_steps" "reads ex_des ex_steps = Some ([9], \<lparr>ip_tx = 5\<rparr>)"
    "arrived_as (ip_backend s_crossbeam) [ip_opaque_new (Sender \<lparr>ip_tx = 5\<rparr>)] [] ex_steps"
    by (simp_all add: ex_steps_def ex_des_def ip_opaque_new_def ip_to_sender_def)
  from ipc_value_roundtrip [OF bincode_le_ok ip_clones_same [OF s_laws] ip_drops_used this,
    where ?w2.0 = cb_init and ?t2.0 = no_vectors and junk = "[]" and w = cb_init and t = no_vectors]
  show ?thesis by (simp del: ipc_send.simps) blast
qed

definition ex_nested :: "(ip_sender, ip_receiver, ip_shared_memory) ser_step list" where
  "ex_nested = [SerSender \<lparr>ip_tx = 1\<rparr>, SerSend \<lparr>ip_tx = 2\<rparr> [SerSender \<lparr>ip_tx = 3\<rparr>]]"

theorem ipc_vectors_restored_witness:
  "\<exists>r w'. ipc_send (ip_backend s_crossbeam) bincode_le \<lparr>ip_tx = 0\<rparr> ex_nested (cb_init, no_vectors) =
     Some (r, (w', no_vectors)) \<and> r \<noteq> Panic"
proof -
  have "\<exists>r w' t'. ipc_send (ip_backend s_crossbeam) bincode_le \<lparr>ip_tx = 0\<rparr> ex_nested (cb_init, no_vectors) =
      Some (r, (w', t')) \<and> r \<noteq> Panic"
    by (simp add: ex_nested_def no_vectors_def serialize_os_ipc_sender_def lift_os_def on_world_def on_self_def
      io_map_err_def ip_sender_clone_def cb_do_def ip_send_def call_def s_crossbeam_def cb_init_def
      io_on_failure_def io_bind_def io_match_def ip_drop_channel_def ip_drop_sender_def)
  moreover have "no_fail ex_nested" by (simp add: ex_nested_def)
  note ipc_vectors_restored [OF ip_clones_ok this, of s_crossbeam bincode_le "\<lparr>ip_tx = 0\<rparr>" cb_init no_vectors]
  ultimately show ?thesis by blast
qed

theorem failed_inner_send_misdirects_witness:
  "\<exists>w'. ipc_send (ip_backend s_crossbeam) bincode_le \<lparr>ip_tx = 0\<rparr>
      [SerSender \<lparr>ip_tx = 1\<rparr>, SerSend \<lparr>ip_tx = 2\<rparr> [SerSender \<lparr>ip_tx = 3\<rparr>, SerFail ''no'']] (cb_init, no_vectors) =
    lift_os (ip_backend s_crossbeam)
      (ip_send s_crossbeam \<lparr>ip_tx = 0\<rparr> (put_usize bincode_le 0) [Sender \<lparr>ip_tx = 3\<rparr>] []) (w', no_vectors)"
  using failed_inner_send_misdirects [OF ip_clones_same [OF s_laws], where bc = bincode_le and tx = "\<lparr>ip_tx = 0\<rparr>"
      and tx' = "\<lparr>ip_tx = 2\<rparr>" and a = "\<lparr>ip_tx = 1\<rparr>" and b = "\<lparr>ip_tx = 3\<rparr>" and msg = "''no''" and t = no_vectors
      and w = cb_init]
  by (simp del: ipc_send.simps add: ip_drop_channel_runs)

definition bad_message :: "(ip_opaque, ip_shared_memory) opaque_ipc_message" where
  "bad_message = \<lparr>msg_data = put_usize bincode_le 7, msg_channels = [], msg_regions = []\<rparr>"

theorem message_to_bad_index_witness:
  "\<exists>t'. message_to (ip_backend s_crossbeam) bincode_le (DeSender DeReturn) bad_message (cb_init, no_vectors) =
     Some (Panic, (cb_init, t'))"
proof -
  have run: "message_to (ip_backend s_crossbeam) bincode_le (DeSender DeReturn) bad_message (cb_init, no_vectors) =
      Some (Panic, (cb_init, no_vectors))"
    by (simp add: message_to_def bad_message_def deserialize_usize_put [OF bincode_le_ok, where rest = "[]", simplified]
      take_channel_def no_vectors_def io_finally_def drop_message_def lift_os_def on_world_def io_map_err_def)
  with message_to_bad_index [OF bincode_le_ok _ _ run, where n = 7 and rest = "[]"] show ?thesis
    by (simp add: bad_message_def)
qed

end
