(* ===== verification/Ipc_Channel.thy ===== *)
theory Ipc_Channel
  imports Ipc_Message
begin

text \<open>
  The public interface (\<open>src/src/ipc.rs\<close>) on top of a back end: typed and untyped channels, channels for
  plain bytes, receiver sets and one-shot servers. A type \<open>T\<close> of messages is its \<open>Serialize\<close>, a function from
  values to steps, and its \<open>Deserialize\<close>.
\<close>

section \<open>The ends of a channel\<close>

record 'rx ipc_receiver = os_receiver :: 'rx

record 'tx ipc_sender = os_sender :: 'tx

record 'tx opaque_ipc_sender = opaque_os_sender :: 'tx

record 'rx opaque_ipc_receiver = opaque_os_receiver :: 'rx

record 'rx ipc_bytes_receiver = bytes_os_receiver :: 'rx

record 'tx ipc_bytes_sender = bytes_os_sender :: 'tx

text \<open>Errors of the back end as \<open>io::Error\<close>, \<open>IpcError\<close> and \<open>TryRecvError\<close>.\<close>

definition as_io :: "('w, 'tx, 'rx, 'op, 'shm, 'e, 'p) os_backend \<Rightarrow> ('w, 'a, 'e) io \<Rightarrow> ('w, 'a, 'p io_error) io" where
  "as_io be m = io_map_err (e_io be) m"

definition ipc_channel ::
  "('w, 'tx, 'rx, 'op, 'shm, 'e, 'p) os_backend \<Rightarrow> ('w, 'tx ipc_sender \<times> 'rx ipc_receiver, 'p io_error) io" where
  "ipc_channel be =
     io_bind (as_io be (os_channel be)) (\<lambda>(tx, rx). io_return (\<lparr>os_sender = tx\<rparr>, \<lparr>os_receiver = rx\<rparr>))"

definition bytes_channel ::
  "('w, 'tx, 'rx, 'op, 'shm, 'e, 'p) os_backend
     \<Rightarrow> ('w, 'tx ipc_bytes_sender \<times> 'rx ipc_bytes_receiver, 'p io_error) io" where
  "bytes_channel be =
     io_bind (as_io be (os_channel be)) (\<lambda>(tx, rx). io_return (\<lparr>bytes_os_sender = tx\<rparr>, \<lparr>bytes_os_receiver = rx\<rparr>))"

definition sender_to_opaque :: "'tx ipc_sender \<Rightarrow> 'tx opaque_ipc_sender" where
  "sender_to_opaque s = \<lparr>opaque_os_sender = os_sender s\<rparr>"

definition opaque_sender_to :: "'tx opaque_ipc_sender \<Rightarrow> 'tx ipc_sender" where
  "opaque_sender_to s = \<lparr>os_sender = opaque_os_sender s\<rparr>"

definition receiver_to_opaque :: "'rx ipc_receiver \<Rightarrow> 'rx opaque_ipc_receiver" where
  "receiver_to_opaque r = \<lparr>opaque_os_receiver = os_receiver r\<rparr>"

definition opaque_receiver_to :: "'rx opaque_ipc_receiver \<Rightarrow> 'rx ipc_receiver" where
  "opaque_receiver_to r = \<lparr>os_receiver = opaque_os_receiver r\<rparr>"

definition ipc_sender_clone ::
  "('w, 'tx, 'rx, 'op, 'shm, 'e, 'p) os_backend \<Rightarrow> 'tx ipc_sender \<Rightarrow> ('w, 'tx ipc_sender, 'e) io" where
  "ipc_sender_clone be s = io_bind (os_clone_tx be (os_sender s)) (\<lambda>tx. io_return \<lparr>os_sender = tx\<rparr>)"

definition bytes_sender_clone ::
  "('w, 'tx, 'rx, 'op, 'shm, 'e, 'p) os_backend \<Rightarrow> 'tx ipc_bytes_sender \<Rightarrow> ('w, 'tx ipc_bytes_sender, 'e) io" where
  "bytes_sender_clone be s = io_bind (os_clone_tx be (bytes_os_sender s)) (\<lambda>tx. io_return \<lparr>bytes_os_sender = tx\<rparr>)"

text \<open>Every end of a channel serializes and deserializes as the back end's end inside it.\<close>

definition ser_ipc_sender :: "'tx ipc_sender \<Rightarrow> ('tx, 'rx, 'shm) ser_step list" where
  "ser_ipc_sender s = [SerSender (os_sender s)]"

definition ser_ipc_receiver :: "'rx ipc_receiver \<Rightarrow> ('tx, 'rx, 'shm) ser_step list" where
  "ser_ipc_receiver r = [SerReceiver (os_receiver r)]"

definition ser_opaque_sender :: "'tx opaque_ipc_sender \<Rightarrow> ('tx, 'rx, 'shm) ser_step list" where
  "ser_opaque_sender s = [SerSender (opaque_os_sender s)]"

definition ser_opaque_receiver :: "'rx opaque_ipc_receiver \<Rightarrow> ('tx, 'rx, 'shm) ser_step list" where
  "ser_opaque_receiver r = [SerReceiver (opaque_os_receiver r)]"

definition ser_bytes_sender :: "'tx ipc_bytes_sender \<Rightarrow> ('tx, 'rx, 'shm) ser_step list" where
  "ser_bytes_sender s = [SerSender (bytes_os_sender s)]"

definition ser_bytes_receiver :: "'rx ipc_bytes_receiver \<Rightarrow> ('tx, 'rx, 'shm) ser_step list" where
  "ser_bytes_receiver r = [SerReceiver (bytes_os_receiver r)]"

definition de_ipc_sender :: "('tx, 'rx, 'shm, 'tx ipc_sender) deser" where
  "de_ipc_sender = DeSender (\<lambda>tx. DeReturn \<lparr>os_sender = tx\<rparr>)"

definition de_ipc_receiver :: "('tx, 'rx, 'shm, 'rx ipc_receiver) deser" where
  "de_ipc_receiver = DeReceiver (\<lambda>rx. DeReturn \<lparr>os_receiver = rx\<rparr>)"

definition de_opaque_sender :: "('tx, 'rx, 'shm, 'tx opaque_ipc_sender) deser" where
  "de_opaque_sender = DeSender (\<lambda>tx. DeReturn \<lparr>opaque_os_sender = tx\<rparr>)"

definition de_opaque_receiver :: "('tx, 'rx, 'shm, 'rx opaque_ipc_receiver) deser" where
  "de_opaque_receiver = DeReceiver (\<lambda>rx. DeReturn \<lparr>opaque_os_receiver = rx\<rparr>)"

definition de_bytes_sender :: "('tx, 'rx, 'shm, 'tx ipc_bytes_sender) deser" where
  "de_bytes_sender = DeSender (\<lambda>tx. DeReturn \<lparr>bytes_os_sender = tx\<rparr>)"

definition de_bytes_receiver :: "('tx, 'rx, 'shm, 'rx ipc_bytes_receiver) deser" where
  "de_bytes_receiver = DeReceiver (\<lambda>rx. DeReturn \<lparr>bytes_os_receiver = rx\<rparr>)"

section \<open>Sending and receiving\<close>

definition sender_send ::
  "('w, 'tx, 'rx, 'op, 'shm, 'e, 'p) os_backend \<Rightarrow> bincode \<Rightarrow> ('a \<Rightarrow> ('tx, 'rx, 'shm) ser_step list)
     \<Rightarrow> 'tx ipc_sender \<Rightarrow> 'a \<Rightarrow> ('w, 'tx, 'rx, 'op, 'shm, unit, 'p) ipc_io" where
  "sender_send be bc ser s data = ipc_send be bc (os_sender s) (ser data)"

definition received_to ::
  "('w, 'tx, 'rx, 'op, 'shm, 'e, 'p) os_backend \<Rightarrow> bincode \<Rightarrow> ('tx, 'rx, 'shm, 'a) deser
     \<Rightarrow> ('p bincode_error \<Rightarrow> 'f) \<Rightarrow> ('op, 'shm) os_received
     \<Rightarrow> ('w \<times> ('tx, 'rx, 'op, 'shm) tls, 'a, 'f) io" where
  "received_to be bc des conv received = io_map_err conv (message_to be bc des (opaque_message_new received))"

definition ipc_recv ::
  "('w, 'tx, 'rx, 'op, 'shm, 'e, 'p) os_backend \<Rightarrow> bincode \<Rightarrow> ('tx, 'rx, 'shm, 'a) deser \<Rightarrow> 'rx ipc_receiver
     \<Rightarrow> ('w \<times> ('tx, 'rx, 'op, 'shm) tls, 'a, 'p ipc_error) io" where
  "ipc_recv be bc des r =
     io_bind (on_world (io_map_err (e_ipc be) (os_recv_message be (os_receiver r))))
       (received_to be bc des Bincode)"

definition ipc_try_recv ::
  "('w, 'tx, 'rx, 'op, 'shm, 'e, 'p) os_backend \<Rightarrow> bincode \<Rightarrow> ('tx, 'rx, 'shm, 'a) deser \<Rightarrow> 'rx ipc_receiver
     \<Rightarrow> ('w \<times> ('tx, 'rx, 'op, 'shm) tls, 'a, 'p try_recv_error) io" where
  "ipc_try_recv be bc des r =
     io_bind (on_world (io_map_err (e_try be) (os_try_recv_message be (os_receiver r))))
       (received_to be bc des (IpcErr \<circ> Bincode))"

definition ipc_try_recv_timeout ::
  "('w, 'tx, 'rx, 'op, 'shm, 'e, 'p) os_backend \<Rightarrow> bincode \<Rightarrow> ('tx, 'rx, 'shm, 'a) deser \<Rightarrow> 'rx ipc_receiver
     \<Rightarrow> duration \<Rightarrow> ('w \<times> ('tx, 'rx, 'op, 'shm) tls, 'a, 'p try_recv_error) io" where
  "ipc_try_recv_timeout be bc des r millis =
     io_bind (on_world (io_map_err (e_try be) (os_recv_message_timeout be (os_receiver r) millis)))
       (received_to be bc des (IpcErr \<circ> Bincode))"

text \<open>The channels and regions that came with plain bytes are dropped unused.\<close>

definition only_data ::
  "('w, 'tx, 'rx, 'op, 'shm, 'e, 'p) os_backend \<Rightarrow> ('op, 'shm) os_received \<Rightarrow> ('w, u8 list, 'e) io" where
  "only_data be received =
     (case received of (data, channels, shms) \<Rightarrow>
        io_finally (io_return data) (\<lambda>_.
          io_finally (drop_all (os_drop_op be) False channels)
            (\<lambda>panicking. drop_all (os_drop_region be) panicking shms)))"

definition bytes_recv ::
  "('w, 'tx, 'rx, 'op, 'shm, 'e, 'p) os_backend \<Rightarrow> 'rx ipc_bytes_receiver \<Rightarrow> ('w, u8 list, 'p ipc_error) io" where
  "bytes_recv be r = io_map_err (e_ipc be) (io_bind (os_recv_message be (bytes_os_receiver r)) (only_data be))"

definition bytes_try_recv ::
  "('w, 'tx, 'rx, 'op, 'shm, 'e, 'p) os_backend \<Rightarrow> 'rx ipc_bytes_receiver \<Rightarrow> ('w, u8 list, 'p try_recv_error) io" where
  "bytes_try_recv be r = io_map_err (e_try be) (io_bind (os_try_recv_message be (bytes_os_receiver r)) (only_data be))"

definition bytes_send ::
  "('w, 'tx, 'rx, 'op, 'shm, 'e, 'p) os_backend \<Rightarrow> 'tx ipc_bytes_sender \<Rightarrow> u8 list \<Rightarrow> ('w, unit, 'p io_error) io" where
  "bytes_send be s data = as_io be (os_send_message be (bytes_os_sender s) data [] [])"

section \<open>Receiver sets\<close>

datatype ('op, 'shm) ipc_selection_result =
    MessageReceived u64 "('op, 'shm) opaque_ipc_message"
  | IpcChannelClosed u64

fun ipc_selection_unwrap ::
  "('op, 'shm) ipc_selection_result \<Rightarrow> (u64 \<times> ('op, 'shm) opaque_ipc_message, 'e) res" where
  "ipc_selection_unwrap (MessageReceived i m) = Ok (i, m)"
| "ipc_selection_unwrap (IpcChannelClosed i) = Panic"

fun ipc_report :: "('op, 'shm) ipc_selection_result \<Rightarrow> set_report" where
  "ipc_report (MessageReceived i m) = (i, False)"
| "ipc_report (IpcChannelClosed i) = (i, True)"

fun to_ipc_result :: "('op, 'shm) os_ipc_selection_result \<Rightarrow> ('op, 'shm) ipc_selection_result" where
  "to_ipc_result (DataReceived i data channels shms) =
     MessageReceived i \<lparr>msg_data = data, msg_channels = channels, msg_regions = map Some shms\<rparr>"
| "to_ipc_result (ChannelClosed i) = IpcChannelClosed i"

record 'set ipc_receiver_set = os_receiver_set :: 'set

text \<open>Code that acts on the set inside.\<close>

definition inner_set :: "'w \<times> 'set ipc_receiver_set \<Rightarrow> 'w \<times> 'set" where
  "inner_set ws = (fst ws, os_receiver_set (snd ws))"

definition put_inner :: "'w \<times> 'set \<Rightarrow> 'w \<times> 'set ipc_receiver_set \<Rightarrow> 'w \<times> 'set ipc_receiver_set" where
  "put_inner os ws = (fst os, (snd ws)\<lparr>os_receiver_set := snd os\<rparr>)"

definition ipc_set_new ::
  "('w, 'tx, 'rx, 'op, 'shm, 'e, 'p) os_backend \<Rightarrow> ('w, 'rx, 'op, 'shm, 'set, 'e) os_sets
     \<Rightarrow> ('w, 'set ipc_receiver_set, 'p io_error) io" where
  "ipc_set_new be ss = io_bind (as_io be (os_set_new ss)) (\<lambda>s. io_return \<lparr>os_receiver_set = s\<rparr>)"

definition ipc_set_add ::
  "('w, 'tx, 'rx, 'op, 'shm, 'e, 'p) os_backend \<Rightarrow> ('w, 'rx, 'op, 'shm, 'set, 'e) os_sets \<Rightarrow> 'rx ipc_receiver
     \<Rightarrow> ('w \<times> 'set ipc_receiver_set, u64, 'p io_error) io" where
  "ipc_set_add be ss r = on_part inner_set put_inner (io_map_err (e_io be) (os_set_add ss (os_receiver r)))"

definition ipc_set_add_opaque ::
  "('w, 'tx, 'rx, 'op, 'shm, 'e, 'p) os_backend \<Rightarrow> ('w, 'rx, 'op, 'shm, 'set, 'e) os_sets
     \<Rightarrow> 'rx opaque_ipc_receiver \<Rightarrow> ('w \<times> 'set ipc_receiver_set, u64, 'p io_error) io" where
  "ipc_set_add_opaque be ss r = on_part inner_set put_inner (io_map_err (e_io be) (os_set_add ss (opaque_os_receiver r)))"

definition ipc_set_select ::
  "('w, 'tx, 'rx, 'op, 'shm, 'e, 'p) os_backend \<Rightarrow> ('w, 'rx, 'op, 'shm, 'set, 'e) os_sets
     \<Rightarrow> ('w \<times> 'set ipc_receiver_set, ('op, 'shm) ipc_selection_result list, 'p io_error) io" where
  "ipc_set_select be ss =
     on_part inner_set put_inner (io_bind (io_map_err (e_io be) (os_set_select ss)) (\<lambda>rs. io_return (map to_ipc_result rs)))"

section \<open>One-shot servers\<close>

record 'srv ipc_one_shot_server = os_server :: 'srv

definition ipc_server_new ::
  "('w, 'tx, 'rx, 'op, 'shm, 'e, 'p) os_backend \<Rightarrow> ('w, 'tx, 'rx, 'op, 'shm, 'srv, 'e) os_servers
     \<Rightarrow> ('w, 'srv ipc_one_shot_server \<times> string, 'p io_error) io" where
  "ipc_server_new be sv =
     io_bind (as_io be (os_server_new sv)) (\<lambda>(s, name). io_return (\<lparr>os_server = s\<rparr>, name))"

definition ipc_connect ::
  "('w, 'tx, 'rx, 'op, 'shm, 'e, 'p) os_backend \<Rightarrow> ('w, 'tx, 'rx, 'op, 'shm, 'srv, 'e) os_servers \<Rightarrow> string
     \<Rightarrow> ('w, 'tx ipc_sender, 'p io_error) io" where
  "ipc_connect be sv name = io_bind (as_io be (os_connect sv name)) (\<lambda>tx. io_return \<lparr>os_sender = tx\<rparr>)"

text \<open>When the first message is not a value of the type, the receiver is dropped with the error.\<close>

definition ipc_accept ::
  "('w, 'tx, 'rx, 'op, 'shm, 'e, 'p) os_backend \<Rightarrow> ('w, 'tx, 'rx, 'op, 'shm, 'srv, 'e) os_servers \<Rightarrow> bincode
     \<Rightarrow> ('tx, 'rx, 'shm, 'a) deser \<Rightarrow> 'srv ipc_one_shot_server
     \<Rightarrow> ('w, 'tx, 'rx, 'op, 'shm, 'rx ipc_receiver \<times> 'a, 'p) ipc_io" where
  "ipc_accept be sv bc des s =
     io_bind (lift_os be (os_accept sv (os_server s))) (\<lambda>(rx, received).
     io_bind (io_on_failure (message_to be bc des (opaque_message_new received))
         (\<lambda>panicking. lift_os be (os_drop_channel be panicking (Receiver rx)))) (\<lambda>value.
     io_return (\<lparr>os_receiver = rx\<rparr>, value)))"

section \<open>Typed channels are queues\<close>

text \<open>
  A type whose \<open>Deserialize\<close> reads back what its \<open>Serialize\<close> writes, and which sends nothing while it is
  serialized.
\<close>

definition serde_ok :: "('a \<Rightarrow> ('tx, 'rx, 'shm) ser_step list) \<Rightarrow> ('tx, 'rx, 'shm, 'a) deser \<Rightarrow> bool" where
  "serde_ok ser des \<longleftrightarrow> (\<forall>x. plain (ser x) \<and> reads des (ser x) = Some x \<and> length (ser x) < 2 ^ 63)"

lemma serde_okD:
  "serde_ok ser des \<Longrightarrow> plain (ser x)" "serde_ok ser des \<Longrightarrow> reads des (ser x) = Some x"
  "serde_ok ser des \<Longrightarrow> length (ser x) < 2 ^ 63"
  by (simp_all add: serde_ok_def)

lemma length_channels_of: "length (channels_of be steps) \<le> length steps"
  by (induction be steps rule: channels_of.induct) auto

lemma length_regions_of: "length (regions_of steps) \<le> length steps"
  by (induction steps rule: regions_of.induct) auto

text \<open>The message that the in-process back end carries for a value.\<close>

definition value_message ::
  "'w ip_crossbeam \<Rightarrow> bincode \<Rightarrow> (ip_sender, ip_receiver, ip_shared_memory) ser_step list \<Rightarrow> channel_message" where
  "value_message cb bc steps =
     \<lparr>cm_data = bytes_of bc 0 0 steps, cm_ports = channels_of (ip_backend cb) steps, cm_shms = regions_of steps\<rparr>"

lemma ip_send_value:
  assumes "cb_laws cb v" and "plain steps" and "v_rx v w i > 0"
  shows "\<exists>w'. ipc_send (ip_backend cb) bc \<lparr>ip_tx = i\<rparr> steps (w, t) = Some (Ok (), (w', t)) \<and>
    v_rx v w' = v_rx v w \<and> v_queue v w' = (v_queue v w)(i := v_queue v w i @ [value_message cb bc steps])"
proof -
  let ?m = "value_message cb bc steps"
  obtain w1 where send: "ipc_send (ip_backend cb) bc \<lparr>ip_tx = i\<rparr> steps (w, t) = lift_os (ip_backend cb)
      (os_send_message (ip_backend cb) \<lparr>ip_tx = i\<rparr> (bytes_of bc 0 0 steps) (channels_of (ip_backend cb) steps)
        (regions_of steps)) (w1, t)"
    and w1: "(v_queue v w1, v_rx v w1) = (v_queue v w, v_rx v w)"
    using ipc_send_plain [OF ip_clones_same [OF assms(1)] assms(2)] .
  obtain w2 where "cb_send cb i ?m w1 = (True, w2)" "v_rx v w2 = v_rx v w1"
      "v_queue v w2 = (v_queue v w1)(i := v_queue v w1 i @ [?m])"
    using cb_lawsD(2) [OF assms(1), of i ?m w1] assms(3) w1 by auto
  moreover from this have "ip_send cb \<lparr>ip_tx = i\<rparr> (bytes_of bc 0 0 steps) (channels_of (ip_backend cb) steps)
      (regions_of steps) w1 = Some (Ok (), w2)"
    by (simp add: ip_send_def call_def value_message_def)
  ultimately show ?thesis
    using send w1 by (simp add: lift_os_def on_world_def io_map_err_def del: ipc_send.simps)
qed

lemma value_message_to:
  assumes "bincode_ok bc" and "serde_ok ser des"
  shows "message_to (ip_backend cb) bc des (opaque_message_new (ip_parts (value_message cb bc (ser x)))) (w, t) =
    Some (Ok x, (w, t))"
proof -
  have "length (channels_of (ip_backend cb) (ser x)) < 2 ^ 63" "length (regions_of (ser x)) < 2 ^ 63"
    using serde_okD(3) [OF assms(2), of x] length_channels_of [of "ip_backend cb" "ser x"] length_regions_of [of "ser x"]
    by linarith+
  then show ?thesis
    using message_to_arrived [OF assms(1) ip_drops_used [of cb] serde_okD(2) [OF assms(2), of x]
      ip_arrived [OF serde_okD(1) [OF assms(2)]], of "[]"]
    by (simp add: ip_parts_def value_message_def)
qed

lemma value_message_inj:
  fixes cb :: "'w ip_crossbeam"
  assumes "bincode_ok bc" and "serde_ok ser des"
  shows "inj (\<lambda>x. value_message cb bc (ser x))"
proof (rule injI)
  fix x y assume eq: "value_message cb bc (ser x) = value_message cb bc (ser y)"
  have "Some (Ok x, (w, no_vectors)) = Some (Ok y, (w, no_vectors))" for w :: 'w
    using value_message_to [OF assms, of cb x w no_vectors] value_message_to [OF assms, of cb y w no_vectors]
    unfolding eq by simp
  then show "x = y" by simp
qed

lemma ip_recv_value:
  assumes "cb_laws cb v" and "bincode_ok bc" and "serde_ok ser des"
    and "v_queue v w i = value_message cb bc (ser x) # ms"
  shows "\<exists>w'. ipc_recv (ip_backend cb) bc des \<lparr>os_receiver = \<lparr>ip_rx = Some i\<rparr>\<rparr> (w, t) = Some (Ok x, (w', t)) \<and>
    v_rx v w' = v_rx v w \<and> v_queue v w' = (v_queue v w)(i := ms)"
proof -
  obtain w' where w': "cb_recv cb i w = Some (Some (value_message cb bc (ser x)), w')"
      "v_queue v w' = (v_queue v w)(i := ms)" "v_rx v w' = v_rx v w"
    using cb_lawsD(3) [OF assms(1,4)] by blast
  then have "ip_recv cb \<lparr>ip_rx = Some i\<rparr> w = Some (Ok (ip_parts (value_message cb bc (ser x))), w')"
    by (simp add: ip_recv_def call_blocking_def)
  then show ?thesis
    using w'(2,3) value_message_to [OF assms(2,3), of cb x w' t]
    by (simp add: ipc_recv_def on_world_def io_map_err_def received_to_def)
qed

interpretation tf: fifo_transport
  "\<lambda>(w, t'). t' = t \<and> cb_laws cb v \<and> bincode_ok bc \<and> serde_ok ser des \<and> v_rx v w i > 0 \<and>
     set (v_queue v w i) \<subseteq> range (\<lambda>x. value_message cb bc (ser x))"
  "\<lambda>(w, t). map (inv (\<lambda>x. value_message cb bc (ser x))) (v_queue v w i)"
  "ipc_recv (ip_backend cb) bc des \<lparr>os_receiver = \<lparr>ip_rx = Some i\<rparr>\<rparr>" "\<lambda>x. x"
  "sender_send (ip_backend cb) bc ser \<lparr>os_sender = \<lparr>ip_tx = i\<rparr>\<rparr>"
proof (unfold_locales, goal_cases)
  case (1 wt x xs)
  then obtain w where wt: "wt = (w, t)" and l: "cb_laws cb v" "bincode_ok bc" "serde_ok ser des" "v_rx v w i > 0"
      "set (v_queue v w i) \<subseteq> range (\<lambda>x. value_message cb bc (ser x))"
      "map (inv (\<lambda>x. value_message cb bc (ser x))) (v_queue v w i) = x # xs" by (cases wt) auto
  then obtain m ms where q: "v_queue v w i = m # ms" "x = inv (\<lambda>x. value_message cb bc (ser x)) m"
      "xs = map (inv (\<lambda>x. value_message cb bc (ser x))) ms" by auto
  then have "value_message cb bc (ser x) = m"
    using l(5) f_inv_into_f [of m "\<lambda>x. value_message cb bc (ser x)" UNIV] by simp
  then show ?case
    using ip_recv_value [OF l(1-3), of w i x ms t] q l by (auto simp: wt)
next
  case (2 wt x)
  then obtain w where wt: "wt = (w, t)" and l: "cb_laws cb v" "bincode_ok bc" "serde_ok ser des" "v_rx v w i > 0"
      "set (v_queue v w i) \<subseteq> range (\<lambda>x. value_message cb bc (ser x))" by (cases wt) auto
  have "inv (\<lambda>x. value_message cb bc (ser x)) (value_message cb bc (ser x)) = x"
    using inv_f_f [OF value_message_inj [OF l(2,3)]] .
  then show ?case
    using ip_send_value [OF l(1) serde_okD(1) [OF l(3)] l(4), of bc x t] l
    by (auto simp: wt sender_send_def simp del: ipc_send.simps)
qed

section \<open>Errors that reach the caller\<close>

locale ipc_errors = backend_error closed empty "e_ipc be" "e_try be" "e_io be"
  for be :: "('w, 'tx, 'rx, 'op, 'shm, 'e, 'p) os_backend" and closed :: "'e \<Rightarrow> bool" and empty :: "'e \<Rightarrow> bool"
begin

lemma received_to_not_plain:
  "received_to be bc des Bincode m wt \<noteq> Some (Err Disconnected, wt')"
  "received_to be bc des (IpcErr \<circ> Bincode) m wt \<noteq> Some (Err Empty, wt')"
  "received_to be bc des (IpcErr \<circ> Bincode) m wt \<noteq> Some (Err (IpcErr Disconnected), wt')"
  by (auto simp: received_to_def io_map_err_eq_Some)

lemma ipc_recv_disconnected:
  "ipc_recv be bc des r (w, t) = Some (Err Disconnected, (w', t')) \<longleftrightarrow>
     t' = t \<and> (\<exists>e. os_recv_message be (os_receiver r) w = Some (Err e, w') \<and> closed e)"
  using received_to_not_plain(1) to_ipc_closed
  by (fastforce simp: ipc_recv_def io_bind_eq_Some on_world_eq_Some io_map_err_eq_Some)

lemma ipc_try_recv_empty:
  "ipc_try_recv be bc des r (w, t) = Some (Err Empty, (w', t')) \<longleftrightarrow>
     t' = t \<and> (\<exists>e. os_try_recv_message be (os_receiver r) w = Some (Err e, w') \<and> empty e)"
  using received_to_not_plain(2) to_try_empty
  by (fastforce simp: ipc_try_recv_def io_bind_eq_Some on_world_eq_Some io_map_err_eq_Some)

lemma ipc_try_recv_disconnected:
  "ipc_try_recv be bc des r (w, t) = Some (Err (IpcErr Disconnected), (w', t')) \<longleftrightarrow>
     t' = t \<and> (\<exists>e. os_try_recv_message be (os_receiver r) w = Some (Err e, w') \<and> closed e)"
  using received_to_not_plain(3) try_disconnected
  by (fastforce simp: ipc_try_recv_def io_bind_eq_Some on_world_eq_Some io_map_err_eq_Some)

end

interpretation uie: ipc_errors "unix_backend sys ssb shared" unix_channel_is_closed unix_is_empty
proof -
  have "e_ipc (unix_backend sys ssb shared) = unix_to_ipc" "e_try (unix_backend sys ssb shared) = unix_to_try"
    "e_io (unix_backend sys ssb shared) = unix_to_io" by (simp_all add: unix_backend_def)
  then show "ipc_errors (unix_backend sys ssb shared) unix_channel_is_closed unix_is_empty"
    by (simp add: ipc_errors_def ue.backend_error_axioms)
qed

interpretation ipe: ipc_errors "ip_backend cb" channel_is_closed "\<lambda>e. e = ChannelEmpty"
proof -
  have "e_ipc (ip_backend cb) = channel_to_ipc" "e_try (ip_backend cb) = channel_to_try"
    "e_io (ip_backend cb) = channel_to_io" by (simp_all add: ip_backend_def)
  then show "ipc_errors (ip_backend cb) channel_is_closed (\<lambda>e. e = ChannelEmpty)"
    by (simp add: ipc_errors_def ce.backend_error_axioms)
qed

section \<open>The contract of the set\<close>

lemma ipc_set_add_opaque_eq: "ipc_set_add_opaque be ss r = ipc_set_add be ss (opaque_receiver_to r)"
  by (simp add: ipc_set_add_opaque_def ipc_set_add_def opaque_receiver_to_def)

interpretation uis: wrapped_receiver_set "\<lambda>ws. polls sys mio reg \<and> set_inv reg ws" "\<lambda>ws. set_ids (snd ws)"
  "unix_set_add sys mio" "unix_select sys ssb mio" os_report "\<lambda>ws. incrementor (snd ws)" inner_set put_inner os_receiver unix_to_io
  to_ipc_result ipc_report
proof (unfold_locales, goal_cases)
  case (1 os ws)
  show ?case by (simp add: inner_set_def put_inner_def)
next
  case (2 x)
  show ?case by (cases x) simp_all
qed

interpretation iis: wrapped_receiver_set "\<lambda>ws. ip_set_ok (snd ws)" "\<lambda>ws. set (receiver_ids (snd ws))"
  "ip_set_add cb" "ip_select cb" os_report "\<lambda>ws. ip_incrementor (snd ws)" inner_set put_inner os_receiver channel_to_io
  to_ipc_result ipc_report
proof (unfold_locales, goal_cases)
  case (1 os ws)
  show ?case by (simp add: inner_set_def put_inner_def)
next
  case (2 x)
  show ?case by (cases x) simp_all
qed

lemma unix_ipc_set:
  "ipc_set_add (unix_backend sys ssb shared) (unix_sets sys ssb mio) r =
     on_part inner_set put_inner (io_map_err unix_to_io (unix_set_add sys mio (os_receiver r)))"
  "ipc_set_select (unix_backend sys ssb shared) (unix_sets sys ssb mio) =
     on_part inner_set put_inner (io_bind (io_map_err unix_to_io (unix_select sys ssb mio))
       (\<lambda>rs. io_return (map to_ipc_result rs)))"
  by (simp_all add: ipc_set_add_def ipc_set_select_def unix_backend_def unix_sets_def)

lemma ip_ipc_set:
  "ipc_set_add (ip_backend cb) (ip_sets cb) r =
     on_part inner_set put_inner (io_map_err channel_to_io (ip_set_add cb (os_receiver r)))"
  "ipc_set_select (ip_backend cb) (ip_sets cb) =
     on_part inner_set put_inner (io_bind (io_map_err channel_to_io (ip_select cb))
       (\<lambda>rs. io_return (map to_ipc_result rs)))"
  by (simp_all add: ipc_set_add_def ipc_set_select_def ip_backend_def ip_sets_def)

section \<open>Properties\<close>

text \<open>C12: A typed channel is a queue of values. On a new channel of the in-process back end, sending values of a
  type whose \<open>Deserialize\<close> fits its \<open>Serialize\<close> succeeds, with whatever channels and regions are in them,
  and receiving as many gives the same values in the same order; the thread's vectors stay as they
  are.\<close>

theorem ipc_channel_fifo:
  fixes cb :: "'w ip_crossbeam" and xs :: "'a list"
  assumes "cb_laws cb v" and "bincode_ok bc" and "serde_ok ser des"
  shows "\<exists>tx rx w1 w2 w3. ipc_channel (ip_backend cb) w = Some (Ok (tx, rx), w1) \<and>
    in_sequence (sender_send (ip_backend cb) bc ser tx) xs (w1, t) = Some (Ok (), (w2, t)) \<and>
    repeated (length xs) (ipc_recv (ip_backend cb) bc des rx) (w2, t) = Some (Ok xs, (w3, t))"
proof -
  obtain i w1 where new: "cb_unbounded cb w = (i, w1)" "v_queue v w1 i = []" "v_rx v w1 i = 1"
    using cb_lawsD(1) [OF assms(1)] by blast
  then have chan: "ipc_channel (ip_backend cb) w = Some (Ok (\<lparr>os_sender = \<lparr>ip_tx = i\<rparr>\<rparr>, \<lparr>os_receiver = \<lparr>ip_rx = Some i\<rparr>\<rparr>), w1)"
    by (simp add: ipc_channel_def as_io_def io_map_err_def ip_channel_def call_def)
  obtain wt2 wt3 where
    "in_sequence (sender_send (ip_backend cb) bc ser \<lparr>os_sender = \<lparr>ip_tx = i\<rparr>\<rparr>) xs (w1, t) = Some (Ok (), wt2)"
    "snd wt2 = t" "repeated (length xs) (ipc_recv (ip_backend cb) bc des \<lparr>os_receiver = \<lparr>ip_rx = Some i\<rparr>\<rparr>) wt2 = Some (Ok xs, wt3)"
    "snd wt3 = t"
    using tf.fifo [of t cb v bc ser des i "(w1, t)" xs] assms new by force
  with chan show ?thesis by (cases wt2, cases wt3) auto
qed

text \<open>C13: The receiver set of the public interface keeps the contract of the back end's set, on Unix: a new
  member gets an identifier that no member has, only members are reported, and a member that was
  reported closed is never reported again, over any number of calls of \<open>select\<close>.\<close>

theorem ipc_set_contract:
  assumes "polls sys mio reg" and "set_inv reg (w, os_receiver_set s)"
  shows "(\<forall>r i w' s'. ipc_set_add (unix_backend sys ssb shared) (unix_sets sys ssb mio) r (w, s) = Some (Ok i, (w', s')) \<longrightarrow>
      set_inv reg (w', os_receiver_set s') \<and> i \<notin> set_ids (os_receiver_set s) \<and>
      set_ids (os_receiver_set s') = insert i (set_ids (os_receiver_set s))) \<and>
    (\<forall>n rss w' s'. repeated n (ipc_set_select (unix_backend sys ssb shared) (unix_sets sys ssb mio)) (w, s) =
        Some (Ok rss, (w', s')) \<longrightarrow>
      set_inv reg (w', os_receiver_set s') \<and>
      fst ` ipc_report ` set (concat rss) \<subseteq> set_ids (os_receiver_set s) \<and>
      (\<forall>xs x ys i. concat rss = xs @ x # ys \<and> ipc_report x = (i, True) \<longrightarrow>
         i \<notin> fst ` ipc_report ` set ys \<and> i \<notin> set_ids (os_receiver_set s')))"
proof (intro conjI allI impI)
  have inv: "polls sys mio reg \<and> set_inv reg (inner_set (w, s))"
    using assms by (simp add: inner_set_def)
  {
    fix r i w' s'
    assume "ipc_set_add (unix_backend sys ssb shared) (unix_sets sys ssb mio) r (w, s) = Some (Ok i, (w', s'))"
    from uis.wrapped.add_Ok [OF inv this [unfolded unix_ipc_set]]
    show "set_inv reg (w', os_receiver_set s')" "i \<notin> set_ids (os_receiver_set s)"
      "set_ids (os_receiver_set s') = insert i (set_ids (os_receiver_set s))"
      by (simp_all add: inner_set_def)
  next
    fix n rss w' s'
    assume run: "repeated n (ipc_set_select (unix_backend sys ssb shared) (unix_sets sys ssb mio)) (w, s) =
      Some (Ok rss, (w', s'))"
    note all = uis.wrapped.repeated_select_Ok [OF inv run [unfolded unix_ipc_set]]
    then show "set_inv reg (w', os_receiver_set s')" by (simp add: inner_set_def)
    have "report_ok (set_ids (os_receiver_set s)) (map ipc_report (concat rss))"
      using all by (simp add: inner_set_def)
    then show "fst ` ipc_report ` set (concat rss) \<subseteq> set_ids (os_receiver_set s)"
      by (rule report_ok_subset)
    fix xs x ys i assume x: "concat rss = xs @ x # ys \<and> ipc_report x = (i, True)"
    from uis.wrapped.closed_is_final [OF inv run [unfolded unix_ipc_set], of xs x ys i] x
    show "i \<notin> fst ` ipc_report ` set ys" "i \<notin> set_ids (os_receiver_set s')"
      by (simp_all add: inner_set_def)
  }
qed

text \<open>C27: The caller learns of a closed channel and of an empty one exactly when the back end found it so, in both
  back ends: \<open>recv\<close> returns \<open>Disconnected\<close> only for a closed channel, \<open>try_recv\<close> returns \<open>Empty\<close> only when there
  is nothing to receive yet, and a message that does not deserialize is never taken for either.\<close>

theorem ipc_recv_errors:
  "(ipc_recv (unix_backend sys ssb shared) bc des r (w, t) = Some (Err Disconnected, (w', t')) \<longleftrightarrow>
      t' = t \<and> receiver_recv sys ssb (os_receiver r) w = Some (Err Unix_Sys.ChannelClosedError, w')) \<and>
   (ipc_try_recv (unix_backend sys ssb shared) bc des r (w, t) = Some (Err Empty, (w', t')) \<longleftrightarrow>
      t' = t \<and> receiver_try_recv sys ssb (os_receiver r) w = Some (Err (Errno EAGAIN), w')) \<and>
   (ipc_recv (ip_backend cb) bc' des' r' (u, t2) = Some (Err Disconnected, (u', t2')) \<longleftrightarrow>
      t2' = t2 \<and> ip_recv cb (os_receiver r') u = Some (Err ChannelClosedError, u')) \<and>
   (ipc_try_recv (ip_backend cb) bc' des' r' (u, t2) = Some (Err Empty, (u', t2')) \<longleftrightarrow>
      t2' = t2 \<and> ip_try_recv cb (os_receiver r') u = Some (Err ChannelEmpty, u'))"
proof -
  have "unix_channel_is_closed e \<longleftrightarrow> e = Unix_Sys.ChannelClosedError" for e by (cases e) simp_all
  moreover have "unix_is_empty e \<longleftrightarrow> e = Errno EAGAIN" for e by (auto simp: unix_is_empty_def EAGAIN_def EWOULDBLOCK_def)
  moreover have "os_recv_message (unix_backend sys ssb shared) = receiver_recv sys ssb"
    "os_try_recv_message (unix_backend sys ssb shared) = receiver_try_recv sys ssb"
    "os_try_recv_message (ip_backend cb) = ip_try_recv cb"
    by (simp_all add: unix_backend_def ip_backend_def)
  ultimately show ?thesis
    unfolding uie.ipc_recv_disconnected uie.ipc_try_recv_empty ipe.ipc_recv_disconnected ipe.ipc_try_recv_empty
    by (simp add: channel_is_closed_def)
qed

text \<open>The ends of channels are values that can be sent: for every kind of end, \<open>Deserialize\<close> reads back what
  \<open>Serialize\<close> writes; and erasing the type of an end and giving it back is the identity.\<close>

lemma channel_ends_serde:
  "serde_ok (ser_ipc_sender :: 'tx ipc_sender \<Rightarrow> ('tx, 'rx, 'shm) ser_step list) de_ipc_sender \<and>
   serde_ok (ser_ipc_receiver :: 'rx ipc_receiver \<Rightarrow> ('tx, 'rx, 'shm) ser_step list) de_ipc_receiver \<and>
   serde_ok (ser_opaque_sender :: 'tx opaque_ipc_sender \<Rightarrow> ('tx, 'rx, 'shm) ser_step list) de_opaque_sender \<and>
   serde_ok (ser_opaque_receiver :: 'rx opaque_ipc_receiver \<Rightarrow> ('tx, 'rx, 'shm) ser_step list) de_opaque_receiver \<and>
   serde_ok (ser_bytes_sender :: 'tx ipc_bytes_sender \<Rightarrow> ('tx, 'rx, 'shm) ser_step list) de_bytes_sender \<and>
   serde_ok (ser_bytes_receiver :: 'rx ipc_bytes_receiver \<Rightarrow> ('tx, 'rx, 'shm) ser_step list) de_bytes_receiver \<and>
   opaque_sender_to (sender_to_opaque s) = s \<and> opaque_receiver_to (receiver_to_opaque r) = r"
  by (simp add: serde_ok_def ser_ipc_sender_def ser_ipc_receiver_def ser_opaque_sender_def ser_opaque_receiver_def
    ser_bytes_sender_def ser_bytes_receiver_def de_ipc_sender_def de_ipc_receiver_def de_opaque_sender_def
    de_opaque_receiver_def de_bytes_sender_def de_bytes_receiver_def opaque_sender_to_def sender_to_opaque_def
    opaque_receiver_to_def receiver_to_opaque_def)

section \<open>Examples\<close>

theorem ipc_channel_fifo_witness:
  "\<exists>tx rx w1 w2 w3. ipc_channel (ip_backend s_crossbeam) cb_init = Some (Ok (tx, rx), w1) \<and>
    in_sequence (sender_send (ip_backend s_crossbeam) bincode_le ser_ipc_sender tx)
      [\<lparr>os_sender = \<lparr>ip_tx = 3\<rparr>\<rparr>, \<lparr>os_sender = \<lparr>ip_tx = 4\<rparr>\<rparr>] (w1, no_vectors) = Some (Ok (), (w2, no_vectors)) \<and>
    repeated 2 (ipc_recv (ip_backend s_crossbeam) bincode_le de_ipc_sender rx) (w2, no_vectors) =
      Some (Ok [\<lparr>os_sender = \<lparr>ip_tx = 3\<rparr>\<rparr>, \<lparr>os_sender = \<lparr>ip_tx = 4\<rparr>\<rparr>], (w3, no_vectors))"
proof -
  from ipc_channel_fifo [OF s_laws bincode_le_ok channel_ends_serde [THEN conjunct1], of cb_init
    "[\<lparr>os_sender = \<lparr>ip_tx = 3\<rparr>\<rparr>, \<lparr>os_sender = \<lparr>ip_tx = 4\<rparr>\<rparr>]" no_vectors]
  show ?thesis by (simp add: numeral_2_eq_2 del: in_sequence.simps repeated.simps)
qed

theorem ipc_set_contract_witness:
  "\<exists>w' s'. ipc_set_add (unix_backend p_sys 48 (\<lambda>_. False)) (unix_sets p_sys 48 k_mio) \<lparr>os_receiver = \<lparr>rx_fd = 5\<rparr>\<rparr>
     (example_polled, \<lparr>os_receiver_set = example_set\<rparr>) = Some (Ok 1, (w', s')) \<and>
   set_inv k_reg (w', os_receiver_set s') \<and> set_ids (os_receiver_set s') = {0, 1}"
proof -
  obtain w' s' where run: "ipc_set_add (unix_backend p_sys 48 (\<lambda>_. False)) (unix_sets p_sys 48 k_mio) \<lparr>os_receiver = \<lparr>rx_fd = 5\<rparr>\<rparr>
     (example_polled, \<lparr>os_receiver_set = example_set\<rparr>) = Some (Ok 1, (w', s'))"
    by (simp add: unix_ipc_set on_part_def inner_set_def put_inner_def io_map_err_def
      unix_set_add_def next_index_def consume_fd_def example_set_def example_polled_def
      on_world_def on_self_def mio_try_def call_def k_mio_def fd_token_def io_on_failure_def)
  have ids: "set_ids example_set = {0}" by (simp add: set_ids_def example_set_def)
  have inv: "set_inv k_reg (example_polled, os_receiver_set \<lparr>os_receiver_set = example_set\<rparr>)"
    using example_set_inv by simp
  note ipc_set_contract [OF k_polls inv, of 48 "\<lambda>_. False", THEN conjunct1, rule_format, OF run]
  with run ids show ?thesis by (intro exI [of _ w'] exI [of _ s']) auto
qed

end
