(* ===== verification/Router.thy ===== *)
theory Router
  imports Ipc_Channel
begin

text \<open>
  The router (\<open>src/src/router.rs\<close>): a thread that waits on a receiver set and calls the handler of each
  message's receiver, and the proxy through which other threads add routes and shut it down.

  The thread's state is the world, its thread-local vectors and its \<open>Router\<close>. A handler is a boxed \<open>FnMut\<close>:
  here a value of a type \<open>'h\<close> with what calling it does, the handler after the call included.
\<close>

section \<open>Messages to the router\<close>

datatype ('rx, 'h) router_msg =
    AddRoute "'rx opaque_ipc_receiver" 'h
  | Shutdown nat

text \<open>What the router is built on: a back end with its sets, the channels of \<open>crossbeam\<close> for messages and
  for acknowledgements, and the handlers.\<close>

record ('w, 'tx, 'rx, 'op, 'shm, 'e, 'p, 'set, 'h) router_env =
  re_backend :: "('w, 'tx, 'rx, 'op, 'shm, 'e, 'p) os_backend"
  re_sets :: "('w, 'rx, 'op, 'shm, 'set, 'e) os_sets"
  re_bincode :: bincode
  re_msgs :: "('w, ('rx, 'h) router_msg) crossbeam"
  re_acks :: "('w, unit) crossbeam"
  re_invoke :: "'h \<Rightarrow> ('op, 'shm) opaque_ipc_message \<Rightarrow> ('w, 'tx, 'rx, 'op, 'shm, 'h, 'p) ipc_io"
  re_drop_handler :: "'h \<Rightarrow> 'w \<Rightarrow> 'w"

section \<open>The router thread\<close>

record ('set, 'h) router =
  msg_receiver :: nat
  msg_wakeup_id :: u64
  router_set :: "'set ipc_receiver_set"
  handlers :: "u64 \<Rightarrow> 'h option"

type_synonym ('w, 'tx, 'rx, 'op, 'shm, 'set, 'h) router_world =
  "('w \<times> ('tx, 'rx, 'op, 'shm) tls) \<times> ('set, 'h) router"

type_synonym ('w, 'tx, 'rx, 'op, 'shm, 'set, 'h, 'a, 'p) router_io =
  "(('w, 'tx, 'rx, 'op, 'shm, 'set, 'h) router_world, 'a, 'p bincode_error) io"

text \<open>Code that acts on the set, and code that acts on the world alone.\<close>

definition get_router_set :: "('w \<times> 't) \<times> ('set, 'h) router \<Rightarrow> 'w \<times> 'set ipc_receiver_set" where
  "get_router_set wr = (fst (fst wr), router_set (snd wr))"

definition put_router_set ::
  "'w \<times> 'set ipc_receiver_set \<Rightarrow> ('w \<times> 't) \<times> ('set, 'h) router \<Rightarrow> ('w \<times> 't) \<times> ('set, 'h) router" where
  "put_router_set ws wr = ((fst ws, snd (fst wr)), (snd wr)\<lparr>router_set := snd ws\<rparr>)"

abbreviation on_router_set where
  "on_router_set m \<equiv> on_part get_router_set put_router_set m"

abbreviation in_world where
  "in_world m \<equiv> on_world (on_world m)"

definition router_new ::
  "('w, 'tx, 'rx, 'op, 'shm, 'e, 'p, 'set, 'h) router_env \<Rightarrow> nat \<Rightarrow> 'rx ipc_receiver
     \<Rightarrow> ('w, ('set, 'h) router, 'p io_error) io" where
  "router_new env receiver wakeup_receiver =
     io_bind (io_unwrap (ipc_set_new (re_backend env) (re_sets env))) (\<lambda>s. \<lambda>w.
       map_option (\<lambda>(r, (w', s')).
         (res_map (\<lambda>i. \<lparr>msg_receiver = receiver, msg_wakeup_id = i, router_set = s', handlers = (\<lambda>_. None)\<rparr>) r, w'))
         (io_unwrap (ipc_set_add (re_backend env) (re_sets env) wakeup_receiver) (w, s)))"

text \<open>\<open>msg_receiver.recv().unwrap()\<close>: without a sender left this is a panic.\<close>

definition next_router_msg ::
  "('w, 'tx, 'rx, 'op, 'shm, 'e, 'p, 'set, 'h) router_env
     \<Rightarrow> ('w, 'tx, 'rx, 'op, 'shm, 'set, 'h, ('rx, 'h) router_msg, 'p) router_io" where
  "next_router_msg env = (\<lambda>(wt, r).
     io_bind (in_world (call_blocking (cb_recv (re_msgs env) (msg_receiver r)))) (\<lambda>m.
       case m of None \<Rightarrow> io_panic | Some msg \<Rightarrow> io_return msg) (wt, r))"

definition drop_handler ::
  "('w, 'tx, 'rx, 'op, 'shm, 'e, 'p, 'set, 'h) router_env \<Rightarrow> 'h
     \<Rightarrow> ('w, 'tx, 'rx, 'op, 'shm, 'set, 'h, unit, 'p) router_io" where
  "drop_handler env h = in_world (cb_do (re_drop_handler env h))"

definition register_route ::
  "('w, 'tx, 'rx, 'op, 'shm, 'e, 'p, 'set, 'h) router_env \<Rightarrow> 'rx opaque_ipc_receiver \<Rightarrow> 'h
     \<Rightarrow> ('w, 'tx, 'rx, 'op, 'shm, 'set, 'h, unit, 'p) router_io" where
  "register_route env receiver h =
     io_bind (io_on_failure
         (on_router_set (io_unwrap (ipc_set_add_opaque (re_backend env) (re_sets env) receiver)))
         (\<lambda>_. drop_handler env h)) (\<lambda>new_receiver_id.
     on_self (\<lambda>r. ((), r\<lparr>handlers := (handlers r)(new_receiver_id \<mapsto> h)\<rparr>)))"

definition confirm_shutdown ::
  "('w, 'tx, 'rx, 'op, 'shm, 'e, 'p, 'set, 'h) router_env \<Rightarrow> nat
     \<Rightarrow> ('w, 'tx, 'rx, 'op, 'shm, 'set, 'h, unit, 'p) router_io" where
  "confirm_shutdown env ack =
     io_bind (in_world (call (cb_send (re_acks env) ack ()))) (\<lambda>ok.
     io_bind (in_world (cb_do (cb_drop_tx (re_acks env) ack))) (\<lambda>_.
     if ok then io_return () else io_panic))"

text \<open>The value says whether to leave the loop over the events.\<close>

definition handle_wakeup ::
  "('w, 'tx, 'rx, 'op, 'shm, 'e, 'p, 'set, 'h) router_env
     \<Rightarrow> ('w, 'tx, 'rx, 'op, 'shm, 'set, 'h, bool, 'p) router_io" where
  "handle_wakeup env =
     io_bind (next_router_msg env) (\<lambda>msg.
       case msg of
         AddRoute receiver h \<Rightarrow> io_bind (register_route env receiver h) (\<lambda>_. io_return False)
       | Shutdown ack \<Rightarrow> io_bind (confirm_shutdown env ack) (\<lambda>_. io_return True))"

definition drop_ipc_result ::
  "('w, 'tx, 'rx, 'op, 'shm, 'e, 'p) os_backend \<Rightarrow> bool \<Rightarrow> ('op, 'shm) ipc_selection_result
     \<Rightarrow> ('w, 'tx, 'rx, 'op, 'shm, unit, 'p) ipc_io" where
  "drop_ipc_result be panicking res =
     (case res of
        MessageReceived i m \<Rightarrow> drop_message be panicking (msg_channels m) (msg_regions m)
      | IpcChannelClosed i \<Rightarrow> io_return ())"

definition handle_result ::
  "('w, 'tx, 'rx, 'op, 'shm, 'e, 'p, 'set, 'h) router_env \<Rightarrow> ('op, 'shm) ipc_selection_result
     \<Rightarrow> ('w, 'tx, 'rx, 'op, 'shm, 'set, 'h, bool, 'p) router_io" where
  "handle_result env res = (\<lambda>(wt, r).
     (case res of
        MessageReceived i m \<Rightarrow>
          if i = msg_wakeup_id r then
            io_finally (handle_wakeup env) (\<lambda>panicking. on_world (drop_ipc_result (re_backend env) panicking res))
          else (case handlers r i of
              None \<Rightarrow> io_finally io_panic (\<lambda>_. on_world (drop_ipc_result (re_backend env) True res))
            | Some h \<Rightarrow>
                io_bind (on_world (re_invoke env h m)) (\<lambda>h'.
                io_bind (on_self (\<lambda>r. ((), r\<lparr>handlers := (handlers r)(i \<mapsto> h')\<rparr>))) (\<lambda>_. io_return False)))
      | IpcChannelClosed i \<Rightarrow>
          (case handlers r i of
             None \<Rightarrow> io_panic
           | Some h \<Rightarrow>
               io_bind (on_self (\<lambda>r. ((), r\<lparr>handlers := (handlers r)(i := None)\<rparr>))) (\<lambda>_.
               io_bind (drop_handler env h) (\<lambda>_. io_return False)))) (wt, r))"

text \<open>Leaving the loop drops the events that are left.\<close>

fun handle_results ::
  "('w, 'tx, 'rx, 'op, 'shm, 'e, 'p, 'set, 'h) router_env \<Rightarrow> ('op, 'shm) ipc_selection_result list
     \<Rightarrow> ('w, 'tx, 'rx, 'op, 'shm, 'set, 'h, unit, 'p) router_io" where
  "handle_results env [] = io_return ()"
| "handle_results env (res # results) =
     io_bind (io_on_failure (handle_result env res)
         (\<lambda>panicking. on_world (drop_all (drop_ipc_result (re_backend env)) panicking results))) (\<lambda>stop.
     if stop then on_world (drop_all (drop_ipc_result (re_backend env)) False results)
     else handle_results env results)"

definition router_select ::
  "('w, 'tx, 'rx, 'op, 'shm, 'e, 'p, 'set, 'h) router_env
     \<Rightarrow> (('w, 'tx, 'rx, 'op, 'shm, 'set, 'h) router_world, ('op, 'shm) ipc_selection_result list, 'p io_error) io" where
  "router_select env = on_router_set (ipc_set_select (re_backend env) (re_sets env))"

text \<open>\<open>Router::run\<close>: only an error of \<open>select\<close> leaves the outer loop.\<close>

partial_function (option) router_run ::
  "('w, 'tx, 'rx, 'op, 'shm, 'e, 'p, 'set, 'h) router_env
     \<Rightarrow> ('w, 'tx, 'rx, 'op, 'shm, 'set, 'h, unit, 'p) router_io" where
  "router_run env wr =
     Option.bind (router_select env wr) (\<lambda>(selected, wr').
       case selected of
         Ok results \<Rightarrow>
           Option.bind (handle_results env results wr') (\<lambda>(handled, wr'').
             case handled of Ok u \<Rightarrow> router_run env wr'' | _ \<Rightarrow> Some (handled, wr''))
       | Err e \<Rightarrow> Some (Ok (), wr')
       | Panic \<Rightarrow> Some (Panic, wr'))"

section \<open>The proxy\<close>

record 'tx router_proxy =
  msg_sender :: nat
  wakeup_sender :: "'tx ipc_sender"
  is_shutdown :: bool
  lock_poisoned :: bool

type_synonym ('w, 'tx, 'rx, 'op, 'shm, 'a, 'p) proxy_io =
  "(('w \<times> ('tx, 'rx, 'op, 'shm) tls) \<times> 'tx router_proxy, 'a, 'p bincode_error) io"

text \<open>What is sent to wake the router up: the unit value, which serializes to nothing.\<close>

definition ser_unit :: "unit \<Rightarrow> ('tx, 'rx, 'shm) ser_step list" where
  "ser_unit u = []"

text \<open>The proxy, and what the new thread is given to run on.\<close>

definition proxy_new ::
  "('w, 'tx, 'rx, 'op, 'shm, 'e, 'p, 'set, 'h) router_env
     \<Rightarrow> ('w, 'tx router_proxy \<times> nat \<times> 'rx ipc_receiver, 'p io_error) io" where
  "proxy_new env =
     io_bind (call (cb_unbounded (re_msgs env))) (\<lambda>n.
     io_bind (io_unwrap (ipc_channel (re_backend env))) (\<lambda>(tx, rx).
     io_return (\<lparr>msg_sender = n, wakeup_sender = tx, is_shutdown = False, lock_poisoned = False\<rparr>, n, rx)))"

text \<open>
  \<open>comm.lock().unwrap()\<close>: a poisoned lock is a panic, and a panic while it is held poisons it. \<open>gone\<close> is
  what a panic at the lock drops.
\<close>

definition locked ::
  "('w, 'tx, 'rx, 'op, 'shm, unit, 'p) proxy_io \<Rightarrow> ('w, 'tx, 'rx, 'op, 'shm, 'a, 'p) proxy_io
     \<Rightarrow> ('w, 'tx, 'rx, 'op, 'shm, 'a, 'p) proxy_io" where
  "locked gone m = (\<lambda>(wt, p).
     if lock_poisoned p then io_finally io_panic (\<lambda>_. gone) (wt, p)
     else map_option (\<lambda>(q, (wt', p')).
         (q, (wt', p'\<lparr>lock_poisoned := (case q of Panic \<Rightarrow> True | _ \<Rightarrow> False)\<rparr>))) (m (wt, p)))"

definition drop_route ::
  "('w, 'tx, 'rx, 'op, 'shm, 'e, 'p, 'set, 'h) router_env \<Rightarrow> bool \<Rightarrow> 'rx opaque_ipc_receiver \<Rightarrow> 'h
     \<Rightarrow> ('w, 'tx, 'rx, 'op, 'shm, unit, 'p) proxy_io" where
  "drop_route env panicking receiver callback =
     io_finally (in_world (cb_do (re_drop_handler env callback))) (\<lambda>_.
       on_world (lift_os (re_backend env)
         (os_drop_channel (re_backend env) panicking (Receiver (opaque_os_receiver receiver)))))"

definition wake_up ::
  "('w, 'tx, 'rx, 'op, 'shm, 'e, 'p, 'set, 'h) router_env \<Rightarrow> ('w, 'tx, 'rx, 'op, 'shm, unit, 'p) proxy_io" where
  "wake_up env = (\<lambda>(wt, p).
     on_world (sender_send (re_backend env) (re_bincode env) ser_unit (wakeup_sender p) ()) (wt, p))"

definition add_route ::
  "('w, 'tx, 'rx, 'op, 'shm, 'e, 'p, 'set, 'h) router_env \<Rightarrow> 'rx opaque_ipc_receiver \<Rightarrow> 'h
     \<Rightarrow> ('w, 'tx, 'rx, 'op, 'shm, unit, 'p) proxy_io" where
  "add_route env receiver callback =
     locked (drop_route env True receiver callback) (\<lambda>(wt, p).
       if is_shutdown p then drop_route env False receiver callback (wt, p)
       else
         io_bind (in_world (call (cb_send (re_msgs env) (msg_sender p) (AddRoute receiver callback)))) (\<lambda>ok.
           if ok then io_unwrap (wake_up env)
           else io_finally io_panic (\<lambda>_. drop_route env True receiver callback)) (wt, p))"

text \<open>The receiver of the acknowledgement is dropped at the end; its sender goes to the router, or is
  dropped when waking it up failed.\<close>

definition shutdown ::
  "('w, 'tx, 'rx, 'op, 'shm, 'e, 'p, 'set, 'h) router_env \<Rightarrow> ('w, 'tx, 'rx, 'op, 'shm, unit, 'p) proxy_io" where
  "shutdown env =
     locked (io_return ()) (\<lambda>(wt, p).
       if is_shutdown p then Some (Ok (), (wt, p))
       else
         io_bind (on_self (\<lambda>p. ((), p\<lparr>is_shutdown := True\<rparr>))) (\<lambda>_.
         io_bind (in_world (call (cb_unbounded (re_acks env)))) (\<lambda>ack.
           io_finally
             (io_match (wake_up env)
               (\<lambda>_. io_bind (in_world (call (cb_send (re_msgs env) (msg_sender p) (Shutdown ack)))) (\<lambda>ok.
                  if \<not> ok then io_finally io_panic (\<lambda>_. in_world (cb_do (cb_drop_tx (re_acks env) ack)))
                  else io_bind (in_world (call_blocking (cb_recv (re_acks env) ack))) (\<lambda>acked.
                    case acked of None \<Rightarrow> io_panic | Some _ \<Rightarrow> io_return ())))
               (\<lambda>_. io_finally io_panic (\<lambda>_. in_world (cb_do (cb_drop_tx (re_acks env) ack)))))
             (\<lambda>_. in_world (cb_do (cb_drop_rx (re_acks env) ack))))) (wt, p))"

section \<open>Routing to \<open>crossbeam\<close> channels\<close>

text \<open>The closure that forwards a message's value; the error of a channel without receivers is dropped.\<close>

definition crossbeam_handler ::
  "('w, 'tx, 'rx, 'op, 'shm, 'e, 'p) os_backend \<Rightarrow> bincode \<Rightarrow> ('tx, 'rx, 'shm, 'a) deser \<Rightarrow> ('w, 'a) crossbeam \<Rightarrow> nat
     \<Rightarrow> ('op, 'shm) opaque_ipc_message \<Rightarrow> ('w, 'tx, 'rx, 'op, 'shm, unit, 'p) ipc_io" where
  "crossbeam_handler be bc des cbt tx m =
     io_bind (io_unwrap (message_to be bc des m)) (\<lambda>x.
     io_bind (on_world (call (cb_send cbt tx x))) (\<lambda>_. io_return ()))"

text \<open>\<open>boxed\<close> is \<open>Box::new\<close> on that closure.\<close>

definition boxes_crossbeam_handler ::
  "('w, 'tx, 'rx, 'op, 'shm, 'e, 'p, 'set, 'h) router_env \<Rightarrow> ('tx, 'rx, 'shm, 'a) deser \<Rightarrow> ('w, 'a) crossbeam
     \<Rightarrow> (nat \<Rightarrow> 'h) \<Rightarrow> bool" where
  "boxes_crossbeam_handler env des cbt boxed \<longleftrightarrow>
     (\<forall>tx m. re_invoke env (boxed tx) m =
        io_bind (crossbeam_handler (re_backend env) (re_bincode env) des cbt tx m) (\<lambda>_. io_return (boxed tx)))"

definition route_ipc_receiver_to_crossbeam_sender ::
  "('w, 'tx, 'rx, 'op, 'shm, 'e, 'p, 'set, 'h) router_env \<Rightarrow> (nat \<Rightarrow> 'h) \<Rightarrow> 'rx ipc_receiver \<Rightarrow> nat
     \<Rightarrow> ('w, 'tx, 'rx, 'op, 'shm, unit, 'p) proxy_io" where
  "route_ipc_receiver_to_crossbeam_sender env boxed ipc_receiver crossbeam_sender =
     add_route env (receiver_to_opaque ipc_receiver) (boxed crossbeam_sender)"

definition route_ipc_receiver_to_new_crossbeam_receiver ::
  "('w, 'tx, 'rx, 'op, 'shm, 'e, 'p, 'set, 'h) router_env \<Rightarrow> (nat \<Rightarrow> 'h) \<Rightarrow> ('w, 'a) crossbeam \<Rightarrow> 'rx ipc_receiver
     \<Rightarrow> ('w, 'tx, 'rx, 'op, 'shm, nat, 'p) proxy_io" where
  "route_ipc_receiver_to_new_crossbeam_receiver env boxed cbt ipc_receiver =
     io_bind (in_world (call (cb_unbounded cbt))) (\<lambda>n.
     io_bind (io_on_failure (route_ipc_receiver_to_crossbeam_sender env boxed ipc_receiver n)
         (\<lambda>_. in_world (cb_do (cb_drop_rx cbt n)))) (\<lambda>_.
     io_return n))"

section \<open>A router that is not disturbed\<close>

text \<open>
  What the router thread needs of the rest of the process: the proxies keep their ends of the message
  channel and the wake-up channel, what they send is a receiver that can be added, or a request to shut
  down whose sender waits for the acknowledgement, and a bare wake-up; the handlers return and leave the
  router's own set alone. \<open>good\<close> describes such a process, beside the set.
\<close>

definition same_set ::
  "('w \<times> 's \<Rightarrow> bool) \<Rightarrow> ('w \<times> 's \<Rightarrow> u64 set) \<Rightarrow> ('w \<times> 's \<Rightarrow> u64) \<Rightarrow> 'w \<times> 's \<Rightarrow> 'w \<times> 's \<Rightarrow> bool" where
  "same_set good members bound ws ws' \<longleftrightarrow>
     good ws' \<and> members ws' = members ws \<and> bound ws' = bound ws"

text \<open>The wake-up channel stays open, and only bare wake-ups come from it; \<open>fit\<close> are the messages that the
  handlers can deal with.\<close>

fun tidy ::
  "(('op, 'shm) opaque_ipc_message \<Rightarrow> bool) \<Rightarrow> u64 \<Rightarrow> ('op, 'shm) ipc_selection_result list \<Rightarrow> bool" where
  "tidy fit wk [] \<longleftrightarrow> True"
| "tidy fit wk (MessageReceived i m # rs) \<longleftrightarrow>
     (if i = wk then msg_channels m = [] \<and> msg_regions m = [] else fit m) \<and> tidy fit wk rs"
| "tidy fit wk (IpcChannelClosed i # rs) \<longleftrightarrow> i \<noteq> wk \<and> tidy fit wk rs"

text \<open>Events that are dropped without being handled, because a request to shut down came before them.\<close>

definition discards ::
  "('w, 'tx, 'rx, 'op, 'shm, 'e, 'p, 'set, 'h) router_env \<Rightarrow> ('w \<times> 'set ipc_receiver_set \<Rightarrow> bool)
     \<Rightarrow> ('w \<times> 'set ipc_receiver_set \<Rightarrow> u64 set) \<Rightarrow> ('w \<times> 'set ipc_receiver_set \<Rightarrow> u64)
     \<Rightarrow> ('op, 'shm) ipc_selection_result \<Rightarrow> bool" where
  "discards env good members bound res \<longleftrightarrow>
     (\<forall>w s t q w' t'. good (w, s) \<and> drop_ipc_result (re_backend env) False res (w, t) = Some (q, (w', t')) \<longrightarrow>
        q = Ok () \<and> same_set good members bound (w, s) (w', s))"

definition calm ::
  "('w, 'tx, 'rx, 'op, 'shm, 'e, 'p, 'set, 'h) router_env \<Rightarrow> ('w \<times> 'set ipc_receiver_set \<Rightarrow> bool)
     \<Rightarrow> ('w \<times> 'set ipc_receiver_set \<Rightarrow> bool) \<Rightarrow> ('w \<times> 'set ipc_receiver_set \<Rightarrow> u64 set)
     \<Rightarrow> ('w \<times> 'set ipc_receiver_set \<Rightarrow> u64)
     \<Rightarrow> (('op, 'shm) opaque_ipc_message \<Rightarrow> bool) \<Rightarrow> nat \<Rightarrow> u64 \<Rightarrow> bool" where
  "calm env invar good members bound fit n wk \<longleftrightarrow>
     (\<forall>w s m w'. good (w, s) \<and> cb_recv (re_msgs env) n w = Some (m, w') \<longrightarrow>
        same_set invar members bound (w, s) (w', s) \<and>
        (case m of
           None \<Rightarrow> False
         | Some (AddRoute rx h) \<Rightarrow> (\<forall>a ws'.
             ipc_set_add_opaque (re_backend env) (re_sets env) rx (w', s) = Some (a, ws') \<longrightarrow> (\<exists>i. a = Ok i) \<and> good ws')
         | Some (Shutdown ack) \<Rightarrow> (\<exists>w2. cb_send (re_acks env) ack () w' = (True, w2) \<and>
             same_set good members bound (w, s) (cb_drop_tx (re_acks env) ack w2, s)))) \<and>
     (\<forall>w s h m t q w' t'. good (w, s) \<and> fit m \<and> re_invoke env h m (w, t) = Some (q, (w', t')) \<longrightarrow>
        (\<exists>h'. q = Ok h') \<and> same_set good members bound (w, s) (w', s)) \<and>
     (\<forall>w s h. good (w, s) \<longrightarrow> same_set good members bound (w, s) (re_drop_handler env h w, s)) \<and>
     (\<forall>w s q ws'. good (w, s) \<and> ipc_set_select (re_backend env) (re_sets env) (w, s) = Some (q, ws') \<longrightarrow>
        q \<noteq> Panic \<and> good ws' \<and>
        (\<forall>rs. q = Ok rs \<longrightarrow> tidy fit wk rs \<and> (\<forall>res\<in>set (tl rs). discards env good members bound res)))"

lemma calmD:
  assumes "calm env invar good members bound fit n wk" and "good (w, s)"
  shows "cb_recv (re_msgs env) n w = Some (msg, w') \<Longrightarrow> same_set invar members bound (w, s) (w', s) \<and>
      (case msg of
         None \<Rightarrow> False
       | Some (AddRoute rx h) \<Rightarrow> (\<forall>a ws'.
           ipc_set_add_opaque (re_backend env) (re_sets env) rx (w', s) = Some (a, ws') \<longrightarrow> (\<exists>i. a = Ok i) \<and> good ws')
       | Some (Shutdown ack) \<Rightarrow> (\<exists>w2. cb_send (re_acks env) ack () w' = (True, w2) \<and>
           same_set good members bound (w, s) (cb_drop_tx (re_acks env) ack w2, s)))"
    and "fit m \<Longrightarrow> re_invoke env h m (w, t) = Some (b, (w', t')) \<Longrightarrow>
      (\<exists>h'. b = Ok h') \<and> same_set good members bound (w, s) (w', s)"
    and "same_set good members bound (w, s) (re_drop_handler env h w, s)"
    and "ipc_set_select (re_backend env) (re_sets env) (w, s) = Some (c, ws') \<Longrightarrow> c \<noteq> Panic \<and> good ws' \<and>
      (\<forall>rs. c = Ok rs \<longrightarrow> tidy fit wk rs \<and> (\<forall>res\<in>set (tl rs). discards env good members bound res))"
proof -
  note c = assms(1) [unfolded calm_def]
  note c1 = c [THEN conjunct1, rule_format, OF conjI, OF assms(2)]
    and c2 = c [THEN conjunct2, THEN conjunct1, rule_format, OF conjI, OF assms(2) conjI]
    and c3 = c [THEN conjunct2, THEN conjunct2, THEN conjunct1, rule_format]
    and c4 = c [THEN conjunct2, THEN conjunct2, THEN conjunct2, rule_format, OF conjI, OF assms(2)]
  show "same_set invar members bound (w, s) (w', s) \<and>
      (case msg of
         None \<Rightarrow> False
       | Some (AddRoute rx h) \<Rightarrow> (\<forall>a ws'.
           ipc_set_add_opaque (re_backend env) (re_sets env) rx (w', s) = Some (a, ws') \<longrightarrow> (\<exists>i. a = Ok i) \<and> good ws')
       | Some (Shutdown ack) \<Rightarrow> (\<exists>w2. cb_send (re_acks env) ack () w' = (True, w2) \<and>
           same_set good members bound (w, s) (cb_drop_tx (re_acks env) ack w2, s)))"
    if "cb_recv (re_msgs env) n w = Some (msg, w')"
    using c1 [OF that] .
  show "(\<exists>h'. b = Ok h') \<and> same_set good members bound (w, s) (w', s)"
    if "fit m" "re_invoke env h m (w, t) = Some (b, (w', t'))"
    using c2 [OF that] .
  show "same_set good members bound (w, s) (re_drop_handler env h w, s)"
    using c3 [OF assms(2)] .
  show "c \<noteq> Panic \<and> good ws' \<and>
      (\<forall>rs. c = Ok rs \<longrightarrow> tidy fit wk rs \<and> (\<forall>res\<in>set (tl rs). discards env good members bound res))"
    if "ipc_set_select (re_backend env) (re_sets env) (w, s) = Some (c, ws')"
    using c4 [OF that] by blast
qed

text \<open>
  Between the events of one \<open>select\<close>: the events that are left are of receivers with a handler or of the
  wake-up channel, and no member of the set is without a handler once they are handled. (A handler may
  stay for a receiver that was closed: the notice is lost when it comes behind a request to shut down.)
\<close>

definition batch_ok ::
  "('w \<times> 'set ipc_receiver_set \<Rightarrow> bool) \<Rightarrow> ('w \<times> 'set ipc_receiver_set \<Rightarrow> u64 set)
     \<Rightarrow> ('w \<times> 'set ipc_receiver_set \<Rightarrow> u64) \<Rightarrow> (('op, 'shm) opaque_ipc_message \<Rightarrow> bool) \<Rightarrow> nat \<Rightarrow> u64
     \<Rightarrow> ('op, 'shm) ipc_selection_result list
     \<Rightarrow> ('w \<times> 't) \<times> ('set, 'h) router \<Rightarrow> bool" where
  "batch_ok good members bound fit n wk rs wr \<longleftrightarrow>
     (let r = snd wr; ws = get_router_set wr; X = insert wk (dom (handlers r)) in
      good ws \<and> msg_receiver r = n \<and> msg_wakeup_id r = wk \<and> handlers r wk = None \<and>
      report_ok X (map ipc_report rs) \<and> members ws \<subseteq> left_after X (map ipc_report rs) \<and>
      (\<forall>i\<in>X. i < bound ws) \<and> tidy fit wk rs)"

lemma batch_ok_iff:
  "batch_ok good members bound fit n wk rs ((w, t), r) \<longleftrightarrow>
     good (w, router_set r) \<and> msg_receiver r = n \<and> msg_wakeup_id r = wk \<and> handlers r wk = None \<and>
     report_ok (insert wk (dom (handlers r))) (map ipc_report rs) \<and>
     members (w, router_set r) \<subseteq> left_after (insert wk (dom (handlers r))) (map ipc_report rs) \<and>
     (\<forall>i\<in>insert wk (dom (handlers r)). i < bound (w, router_set r)) \<and> tidy fit wk rs"
  by (simp add: batch_ok_def Let_def get_router_set_def)

lemma batch_ok_same:
  assumes "batch_ok good members bound fit n wk rs ((w, t), r)"
    and "same_set good members bound (w, router_set r) (w', router_set r)"
  shows "batch_ok good members bound fit n wk rs ((w', t'), r)"
  using assms unfolding batch_ok_iff same_set_def by auto

lemma batch_ok_message:
  assumes "batch_ok good members bound fit n wk (MessageReceived i m # rs) ((w, t), r)"
  shows "batch_ok good members bound fit n wk rs ((w, t), r)"
    and "i \<noteq> wk \<Longrightarrow> \<exists>h. handlers r i = Some h" and "i \<noteq> wk \<Longrightarrow> fit m"
    and "i = wk \<Longrightarrow> msg_channels m = [] \<and> msg_regions m = []"
proof -
  have "i \<in> insert wk (dom (handlers r))" using assms by (simp add: batch_ok_iff)
  then show "i \<noteq> wk \<Longrightarrow> \<exists>h. handlers r i = Some h" by blast
qed (use assms in \<open>simp_all add: batch_ok_iff\<close>)

lemma batch_ok_closed:
  assumes "batch_ok good members bound fit n wk (IpcChannelClosed i # rs) ((w, t), r)"
  shows "\<exists>h. handlers r i = Some h"
    and "batch_ok good members bound fit n wk rs ((w, t), r\<lparr>handlers := (handlers r)(i := None)\<rparr>)"
proof -
  have i: "i \<noteq> wk" using assms by (simp add: batch_ok_iff)
  moreover have "i \<in> insert wk (dom (handlers r))" using assms i by (simp add: batch_ok_iff)
  ultimately show "\<exists>h. handlers r i = Some h" by blast
  have "insert wk (dom ((handlers r)(i := None))) = insert wk (dom (handlers r)) - {i}" using i by auto
  then show "batch_ok good members bound fit n wk rs ((w, t), r\<lparr>handlers := (handlers r)(i := None)\<rparr>)"
    using assms i i [symmetric] by (simp add: batch_ok_iff) blast
qed

lemma batch_ok_weaken:
  assumes "batch_ok good members bound fit n wk (rs @ qs) wr"
  shows "batch_ok good members bound fit n wk rs wr"
proof -
  have "tidy fit wk (rs @ qs) \<Longrightarrow> tidy fit wk rs" by (induction fit wk rs rule: tidy.induct) auto
  then show ?thesis using assms by (auto simp: batch_ok_def Let_def left_after_eq)
qed

text \<open>Between two calls of \<open>select\<close>: every member but the wake-up channel has a handler.\<close>

definition routes_ok ::
  "('w \<times> 'set ipc_receiver_set \<Rightarrow> bool) \<Rightarrow> ('w \<times> 'set ipc_receiver_set \<Rightarrow> u64 set)
     \<Rightarrow> ('w \<times> 'set ipc_receiver_set \<Rightarrow> u64) \<Rightarrow> nat \<Rightarrow> u64 \<Rightarrow> ('w \<times> 't) \<times> ('set, 'h) router \<Rightarrow> bool" where
  "routes_ok good members bound n wk wr \<longleftrightarrow>
     (let r = snd wr; ws = get_router_set wr in
      good ws \<and> msg_receiver r = n \<and> msg_wakeup_id r = wk \<and> handlers r wk = None \<and>
      members ws \<subseteq> insert wk (dom (handlers r)) \<and> (\<forall>i\<in>insert wk (dom (handlers r)). i < bound ws))"

lemma batch_ok_Nil: "batch_ok good members bound fit n wk [] wr \<longleftrightarrow> routes_ok good members bound n wk wr"
  unfolding batch_ok_def routes_ok_def Let_def by auto

locale router_loop = numbered_receiver_set invar members "ipc_set_add (re_backend env) (re_sets env)"
    "ipc_set_select (re_backend env) (re_sets env)" ipc_report bound
  for env :: "('w, 'tx, 'rx, 'op, 'shm, 'e, 'p, 'set, 'h) router_env"
    and invar :: "'w \<times> 'set ipc_receiver_set \<Rightarrow> bool" and members :: "'w \<times> 'set ipc_receiver_set \<Rightarrow> u64 set"
    and bound :: "'w \<times> 'set ipc_receiver_set \<Rightarrow> u64" +
  fixes good :: "'w \<times> 'set ipc_receiver_set \<Rightarrow> bool"
  assumes good_invar: "good ws \<Longrightarrow> invar ws"
begin

lemma register_route_ok:
  assumes b: "batch_ok invar members bound fit n wk rs ((w, t), r)"
    and law: "\<And>a ws'. ipc_set_add_opaque (re_backend env) (re_sets env) rx (w, router_set r) = Some (a, ws') \<Longrightarrow>
      (\<exists>i. a = Ok i) \<and> good ws'"
    and run: "register_route env rx h ((w, t), r) = Some (q, wr')"
  shows "q = Ok () \<and> batch_ok good members bound fit n wk rs wr'"
proof -
  let ?ws = "(w, router_set r)" and ?X = "insert wk (dom (handlers r))" and ?rep = "map ipc_report rs"
  obtain a w1 s1 where add: "ipc_set_add_opaque (re_backend env) (re_sets env) rx ?ws = Some (a, (w1, s1))"
    using run by (fastforce simp: register_route_def io_bind_eq_Some io_on_failure_eq_Some on_part_eq_Some
      io_unwrap_eq_Some get_router_set_def)
  then obtain i where i: "a = Ok i" and good1: "good (w1, s1)" using law by blast
  have inv: "invar ?ws" and bd: "\<forall>j\<in>?X. j < bound ?ws" and rep: "report_ok ?X ?rep"
    and old: "members ?ws \<subseteq> left_after ?X ?rep" "handlers r wk = None" "msg_receiver r = n" "msg_wakeup_id r = wk"
      "tidy fit wk rs"
    using b unfolding batch_ok_iff by blast+
  note new = add_Ok [OF inv add [unfolded i ipc_set_add_opaque_eq]]
    add_bound [OF inv add [unfolded i ipc_set_add_opaque_eq]]
  have "on_router_set (io_unwrap (ipc_set_add_opaque (re_backend env) (re_sets env) rx)) ((w, t), r) =
      Some (Ok i :: (_, 'p bincode_error) res, ((w1, t), r\<lparr>router_set := s1\<rparr>))"
    using add i by (simp add: io_unwrap_def on_part_def get_router_set_def put_router_set_def)
  with run have wr': "q = Ok ()" "wr' = ((w1, t), r\<lparr>router_set := s1, handlers := (handlers r)(i \<mapsto> h)\<rparr>)"
    by (auto simp: register_route_def on_self_def)
  have new_i: "i \<notin> ?X" using bd new(2) by (meson leD)
  then have "(i, True) \<notin> set ?rep"
    using report_ok_members [OF rep] by blast
  then have "left_after (insert i ?X) ?rep = insert i (left_after ?X ?rep)"
    by (auto simp: left_after_eq)
  then have "members (w1, s1) \<subseteq> left_after (insert i ?X) ?rep"
    using old(1) new(1) by auto
  moreover have "report_ok (insert i ?X) ?rep"
    by (rule report_ok_mono [OF rep subset_insertI])
  moreover have "\<forall>j\<in>insert i ?X. j < bound (w1, s1)"
  proof
    fix j assume "j \<in> insert i ?X"
    then consider "j = i" | "j < bound ?ws" using bd by blast
    then show "j < bound (w1, s1)" using new(2) by cases auto
  qed
  moreover have "insert wk (dom ((handlers r)(i \<mapsto> h))) = insert i ?X" by auto
  moreover have "((handlers r)(i \<mapsto> h)) wk = None" using old(2) new_i by auto
  ultimately show ?thesis
    unfolding wr' batch_ok_iff router.simps using good1 old by simp
qed

lemma confirm_shutdown_ok:
  assumes "cb_send (re_acks env) ack () w = (True, w2)"
  shows "confirm_shutdown env ack ((w, t), r) = Some (Ok (), ((cb_drop_tx (re_acks env) ack w2, t), r))"
  using assms by (simp add: confirm_shutdown_def on_world_def call_def cb_do_def)

lemma handle_wakeup_ok:
  assumes "calm env invar good members bound fit n wk" and b: "batch_ok good members bound fit n wk rs ((w, t), r)"
    and run: "handle_wakeup env ((w, t), r) = Some (q, wr')"
  shows "\<exists>stop. q = Ok stop \<and> batch_ok good members bound fit n wk rs wr'"
proof -
  have good: "good (w, router_set r)" and n: "msg_receiver r = n"
    using b unfolding batch_ok_iff by blast+
  obtain m w1 where recv: "cb_recv (re_msgs env) n w = Some (m, w1)"
    using run unfolding handle_wakeup_def next_router_msg_def
    by (auto simp: io_bind_eq_Some on_world_eq_Some call_blocking_eq_Some n)
  note law = calmD(1) [OF assms(1) good recv]
  then obtain msg where m: "m = Some msg" by (cases m) auto
  have next': "next_router_msg env ((w, t), r) = Some (Ok msg, ((w1, t), r))"
    using recv m n by (simp add: next_router_msg_def on_world_def call_blocking_def)
  show ?thesis
  proof (cases msg)
    case (AddRoute rx h)
    have b1: "batch_ok invar members bound fit n wk rs ((w1, t), r)"
      using b law unfolding batch_ok_iff same_set_def by auto
    from run next' AddRoute obtain q1 where
      "register_route env rx h ((w1, t), r) = Some (q1, wr')" "q1 = Ok () \<longrightarrow> q = Ok False"
      by (fastforce simp: handle_wakeup_def io_bind_eq_Some)
    moreover have "(\<exists>i. a = Ok i) \<and> good ws'"
      if "ipc_set_add_opaque (re_backend env) (re_sets env) rx (w1, router_set r) = Some (a, ws')" for a ws'
      using law that unfolding m AddRoute by (cases ws') simp
    ultimately show ?thesis using register_route_ok [OF b1] by blast
  next
    case (Shutdown ack)
    then obtain w2 where ack: "cb_send (re_acks env) ack () w1 = (True, w2)"
      and same: "same_set good members bound (w, router_set r) (cb_drop_tx (re_acks env) ack w2, router_set r)"
      using law by (auto simp: m)
    have "q = Ok True" "wr' = ((cb_drop_tx (re_acks env) ack w2, t), r)"
      using run next' confirm_shutdown_ok [OF ack, of t r] by (simp_all add: handle_wakeup_def Shutdown)
    then show ?thesis using batch_ok_same [OF b same, of t] by blast
  qed
qed

lemma handle_result_ok:
  assumes "calm env invar good members bound fit n wk"
    and b: "batch_ok good members bound fit n wk (res # rs) ((w, t), r)"
    and run: "handle_result env res ((w, t), r) = Some (q, wr')"
  shows "\<exists>stop. q = Ok stop \<and> batch_ok good members bound fit n wk rs wr'"
proof -
  have good: "good (w, router_set r)" and wk: "msg_wakeup_id r = wk"
    using b unfolding batch_ok_iff by blast+
  show ?thesis
  proof (cases res)
    case (MessageReceived i m)
    note later = batch_ok_message [OF b [unfolded MessageReceived]]
    show ?thesis
    proof (cases "i = wk")
      case True
      have drop: "on_world (drop_ipc_result (re_backend env) p res) wr = Some (Ok (), wr)" for p wr
        using later(4) [OF True]
        by (cases wr) (auto simp: MessageReceived drop_ipc_result_def drop_message_def lift_os_def on_world_def
          io_map_err_def io_finally_def)
      have "handle_result env res ((w, t), r) =
          io_finally (handle_wakeup env) (\<lambda>p. on_world (drop_ipc_result (re_backend env) p res)) ((w, t), r)"
        by (simp add: handle_result_def MessageReceived True wk)
      with run have "handle_wakeup env ((w, t), r) = Some (q, wr')"
        by (auto simp: io_finally_eq_Some drop)
      then show ?thesis using handle_wakeup_ok [OF assms(1) later(1)] by blast
    next
      case False
      then obtain h where h: "handlers r i = Some h" using later(2) by blast
      then have step: "handle_result env res ((w, t), r) = io_bind (on_world (re_invoke env h m)) (\<lambda>h'.
          io_bind (on_self (\<lambda>r. ((), r\<lparr>handlers := (handlers r)(i \<mapsto> h')\<rparr>))) (\<lambda>_. io_return False)) ((w, t), r)"
        by (simp add: handle_result_def MessageReceived False wk)
      obtain p w1 t1 where inv: "re_invoke env h m (w, t) = Some (p, (w1, t1))"
        using run [unfolded step] by (auto simp: io_bind_eq_Some on_world_eq_Some)
      then obtain h' where h': "p = Ok h'" and same: "same_set good members bound (w, router_set r) (w1, router_set r)"
        using calmD(2) [OF assms(1) good later(3) [OF False] inv] by blast
      have wr': "q = Ok False" "wr' = ((w1, t1), r\<lparr>handlers := (handlers r)(i \<mapsto> h')\<rparr>)"
        using run [unfolded step] inv h' by (auto simp: on_world_def on_self_def)
      have "dom ((handlers r)(i \<mapsto> h')) = dom (handlers r)" using h by auto
      with batch_ok_same [OF later(1) same, of t1] False show ?thesis
        unfolding batch_ok_iff wr' by (intro exI [of _ False]) (simp del: dom_fun_upd)
    qed
  next
    case (IpcChannelClosed i)
    note later = batch_ok_closed [OF b [unfolded IpcChannelClosed]]
    then obtain h where h: "handlers r i = Some h" by blast
    let ?r = "r\<lparr>handlers := (handlers r)(i := None)\<rparr>"
    have same: "same_set good members bound (w, router_set ?r) (re_drop_handler env h w, router_set ?r)"
      using calmD(3) [OF assms(1) good] by simp
    have "q = Ok False" "wr' = ((re_drop_handler env h w, t), ?r)"
      using run h by (auto simp: handle_result_def IpcChannelClosed drop_handler_def on_world_def on_self_def cb_do_def)
    then show ?thesis using batch_ok_same [OF later(2) same, of t] by blast
  qed
qed

lemma discard_rest_ok:
  assumes "\<forall>res\<in>set rs. discards env good members bound res" and "batch_ok good members bound fit n wk qs ((w, t), r)"
    and "drop_all (drop_ipc_result (re_backend env)) False rs (w, t) = Some (q, (w', t'))"
  shows "q = Ok () \<and> batch_ok good members bound fit n wk qs ((w', t'), r)"
  using assms
proof (induction rs arbitrary: w t q)
  case (Cons res rs)
  obtain p w1 t1 where drop: "drop_ipc_result (re_backend env) False res (w, t) = Some (p, (w1, t1))"
    using Cons.prems(3) by (fastforce simp: io_finally_eq_Some)
  have "good (w, router_set r)" using Cons.prems(2) by (simp add: batch_ok_iff)
  then have p: "p = Ok ()" and same: "same_set good members bound (w, router_set r) (w1, router_set r)"
    using Cons.prems(1) drop unfolding discards_def by (simp_all, blast+)
  then obtain q1 where "drop_all (drop_ipc_result (re_backend env)) False rs (w1, t1) = Some (q1, (w', t'))"
      "q = (if q1 = Panic then Panic else Ok ())"
    using Cons.prems(3) drop by (auto simp: io_finally_eq_Some)
  with Cons.IH [OF _ batch_ok_same [OF Cons.prems(2) same, of t1]] Cons.prems(1) show ?case by auto
qed simp

lemma handle_results_ok:
  assumes "calm env invar good members bound fit n wk" and "batch_ok good members bound fit n wk rs wr"
    and "\<forall>res\<in>set (tl rs). discards env good members bound res"
    and "handle_results env rs wr = Some (q, wr')"
  shows "q = Ok () \<and> routes_ok good members bound n wk wr'"
  using assms(2-)
proof (induction rs arbitrary: wr)
  case Nil
  then show ?case by (simp add: batch_ok_Nil)
next
  case (Cons res rs)
  obtain w t r where wr: "wr = ((w, t), r)" by (metis surj_pair)
  obtain p wr1 where 1: "handle_result env res wr = Some (p, wr1)"
    using Cons.prems(3) by (auto simp: io_bind_eq_Some io_on_failure_eq_Some)
  then obtain stop where p: "p = Ok stop" and b1: "batch_ok good members bound fit n wk rs wr1"
    using handle_result_ok [OF assms(1)] Cons.prems(1) unfolding wr by blast
  note on = io_on_failure_Ok [of "handle_result env res" wr stop wr1, OF 1 [unfolded p]]
  show ?case
  proof (cases stop)
    case True
    obtain w1 t1 r1 where wr1: "wr1 = ((w1, t1), r1)" by (metis surj_pair)
    from Cons.prems(3) on True obtain w2 t2 where
      "drop_all (drop_ipc_result (re_backend env)) False rs (w1, t1) = Some (q, (w2, t2))" "wr' = ((w2, t2), r1)"
      by (auto simp: wr1 on_world_eq_Some)
    with discard_rest_ok [OF _ b1 [unfolded wr1]] Cons.prems(2)
    show ?thesis using batch_ok_weaken [of good members bound fit n wk "[]" rs wr'] by (simp add: batch_ok_Nil)
  next
    case False
    then have "handle_results env rs wr1 = Some (q, wr')"
      using Cons.prems(3) on by simp
    then show ?thesis using Cons.IH [OF b1] Cons.prems(2) by (cases rs) auto
  qed
qed

lemma router_select_ok:
  assumes "calm env invar good members bound fit n wk" and b: "routes_ok good members bound n wk wr"
    and run: "router_select env wr = Some (q, wr')"
  shows "q \<noteq> Panic"
    and "q = Ok rs \<Longrightarrow> batch_ok good members bound fit n wk rs wr' \<and> (\<forall>res\<in>set (tl rs). discards env good members bound res)"
proof -
  obtain w t r where wr: "wr = ((w, t), r)" by (metis surj_pair)
  let ?X = "insert wk (dom (handlers r))"
  have good: "good (w, router_set r)" using b unfolding wr routes_ok_def get_router_set_def Let_def by simp
  obtain w1 s1 where sel: "ipc_set_select (re_backend env) (re_sets env) (w, router_set r) = Some (q, (w1, s1))"
    and wr': "wr' = ((w1, t), r\<lparr>router_set := s1\<rparr>)"
    using run by (auto simp: router_select_def on_part_eq_Some wr get_router_set_def put_router_set_def)
  note law = calmD(4) [OF assms(1) good sel]
  then show "q \<noteq> Panic" by blast
  assume q: "q = Ok rs"
  note facts = select_Ok [OF good_invar [OF good] sel [unfolded q]] select_bound [OF good_invar [OF good] sel [unfolded q]]
  have m: "members (w, router_set r) \<subseteq> ?X" "handlers r wk = None" "msg_receiver r = n"
      "msg_wakeup_id r = wk" "\<forall>i\<in>?X. i < bound (w, router_set r)"
    using b unfolding wr routes_ok_def get_router_set_def Let_def by simp_all
  have "report_ok ?X (map ipc_report rs)" using report_ok_mono [OF _ m(1)] facts by blast
  moreover have "members (w1, s1) \<subseteq> left_after ?X (map ipc_report rs)"
    using facts m(1) by (auto simp: left_after_eq)
  ultimately show "batch_ok good members bound fit n wk rs wr' \<and> (\<forall>res\<in>set (tl rs). discards env good members bound res)"
    using law facts q m unfolding wr' batch_ok_iff by simp
qed

lemma step_ok:
  assumes "calm env invar good members bound fit n wk" and "routes_ok good members bound n wk wr"
    and "router_select env wr = Some (Ok rs, wr1)" and "handle_results env rs wr1 = Some (q, wr2)"
  shows "q = Ok () \<and> routes_ok good members bound n wk wr2"
  using router_select_ok(2) [OF assms(1-3)] handle_results_ok [OF assms(1) _ _ assms(4)] by blast

lemma run_never_panics:
  assumes "calm env invar good members bound fit n wk" and "routes_ok good members bound n wk wr"
    and "router_run env wr = Some (q, wr')"
  shows "q = Ok ()"
proof -
  define P where "P e wr out \<longleftrightarrow> (e = env \<longrightarrow> routes_ok good members bound n wk wr \<longrightarrow> fst out = Ok ())"
    for e :: "('w, 'tx, 'rx, 'op, 'shm, 'e, 'p, 'set, 'h) router_env"
      and wr :: "('w, 'tx, 'rx, 'op, 'shm, 'set, 'h) router_world"
      and out :: "(unit, 'p bincode_error) res \<times> ('w, 'tx, 'rx, 'op, 'shm, 'set, 'h) router_world"
  have "P env wr (q, wr')"
  proof (rule router_run.raw_induct [OF _ assms(3), where P = P])
    fix loop :: "('w, 'tx, 'rx, 'op, 'shm, 'e, 'p, 'set, 'h) router_env \<Rightarrow> _" and e wr out
    assume IH: "\<And>e wr out. loop e wr = Some out \<Longrightarrow> P e wr out"
      and body: "Option.bind (router_select e wr) (\<lambda>(selected, wr').
        case selected of
          Ok results \<Rightarrow>
            Option.bind (handle_results e results wr') (\<lambda>(handled, wr'').
              case handled of Ok u \<Rightarrow> loop e wr'' | _ \<Rightarrow> Some (handled, wr''))
        | Err e \<Rightarrow> Some (Ok (), wr')
        | Panic \<Rightarrow> Some (Panic, wr')) = Some out"
    show "P e wr out"
      unfolding P_def
    proof (intro impI)
      assume e: "e = env" and ok: "routes_ok good members bound n wk wr"
      obtain sel wr1 where sel: "router_select env wr = Some (sel, wr1)"
        using body by (auto simp: e bind_eq_Some_conv)
      note s = router_select_ok [OF assms(1) ok sel]
      show "fst out = Ok ()"
      proof (cases sel)
        case (Ok rs)
        then obtain h wr2 where h: "handle_results env rs wr1 = Some (h, wr2)"
          using body sel by (auto simp: e bind_eq_Some_conv)
        note h_ok = step_ok [OF assms(1) ok sel [unfolded Ok] h]
        then have "loop env wr2 = Some out" using body sel Ok h by (simp add: e)
        then show ?thesis using IH [of env wr2 out] h_ok by (simp add: P_def)
      qed (use body sel s(1) e in auto)
    qed
  qed
  then show ?thesis using assms(2) by (simp add: P_def)
qed

end

section \<open>The back ends\<close>

definition ip_router_inv ::
  "('w, ip_sender, ip_receiver, ip_opaque, ip_shared_memory, channel_error, string, ip_receiver_set, 'h) router_env
     \<Rightarrow> 'w ip_crossbeam \<Rightarrow> 'w \<times> ip_receiver_set ipc_receiver_set \<Rightarrow> bool" where
  "ip_router_inv env cb ws \<longleftrightarrow>
     re_backend env = ip_backend cb \<and> re_sets env = ip_sets cb \<and> ip_set_ok (snd (inner_set ws))"

definition ip_member_ids :: "'w \<times> ip_receiver_set ipc_receiver_set \<Rightarrow> u64 set" where
  "ip_member_ids ws = set (receiver_ids (snd (inner_set ws)))"

definition ip_next_id :: "'w \<times> ip_receiver_set ipc_receiver_set \<Rightarrow> u64" where
  "ip_next_id ws = ip_incrementor (snd (inner_set ws))"

interpretation rli: numbered_receiver_set "ip_router_inv env cb" ip_member_ids
  "ipc_set_add (re_backend env) (re_sets env)" "ipc_set_select (re_backend env) (re_sets env)" ipc_report ip_next_id
proof (unfold_locales, goal_cases)
  case (1 s r i s')
  then show ?case
    using iis.wrapped.add_Ok [of s cb r i s'] by (simp add: ip_router_inv_def ip_member_ids_def ip_ipc_set)
next
  case (2 s r e s')
  then show ?case
    using iis.wrapped.add_Err [of s cb r e s'] by (simp add: ip_router_inv_def ip_member_ids_def ip_ipc_set)
next
  case (3 s rs s')
  then show ?case
    using iis.wrapped.select_Ok [of s cb rs s'] by (simp add: ip_router_inv_def ip_member_ids_def ip_ipc_set)
next
  case (4 s e s')
  then show ?case
    using iis.wrapped.select_Err [of s cb e s'] by (simp add: ip_router_inv_def ip_member_ids_def ip_ipc_set)
next
  case (5 s i)
  then show ?case
    using iis.wrapped.members_bound [of s i] by (simp add: ip_router_inv_def ip_member_ids_def ip_next_id_def)
next
  case (6 s r i s')
  then show ?case
    using iis.wrapped.add_bound [of s cb r i s'] by (simp add: ip_router_inv_def ip_next_id_def ip_ipc_set)
next
  case (7 s rs s')
  then show ?case
    using iis.wrapped.select_bound [of s cb rs s'] by (simp add: ip_router_inv_def ip_next_id_def ip_ipc_set)
qed

definition unix_router_inv ::
  "('w, os_ipc_sender, os_ipc_receiver, os_opaque_ipc_channel, os_ipc_shared_memory, unix_error, unix_error,
      unix_receiver_set, 'h) router_env
     \<Rightarrow> 'w unix_sys \<Rightarrow> usize \<Rightarrow> (os_ipc_sender \<Rightarrow> bool) \<Rightarrow> 'w mio \<Rightarrow> ('w \<Rightarrow> nat \<Rightarrow> (usize \<times> fd) set)
     \<Rightarrow> 'w \<times> unix_receiver_set ipc_receiver_set \<Rightarrow> bool" where
  "unix_router_inv env sys ssb shared mio reg ws \<longleftrightarrow>
     re_backend env = unix_backend sys ssb shared \<and> re_sets env = unix_sets sys ssb mio \<and>
     polls sys mio reg \<and> set_inv reg (inner_set ws)"

definition unix_member_ids :: "'w \<times> unix_receiver_set ipc_receiver_set \<Rightarrow> u64 set" where
  "unix_member_ids ws = set_ids (snd (inner_set ws))"

definition unix_next_id :: "'w \<times> unix_receiver_set ipc_receiver_set \<Rightarrow> u64" where
  "unix_next_id ws = incrementor (snd (inner_set ws))"

interpretation rlu: router_loop env "unix_router_inv env sys ssb shared mio reg" unix_member_ids unix_next_id
  "\<lambda>ws. unix_router_inv env sys ssb shared mio reg ws \<and> g ws"
proof (unfold_locales, goal_cases)
  case (1 s r i s')
  then show ?case
    using uis.wrapped.add_Ok [of sys mio reg s r i s'] by (simp add: unix_router_inv_def unix_member_ids_def unix_ipc_set)
next
  case (2 s r e s')
  then show ?case
    using uis.wrapped.add_Err [of sys mio reg s r e s'] by (simp add: unix_router_inv_def unix_member_ids_def unix_ipc_set)
next
  case (3 s rs s')
  then show ?case
    using uis.wrapped.select_Ok [of sys mio reg s ssb rs s'] by (simp add: unix_router_inv_def unix_member_ids_def unix_ipc_set)
next
  case (4 s e s')
  then show ?case
    using uis.wrapped.select_Err [of sys mio reg s ssb e s'] by (simp add: unix_router_inv_def unix_member_ids_def unix_ipc_set)
next
  case (5 s i)
  then show ?case
    using uis.wrapped.members_bound [of sys mio reg s i] by (simp add: unix_router_inv_def unix_member_ids_def unix_next_id_def)
next
  case (6 s r i s')
  then show ?case
    using uis.wrapped.add_bound [of sys mio reg s r i s'] by (simp add: unix_router_inv_def unix_next_id_def unix_ipc_set)
next
  case (7 s rs s')
  then show ?case
    using uis.wrapped.select_bound [of sys mio reg s ssb rs s'] by (simp add: unix_router_inv_def unix_next_id_def unix_ipc_set)
qed simp

text \<open>On Unix.\<close>

lemma unix_router_never_panics:
  assumes "calm env (unix_router_inv env sys ssb shared mio reg) (\<lambda>ws. unix_router_inv env sys ssb shared mio reg ws \<and> g ws)
      unix_member_ids unix_next_id fit n wk"
    and "routes_ok (\<lambda>ws. unix_router_inv env sys ssb shared mio reg ws \<and> g ws) unix_member_ids unix_next_id n wk wr"
  shows "router_run env wr \<noteq> Some (Panic, wr')"
  using rlu.run_never_panics [OF assms] by blast

section \<open>An undisturbed process, in-process\<close>

text \<open>
  What is asked of the process around a router of the in-process back end, in terms of the channels and
  the handlers alone. \<open>good w b\<close> describes the world when \<open>b\<close> identifiers are taken; \<open>wrx\<close> is the
  wake-up channel and \<open>n\<close> the channel of the router's messages.

  \<^item> The proxies keep a sender of both.
  \<^item> A message to the router is a receiver that was not consumed and is not the router's own, and an
    identifier is free for it; or it is a request to shut down, whose sender waits for the answer.
  \<^item> What comes from the wake-up channel is bare, what comes from others is \<open>fit\<close> for the handlers.
  \<^item> Handlers return when they get a \<open>fit\<close> message.
  \<^item> The world stays \<open>good\<close> when the router thread takes a message, answers a request, calls a handler
    or drops one, and drops the receiver of a channel that was closed.
\<close>

definition ip_undisturbed ::
  "('w, ip_sender, ip_receiver, ip_opaque, ip_shared_memory, channel_error, string, ip_receiver_set, 'h) router_env
     \<Rightarrow> 'w ip_crossbeam \<Rightarrow> ('w, channel_message) cb_view \<Rightarrow> ('w, (ip_receiver, 'h) router_msg) cb_view
     \<Rightarrow> ('w, unit) cb_view \<Rightarrow> ('w \<Rightarrow> u64 \<Rightarrow> bool) \<Rightarrow> ((ip_opaque, ip_shared_memory) opaque_ipc_message \<Rightarrow> bool)
     \<Rightarrow> nat \<Rightarrow> nat \<Rightarrow> bool" where
  "ip_undisturbed env cb v vm va good fit n wrx \<longleftrightarrow>
     cb_laws cb v \<and> cb_laws (re_msgs env) vm \<and> cb_laws (re_acks env) va \<and>
     (\<forall>w b. good w b \<longrightarrow> v_own v w wrx > 0 \<and> v_own vm w n > 0) \<and>
     (\<forall>w b rx h w'. good w b \<and> cb_recv (re_msgs env) n w = Some (Some (AddRoute rx h), w') \<longrightarrow>
        ip_rx (opaque_os_receiver rx) \<notin> {None, Some wrx} \<and> b \<noteq> -1 \<and> good w' (b + 1)) \<and>
     (\<forall>w b ack w' ok w2. good w b \<and> cb_recv (re_msgs env) n w = Some (Some (Shutdown ack), w') \<longrightarrow>
        v_rx va w' ack > 0 \<and>
        (cb_send (re_acks env) ack () w' = (ok, w2) \<longrightarrow> good (cb_drop_tx (re_acks env) ack w2) b)) \<and>
     (\<forall>w b is k r w'. good w b \<and> cb_select cb is w = Some ((k, r), w') \<longrightarrow> good w' b \<and>
        (\<forall>m. r = Some m \<longrightarrow>
          (if is ! k = wrx then cm_ports m = [] \<and> cm_shms m = [] else fit (opaque_message_new (ip_parts m))))) \<and>
     (\<forall>w b h m t q w' t'. good w b \<and> fit m \<and> re_invoke env h m (w, t) = Some (q, (w', t')) \<longrightarrow>
        (\<exists>h'. q = Ok h') \<and> good w' b) \<and>
     (\<forall>w b h. good w b \<longrightarrow> good (re_drop_handler env h w) b) \<and>
     (\<forall>w b i. good w b \<and> i \<noteq> wrx \<longrightarrow> good (cb_drop_rx cb i w) b)"

lemma ip_undisturbedD:
  assumes "ip_undisturbed env cb v vm va good fit n wrx"
  shows "cb_laws cb v" and "cb_laws (re_msgs env) vm" and "cb_laws (re_acks env) va"
    and "good w b \<Longrightarrow> v_own v w wrx > 0 \<and> v_own vm w n > 0"
    and "good w b \<Longrightarrow> cb_recv (re_msgs env) n w = Some (Some (AddRoute rx h), w') \<Longrightarrow>
      ip_rx (opaque_os_receiver rx) \<notin> {None, Some wrx} \<and> b \<noteq> -1 \<and> good w' (b + 1)"
    and "good w b \<Longrightarrow> cb_recv (re_msgs env) n w = Some (Some (Shutdown ack), w') \<Longrightarrow>
      v_rx va w' ack > 0 \<and>
      (cb_send (re_acks env) ack () w' = (ok, w2) \<longrightarrow> good (cb_drop_tx (re_acks env) ack w2) b)"
    and "good w b \<Longrightarrow> cb_select cb is w = Some ((k, r), w') \<Longrightarrow> good w' b \<and>
      (\<forall>m. r = Some m \<longrightarrow>
        (if is ! k = wrx then cm_ports m = [] \<and> cm_shms m = [] else fit (opaque_message_new (ip_parts m))))"
    and "good w b \<Longrightarrow> fit m \<Longrightarrow> re_invoke env h m (w, t) = Some (q, (w', t')) \<Longrightarrow> (\<exists>h'. q = Ok h') \<and> good w' b"
    and "good w b \<Longrightarrow> good (re_drop_handler env h w) b"
    and "good w b \<Longrightarrow> i \<noteq> wrx \<Longrightarrow> good (cb_drop_rx cb i w) b"
proof -
  note c1 = assms [unfolded ip_undisturbed_def]
  note c2 = c1 [THEN conjunct2] note c3 = c2 [THEN conjunct2] note c4 = c3 [THEN conjunct2]
  note c5 = c4 [THEN conjunct2] note c6 = c5 [THEN conjunct2] note c7 = c6 [THEN conjunct2]
  note c8 = c7 [THEN conjunct2] note c9 = c8 [THEN conjunct2]
  show "cb_laws cb v" "cb_laws (re_msgs env) vm" "cb_laws (re_acks env) va"
    by (fact c1 [THEN conjunct1] c2 [THEN conjunct1] c3 [THEN conjunct1])+
  assume g: "good w b"
  show "v_own v w wrx > 0 \<and> v_own vm w n > 0"
    using c4 [THEN conjunct1] g by blast
  show "ip_rx (opaque_os_receiver rx) \<notin> {None, Some wrx} \<and> b \<noteq> -1 \<and> good w' (b + 1)"
    if "cb_recv (re_msgs env) n w = Some (Some (AddRoute rx h), w')"
    using c5 [THEN conjunct1] g that by blast
  show "v_rx va w' ack > 0 \<and> (cb_send (re_acks env) ack () w' = (ok, w2) \<longrightarrow> good (cb_drop_tx (re_acks env) ack w2) b)"
    if "cb_recv (re_msgs env) n w = Some (Some (Shutdown ack), w')"
    using c6 [THEN conjunct1] g that by blast
  show "good w' b \<and> (\<forall>m. r = Some m \<longrightarrow>
      (if is ! k = wrx then cm_ports m = [] \<and> cm_shms m = [] else fit (opaque_message_new (ip_parts m))))"
    if "cb_select cb is w = Some ((k, r), w')"
    using c7 [THEN conjunct1] g that by blast
  show "(\<exists>h'. q = Ok h') \<and> good w' b" if "fit m" "re_invoke env h m (w, t) = Some (q, (w', t'))"
    using c8 [THEN conjunct1] g that by blast
  show "good (re_drop_handler env h w) b"
    using c9 [THEN conjunct1] g by blast
  show "good (cb_drop_rx cb i w) b" if "i \<noteq> wrx"
    using c9 [THEN conjunct2] g that by blast
qed

text \<open>The router's set: no receiver in it is consumed, and the member \<open>wk\<close> is the wake-up channel, and no other.\<close>

definition ip_routed :: "('w \<Rightarrow> u64 \<Rightarrow> bool) \<Rightarrow> u64 \<Rightarrow> nat \<Rightarrow> 'w \<times> ip_receiver_set ipc_receiver_set \<Rightarrow> bool" where
  "ip_routed good wk wrx ws \<longleftrightarrow>
     (let s = snd (inner_set ws) in
      good (fst ws) (ip_incrementor s) \<and> None \<notin> ip_rx ` set (receivers s) \<and> wk \<in> set (receiver_ids s) \<and>
      (\<forall>(i, r)\<in>set (zip (receiver_ids s) (receivers s)). i = wk \<longleftrightarrow> ip_rx r = Some wrx))"

definition ip_calm_set ::
  "('w, ip_sender, ip_receiver, ip_opaque, ip_shared_memory, channel_error, string, ip_receiver_set, 'h) router_env
     \<Rightarrow> 'w ip_crossbeam \<Rightarrow> ('w \<Rightarrow> u64 \<Rightarrow> bool) \<Rightarrow> u64 \<Rightarrow> nat \<Rightarrow> 'w \<times> ip_receiver_set ipc_receiver_set \<Rightarrow> bool" where
  "ip_calm_set env cb good wk wrx ws \<longleftrightarrow> ip_router_inv env cb ws \<and> ip_routed good wk wrx ws"

interpretation rlc: router_loop env "ip_router_inv env cb" ip_member_ids ip_next_id "ip_calm_set env cb good wk wrx"
  by unfold_locales (simp add: ip_calm_set_def)

lemma ip_calm_set_iff:
  "ip_calm_set env cb good wk wrx (w, s) \<longleftrightarrow>
     re_backend env = ip_backend cb \<and> re_sets env = ip_sets cb \<and> ip_set_ok (os_receiver_set s) \<and>
     good w (ip_incrementor (os_receiver_set s)) \<and> None \<notin> ip_rx ` set (receivers (os_receiver_set s)) \<and>
     wk \<in> set (receiver_ids (os_receiver_set s)) \<and>
     (\<forall>(i, r)\<in>set (zip (receiver_ids (os_receiver_set s)) (receivers (os_receiver_set s))).
        i = wk \<longleftrightarrow> ip_rx r = Some wrx)"
  by (auto simp: ip_calm_set_def ip_router_inv_def ip_routed_def inner_set_def Let_def)

lemma ip_calm_set_world:
  assumes "ip_calm_set env cb good wk wrx (w, s)" and "good w' (ip_incrementor (os_receiver_set s))"
  shows "same_set (ip_calm_set env cb good wk wrx) ip_member_ids ip_next_id (w, s) (w', s)"
  using assms by (auto simp: same_set_def ip_calm_set_iff ip_member_ids_def ip_next_id_def inner_set_def)

text \<open>Adding a receiver.\<close>

lemma ip_calm_add:
  assumes "ip_calm_set env cb good wk wrx (w, s)"
    and rx: "ip_rx (opaque_os_receiver rx) \<notin> {None, Some wrx}" and b: "ip_incrementor (os_receiver_set s) \<noteq> -1"
    and good: "good w' (ip_incrementor (os_receiver_set s) + 1)"
    and run: "ipc_set_add_opaque (re_backend env) (re_sets env) rx (w', s) = Some (a, ws')"
  shows "(\<exists>i. a = Ok i) \<and> ip_calm_set env cb good wk wrx ws'"
proof -
  let ?s = "os_receiver_set s" and ?rx = "opaque_os_receiver rx"
  let ?i = "ip_incrementor ?s"
  let ?s' = "?s\<lparr>ip_incrementor := ?i + 1, receiver_ids := receiver_ids ?s @ [?i],
      receivers := receivers ?s @ [fst (ip_consume ?rx)]\<rparr>"
  have env: "re_backend env = ip_backend cb" "re_sets env = ip_sets cb" and ok: "ip_set_ok ?s"
    using assms(1) by (simp_all add: ip_calm_set_iff)
  have add: "ip_set_add cb ?rx (w', ?s) = Some (Ok ?i, (w', ?s'))"
    using b by (simp add: ip_set_add_def Let_def)
  then have a: "a = Ok ?i" "ws' = (w', s\<lparr>os_receiver_set := ?s'\<rparr>)"
    using run unfolding ipc_set_add_opaque_eq env ip_ipc_set
    by (auto simp: opaque_receiver_to_def on_part_def inner_set_def put_inner_def io_map_err_def)
  have "ip_set_ok ?s'" and new: "?i \<notin> set (receiver_ids ?s)"
    using ips.add_Ok [of "(w', ?s)" cb ?rx ?i "(w', ?s')"] ok add by simp_all
  moreover have "?i \<noteq> wk" using assms(1) new by (auto simp: ip_calm_set_iff)
  moreover have "ip_rx (fst (ip_consume ?rx)) = ip_rx ?rx" by (simp add: ip_consume_def)
  moreover have "length (receiver_ids ?s) = length (receivers ?s)" using ok by (simp add: ip_set_ok_def)
  ultimately show ?thesis
    using assms(1) rx good unfolding a ip_calm_set_iff
    by auto
qed

text \<open>Waiting for events: one member is reported, and it is not the wake-up channel that was closed.\<close>

lemma set_zip_remove_at:
  "length xs = length ys \<Longrightarrow> set (zip (remove_at k xs) (remove_at k ys)) \<subseteq> set (zip xs ys)"
  by (auto simp: remove_at_def zip_append take_zip [symmetric] drop_zip [symmetric] dest: in_set_takeD in_set_dropD)

lemma ip_calm_selected:
  assumes undisturbed: "ip_undisturbed env cb v vm va good fit n wrx"
    and calm: "ip_calm_set env cb good wk wrx (w, s)" and s: "os_receiver_set s = os"
    and k: "k < length (receivers os)"
    and select: "cb_select cb (map (the \<circ> ip_rx) (receivers os)) w = Some ((k, r), w2)"
    and selected: "ip_selected cb os k r w2 = (res, (w1, s1))" and ok: "ip_set_ok s1"
  shows "ip_calm_set env cb good wk wrx (w1, s\<lparr>os_receiver_set := s1\<rparr>) \<and> tidy fit wk [to_ipc_result res]"
proof -
  note u = ip_undisturbedD [OF undisturbed]
  have good: "good w (ip_incrementor os)" using calm s by (simp add: ip_calm_set_iff)
  note sel = u(7) [OF good select]
  then have good2: "good w2 (ip_incrementor os)" by blast
  have len: "length (receiver_ids os) = length (receivers os)" and none: "None \<notin> ip_rx ` set (receivers os)"
    and wk: "wk \<in> set (receiver_ids os)"
    using calm s by (auto simp: ip_calm_set_iff ip_set_ok_def)
  have "(receiver_ids os ! k, receivers os ! k) \<in> set (zip (receiver_ids os) (receivers os))"
    using k len by (metis in_set_zip fst_conv snd_conv)
  moreover obtain j where j: "ip_rx (receivers os ! k) = Some j"
    using none k by (metis image_eqI nth_mem not_Some_eq)
  ultimately have id: "receiver_ids os ! k = wk \<longleftrightarrow> j = wrx" using calm s by (auto simp: ip_calm_set_iff)
  show ?thesis
  proof (cases r)
    case None
    then have "j \<noteq> wrx" using cb_lawsD(9) [OF u(1) select] u(4) [OF good] k j by auto
    then have "good w1 (ip_incrementor os)" "receiver_ids os ! k \<noteq> wk"
      using selected u(10) [OF good2, of j] id None j by (auto simp: ip_selected_def)
    moreover have "s1 = os\<lparr>receivers := remove_at k (receivers os), receiver_ids := remove_at k (receiver_ids os)\<rparr>"
      "res = ChannelClosed (receiver_ids os ! k)" using selected None by (auto simp: ip_selected_def)
    moreover have "set (receiver_ids s1) = set (receiver_ids os) - {receiver_ids os ! k}"
      using remove_at_distinct(2) [of "receiver_ids os" k] calm s k len calculation(3)
      by (simp add: ip_calm_set_iff ip_set_ok_def)
    moreover have "set (remove_at k (receivers os)) \<subseteq> set (receivers os)"
      by (auto simp: remove_at_def dest: in_set_takeD in_set_dropD)
    ultimately show ?thesis
      using calm s ok wk none set_zip_remove_at [OF len, of k] unfolding ip_calm_set_iff by auto
  next
    case (Some m)
    then have "w1 = w2" "s1 = os"
      "res = DataReceived (receiver_ids os ! k) (cm_data m) (map ip_opaque_new (cm_ports m)) (cm_shms m)"
      using selected by (auto simp: ip_selected_def)
    with calm s good2 sel Some id j k ok show ?thesis
      by (auto simp: ip_calm_set_iff opaque_message_new_def ip_parts_def)
  qed
qed

lemma ip_calm_select:
  assumes undisturbed: "ip_undisturbed env cb v vm va good fit n wrx"
    and calm: "ip_calm_set env cb good wk wrx (w, s)"
    and run: "ipc_set_select (re_backend env) (re_sets env) (w, s) = Some (q, ws')"
  shows "\<exists>res. q = Ok [res] \<and> ip_calm_set env cb good wk wrx ws' \<and> tidy fit wk [res]"
proof -
  let ?s = "os_receiver_set s"
  have env: "re_backend env = ip_backend cb" "re_sets env = ip_sets cb" and ok: "ip_set_ok ?s"
    and none: "None \<notin> ip_rx ` set (receivers ?s)" and wk: "wk \<in> set (receiver_ids ?s)"
    using calm by (simp_all add: ip_calm_set_iff)
  have len: "length (receiver_ids ?s) = length (receivers ?s)" using ok by (simp add: ip_set_ok_def)
  have ne: "receivers ?s \<noteq> []" using wk len by auto
  obtain p w1 s1 where sel: "ip_select cb (w, ?s) = Some (p, (w1, s1))"
    using run unfolding env ip_ipc_set by (force simp: on_part_eq_Some inner_set_def io_bind_eq_Some io_map_err_eq_Some)
  then obtain k r w2 where cs: "cb_select cb (map (the \<circ> ip_rx) (receivers ?s)) w = Some ((k, r), w2)"
    using ne none by (auto simp: ip_select_def io_bind_eq_Some on_world_eq_Some call_blocking_eq_Some split: if_splits)
  from cb_lawsD(9) [OF ip_undisturbedD(1) [OF undisturbed] cs] have k: "k < length (receivers ?s)" by simp
  obtain res where res: "ip_selected cb ?s k r w2 = (res, (w1, s1))" "p = Ok [res]"
    using ip_select_run [OF none len k cs] sel by (auto split: prod.splits)
  have "ip_set_ok s1" using ip_select_inv [OF ok sel] res(2) by simp
  moreover have "q = Ok [to_ipc_result res]" "ws' = (w1, s\<lparr>os_receiver_set := s1\<rparr>)"
    using run sel res(2) unfolding env ip_ipc_set
    by (auto simp: on_part_def inner_set_def put_inner_def io_map_err_def)
  ultimately show ?thesis using ip_calm_selected [OF undisturbed calm refl k cs res(1)] by simp
qed

lemma ip_calm:
  assumes u: "ip_undisturbed env cb v vm va good fit n wrx"
  shows "calm env (ip_router_inv env cb) (ip_calm_set env cb good wk wrx) ip_member_ids ip_next_id fit n wk"
proof -
  note d = ip_undisturbedD [OF u]
  show ?thesis
    unfolding calm_def
  proof (intro conjI allI impI, goal_cases)
    case (1 w s m w')
    then show ?case by (auto simp: same_set_def ip_calm_set_def ip_router_inv_def ip_member_ids_def ip_next_id_def inner_set_def)
  next
    case (2 w s m w')
    then have good: "good w (ip_incrementor (os_receiver_set s))" by (simp add: ip_calm_set_iff)
    obtain msg where m: "m = Some msg" using 2 cb_lawsD(6) [OF d(2)] d(4) [OF good] by blast
    with 2 have recv: "cb_recv (re_msgs env) n w = Some (Some msg, w')" by simp
    show ?case
    proof (cases msg)
      case (AddRoute rx h)
      note add = d(5) [OF good recv [unfolded AddRoute]]
      show ?thesis using ip_calm_add [OF 2 [THEN conjunct1], of rx w'] add by (simp add: m AddRoute)
    next
      case (Shutdown ack)
      note ack = d(6) [OF good recv [unfolded Shutdown]]
      then obtain w2 where send: "cb_send (re_acks env) ack () w' = (True, w2)" using cb_lawsD(2) [OF d(3), of ack "()" w'] by auto
      with ack have "good (cb_drop_tx (re_acks env) ack w2) (ip_incrementor (os_receiver_set s))" by blast
      with send ip_calm_set_world [OF 2 [THEN conjunct1]] show ?thesis by (simp add: m Shutdown)
    qed
  next
    case (3 w s h m t q w' t')
    then show ?case using d(8) [of w _ m h t q w' t'] unfolding ip_calm_set_iff by blast
  next
    case (4 w s h m t q w' t')
    then show ?case using d(8) [of w _ m h t q w' t'] ip_calm_set_world [of env cb good wk wrx w s w']
      unfolding ip_calm_set_iff by blast
  next
    case (5 w s h)
    then show ?case using d(9) [of w _ h] ip_calm_set_world [of env cb good wk wrx w s] unfolding ip_calm_set_iff by blast
  qed (use ip_calm_select [OF u] in fastforce)+
qed

definition ip_router_ready ::
  "('w, ip_sender, ip_receiver, ip_opaque, ip_shared_memory, channel_error, string, ip_receiver_set, 'h) router_env
     \<Rightarrow> 'w ip_crossbeam \<Rightarrow> ('w \<Rightarrow> u64 \<Rightarrow> bool) \<Rightarrow> nat \<Rightarrow> u64 \<Rightarrow> nat
     \<Rightarrow> ('w \<times> 't) \<times> (ip_receiver_set, 'h) router \<Rightarrow> bool" where
  "ip_router_ready env cb good n wk wrx wr \<longleftrightarrow>
     routes_ok (ip_calm_set env cb good wk wrx) ip_member_ids ip_next_id n wk wr"

section \<open>Leaving the loop\<close>

lemma router_run_Ok:
  fixes env :: "('a, 'b, 'c, 'd, 'e, 'f, 'g, 'h, 'i) router_env"
  assumes "router_run env wr = Some (Ok (), wr')"
  shows "\<exists>wr0 e. router_select env wr0 = Some (Err e, wr')"
proof -
  define P where "P e wr out \<longleftrightarrow> (fst out = Ok () \<longrightarrow> (\<exists>wr0 err. router_select e wr0 = Some (Err err, snd out)))"
    for e :: "('a, 'b, 'c, 'd, 'e, 'f, 'g, 'h, 'i) router_env"
      and wr :: "('a, 'b, 'c, 'd, 'e, 'h, 'i) router_world"
      and out :: "(unit, 'g bincode_error) res \<times> ('a, 'b, 'c, 'd, 'e, 'h, 'i) router_world"
  have "P env wr (Ok (), wr')"
  proof (rule router_run.raw_induct [OF _ assms, where P = P])
    fix loop :: "('a, 'b, 'c, 'd, 'e, 'f, 'g, 'h, 'i) router_env \<Rightarrow> _" and e wr out
    assume IH: "\<And>e wr out. loop e wr = Some out \<Longrightarrow> P e wr out"
      and body: "Option.bind (router_select e wr) (\<lambda>(selected, wr').
        case selected of
          Ok results \<Rightarrow>
            Option.bind (handle_results e results wr') (\<lambda>(handled, wr'').
              case handled of Ok u \<Rightarrow> loop e wr'' | _ \<Rightarrow> Some (handled, wr''))
        | Err e \<Rightarrow> Some (Ok (), wr')
        | Panic \<Rightarrow> Some (Panic, wr')) = Some out"
    then obtain sel wr1 where sel: "router_select e wr = Some (sel, wr1)"
      by (auto simp: bind_eq_Some_conv)
    show "P e wr out"
    proof (cases sel)
      case (Ok rs)
      then obtain h wr2 where "handle_results e rs wr1 = Some (h, wr2)"
          "(case h of Ok u \<Rightarrow> loop e wr2 | _ \<Rightarrow> Some (h, wr2)) = Some out"
        using body sel by (auto simp: bind_eq_Some_conv)
      then show ?thesis using IH [of e wr2 out] by (cases h) (auto simp: P_def)
    next
      case (Err err)
      then have "out = (Ok (), wr1)" using body sel by simp
      then show ?thesis unfolding P_def using sel [unfolded Err] by (metis snd_conv)
    next
      case Panic
      then show ?thesis using body sel by (auto simp: P_def)
    qed
  qed
  then show ?thesis by (simp add: P_def)
qed

section \<open>Properties\<close>

text \<open>C9: The router thread never panics while the process around it behaves: the proxies keep their ends of
  its two channels, what they send is a receiver that can be added or a request to shut down whose sender
  waits for the answer, and handlers return. From a state in which every member of the set but the
  wake-up channel has a handler, \<open>select\<close> does not fail, everything that it reports is handled, be it a
  message, a closed channel, a new route or a request to shut down, and the thread comes back to
  such a state; so the loop does not panic. This is for the in-process back end.\<close>

theorem router_never_panics:
  assumes "ip_undisturbed env cb v vm va good fit n wrx" and "ip_router_ready env cb good n wk wrx wr"
  shows "router_run env wr \<noteq> Some (Panic, wr') \<and>
    (\<forall>q wr1. router_select env wr = Some (q, wr1) \<longrightarrow>
      (\<exists>rs. q = Ok rs \<and>
        (\<forall>p wr2. handle_results env rs wr1 = Some (p, wr2) \<longrightarrow> p = Ok () \<and> ip_router_ready env cb good n wk wrx wr2)))"
proof (intro conjI allI impI)
  note calm = ip_calm [OF assms(1), of wk] and ready = assms(2) [unfolded ip_router_ready_def]
  show "router_run env wr \<noteq> Some (Panic, wr')"
    using rlc.run_never_panics [OF calm ready] by blast
  fix q wr1 assume sel: "router_select env wr = Some (q, wr1)"
  obtain w t r where wr: "wr = ((w, t), r)" by (metis surj_pair)
  obtain ws' where "ipc_set_select (re_backend env) (re_sets env) (w, router_set r) = Some (q, ws')"
    using sel by (auto simp: wr router_select_def on_part_eq_Some get_router_set_def)
  moreover have "ip_calm_set env cb good wk wrx (w, router_set r)"
    using ready by (simp add: wr routes_ok_def get_router_set_def Let_def)
  ultimately obtain res where q: "q = Ok [res]" using ip_calm_select [OF assms(1)] by blast
  show "\<exists>rs. q = Ok rs \<and>
      (\<forall>p wr2. handle_results env rs wr1 = Some (p, wr2) \<longrightarrow> p = Ok () \<and> ip_router_ready env cb good n wk wrx wr2)"
    using rlc.step_ok [OF calm ready sel [unfolded q]] q unfolding ip_router_ready_def by blast
qed

text \<open>C32: \<open>shutdown\<close> does not end the router thread. Its message is acknowledged, but that leaves only the loop over
  the current events: the events that came with it are dropped without a call of their handlers, and the
  thread goes on as before, with all handlers. It ends only when \<open>select\<close> fails.\<close>

theorem shutdown_does_not_stop:
  assumes "router_select env wr = Some (Ok (MessageReceived (msg_wakeup_id r) m # rest), ((w, t), r))"
    and "cb_recv (re_msgs env) (msg_receiver r) w = Some (Some (Shutdown ack), w1)"
    and "cb_send (re_acks env) ack () w1 = (True, w2)"
    and "drop_ipc_result (re_backend env) False (MessageReceived (msg_wakeup_id r) m)
      (cb_drop_tx (re_acks env) ack w2, t) = Some (Ok (), (w3, t))"
    and "drop_all (drop_ipc_result (re_backend env)) False rest (w3, t) = Some (Ok (), (w4, t))"
  shows "router_run env wr = router_run env ((w4, t), r) \<and>
    (\<forall>wr'. router_run env wr = Some (Ok (), wr') \<longrightarrow> (\<exists>wr0 e. router_select env wr0 = Some (Err e, wr')))"
proof
  let ?res = "MessageReceived (msg_wakeup_id r) m"
  have "handle_wakeup env ((w, t), r) = Some (Ok True, ((cb_drop_tx (re_acks env) ack w2, t), r))"
    using assms(2,3) by (simp add: handle_wakeup_def next_router_msg_def confirm_shutdown_def on_world_def
      call_blocking_def call_def cb_do_def)
  then have "handle_result env ?res ((w, t), r) = Some (Ok True, ((w3, t), r))"
    using assms(4) by (simp add: handle_result_def io_finally_def on_world_def)
  from io_on_failure_Ok [of "handle_result env ?res", OF this]
  have "handle_results env (?res # rest) ((w, t), r) = Some (Ok (), ((w4, t), r))"
    using assms(5) by (simp add: on_world_def)
  then show "router_run env wr = router_run env ((w4, t), r)"
    using assms(1) by (subst router_run.simps) (simp del: handle_results.simps)
  show "\<forall>wr'. router_run env wr = Some (Ok (), wr') \<longrightarrow> (\<exists>wr0 e. router_select env wr0 = Some (Err e, wr'))"
    using router_run_Ok by blast
qed

text \<open>When the proxies are gone, the router thread does not end but panics: the wake-up channel is reported
  closed, and it has no handler.\<close>

theorem router_wakeup_closed_panics:
  assumes "router_select env wr = Some (Ok (IpcChannelClosed (msg_wakeup_id r) # rest), (wt, r))"
    and "handlers r (msg_wakeup_id r) = None" and "router_run env wr = Some (q, wr')"
  shows "q = Panic"
proof -
  have "handle_result env (IpcChannelClosed (msg_wakeup_id r)) (wt, r) = Some (Panic, (wt, r))"
    using assms(2) by (simp add: handle_result_def)
  then have h: "p = Panic" if "handle_results env (IpcChannelClosed (msg_wakeup_id r) # rest) (wt, r) = Some (p, wr1)" for p wr1
    using that by (auto simp: io_bind_eq_Some io_on_failure_eq_Some split: if_splits)
  have "router_run env wr = Option.bind (handle_results env (IpcChannelClosed (msg_wakeup_id r) # rest) (wt, r))
      (\<lambda>(handled, wr''). case handled of Ok u \<Rightarrow> router_run env wr'' | _ \<Rightarrow> Some (handled, wr''))"
    using assms(1) by (subst router_run.simps) (simp del: handle_results.simps)
  with assms(3) obtain p wr1 where
    p: "handle_results env (IpcChannelClosed (msg_wakeup_id r) # rest) (wt, r) = Some (p, wr1)"
      "(case p of Ok u \<Rightarrow> router_run env wr1 | _ \<Rightarrow> Some (p, wr1)) = Some (q, wr')"
    by (auto simp: bind_eq_Some_conv simp del: handle_results.simps)
  with h [OF p(1)] show ?thesis by simp
qed

text \<open>C21: A route to a \<open>crossbeam\<close> channel delivers. When a message that carries a value comes in for a route that was
  made by \<open>route_ipc_receiver_to_crossbeam_sender\<close>, the value is appended to that channel, and the router's
  routes and the thread's vectors stay as they are.\<close>

theorem routed_value_arrives:
  fixes cbt :: "('w, 'a) crossbeam" and cb :: "'w ip_crossbeam"
  assumes "re_backend env = ip_backend cb" and "bincode_ok (re_bincode env)" and "serde_ok ser des"
    and "boxes_crossbeam_handler env des cbt boxed" and "cb_laws cbt v"
    and "handlers r i = Some (boxed tx)" and "i \<noteq> msg_wakeup_id r" and "v_rx v w tx > 0"
  shows "\<exists>w'. handle_results env
      [MessageReceived i (opaque_message_new (ip_parts (value_message cb (re_bincode env) (ser x))))] ((w, t), r) =
      Some (Ok (), ((w', t), r)) \<and> v_queue v w' tx = v_queue v w tx @ [x]"
proof -
  let ?m = "opaque_message_new (ip_parts (value_message cb (re_bincode env) (ser x)))"
  obtain w' where send: "cb_send cbt tx x w = (True, w')" "v_queue v w' = (v_queue v w)(tx := v_queue v w tx @ [x])"
    using cb_lawsD(2) [OF assms(5), of tx x w] assms(8) by auto
  have "message_to (ip_backend cb) (re_bincode env) des ?m (w, t) = Some (Ok x, (w, t))"
    by (rule value_message_to [OF assms(2,3)])
  then have "crossbeam_handler (ip_backend cb) (re_bincode env) des cbt tx ?m (w, t) = Some (Ok (), (w', t))"
    using send(1) by (simp add: crossbeam_handler_def io_unwrap_def on_world_def call_def)
  then have "re_invoke env (boxed tx) ?m (w, t) = Some (Ok (boxed tx), (w', t))"
    using assms(1,4) by (simp add: boxes_crossbeam_handler_def)
  moreover have "r\<lparr>handlers := (handlers r)(i \<mapsto> boxed tx)\<rparr> = r"
    using assms(6) by (simp add: fun_upd_idem)
  ultimately have "handle_result env (MessageReceived i ?m) ((w, t), r) = Some (Ok False, ((w', t), r))"
    using assms(6,7) by (simp add: handle_result_def on_world_def on_self_def)
  from io_on_failure_Ok [of "handle_result env (MessageReceived i ?m)", OF this] send(2) show ?thesis
    by (intro exI [of _ w']) simp
qed

text \<open>C31: Shutting down is final and idempotent. After a \<open>shutdown\<close> that returned, another one does nothing, and
  \<open>add_route\<close> sends nothing to the router: it drops the receiver and the handler.\<close>

theorem proxy_shutdown_final:
  assumes "shutdown env wp = Some (Ok (), (wt, p))"
  shows "shutdown env (wt', p) = Some (Ok (), (wt', p)) \<and>
    (drop_route env False rx h (wt', p) = Some (Ok (), (wt2, p)) \<longrightarrow>
      add_route env rx h (wt', p) = Some (Ok (), (wt2, p)))"
proof -
  obtain wt0 p0 where wp: "wp = (wt0, p0)" by (metis surj_pair)
  have np: "\<not> lock_poisoned p0" using assms by (auto simp: wp shutdown_def locked_def io_finally_eq_Some split: if_splits)
  have wake: "p'' = p'" if "wake_up env (u, p') = Some (q, (u', p''))" for q u u' p' p''
    using that by (auto simp: wake_up_def on_world_eq_Some)
  have "is_shutdown p \<and> \<not> lock_poisoned p"
  proof (cases "is_shutdown p0")
    case True
    then show ?thesis using assms np by (auto simp: wp shutdown_def locked_def)
  next
    case False
    then show ?thesis
      using assms np
      by (auto simp: wp shutdown_def locked_def io_finally_eq_Some io_bind_eq_Some io_match_eq_Some on_world_eq_Some
        on_self_eq_Some call_blocking_eq_Some cb_do_eq_Some call_eq_Some split: if_splits option.splits dest!: wake)
  qed
  then show ?thesis by (auto simp: shutdown_def add_route_def locked_def)
qed

section \<open>Examples\<close>

text \<open>A process with one route: the wake-up channel is channel 0 and member 0 of the set, the route is channel 1
  and member 1, with a message that waits. The handler forwards bytes to a channel of its own.\<close>

record rt_world =
  rt_chans :: "channel_message cb_world"
  rt_msgs :: "(ip_receiver, nat) router_msg cb_world"
  rt_acks :: "unit cb_world"
  rt_bytes :: "ip_sender ipc_sender cb_world"

definition rt_cb :: "rt_world ip_crossbeam" where
  "rt_cb = cb_on rt_chans (\<lambda>s w. w\<lparr>rt_chans := s\<rparr>) s_crossbeam"

definition rt_out :: "(rt_world, ip_sender ipc_sender) crossbeam" where
  "rt_out = cb_on rt_bytes (\<lambda>s w. w\<lparr>rt_bytes := s\<rparr>) s_crossbeam"

type_synonym rt_env =
  "(rt_world, ip_sender, ip_receiver, ip_opaque, ip_shared_memory, channel_error, string, ip_receiver_set, nat) router_env"

definition rt_env :: rt_env where
  "rt_env =
     \<lparr>re_backend = ip_backend rt_cb, re_sets = ip_sets rt_cb, re_bincode = bincode_le,
      re_msgs = cb_on rt_msgs (\<lambda>s w. w\<lparr>rt_msgs := s\<rparr>) s_crossbeam,
      re_acks = cb_on rt_acks (\<lambda>s w. w\<lparr>rt_acks := s\<rparr>) s_crossbeam,
      re_invoke = (\<lambda>h m. io_bind (crossbeam_handler (ip_backend rt_cb) bincode_le de_ipc_sender rt_out h m)
        (\<lambda>_. io_return h)),
      re_drop_handler = (\<lambda>h w. w)\<rparr>"

definition rt_value :: channel_message where
  "rt_value = value_message rt_cb bincode_le (ser_ipc_sender \<lparr>os_sender = \<lparr>ip_tx = 9\<rparr>\<rparr>)"

definition rt_start :: rt_world where
  "rt_start =
     \<lparr>rt_chans = cb_init\<lparr>w_queue := (\<lambda>_. [])(1 := [rt_value]), w_tx := \<lambda>_. 1, w_rx := \<lambda>_. 1\<rparr>,
      rt_msgs = cb_init\<lparr>w_tx := \<lambda>_. 1, w_rx := \<lambda>_. 1\<rparr>, rt_acks = cb_init\<lparr>w_tx := \<lambda>_. 1, w_rx := \<lambda>_. 1\<rparr>,
      rt_bytes = cb_init\<lparr>w_rx := \<lambda>_. 1\<rparr>\<rparr>"

definition rt_set :: "ip_receiver_set ipc_receiver_set" where
  "rt_set = \<lparr>os_receiver_set = \<lparr>ip_incrementor = 2, receiver_ids = [0, 1],
     receivers = [\<lparr>ip_rx = Some 0\<rparr>, \<lparr>ip_rx = Some 1\<rparr>]\<rparr>\<rparr>"

definition rt_router :: "(ip_receiver_set, nat) router" where
  "rt_router = \<lparr>msg_receiver = 0, msg_wakeup_id = 0, router_set = rt_set, handlers = [1 \<mapsto> 5]\<rparr>"

lemma rt_serde: "serde_ok (ser_ipc_sender :: ip_sender ipc_sender \<Rightarrow> (ip_sender, ip_receiver, ip_shared_memory) ser_step list) de_ipc_sender"
  by (simp add: serde_ok_def ser_ipc_sender_def de_ipc_sender_def)

lemma rt_invoke:
  assumes "re_invoke rt_env h (opaque_message_new (ip_parts rt_value)) (w, t) = Some (q, (w', t'))"
  shows "q = Ok h \<and> rt_chans w' = rt_chans w \<and> rt_msgs w' = rt_msgs w \<and> rt_acks w' = rt_acks w"
proof -
  have "message_to (ip_backend rt_cb) bincode_le de_ipc_sender (opaque_message_new (ip_parts rt_value)) (w, t) =
      Some (Ok \<lparr>os_sender = \<lparr>ip_tx = 9\<rparr>\<rparr>, (w, t))"
    unfolding rt_value_def by (rule value_message_to [OF bincode_le_ok rt_serde])
  moreover obtain ok w2 where send: "cb_send rt_out h \<lparr>os_sender = \<lparr>ip_tx = 9\<rparr>\<rparr> w = (ok, w2)"
      "rt_chans w2 = rt_chans w" "rt_msgs w2 = rt_msgs w" "rt_acks w2 = rt_acks w"
    by (cases "cb_send s_crossbeam h \<lparr>os_sender = \<lparr>ip_tx = 9\<rparr>\<rparr> (rt_bytes w)") (simp add: rt_out_def cb_on_def)
  ultimately have "crossbeam_handler (ip_backend rt_cb) bincode_le de_ipc_sender rt_out h
      (opaque_message_new (ip_parts rt_value)) (w, t) = Some (Ok (), (w2, t))"
    by (simp add: crossbeam_handler_def io_unwrap_def on_world_def call_def)
  with assms send show ?thesis by (simp add: rt_env_def)
qed

text \<open>A wake-up with a request to shut down behind it, and a wake-up channel without senders.\<close>

definition rt_wake :: rt_world where
  "rt_wake = rt_start\<lparr>
     rt_chans := cb_init\<lparr>w_queue := (\<lambda>_. [])(0 := [\<lparr>cm_data = [], cm_ports = [], cm_shms = []\<rparr>]), w_tx := \<lambda>_. 1\<rparr>,
     rt_msgs := (rt_msgs rt_start)\<lparr>w_queue := (\<lambda>_. [])(0 := [Shutdown 0])\<rparr>\<rparr>"

definition rt_woken :: rt_world where
  "rt_woken = rt_wake\<lparr>rt_chans := s_take 0 [] (rt_chans rt_wake)\<rparr>"

definition rt_gone :: rt_world where
  "rt_gone = rt_start\<lparr>rt_chans := cb_init\<rparr>"

lemma rt_cb_simps:
  "cb_select rt_cb is w = map_option (\<lambda>(x, s). (x, w\<lparr>rt_chans := s\<rparr>)) (s_select 0 is (rt_chans w))"
  "cb_drop_rx rt_cb i w = w\<lparr>rt_chans := cb_drop_rx s_crossbeam i (rt_chans w)\<rparr>"
  by (simp_all add: rt_cb_def cb_on_def s_crossbeam_def)

lemmas rt_run_defs = router_select_def on_part_def get_router_set_def put_router_set_def
  inner_set_def put_inner_def io_map_err_def ip_select_def rt_set_def on_world_def on_self_def call_blocking_def
  rt_cb_simps cb_on_def s_crossbeam_def s_recv_def s_try_def rt_start_def cb_init_def s_take_def Let_def ip_parts_def
  ip_drop_receiver_def cb_do_def remove_at_def

lemma rt_env_simps:
  "re_backend rt_env = ip_backend rt_cb" "re_sets rt_env = ip_sets rt_cb" "re_bincode rt_env = bincode_le"
  "re_msgs rt_env = cb_on rt_msgs (\<lambda>s w. w\<lparr>rt_msgs := s\<rparr>) s_crossbeam"
  "re_acks rt_env = cb_on rt_acks (\<lambda>s w. w\<lparr>rt_acks := s\<rparr>) s_crossbeam"
  "ipc_set_select (ip_backend rt_cb) (ip_sets rt_cb) = on_part inner_set put_inner
     (io_bind (io_map_err channel_to_io (ip_select rt_cb)) (\<lambda>rs. io_return (map to_ipc_result rs)))"
  by (simp_all add: rt_env_def ip_ipc_set)

text \<open>
  A process in which a route is added and then the router is shut down: two wake-ups wait, and behind them
  the two messages; a message for the route waits as well.
\<close>

definition rt_bare :: channel_message where
  "rt_bare = \<lparr>cm_data = [], cm_ports = [], cm_shms = []\<rparr>"

definition rt_busy :: rt_world where
  "rt_busy = rt_start\<lparr>
     rt_chans := cb_init\<lparr>w_queue := (\<lambda>_. [])(0 := [rt_bare, rt_bare], 1 := [rt_value]), w_tx := \<lambda>_. 1, w_rx := \<lambda>_. 1\<rparr>,
     rt_msgs := (rt_msgs rt_start)\<lparr>w_queue := (\<lambda>_. [])(0 := [AddRoute \<lparr>opaque_os_receiver = \<lparr>ip_rx = Some 1\<rparr>\<rparr> 5, Shutdown 0])\<rparr>\<rparr>"

definition rt_fresh :: "(ip_receiver_set, nat) router" where
  "rt_fresh = \<lparr>msg_receiver = 0, msg_wakeup_id = 0, router_set = \<lparr>os_receiver_set =
     \<lparr>ip_incrementor = 1, receiver_ids = [0], receivers = [\<lparr>ip_rx = Some 0\<rparr>]\<rparr>\<rparr>, handlers = (\<lambda>_. None)\<rparr>"

definition rt_msg :: "nat \<Rightarrow> channel_message" where
  "rt_msg i = (if i = 0 then rt_bare else rt_value)"

definition rt_fit_msg :: "(nat \<Rightarrow> nat) \<Rightarrow> (ip_receiver, nat) router_msg \<Rightarrow> bool" where
  "rt_fit_msg waiting m =
     (case m of
        AddRoute rx h \<Rightarrow> ip_rx (opaque_os_receiver rx) \<notin> {None, Some 0}
      | Shutdown ack \<Rightarrow> waiting ack > 0)"

definition rt_fine :: "rt_world \<Rightarrow> u64 \<Rightarrow> bool" where
  "rt_fine w b \<longleftrightarrow>
     w_tx (rt_chans w) 0 > 0 \<and> w_tx (rt_msgs w) 0 > 0 \<and>
     (\<forall>i. \<forall>m\<in>set (w_queue (rt_chans w) i). m = rt_msg i) \<and>
     (\<forall>m\<in>set (w_queue (rt_msgs w) 0). rt_fit_msg (w_rx (rt_acks w)) m) \<and>
     unat b + length (w_queue (rt_msgs w) 0) < 2 ^ 64 - 1"

lemma rt_fine_recv:
  assumes "rt_fine w b" and "cb_recv (re_msgs rt_env) 0 w = Some (Some m, w')"
  obtains ms where "w_queue (rt_msgs w) 0 = m # ms" "w' = w\<lparr>rt_msgs := s_take 0 ms (rt_msgs w)\<rparr>"
  using assms by (auto simp: rt_env_simps cb_on_def s_crossbeam_def s_recv_def s_try_def split: list.splits if_splits)

lemma rt_fine_add:
  assumes "rt_fine w b" and "cb_recv (re_msgs rt_env) 0 w = Some (Some (AddRoute rx h), w')"
  shows "ip_rx (opaque_os_receiver rx) \<notin> {None, Some 0} \<and> b \<noteq> -1 \<and> rt_fine w' (b + 1)"
proof -
  obtain ms where q: "w_queue (rt_msgs w) 0 = AddRoute rx h # ms" "w' = w\<lparr>rt_msgs := s_take 0 ms (rt_msgs w)\<rparr>"
    by (rule rt_fine_recv [OF assms])
  then have "unat b + Suc (length ms) < 2 ^ 64 - 1" using assms(1) by (simp add: rt_fine_def)
  moreover from this have "b \<noteq> -1" by (auto simp: unsigned_minus_1_eq_mask mask_eq_exp_minus_1)
  moreover from calculation have "unat (b + 1) = Suc (unat b)" by (metis unatSuc add.commute add.inverse_inverse add_eq_0_iff)
  ultimately show ?thesis using assms(1) q by (auto simp: rt_fine_def rt_fit_msg_def s_take_def)
qed

lemma rt_fine_select:
  assumes "rt_fine w b" and "cb_select rt_cb is w = Some ((k, r), w')"
  shows "rt_fine w' b \<and> (\<forall>m. r = Some m \<longrightarrow> m = rt_msg (is ! k))"
proof -
  obtain s1 where s1: "s_recv (is ! k) (rt_chans w) = Some (r, s1)" "w' = w\<lparr>rt_chans := s1\<rparr>"
    using assms(2) s_select_Some [of 0 "is" "rt_chans w" k r] by (auto simp: rt_cb_simps)
  then show ?thesis
    using assms(1) by (auto simp: rt_fine_def s_recv_def s_try_def s_take_def split: list.splits if_splits)
qed

lemma rt_undisturbed:
  "ip_undisturbed rt_env rt_cb (view_on rt_chans s_view) (view_on rt_msgs s_view) (view_on rt_acks s_view) rt_fine
     (\<lambda>m. m = opaque_message_new (ip_parts rt_value)) 0 0"
  unfolding ip_undisturbed_def
proof (intro conjI allI impI, goal_cases)
  case 1
  show ?case unfolding rt_cb_def by (rule cb_on_laws [OF s_laws]) simp
next
  case 2
  show ?case unfolding rt_env_simps by (rule cb_on_laws [OF s_laws]) simp
next
  case 3
  show ?case unfolding rt_env_simps by (rule cb_on_laws [OF s_laws]) simp
next
  case (4 w b)
  then show ?case by (simp add: rt_fine_def view_on_def s_view_def)
next
  case (5 w b)
  then show ?case by (simp add: rt_fine_def view_on_def s_view_def)
next
  case (9 w b ack w' ok w2)
  then obtain ms where "w_queue (rt_msgs w) 0 = Shutdown ack # ms" "w' = w\<lparr>rt_msgs := s_take 0 ms (rt_msgs w)\<rparr>"
    using rt_fine_recv by blast
  with 9 show ?case by (simp add: rt_fine_def rt_fit_msg_def view_on_def s_view_def)
next
  case (10 w b ack w' ok w2)
  then obtain ms where "w_queue (rt_msgs w) 0 = Shutdown ack # ms" "w' = w\<lparr>rt_msgs := s_take 0 ms (rt_msgs w)\<rparr>"
    using rt_fine_recv by blast
  moreover have "rt_fine w b" "cb_send (re_acks rt_env) ack () w' = (ok, w2)" using 10 by blast+
  ultimately show ?case
    by (auto simp: rt_fine_def rt_env_simps cb_on_def s_crossbeam_def s_take_def split: if_splits)
next
  case (11 w b "is" k r w')
  then show ?case using rt_fine_select by blast
next
  case (12 w b "is" k r w' m)
  then have "m = rt_msg (is ! k)" using rt_fine_select by blast
  then show ?case by (simp add: rt_msg_def rt_bare_def)
next
  case (13 w b h m t q w' t')
  then show ?case using rt_invoke by blast
next
  case (14 w b h m t q w' t')
  then have "rt_chans w' = rt_chans w \<and> rt_msgs w' = rt_msgs w \<and> rt_acks w' = rt_acks w" using rt_invoke by blast
  then show ?case using 14 by (simp add: rt_fine_def)
next
  case (15 w b h)
  then show ?case by (simp add: rt_env_def)
next
  case (16 w b i)
  then show ?case by (simp add: rt_fine_def rt_cb_simps s_crossbeam_def)
qed (use rt_fine_add in blast)+

definition rt_event :: "(ip_opaque, ip_shared_memory) ipc_selection_result" where
  "rt_event = MessageReceived 0 \<lparr>msg_data = [], msg_channels = [], msg_regions = []\<rparr>"

lemma rt_drop_event: "drop_ipc_result be p rt_event wt = Some (Ok (), wt)"
  by (cases wt) (simp add: rt_event_def drop_ipc_result_def drop_message_def lift_os_def on_world_def io_map_err_def
    io_finally_def)

lemma rt_wakeup_event:
  assumes "handle_wakeup env ((w, t), r) = Some (Ok stop, ((w', t), r'))" and "msg_wakeup_id r = 0"
  shows "handle_results env [rt_event] ((w, t), r) = Some (Ok (), ((w', t), r'))"
proof -
  have "handle_result env rt_event ((w, t), r) = Some (Ok stop, ((w', t), r'))"
    using assms rt_drop_event [unfolded rt_event_def, of "re_backend env" False "(w', t)"]
    by (simp add: rt_event_def handle_result_def io_finally_def on_world_def)
  from io_on_failure_Ok [of "handle_result env rt_event", OF this] show ?thesis by (simp add: on_world_def)
qed

lemma rt_next_msg:
  assumes "w_queue (rt_msgs w) 0 = m # ms" and "msg_receiver r = 0"
  shows "next_router_msg rt_env ((w, t), r) = Some (Ok m, ((w\<lparr>rt_msgs := s_take 0 ms (rt_msgs w)\<rparr>, t), r))"
  using assms by (simp add: next_router_msg_def on_world_def call_blocking_def rt_env_simps cb_on_def s_crossbeam_def
    s_recv_def s_try_def)

lemma rt_ready: "ip_router_ready rt_env rt_cb rt_fine 0 0 0 ((rt_busy, no_vectors), rt_fresh)"
proof -
  have "rt_fine rt_busy 1"
    by (simp add: rt_fine_def rt_busy_def rt_msg_def rt_fit_msg_def rt_start_def cb_init_def)
  then show ?thesis
    by (simp add: ip_router_ready_def routes_ok_def get_router_set_def ip_calm_set_iff ip_member_ids_def
      ip_next_id_def inner_set_def rt_fresh_def rt_env_simps ip_set_ok_def)
qed

definition rt_one :: rt_world where
  "rt_one = rt_busy\<lparr>rt_chans := s_take 0 [rt_bare] (rt_chans rt_busy)\<rparr>"

definition rt_two :: rt_world where
  "rt_two = rt_one\<lparr>rt_msgs := s_take 0 [Shutdown 0] (rt_msgs rt_busy)\<rparr>"

lemma rt_first: "router_select rt_env ((rt_busy, no_vectors), rt_fresh) = Some (Ok [rt_event], ((rt_one, no_vectors), rt_fresh))"
  by (simp add: rt_run_defs rt_env_simps rt_busy_def rt_one_def rt_fresh_def rt_event_def rt_bare_def)

lemma rt_added: "handle_results rt_env [rt_event] ((rt_one, no_vectors), rt_fresh) = Some (Ok (), ((rt_two, no_vectors), rt_router))"
proof (rule rt_wakeup_event)
  have "next_router_msg rt_env ((rt_one, no_vectors), rt_fresh) =
      Some (Ok (AddRoute \<lparr>opaque_os_receiver = \<lparr>ip_rx = Some 1\<rparr>\<rparr> 5), ((rt_two, no_vectors), rt_fresh))"
    using rt_next_msg [of rt_one _ "[Shutdown 0]" rt_fresh no_vectors]
    by (simp add: rt_one_def rt_two_def rt_busy_def rt_fresh_def)
  moreover have "register_route rt_env \<lparr>opaque_os_receiver = \<lparr>ip_rx = Some 1\<rparr>\<rparr> 5 ((rt_two, no_vectors), rt_fresh) =
      Some (Ok (), ((rt_two, no_vectors), rt_router))"
    by (simp add: register_route_def io_on_failure_def io_unwrap_def on_part_def get_router_set_def put_router_set_def
      ipc_set_add_opaque_eq rt_env_simps ip_ipc_set inner_set_def put_inner_def io_map_err_def ip_set_add_def
      opaque_receiver_to_def rt_fresh_def rt_router_def rt_set_def ip_consume_def on_self_def Let_def io_bind_def io_match_def)
  ultimately show "handle_wakeup rt_env ((rt_one, no_vectors), rt_fresh) = Some (Ok False, ((rt_two, no_vectors), rt_router))"
    by (simp add: handle_wakeup_def)
qed (simp add: rt_fresh_def)

definition rt_three :: rt_world where
  "rt_three = rt_two\<lparr>rt_chans := s_take 0 [] (rt_chans rt_two)\<rparr>"

lemma rt_second: "router_select rt_env ((rt_two, no_vectors), rt_router) = Some (Ok [rt_event], ((rt_three, no_vectors), rt_router))"
  by (simp add: rt_run_defs rt_env_simps rt_busy_def rt_one_def rt_two_def rt_three_def rt_router_def rt_event_def rt_bare_def)

theorem router_never_panics_witness:
  "\<exists>wr4.
    router_select rt_env ((rt_busy, no_vectors), rt_fresh) = Some (Ok [rt_event], ((rt_one, no_vectors), rt_fresh)) \<and>
    handle_results rt_env [rt_event] ((rt_one, no_vectors), rt_fresh) = Some (Ok (), ((rt_two, no_vectors), rt_router)) \<and>
    router_select rt_env ((rt_two, no_vectors), rt_router) = Some (Ok [rt_event], ((rt_three, no_vectors), rt_router)) \<and>
    handle_results rt_env [rt_event] ((rt_three, no_vectors), rt_router) = Some (Ok (), wr4) \<and>
    w_queue (rt_acks (fst (fst wr4))) 0 = [()] \<and>
    ip_router_ready rt_env rt_cb rt_fine 0 0 0 wr4 \<and>
    router_run rt_env ((rt_busy, no_vectors), rt_fresh) \<noteq> Some (Panic, wr4)"
proof -
  note never = router_never_panics [OF rt_undisturbed]
  have ready2: "ip_router_ready rt_env rt_cb rt_fine 0 0 0 ((rt_two, no_vectors), rt_router)"
    using never [OF rt_ready] rt_first rt_added by (metis res.inject(1))
  have "next_router_msg rt_env ((rt_three, no_vectors), rt_router) =
      Some (Ok (Shutdown 0), ((rt_three\<lparr>rt_msgs := s_take 0 [] (rt_msgs rt_three)\<rparr>, no_vectors), rt_router))"
    by (rule rt_next_msg) (simp_all add: rt_three_def rt_two_def rt_one_def rt_busy_def rt_router_def s_take_def)
  then obtain w4 where "handle_wakeup rt_env ((rt_three, no_vectors), rt_router) = Some (Ok True, ((w4, no_vectors), rt_router))"
      and ack: "w_queue (rt_acks w4) 0 = [()]"
    by (simp add: handle_wakeup_def confirm_shutdown_def on_world_def call_def cb_do_def rt_env_simps cb_on_def s_crossbeam_def
      rt_three_def rt_two_def rt_one_def rt_busy_def rt_start_def s_take_def cb_init_def)
  then have last: "handle_results rt_env [rt_event] ((rt_three, no_vectors), rt_router) = Some (Ok (), ((w4, no_vectors), rt_router))"
    by (intro rt_wakeup_event) (simp_all add: rt_router_def)
  moreover have "ip_router_ready rt_env rt_cb rt_fine 0 0 0 ((w4, no_vectors), rt_router)"
    using never [OF ready2] rt_second last by (metis res.inject(1))
  ultimately show ?thesis
    using rt_first rt_added rt_second ack never [OF rt_ready, THEN conjunct1]
    by (intro exI [of _ "((w4, no_vectors), rt_router)"] conjI) (assumption | simp)+
qed

theorem shutdown_does_not_stop_witness:
  "\<exists>w4. router_run rt_env ((rt_wake, no_vectors), rt_router) = router_run rt_env ((w4, no_vectors), rt_router)"
proof -
  have "router_select rt_env ((rt_wake, no_vectors), rt_router) =
      Some (Ok (MessageReceived (msg_wakeup_id rt_router) \<lparr>msg_data = [], msg_channels = [], msg_regions = []\<rparr> # []),
        ((rt_woken, no_vectors), rt_router))"
    by (simp add: rt_run_defs rt_env_simps rt_wake_def rt_woken_def rt_router_def)
  moreover have "cb_recv (re_msgs rt_env) (msg_receiver rt_router) rt_woken =
      Some (Some (Shutdown 0), rt_woken\<lparr>rt_msgs := s_take 0 [] (rt_msgs rt_woken)\<rparr>)"
    by (simp add: rt_run_defs rt_env_simps rt_wake_def rt_woken_def rt_router_def)
  moreover obtain w2 where "cb_send (re_acks rt_env) 0 () (rt_woken\<lparr>rt_msgs := s_take 0 [] (rt_msgs rt_woken)\<rparr>) = (True, w2)"
    by (simp add: rt_run_defs rt_env_simps rt_wake_def rt_woken_def)
  moreover have "drop_ipc_result (re_backend rt_env) False
      (MessageReceived i \<lparr>msg_data = [], msg_channels = [], msg_regions = []\<rparr>) wt = Some (Ok (), wt)" for i wt
    by (cases wt) (simp add: drop_ipc_result_def drop_message_def lift_os_def on_world_def io_map_err_def io_finally_def)
  ultimately show ?thesis
    using shutdown_does_not_stop [of rt_env "((rt_wake, no_vectors), rt_router)" rt_router
      "\<lparr>msg_data = [], msg_channels = [], msg_regions = []\<rparr>" "[]" rt_woken no_vectors 0 _ w2]
    by (metis drop_all.simps(1) io_run(1))
qed

theorem router_wakeup_closed_panics_witness:
  "\<exists>wr'. router_run rt_env ((rt_gone, no_vectors), rt_router) = Some (Panic, wr')"
proof -
  obtain wr1 where sel: "router_select rt_env ((rt_gone, no_vectors), rt_router) =
      Some (Ok [IpcChannelClosed 0], wr1)" and r: "msg_wakeup_id (snd wr1) = 0" "handlers (snd wr1) 0 = None"
    by (simp add: rt_run_defs rt_env_simps rt_gone_def rt_router_def)
  obtain wt r where wr1: "wr1 = (wt, r)" by (metis surj_pair)
  have "handle_results rt_env [IpcChannelClosed 0] wr1 = Some (Panic, wr1)"
    using r by (simp add: wr1 handle_result_def io_on_failure_def io_finally_def on_world_def io_bind_def io_match_def
      split: prod.splits)
  then have run: "router_run rt_env ((rt_gone, no_vectors), rt_router) = Some (Panic, wr1)"
    using sel by (subst router_run.simps) (simp del: handle_results.simps)
  with router_wakeup_closed_panics [of rt_env _ r "[]" wt, OF _ _ run] sel r show ?thesis
    by (simp add: wr1)
qed

theorem routed_value_arrives_witness:
  "\<exists>w'. handle_results rt_env
      [MessageReceived 1 (opaque_message_new (ip_parts (value_message rt_cb (re_bincode rt_env)
         (ser_ipc_sender \<lparr>os_sender = \<lparr>ip_tx = 9\<rparr>\<rparr>))))] ((rt_start, no_vectors), rt_router) =
      Some (Ok (), ((w', no_vectors), rt_router)) \<and>
    w_queue (rt_bytes w') 5 = [\<lparr>os_sender = \<lparr>ip_tx = 9\<rparr>\<rparr>]"
proof -
  have "boxes_crossbeam_handler rt_env de_ipc_sender rt_out (\<lambda>n. n)"
    by (simp add: boxes_crossbeam_handler_def rt_env_def)
  moreover have "cb_laws rt_out (view_on rt_bytes s_view)"
    unfolding rt_out_def by (rule cb_on_laws [OF s_laws]) simp
  ultimately show ?thesis
    using routed_value_arrives [of rt_env rt_cb ser_ipc_sender de_ipc_sender rt_out "\<lambda>n. n" "view_on rt_bytes s_view"
      rt_router 1 5 rt_start "\<lparr>os_sender = \<lparr>ip_tx = 9\<rparr>\<rparr>" no_vectors] bincode_le_ok rt_serde
    by (simp add: rt_env_simps rt_router_def view_on_def s_view_def rt_start_def cb_init_def del: handle_results.simps)
qed

text \<open>A router that acknowledges at once.\<close>

definition rt_prompt :: rt_env where
  "rt_prompt = rt_env\<lparr>re_acks := (re_acks rt_env)\<lparr>cb_recv := \<lambda>i w. Some (Some (), w)\<rparr>\<rparr>"

definition rt_proxy :: "ip_sender router_proxy" where
  "rt_proxy = \<lparr>msg_sender = 0, wakeup_sender = \<lparr>os_sender = \<lparr>ip_tx = 0\<rparr>\<rparr>, is_shutdown = False, lock_poisoned = False\<rparr>"

theorem proxy_shutdown_final_witness:
  "\<exists>wt p. shutdown rt_prompt ((rt_start, no_vectors), rt_proxy) = Some (Ok (), (wt, p)) \<and>
     shutdown rt_prompt (wt, p) = Some (Ok (), (wt, p))"
proof -
  obtain wt p where run: "shutdown rt_prompt ((rt_start, no_vectors), rt_proxy) = Some (Ok (), (wt, p))"
    by (simp add: shutdown_def locked_def rt_proxy_def wake_up_def sender_send_def ser_unit_def rt_prompt_def
      rt_env_simps on_world_def on_self_def lift_os_def io_map_err_def ip_send_def call_def call_blocking_def
      rt_start_def cb_init_def rt_cb_def cb_on_def s_crossbeam_def s_take_def io_finally_def cb_do_def no_vectors_def
      io_on_failure_def io_bind_def io_match_def)
  then show ?thesis using proxy_shutdown_final [OF run, of wt] by blast
qed

end
