(* ===== verification/Asynch.thy ===== *)
theory Asynch
  imports Router
begin

text \<open>
  Streams from IPC receivers (\<open>src/src/asynch.rs\<close>): one thread per process waits on a receiver set and passes
  each message on to the stream of its receiver, over the unbounded channels of \<open>futures::channel::mpsc\<close>.
\<close>

section \<open>Unbounded channels\<close>

text \<open>A parameter of the model, like the channels of \<open>crossbeam\<close>.\<close>

datatype 'm next_item = Item 'm | NoMore | NotYet

datatype 'a poll = Ready 'a | Pending

record ('w, 'm) mpsc =
  mp_unbounded :: "'w \<Rightarrow> nat \<times> 'w"
  mp_send :: "nat \<Rightarrow> 'm \<Rightarrow> 'w \<Rightarrow> bool \<times> 'w"  \<comment> \<open>\<open>False\<close>: the receiver is gone\<close>
  mp_try_next :: "nat \<Rightarrow> 'w \<Rightarrow> 'm next_item \<times> 'w"
  mp_is_terminated :: "nat \<Rightarrow> 'w \<Rightarrow> bool"
  mp_poll_next :: "nat \<Rightarrow> 'w \<Rightarrow> 'm option poll \<times> 'w"
  mp_drop_tx :: "nat \<Rightarrow> 'w \<Rightarrow> 'w"
  mp_drop_rx :: "nat \<Rightarrow> 'w \<Rightarrow> 'w"

text \<open>
  Documented behaviour: \<open>queue\<close> is what waits in a channel, \<open>opened\<close> the channels whose receiver is there. The
  channels live in the process: \<open>part\<close> is what they leave alone.
\<close>

definition mp_laws ::
  "('w, 'm) mpsc \<Rightarrow> ('w \<Rightarrow> nat \<Rightarrow> 'm list) \<Rightarrow> ('w \<Rightarrow> nat \<Rightarrow> bool) \<Rightarrow> ('w \<Rightarrow> 'k) \<Rightarrow> bool" where
  "mp_laws mp queue opened part \<longleftrightarrow>
     (\<forall>i m w. opened w i \<longrightarrow> (\<exists>w'. mp_send mp i m w = (True, w') \<and>
        queue w' = (queue w)(i := queue w i @ [m]) \<and> opened w' = opened w \<and> part w' = part w)) \<and>
     (\<forall>i w w'. w' = mp_drop_tx mp i w \<longrightarrow> queue w' = queue w \<and> opened w' = opened w \<and> part w' = part w) \<and>
     (\<forall>i w m ms. queue w i = m # ms \<longrightarrow>
        (\<exists>w'. mp_poll_next mp i w = (Ready (Some m), w') \<and> queue w' = (queue w)(i := ms)))"

lemma mp_lawsD:
  assumes "mp_laws mp queue opened part"
  shows "opened w i \<Longrightarrow> \<exists>w'. mp_send mp i m w = (True, w') \<and> queue w' = (queue w)(i := queue w i @ [m]) \<and>
      opened w' = opened w \<and> part w' = part w"
    and "queue (mp_drop_tx mp i w) = queue w \<and> opened (mp_drop_tx mp i w) = opened w \<and> part (mp_drop_tx mp i w) = part w"
    and "queue w i = m # ms \<Longrightarrow>
      \<exists>w'. mp_poll_next mp i w = (Ready (Some m), w') \<and> queue w' = (queue w)(i := ms)"
proof -
  note laws = assms [unfolded mp_laws_def]
  show "opened w i \<Longrightarrow> \<exists>w'. mp_send mp i m w = (True, w') \<and> queue w' = (queue w)(i := queue w i @ [m]) \<and>
      opened w' = opened w \<and> part w' = part w"
    using laws [THEN conjunct1] by blast
  show "queue (mp_drop_tx mp i w) = queue w \<and> opened (mp_drop_tx mp i w) = opened w \<and> part (mp_drop_tx mp i w) = part w"
    using laws [THEN conjunct2, THEN conjunct1, rule_format, OF refl] .
  show "\<exists>w'. mp_poll_next mp i w = (Ready (Some m), w') \<and> queue w' = (queue w)(i := ms)" if "queue w i = m # ms"
    using laws [THEN conjunct2, THEN conjunct2, rule_format, OF that] .
qed

section \<open>The routing thread\<close>

record ('w, 'tx, 'rx, 'op, 'shm, 'e, 'p, 'set) async_env =
  ae_backend :: "('w, 'tx, 'rx, 'op, 'shm, 'e, 'p) os_backend"
  ae_sets :: "('w, 'rx, 'op, 'shm, 'set, 'e) os_sets"
  ae_bincode :: bincode
  ae_routes :: "('w, 'rx opaque_ipc_receiver \<times> nat) mpsc"
  ae_streams :: "('w, ('op, 'shm) opaque_ipc_message) mpsc"

record 'set async_thread =
  receiver_set :: "'set ipc_receiver_set"
  senders :: "u64 \<Rightarrow> nat option"

type_synonym ('w, 'tx, 'rx, 'op, 'shm, 'set) async_world =
  "('w \<times> ('tx, 'rx, 'op, 'shm) tls) \<times> 'set async_thread"

type_synonym ('w, 'tx, 'rx, 'op, 'shm, 'set, 'a, 'p) async_io =
  "(('w, 'tx, 'rx, 'op, 'shm, 'set) async_world, 'a, 'p bincode_error) io"

definition get_async_set :: "('w \<times> 't) \<times> 'set async_thread \<Rightarrow> 'w \<times> 'set ipc_receiver_set" where
  "get_async_set wr = (fst (fst wr), receiver_set (snd wr))"

definition put_async_set ::
  "'w \<times> 'set ipc_receiver_set \<Rightarrow> ('w \<times> 't) \<times> 'set async_thread \<Rightarrow> ('w \<times> 't) \<times> 'set async_thread" where
  "put_async_set ws wr = ((fst ws, snd (fst wr)), (snd wr)\<lparr>receiver_set := snd ws\<rparr>)"

abbreviation on_async_set where
  "on_async_set m \<equiv> on_part get_async_set put_async_set m"

text \<open>A failure to add the wake-up channel is ignored.\<close>

definition async_start ::
  "('w, 'tx, 'rx, 'op, 'shm, 'e, 'p, 'set) async_env \<Rightarrow> 'rx ipc_receiver \<Rightarrow> ('w, 'set async_thread, 'p io_error) io" where
  "async_start env wakee =
     io_bind (io_unwrap (ipc_set_new (ae_backend env) (ae_sets env))) (\<lambda>s. \<lambda>w.
       map_option (\<lambda>(r, (w', s')).
         (case r of Panic \<Rightarrow> Panic | _ \<Rightarrow> Ok \<lparr>receiver_set = s', senders = (\<lambda>_. None)\<rparr>, w'))
         (ipc_set_add (ae_backend env) (ae_sets env) wakee (w, s)))"

text \<open>
  One selection. A message for a receiver without a sender is dropped, and so is one whose stream is gone;
  the sender of a closed channel is dropped.
\<close>

definition forward ::
  "('w, 'tx, 'rx, 'op, 'shm, 'e, 'p, 'set) async_env \<Rightarrow> ('op, 'shm) ipc_selection_result
     \<Rightarrow> ('w, 'tx, 'rx, 'op, 'shm, 'set, unit, 'p) async_io" where
  "forward env selection = (\<lambda>(wt, r).
     (case selection of
        MessageReceived i m \<Rightarrow>
          (case senders r i of
             None \<Rightarrow> on_world (drop_ipc_result (ae_backend env) False selection)
           | Some tx \<Rightarrow>
               io_bind (in_world (call (mp_send (ae_streams env) tx m))) (\<lambda>ok.
               if ok then io_return () else on_world (drop_ipc_result (ae_backend env) False selection)))
      | IpcChannelClosed i \<Rightarrow>
          (case senders r i of
             None \<Rightarrow> io_return ()
           | Some tx \<Rightarrow>
               io_bind (on_self (\<lambda>r. ((), r\<lparr>senders := (senders r)(i := None)\<rparr>))) (\<lambda>_.
               in_world (cb_do (mp_drop_tx (ae_streams env) tx))))) (wt, r))"

fun forward_all ::
  "('w, 'tx, 'rx, 'op, 'shm, 'e, 'p, 'set) async_env \<Rightarrow> ('op, 'shm) ipc_selection_result list
     \<Rightarrow> ('w, 'tx, 'rx, 'op, 'shm, 'set, unit, 'p) async_io" where
  "forward_all env [] = io_return ()"
| "forward_all env (selection # selections) =
     io_bind (io_on_failure (forward env selection)
         (\<lambda>panicking. on_world (drop_all (drop_ipc_result (ae_backend env)) panicking selections)))
       (\<lambda>_. forward_all env selections)"

text \<open>The sender of a receiver that cannot be added is dropped.\<close>

definition add_stream ::
  "('w, 'tx, 'rx, 'op, 'shm, 'e, 'p, 'set) async_env \<Rightarrow> 'rx opaque_ipc_receiver \<Rightarrow> nat
     \<Rightarrow> ('w, 'tx, 'rx, 'op, 'shm, 'set, unit, 'p) async_io" where
  "add_stream env receiver sender =
     io_match (io_on_failure (on_async_set (ipc_set_add_opaque (ae_backend env) (ae_sets env) receiver))
         (\<lambda>_. in_world (cb_do (mp_drop_tx (ae_streams env) sender))))
       (\<lambda>i. on_self (\<lambda>r. ((), r\<lparr>senders := (senders r)(i \<mapsto> sender)\<rparr>)))
       (\<lambda>_. io_return ())"

partial_function (option) add_streams ::
  "('w, 'tx, 'rx, 'op, 'shm, 'e, 'p, 'set) async_env \<Rightarrow> nat
     \<Rightarrow> ('w, 'tx, 'rx, 'op, 'shm, 'set, unit, 'p) async_io" where
  "add_streams env n wr =
     Option.bind (in_world (call (mp_try_next (ae_routes env) n)) wr) (\<lambda>(next, wr').
       case next of
         Ok (Item route) \<Rightarrow>
           Option.bind (add_stream env (fst route) (snd route) wr') (\<lambda>(added, wr'').
             case added of Ok u \<Rightarrow> add_streams env n wr'' | _ \<Rightarrow> Some (added, wr''))
       | Ok _ \<Rightarrow> Some (Ok (), wr')
       | Err e \<Rightarrow> Some (Err e, wr')
       | Panic \<Rightarrow> Some (Panic, wr'))"

text \<open>The body of the loop after \<open>select\<close>.\<close>

definition async_turn ::
  "('w, 'tx, 'rx, 'op, 'shm, 'e, 'p, 'set) async_env \<Rightarrow> nat \<Rightarrow> ('op, 'shm) ipc_selection_result list
     \<Rightarrow> ('w, 'tx, 'rx, 'op, 'shm, 'set, unit, 'p) async_io" where
  "async_turn env n selections =
     io_bind (forward_all env selections) (\<lambda>_. \<lambda>(wt, r).
       if mp_is_terminated (ae_routes env) n (fst wt) then Some (Ok (), (wt, r))
       else add_streams env n (wt, r))"

definition async_select ::
  "('w, 'tx, 'rx, 'op, 'shm, 'e, 'p, 'set) async_env
     \<Rightarrow> (('w, 'tx, 'rx, 'op, 'shm, 'set) async_world, ('op, 'shm) ipc_selection_result list, 'p io_error) io" where
  "async_select env = on_async_set (ipc_set_select (ae_backend env) (ae_sets env))"

partial_function (option) async_run ::
  "('w, 'tx, 'rx, 'op, 'shm, 'e, 'p, 'set) async_env \<Rightarrow> nat
     \<Rightarrow> ('w, 'tx, 'rx, 'op, 'shm, 'set, unit, 'p) async_io" where
  "async_run env n wr =
     Option.bind (async_select env wr) (\<lambda>(selected, wr').
       case selected of
         Ok selections \<Rightarrow>
           Option.bind (async_turn env n selections wr') (\<lambda>(done, wr'').
             case done of Ok u \<Rightarrow> async_run env n wr'' | _ \<Rightarrow> Some (done, wr''))
       | Err e \<Rightarrow> Some (Ok (), wr')
       | Panic \<Rightarrow> Some (Panic, wr'))"

section \<open>The other threads\<close>

record 'tx async_router =
  ar_add_route :: nat
  ar_wakeup :: "'tx ipc_sender"
  ar_poisoned :: bool

record ipc_stream = stream_receiver :: nat

text \<open>The first use creates the router, and what its thread is given to run on.\<close>

definition async_router_new ::
  "('w, 'tx, 'rx, 'op, 'shm, 'e, 'p, 'set) async_env
     \<Rightarrow> ('w, 'tx async_router \<times> nat \<times> 'rx ipc_receiver, 'p io_error) io" where
  "async_router_new env =
     io_bind (call (mp_unbounded (ae_routes env))) (\<lambda>n.
     io_bind (io_unwrap (ipc_channel (ae_backend env))) (\<lambda>(waker, wakee).
     io_return (\<lparr>ar_add_route = n, ar_wakeup = waker, ar_poisoned = False\<rparr>, n, wakee)))"

text \<open>A poisoned lock only means that the thread is not woken up; so does an error of \<open>send\<close>.\<close>

definition async_wake_up ::
  "('w, 'tx, 'rx, 'op, 'shm, 'e, 'p, 'set) async_env
     \<Rightarrow> (('w \<times> ('tx, 'rx, 'op, 'shm) tls) \<times> 'tx async_router, unit, 'p bincode_error) io" where
  "async_wake_up env = (\<lambda>(wt, a).
     if ar_poisoned a then Some (Ok (), (wt, a))
     else map_option (\<lambda>(q, wt').
         (case q of Panic \<Rightarrow> Panic | _ \<Rightarrow> Ok (), (wt', a\<lparr>ar_poisoned := (case q of Panic \<Rightarrow> True | _ \<Rightarrow> False)\<rparr>)))
       (sender_send (ae_backend env) (ae_bincode env) ser_unit (ar_wakeup a) () wt))"

text \<open>A route that could not be sent to the thread is dropped.\<close>

definition to_stream ::
  "('w, 'tx, 'rx, 'op, 'shm, 'e, 'p, 'set) async_env \<Rightarrow> 'rx ipc_receiver
     \<Rightarrow> (('w \<times> ('tx, 'rx, 'op, 'shm) tls) \<times> 'tx async_router, ipc_stream, 'p bincode_error) io" where
  "to_stream env receiver = (\<lambda>(wt, a).
     (let opaque = receiver_to_opaque receiver in
      io_bind (in_world (call (mp_unbounded (ae_streams env)))) (\<lambda>n.
      io_bind (io_on_failure
         (io_bind (in_world (call (mp_send (ae_routes env) (ar_add_route a) (opaque, n)))) (\<lambda>ok.
          io_bind (if ok then io_return ()
             else io_finally
               (on_world (lift_os (ae_backend env)
                 (os_drop_channel (ae_backend env) False (Receiver (opaque_os_receiver opaque)))))
               (\<lambda>_. in_world (cb_do (mp_drop_tx (ae_streams env) n)))) (\<lambda>_.
          async_wake_up env)))
         (\<lambda>_. in_world (cb_do (mp_drop_rx (ae_streams env) n)))) (\<lambda>_.
      io_return \<lparr>stream_receiver = n\<rparr>))) (wt, a))"

definition stream_poll_next ::
  "('w, 'tx, 'rx, 'op, 'shm, 'e, 'p, 'set) async_env \<Rightarrow> ('tx, 'rx, 'shm, 'a) deser \<Rightarrow> ipc_stream
     \<Rightarrow> ('w, 'tx, 'rx, 'op, 'shm, ('p bincode_error + 'a) option poll, 'p) ipc_io" where
  "stream_poll_next env des stream =
     io_bind (on_world (call (mp_poll_next (ae_streams env) (stream_receiver stream)))) (\<lambda>polled.
       case polled of
         Ready (Some m) \<Rightarrow>
           io_match (message_to (ae_backend env) (ae_bincode env) des m)
             (\<lambda>x. io_return (Ready (Some (Inr x)))) (\<lambda>e. io_return (Ready (Some (Inl e))))
       | Ready None \<Rightarrow> io_return (Ready None)
       | Pending \<Rightarrow> io_return Pending)"

definition stream_is_terminated ::
  "('w, 'tx, 'rx, 'op, 'shm, 'e, 'p, 'set) async_env \<Rightarrow> ipc_stream \<Rightarrow> 'w \<Rightarrow> bool" where
  "stream_is_terminated env stream w = mp_is_terminated (ae_streams env) (stream_receiver stream) w"

section \<open>Delivery\<close>

text \<open>The messages of a batch that came from one receiver.\<close>

fun messages_of :: "u64 \<Rightarrow> ('op, 'shm) ipc_selection_result list \<Rightarrow> ('op, 'shm) opaque_ipc_message list" where
  "messages_of i [] = []"
| "messages_of i (MessageReceived j m # rs) = (if i = j then [m] else []) @ messages_of i rs"
| "messages_of i (IpcChannelClosed j # rs) = messages_of i rs"

lemma messages_of_not_reported: "i \<notin> fst ` ipc_report ` set rs \<Longrightarrow> messages_of i rs = []"
  by (induction i rs rule: messages_of.induct) auto

lemma drop_bare:
  assumes "msg_channels m = [] \<and> msg_regions m = []"
  shows "on_world (drop_ipc_result be p (MessageReceived i m)) wr = Some (Ok (), wr)"
  using assms by (cases wr)
    (auto simp: drop_ipc_result_def drop_message_def lift_os_def on_world_def io_map_err_def io_finally_def)

text \<open>Each sender serves one receiver, and its stream is there.\<close>

definition streams_open :: "('w \<Rightarrow> nat \<Rightarrow> bool) \<Rightarrow> 'w \<Rightarrow> (u64 \<Rightarrow> nat option) \<Rightarrow> bool" where
  "streams_open opened w sn \<longleftrightarrow> inj_on sn (dom sn) \<and> (\<forall>tx\<in>ran sn. opened w tx)"

lemma streams_open_closed: "streams_open opened w sn \<Longrightarrow> streams_open opened w (sn(i := None))"
  unfolding streams_open_def by (auto simp: inj_on_def ran_def dom_def)

definition closed_in :: "('op, 'shm) ipc_selection_result list \<Rightarrow> u64 set" where
  "closed_in rs = {i. IpcChannelClosed i \<in> set rs}"

lemma closed_in_simps [simp]:
  "closed_in [] = {}" "closed_in (MessageReceived i m # rs) = closed_in rs"
  "closed_in (IpcChannelClosed i # rs) = insert i (closed_in rs)"
  by (auto simp: closed_in_def)

lemma left_after_closed_in: "left_after M (map ipc_report rs) = M - closed_in rs"
proof -
  have "(i, True) \<in> set (map ipc_report rs) \<longleftrightarrow> IpcChannelClosed i \<in> set rs" for i
  proof
    assume "(i, True) \<in> set (map ipc_report rs)"
    then obtain x where "x \<in> set rs" "ipc_report x = (i, True)" by auto
    then show "IpcChannelClosed i \<in> set rs"
      by (cases x rule: ipc_selection_result.exhaust) auto
  qed force
  then show ?thesis by (auto simp: left_after_eq closed_in_def)
qed

lemma forward_all_Ok:
  assumes "forward env res wr = Some (Ok (), wr')"
  shows "forward_all env (res # rs) wr = forward_all env rs wr'"
  using io_on_failure_Ok [of "forward env res", OF assms] by simp

lemma forward_all_delivers:
  assumes "mp_laws (ae_streams env) queue opened part" and "streams_open opened w (senders r)"
    and "report_ok (insert wk (dom (senders r))) (map ipc_report rs)" and "tidy (\<lambda>_. True) wk rs" and "senders r wk = None"
  shows "\<exists>w'. forward_all env rs ((w, t), r) = Some (Ok (), ((w', t), r\<lparr>senders := senders r |` (- closed_in rs)\<rparr>)) \<and>
    (\<forall>i tx. senders r i = Some tx \<longrightarrow> queue w' tx = queue w tx @ messages_of i rs) \<and>
    (\<forall>tx. tx \<notin> ran (senders r) \<longrightarrow> queue w' tx = queue w tx) \<and> part w' = part w"
  using assms(2-)
proof (induction rs arbitrary: w r)
  case Nil
  have "r\<lparr>senders := senders r\<rparr> = r" by simp
  then show ?case by (simp del: async_thread.surjective)
next
  case (Cons res rs)
  show ?case
  proof (cases res)
    case (MessageReceived i m)
    note prems = Cons.prems [unfolded MessageReceived, simplified]
    show ?thesis
    proof (cases "senders r i")
      case None
      then have i: "i = wk" using prems by auto
      have "forward env res ((w, t), r) = Some (Ok (), ((w, t), r))"
        using prems None i by (simp add: forward_def MessageReceived drop_bare)
      from forward_all_Ok [OF this] show ?thesis
        using Cons.IH [of w r] prems None by (auto simp: MessageReceived)
    next
      case (Some tx)
      then obtain w1 where w1: "mp_send (ae_streams env) tx m w = (True, w1)"
          "queue w1 = (queue w)(tx := queue w tx @ [m])" "opened w1 = opened w" "part w1 = part w"
        using mp_lawsD(1) [OF assms(1), of w tx m] prems(1) by (auto simp: streams_open_def ran_def)
      have "forward env res ((w, t), r) = Some (Ok (), ((w1, t), r))"
        using w1 Some by (simp add: forward_def MessageReceived on_world_def call_def)
      note step = forward_all_Ok [OF this, of rs]
      have so: "streams_open opened w1 (senders r)" using prems(1) w1(3) by (simp add: streams_open_def)
      have other: "tx' \<noteq> tx" if "senders r j = Some tx'" "j \<noteq> i" for j tx'
        using prems(1) that Some by (metis streams_open_def inj_onD domI)
      obtain w' where w': "forward_all env rs ((w1, t), r) = Some (Ok (), ((w', t), r\<lparr>senders := senders r |` (- closed_in rs)\<rparr>))"
          "\<forall>j tx'. senders r j = Some tx' \<longrightarrow> queue w' tx' = queue w1 tx' @ messages_of j rs"
          "\<forall>tx'. tx' \<notin> ran (senders r) \<longrightarrow> queue w' tx' = queue w1 tx'" "part w' = part w1"
        using Cons.IH [OF so] prems by (auto split: if_splits)
      have "queue w' tx' = queue w tx' @ messages_of j (res # rs)" if "senders r j = Some tx'" for j tx'
        using w'(2) w1(2) that Some other [OF that] by (cases "j = i") (auto simp: MessageReceived)
      moreover have "queue w' tx' = queue w tx'" if "tx' \<notin> ran (senders r)" for tx'
        using w'(3) w1(2) that Some by (auto simp: ran_def)
      ultimately show ?thesis using step w'(1,4) w1(4) by (auto simp: MessageReceived simp del: forward_all.simps)
    qed
  next
    case (IpcChannelClosed i)
    note prems = Cons.prems [unfolded IpcChannelClosed, simplified]
    obtain tx where tx: "senders r i = Some tx" using prems by auto
    let ?r = "r\<lparr>senders := (senders r)(i := None)\<rparr>" and ?w = "mp_drop_tx (ae_streams env) tx w"
    have "forward env res ((w, t), r) = Some (Ok (), ((?w, t), ?r))"
      using tx by (simp add: forward_def IpcChannelClosed on_world_def on_self_def cb_do_def)
    note step = forward_all_Ok [OF this, of rs]
    have q: "queue ?w = queue w" "opened ?w = opened w" "part ?w = part w" using mp_lawsD(2) [OF assms(1)] by blast+
    have so: "streams_open opened ?w (senders ?r)"
      using streams_open_closed [OF prems(1), of i] q(2) by (simp add: streams_open_def)
    have dom: "insert wk (dom (senders ?r)) = insert wk (dom (senders r)) - {i}" using prems by auto
    have rep: "report_ok (insert wk (dom (senders ?r))) (map ipc_report rs)" unfolding dom using prems by simp
    have wk_none: "senders ?r wk = None" using prems by simp
    obtain w' where "forward_all env rs ((?w, t), ?r) = Some (Ok (), ((w', t), ?r\<lparr>senders := senders ?r |` (- closed_in rs)\<rparr>)) \<and>
        (\<forall>j tx'. senders ?r j = Some tx' \<longrightarrow> queue w' tx' = queue ?w tx' @ messages_of j rs) \<and>
        (\<forall>tx'. tx' \<notin> ran (senders ?r) \<longrightarrow> queue w' tx' = queue ?w tx') \<and> part w' = part ?w"
      using Cons.IH [OF so rep _ wk_none] prems by blast
    note w' = this [unfolded q, THEN conjunct1] this [unfolded q, THEN conjunct2, THEN conjunct1, rule_format]
      this [unfolded q, THEN conjunct2, THEN conjunct2, THEN conjunct1, rule_format]
      this [unfolded q, THEN conjunct2, THEN conjunct2, THEN conjunct2]
    have "senders ?r |` (- closed_in rs) = senders r |` (- closed_in (res # rs))"
      by (auto simp: IpcChannelClosed restrict_map_def)
    then have r: "?r\<lparr>senders := senders ?r |` (- closed_in rs)\<rparr> = r\<lparr>senders := senders r |` (- closed_in (res # rs))\<rparr>"
      by simp
    have gone: "tx \<notin> ran (senders ?r)"
      using prems(1) tx by (auto simp: streams_open_def ran_def inj_on_def dom_def)
    have "messages_of i rs = []"
      using report_ok_subset [OF rep] prems by (intro messages_of_not_reported) auto
    then have "queue w' tx' = queue w tx' @ messages_of j (res # rs)" if "senders r j = Some tx'" for j tx'
      using that tx w'(2) [of j tx'] w'(3) [OF gone] by (cases "j = i") (auto simp: IpcChannelClosed)
    moreover have "queue w' tx' = queue w tx'" if "tx' \<notin> ran (senders r)" for tx'
      using w'(3) [of tx'] that by (auto simp: ran_def split: if_splits)
    ultimately show ?thesis using step w'(1) [unfolded r] w'(4) by (auto simp del: forward_all.simps)
  qed
qed

section \<open>The thread and its set\<close>

text \<open>Between two calls of \<open>select\<close>: every member but the wake-up channel has a sender.\<close>

definition streams_ok ::
  "('w \<times> 'set ipc_receiver_set \<Rightarrow> bool) \<Rightarrow> ('w \<times> 'set ipc_receiver_set \<Rightarrow> u64 set) \<Rightarrow> u64
     \<Rightarrow> ('w \<times> 't) \<times> 'set async_thread \<Rightarrow> bool" where
  "streams_ok invar members wk wr \<longleftrightarrow>
     (let r = snd wr; ws = get_async_set wr in
      invar ws \<and> senders r wk = None \<and> members ws = insert wk (dom (senders r)))"

lemma streams_ok_iff:
  "streams_ok invar members wk ((w, t), r) \<longleftrightarrow>
     invar (w, receiver_set r) \<and> senders r wk = None \<and> members (w, receiver_set r) = insert wk (dom (senders r))"
  by (simp add: streams_ok_def Let_def get_async_set_def)

locale stream_loop = numbered_receiver_set invar members "ipc_set_add (ae_backend env) (ae_sets env)"
    "ipc_set_select (ae_backend env) (ae_sets env)" ipc_report bound
  for env :: "('w, 'tx, 'rx, 'op, 'shm, 'e, 'p, 'set) async_env"
    and invar :: "'w \<times> 'set ipc_receiver_set \<Rightarrow> bool" and members :: "'w \<times> 'set ipc_receiver_set \<Rightarrow> u64 set"
    and bound :: "'w \<times> 'set ipc_receiver_set \<Rightarrow> u64" +
  fixes part :: "'w \<Rightarrow> 'k"
  assumes by_part: "part w' = part w \<Longrightarrow> invar (w, s) \<Longrightarrow> invar (w', s) \<and> members (w', s) = members (w, s)"
begin

lemma select_and_forward:
  assumes "mp_laws (ae_streams env) queue opened part" and ok: "streams_ok invar members wk wr"
    and sel: "async_select env wr = Some (Ok rs, ((w, t), r))"
    and "tidy (\<lambda>_. True) wk rs" and "streams_open opened w (senders r)"
  shows "\<exists>w' r'. forward_all env rs ((w, t), r) = Some (Ok (), ((w', t), r')) \<and>
    streams_ok invar members wk ((w', t), r') \<and>
    (\<forall>i tx. senders r i = Some tx \<longrightarrow> queue w' tx = queue w tx @ messages_of i rs) \<and>
    fst ` ipc_report ` set rs \<subseteq> insert wk (dom (senders r)) \<and> dom (senders r') = dom (senders r) - closed_in rs"
proof -
  obtain w0 t0 r0 where wr: "wr = ((w0, t0), r0)" by (metis surj_pair)
  obtain s1 where s1: "ipc_set_select (ae_backend env) (ae_sets env) (w0, receiver_set r0) = Some (Ok rs, (w, s1))"
    and r: "t = t0" "r = r0\<lparr>receiver_set := s1\<rparr>"
    using sel by (auto simp: async_select_def on_part_eq_Some wr get_async_set_def put_async_set_def)
  have inv: "invar (w0, receiver_set r0)" and none: "senders r wk = None"
    and mem: "members (w0, receiver_set r0) = insert wk (dom (senders r))"
    using ok by (simp_all add: wr streams_ok_iff r)
  note law = select_Ok [OF inv s1]
  have rep: "report_ok (insert wk (dom (senders r))) (map ipc_report rs)" using law mem by simp
  obtain w' where w': "forward_all env rs ((w, t), r) = Some (Ok (), ((w', t), r\<lparr>senders := senders r |` (- closed_in rs)\<rparr>))"
      "\<forall>i tx. senders r i = Some tx \<longrightarrow> queue w' tx = queue w tx @ messages_of i rs" "part w' = part w"
    using forward_all_delivers [OF assms(1,5) rep assms(4) none] by blast
  have "wk \<notin> closed_in rs" using assms(4) by (induction "\<lambda>_ :: ('op, 'shm) opaque_ipc_message. True" wk rs rule: tidy.induct) auto
  moreover have "invar (w', s1)" "members (w', s1) = insert wk (dom (senders r)) - closed_in rs"
    using by_part [OF w'(3), of s1] law mem by (auto simp: left_after_closed_in)
  ultimately have "streams_ok invar members wk ((w', t), r\<lparr>senders := senders r |` (- closed_in rs)\<rparr>)"
    using none r by (auto simp: streams_ok_iff restrict_map_def split: if_splits)
  then show ?thesis
    using w' report_ok_subset [OF rep] by (intro exI conjI) (assumption | auto)+
qed

lemma add_stream_ok:
  assumes "mp_laws (ae_streams env) queue opened part" and ok: "streams_ok invar members wk ((w, t), r)"
    and run: "add_stream env rx tx ((w, t), r) = Some (Ok (), wr')"
  shows "streams_ok invar members wk wr'"
proof -
  let ?ws = "(w, receiver_set r)"
  have inv: "invar ?ws" and none: "senders r wk = None" and mem: "members ?ws = insert wk (dom (senders r))"
    using ok by (simp_all add: streams_ok_iff)
  obtain a w1 s1 where add: "ipc_set_add_opaque (ae_backend env) (ae_sets env) rx ?ws = Some (a, (w1, s1))"
    using run by (fastforce simp: add_stream_def io_match_eq_Some io_on_failure_eq_Some on_part_eq_Some get_async_set_def)
  let ?wr = "((w1, t), r\<lparr>receiver_set := s1\<rparr>)"
  have part: "on_async_set (ipc_set_add_opaque (ae_backend env) (ae_sets env) rx) ((w, t), r) = Some (a, ?wr)"
    using add by (simp add: on_part_def get_async_set_def put_async_set_def)
  show ?thesis
  proof (cases a)
    case (Ok i)
    note law = add_Ok [OF inv add [unfolded Ok ipc_set_add_opaque_eq]]
    from io_on_failure_Ok [of "on_async_set (ipc_set_add_opaque (ae_backend env) (ae_sets env) rx)", OF part [unfolded Ok]] run
    have "wr' = ((w1, t), r\<lparr>receiver_set := s1, senders := (senders r)(i \<mapsto> tx)\<rparr>)"
      by (auto simp: add_stream_def io_match_def on_self_def)
    then show ?thesis using law none mem by (auto simp: streams_ok_iff)
  next
    case (Err e)
    note law = add_Err [OF inv add [unfolded Err ipc_set_add_opaque_eq]]
    let ?w = "mp_drop_tx (ae_streams env) tx w1"
    have "wr' = ((?w, t), r\<lparr>receiver_set := s1\<rparr>)"
      using run part Err by (auto simp: add_stream_def io_match_eq_Some io_on_failure_eq_Some cb_do_def on_world_def)
    moreover have "part ?w = part w1" using mp_lawsD(2) [OF assms(1)] by blast
    ultimately show ?thesis using by_part [of ?w w1 s1] law none mem by (simp add: streams_ok_iff)
  next
    case Panic
    then show ?thesis
      using run part by (auto simp: add_stream_def io_match_eq_Some io_on_failure_eq_Some cb_do_def on_world_def)
  qed
qed

lemma add_streams_ok:
  assumes "mp_laws (ae_streams env) queue opened part" and "streams_ok invar members wk wr"
    and "\<forall>w x w'. mp_try_next (ae_routes env) n w = (x, w') \<longrightarrow> part w' = part w"
    and "add_streams env n wr = Some (Ok (), wr')"
  shows "streams_ok invar members wk wr'"
proof -
  define P where "P e k wr out \<longleftrightarrow>
      (e = env \<and> k = n \<longrightarrow> streams_ok invar members wk wr \<longrightarrow> fst out = Ok () \<longrightarrow> streams_ok invar members wk (snd out))"
    for e :: "('w, 'tx, 'rx, 'op, 'shm, 'e, 'p, 'set) async_env" and k :: nat
      and wr :: "('w, 'tx, 'rx, 'op, 'shm, 'set) async_world"
      and out :: "(unit, 'p bincode_error) res \<times> ('w, 'tx, 'rx, 'op, 'shm, 'set) async_world"
  have "P env n wr (Ok (), wr')"
  proof (rule add_streams.raw_induct [OF _ assms(4), where P = P])
    fix loop :: "('w, 'tx, 'rx, 'op, 'shm, 'e, 'p, 'set) async_env \<Rightarrow> _" and e k wr out
    assume IH: "\<And>e k wr out. loop e k wr = Some out \<Longrightarrow> P e k wr out"
      and body: "Option.bind (in_world (call (mp_try_next (ae_routes e) k)) wr) (\<lambda>(next, wr').
        case next of
          Ok (Item route) \<Rightarrow>
            Option.bind (add_stream e (fst route) (snd route) wr') (\<lambda>(added, wr'').
              case added of Ok u \<Rightarrow> loop e k wr'' | _ \<Rightarrow> Some (added, wr''))
        | Ok _ \<Rightarrow> Some (Ok (), wr')
        | Err e \<Rightarrow> Some (Err e, wr')
        | Panic \<Rightarrow> Some (Panic, wr')) = Some out"
    show "P e k wr out"
      unfolding P_def
    proof (intro impI)
      assume e: "e = env \<and> k = n" and ok: "streams_ok invar members wk wr" and out: "fst out = Ok ()"
      obtain w t r where wr: "wr = ((w, t), r)" by (metis surj_pair)
      obtain x w1 where x: "mp_try_next (ae_routes env) n w = (x, w1)" by (metis surj_pair)
      have ok1: "streams_ok invar members wk ((w1, t), r)"
        using ok by_part [of w1 w] assms(3) x by (simp add: wr streams_ok_iff)
      have nxt: "in_world (call (mp_try_next (ae_routes e) k)) wr = Some (Ok x :: (_, 'p bincode_error) res, ((w1, t), r))"
        using x e by (simp add: wr on_world_def call_def)
      show "streams_ok invar members wk (snd out)"
      proof (cases x)
        case (Item route)
        then obtain a wr2 where a: "add_stream env (fst route) (snd route) ((w1, t), r) = Some (a, wr2)"
            "(case a of Ok u \<Rightarrow> loop e k wr2 | _ \<Rightarrow> Some (a, wr2)) = Some out"
          using body nxt e by (auto simp: bind_eq_Some_conv)
        then have "a = Ok ()" using out by (cases a) auto
        with a have "loop e k wr2 = Some out" "streams_ok invar members wk wr2"
          using add_stream_ok [OF assms(1) ok1] by auto
        then show ?thesis using IH [of e k wr2 out] e out by (simp add: P_def)
      qed (use body nxt ok1 in auto)
    qed
  qed
  then show ?thesis using assms(2) by (simp add: P_def)
qed

end

definition ip_async_inv ::
  "('w, ip_sender, ip_receiver, ip_opaque, ip_shared_memory, channel_error, string, ip_receiver_set) async_env
     \<Rightarrow> 'w ip_crossbeam \<Rightarrow> 'w \<times> ip_receiver_set ipc_receiver_set \<Rightarrow> bool" where
  "ip_async_inv env cb ws \<longleftrightarrow>
     ae_backend env = ip_backend cb \<and> ae_sets env = ip_sets cb \<and> ip_set_ok (snd (inner_set ws))"

interpretation sli: stream_loop env "ip_async_inv env cb" ip_member_ids ip_next_id "\<lambda>_. ()"
proof (unfold_locales, goal_cases)
  case (1 s r i s')
  then show ?case
    using iis.wrapped.add_Ok [of s cb r i s'] by (simp add: ip_async_inv_def ip_member_ids_def ip_ipc_set)
next
  case (2 s r e s')
  then show ?case
    using iis.wrapped.add_Err [of s cb r e s'] by (simp add: ip_async_inv_def ip_member_ids_def ip_ipc_set)
next
  case (3 s rs s')
  then show ?case
    using iis.wrapped.select_Ok [of s cb rs s'] by (simp add: ip_async_inv_def ip_member_ids_def ip_ipc_set)
next
  case (4 s e s')
  then show ?case
    using iis.wrapped.select_Err [of s cb e s'] by (simp add: ip_async_inv_def ip_member_ids_def ip_ipc_set)
next
  case (5 s i)
  then show ?case
    using iis.wrapped.members_bound [of s i] by (simp add: ip_async_inv_def ip_member_ids_def ip_next_id_def)
next
  case (6 s r i s')
  then show ?case
    using iis.wrapped.add_bound [of s cb r i s'] by (simp add: ip_async_inv_def ip_next_id_def ip_ipc_set)
next
  case (7 s rs s')
  then show ?case
    using iis.wrapped.select_bound [of s cb rs s'] by (simp add: ip_async_inv_def ip_next_id_def ip_ipc_set)
next
  case (8 w' w s)
  then show ?case by (simp add: ip_async_inv_def ip_member_ids_def inner_set_def)
qed

definition unix_async_inv ::
  "('w, os_ipc_sender, os_ipc_receiver, os_opaque_ipc_channel, os_ipc_shared_memory, unix_error, unix_error,
      unix_receiver_set) async_env
     \<Rightarrow> 'w unix_sys \<Rightarrow> usize \<Rightarrow> (os_ipc_sender \<Rightarrow> bool) \<Rightarrow> 'w mio \<Rightarrow> ('w \<Rightarrow> nat \<Rightarrow> (usize \<times> fd) set)
     \<Rightarrow> 'w \<times> unix_receiver_set ipc_receiver_set \<Rightarrow> bool" where
  "unix_async_inv env sys ssb shared mio reg ws \<longleftrightarrow>
     ae_backend env = unix_backend sys ssb shared \<and> ae_sets env = unix_sets sys ssb mio \<and>
     polls sys mio reg \<and> set_inv reg (inner_set ws)"

interpretation slu: stream_loop env "unix_async_inv env sys ssb shared mio reg" unix_member_ids unix_next_id reg
proof (unfold_locales, goal_cases)
  case (1 s r i s')
  then show ?case
    using uis.wrapped.add_Ok [of sys mio reg s r i s'] by (simp add: unix_async_inv_def unix_member_ids_def unix_ipc_set)
next
  case (2 s r e s')
  then show ?case
    using uis.wrapped.add_Err [of sys mio reg s r e s'] by (simp add: unix_async_inv_def unix_member_ids_def unix_ipc_set)
next
  case (3 s rs s')
  then show ?case
    using uis.wrapped.select_Ok [of sys mio reg s ssb rs s'] by (simp add: unix_async_inv_def unix_member_ids_def unix_ipc_set)
next
  case (4 s e s')
  then show ?case
    using uis.wrapped.select_Err [of sys mio reg s ssb e s'] by (simp add: unix_async_inv_def unix_member_ids_def unix_ipc_set)
next
  case (5 s i)
  then show ?case
    using uis.wrapped.members_bound [of sys mio reg s i] by (simp add: unix_async_inv_def unix_member_ids_def unix_next_id_def)
next
  case (6 s r i s')
  then show ?case
    using uis.wrapped.add_bound [of sys mio reg s r i s'] by (simp add: unix_async_inv_def unix_next_id_def unix_ipc_set)
next
  case (7 s rs s')
  then show ?case
    using uis.wrapped.select_bound [of sys mio reg s ssb rs s'] by (simp add: unix_async_inv_def unix_next_id_def unix_ipc_set)
next
  case (8 w' w s)
  then show ?case by (simp add: unix_async_inv_def unix_member_ids_def inner_set_def set_inv_def)
qed

text \<open>On Unix, where the channels of the process leave the registrations alone.\<close>

lemma unix_streams_get_messages:
  assumes "mp_laws (ae_streams env) queue opened reg"
    and "streams_ok (unix_async_inv env sys ssb shared mio reg) unix_member_ids wk wr"
    and "async_select env wr = Some (Ok rs, ((w, t), r))"
    and "tidy (\<lambda>_. True) wk rs" and "streams_open opened w (senders r)"
  shows "\<exists>w' r'. forward_all env rs ((w, t), r) = Some (Ok (), ((w', t), r')) \<and>
    streams_ok (unix_async_inv env sys ssb shared mio reg) unix_member_ids wk ((w', t), r') \<and>
    (\<forall>i tx. senders r i = Some tx \<longrightarrow> queue w' tx = queue w tx @ messages_of i rs) \<and>
    fst ` ipc_report ` set rs \<subseteq> insert wk (dom (senders r)) \<and> dom (senders r') = dom (senders r) - closed_in rs"
  by (rule slu.select_and_forward [OF assms])

section \<open>Properties\<close>

text \<open>C10: No message is lost on its way to a stream. \<open>select\<close> reports only receivers whose stream the thread knows;
  forwarding what it reports never fails, appends to each stream exactly the messages of its receiver, in
  their order, and afterwards the thread again knows a stream for every member of its set, also after it
  added the receivers of new streams. This is for the in-process back end.\<close>

theorem streams_get_messages:
  assumes "mp_laws (ae_streams env) queue opened (\<lambda>_. ())"
    and "streams_ok (ip_async_inv env cb) ip_member_ids wk wr"
    and "async_select env wr = Some (Ok rs, ((w, t), r))"
    and "tidy (\<lambda>_. True) wk rs" and "streams_open opened w (senders r)"
  shows "\<exists>w' r'. forward_all env rs ((w, t), r) = Some (Ok (), ((w', t), r')) \<and>
    (\<forall>i tx. senders r i = Some tx \<longrightarrow> queue w' tx = queue w tx @ messages_of i rs) \<and>
    fst ` ipc_report ` set rs \<subseteq> insert wk (dom (senders r)) \<and>
    streams_ok (ip_async_inv env cb) ip_member_ids wk ((w', t), r') \<and>
    (\<forall>wr'. add_streams env n ((w', t), r') = Some (Ok (), wr') \<longrightarrow> streams_ok (ip_async_inv env cb) ip_member_ids wk wr')"
proof -
  obtain w' r' where fwd: "forward_all env rs ((w, t), r) = Some (Ok (), ((w', t), r'))"
    and ok: "streams_ok (ip_async_inv env cb) ip_member_ids wk ((w', t), r')"
    and got: "\<forall>i tx. senders r i = Some tx \<longrightarrow> queue w' tx = queue w tx @ messages_of i rs"
      "fst ` ipc_report ` set rs \<subseteq> insert wk (dom (senders r))"
    using sli.select_and_forward [OF assms] by (elim exE conjE) (rule that)
  have "\<forall>wr'. add_streams env n ((w', t), r') = Some (Ok (), wr') \<longrightarrow> streams_ok (ip_async_inv env cb) ip_member_ids wk wr'"
    using sli.add_streams_ok [OF assms(1) ok, of n] by simp
  then show ?thesis using fwd ok got by (intro exI conjI)
qed

text \<open>C22: A stream yields the values that were sent, in the order of their messages. Polling it once for each message
  that waits gives their values, and leaves the thread's vectors as they were.\<close>

theorem stream_yields_values:
  assumes "ae_backend env = ip_backend cb" and "bincode_ok (ae_bincode env)" and "serde_ok ser des"
    and "mp_laws (ae_streams env) queue opened part"
    and "queue w (stream_receiver stream) =
      map (\<lambda>x. opaque_message_new (ip_parts (value_message cb (ae_bincode env) (ser x)))) xs"
  shows "\<exists>w'. repeated (length xs) (stream_poll_next env des stream) (w, t) =
      Some (Ok (map (\<lambda>x. Ready (Some (Inr x))) xs), (w', t)) \<and> queue w' (stream_receiver stream) = []"
  using assms(5)
proof (induction xs arbitrary: w)
  case (Cons x xs)
  let ?i = "stream_receiver stream" and ?m = "\<lambda>x. opaque_message_new (ip_parts (value_message cb (ae_bincode env) (ser x)))"
  obtain w1 where w1: "mp_poll_next (ae_streams env) ?i w = (Ready (Some (?m x)), w1)" "queue w1 ?i = map ?m xs"
    using mp_lawsD(3) [OF assms(4), of w ?i] Cons.prems by fastforce
  have "message_to (ip_backend cb) (ae_bincode env) des (?m x) (w1, t) = Some (Ok x, (w1, t))"
    by (rule value_message_to [OF assms(2,3)])
  then have "stream_poll_next env des stream (w, t) = Some (Ok (Ready (Some (Inr x))), (w1, t))"
    using w1(1) assms(1) by (simp add: stream_poll_next_def on_world_def call_def io_match_def)
  with Cons.IH [OF w1(2)] show ?case by auto
qed simp

section \<open>Examples\<close>

text \<open>Queues in memory.\<close>

record 'm mp_world =
  mq :: "nat \<Rightarrow> 'm list"
  mq_open :: "nat \<Rightarrow> bool"
  mq_txs :: "nat \<Rightarrow> nat"
  mq_new :: nat

definition s_mpsc :: "('w \<Rightarrow> 'm mp_world) \<Rightarrow> ('m mp_world \<Rightarrow> 'w \<Rightarrow> 'w) \<Rightarrow> ('w, 'm) mpsc" where
  "s_mpsc get put =
     \<lparr>mp_unbounded = (\<lambda>w. let s = get w; n = mq_new s in
        (n, put (s\<lparr>mq := (mq s)(n := []), mq_open := (mq_open s)(n := True), mq_txs := (mq_txs s)(n := 1), mq_new := n + 1\<rparr>) w)),
      mp_send = (\<lambda>i m w. let s = get w in
        if mq_open s i then (True, put (s\<lparr>mq := (mq s)(i := mq s i @ [m])\<rparr>) w) else (False, w)),
      mp_try_next = (\<lambda>i w. let s = get w in
        case mq s i of m # ms \<Rightarrow> (Item m, put (s\<lparr>mq := (mq s)(i := ms)\<rparr>) w)
          | [] \<Rightarrow> (if mq_txs s i = 0 then NoMore else NotYet, w)),
      mp_is_terminated = (\<lambda>i w. mq (get w) i = [] \<and> mq_txs (get w) i = 0),
      mp_poll_next = (\<lambda>i w. let s = get w in
        case mq s i of m # ms \<Rightarrow> (Ready (Some m), put (s\<lparr>mq := (mq s)(i := ms)\<rparr>) w)
          | [] \<Rightarrow> (if mq_txs s i = 0 then Ready None else Pending, w)),
      mp_drop_tx = (\<lambda>i w. let s = get w in put (s\<lparr>mq_txs := (mq_txs s)(i := mq_txs s i - 1)\<rparr>) w),
      mp_drop_rx = (\<lambda>i w. let s = get w in put (s\<lparr>mq := (mq s)(i := []), mq_open := (mq_open s)(i := False)\<rparr>) w)\<rparr>"

lemma s_mpsc_laws:
  assumes "\<And>s w. get (put s w) = s" and "\<And>s w. part (put s w) = part w"
  shows "mp_laws (s_mpsc get put) (\<lambda>w. mq (get w)) (\<lambda>w. mq_open (get w)) part"
    and "\<forall>w x w'. mp_try_next (s_mpsc get put) n w = (x, w') \<longrightarrow> part w' = part w"
  using assms by (auto simp: mp_laws_def s_mpsc_def Let_def split: list.splits)

text \<open>A process with one stream: the wake-up channel is channel 0 and member 0 of the set, the stream's receiver is
  channel 1 and member 1, with a message that waits; the stream is queue 5.\<close>

record as_world =
  as_chans :: "channel_message cb_world"
  as_routes :: "(ip_receiver opaque_ipc_receiver \<times> nat) mp_world"
  as_out :: "(ip_opaque, ip_shared_memory) opaque_ipc_message mp_world"

definition as_cb :: "as_world ip_crossbeam" where
  "as_cb = cb_on as_chans (\<lambda>s w. w\<lparr>as_chans := s\<rparr>) s_crossbeam"

definition as_env ::
  "(as_world, ip_sender, ip_receiver, ip_opaque, ip_shared_memory, channel_error, string, ip_receiver_set) async_env" where
  "as_env = \<lparr>ae_backend = ip_backend as_cb, ae_sets = ip_sets as_cb, ae_bincode = bincode_le,
     ae_routes = s_mpsc as_routes (\<lambda>s w. w\<lparr>as_routes := s\<rparr>), ae_streams = s_mpsc as_out (\<lambda>s w. w\<lparr>as_out := s\<rparr>)\<rparr>"

definition as_message :: channel_message where
  "as_message = value_message as_cb bincode_le (ser_ipc_sender \<lparr>os_sender = \<lparr>ip_tx = 9\<rparr>\<rparr>)"

definition mp_init :: "'m mp_world" where
  "mp_init = \<lparr>mq = \<lambda>_. [], mq_open = \<lambda>_. True, mq_txs = \<lambda>_. 1, mq_new = 9\<rparr>"

definition as_start :: as_world where
  "as_start = \<lparr>as_chans = cb_init\<lparr>w_queue := (\<lambda>_. [])(1 := [as_message]), w_tx := \<lambda>_. 1, w_rx := \<lambda>_. 1\<rparr>,
     as_routes = mp_init, as_out = mp_init\<rparr>"

definition as_thread :: "ip_receiver_set async_thread" where
  "as_thread = \<lparr>receiver_set = rt_set, senders = [1 \<mapsto> 5]\<rparr>"

lemma as_laws: "mp_laws (ae_streams as_env) (\<lambda>w. mq (as_out w)) (\<lambda>w. mq_open (as_out w)) (\<lambda>_. ())"
  unfolding as_env_def async_env.simps by (rule s_mpsc_laws) simp_all

lemma as_select:
  "async_select as_env ((as_start, no_vectors), as_thread) =
     Some (Ok [MessageReceived 1 (opaque_message_new (ip_parts as_message))],
       ((as_start\<lparr>as_chans := s_take 1 [] (as_chans as_start)\<rparr>, no_vectors), as_thread))"
  by (simp add: async_select_def as_env_def as_thread_def get_async_set_def put_async_set_def ip_ipc_set on_part_def
    inner_set_def put_inner_def io_map_err_def ip_select_def rt_set_def on_world_def call_blocking_def as_cb_def cb_on_def
    s_crossbeam_def s_recv_def s_try_def as_start_def cb_init_def s_take_def Let_def opaque_message_new_def ip_parts_def
    numeral_2_eq_2)

theorem streams_get_messages_witness:
  "\<exists>w' r'. forward_all as_env [MessageReceived 1 (opaque_message_new (ip_parts as_message))]
       ((as_start\<lparr>as_chans := s_take 1 [] (as_chans as_start)\<rparr>, no_vectors), as_thread) = Some (Ok (), ((w', no_vectors), r')) \<and>
     mq (as_out w') 5 = [opaque_message_new (ip_parts as_message)] \<and>
     streams_ok (ip_async_inv as_env as_cb) ip_member_ids 0 ((w', no_vectors), r')"
proof -
  have 1: "streams_ok (ip_async_inv as_env as_cb) ip_member_ids 0 ((as_start, no_vectors), as_thread)"
    by (auto simp: streams_ok_iff ip_async_inv_def as_env_def as_thread_def inner_set_def rt_set_def ip_set_ok_def
      ip_member_ids_def)
  have 2: "tidy (\<lambda>_. True) 0 [MessageReceived 1 (opaque_message_new (ip_parts as_message))]" by simp
  have 3: "streams_open (\<lambda>w. mq_open (as_out w)) (as_start\<lparr>as_chans := s_take 1 [] (as_chans as_start)\<rparr>)
      (senders as_thread)"
    by (simp add: streams_open_def as_start_def as_thread_def mp_init_def)
  obtain w' r' where
    "forward_all as_env [MessageReceived 1 (opaque_message_new (ip_parts as_message))]
       ((as_start\<lparr>as_chans := s_take 1 [] (as_chans as_start)\<rparr>, no_vectors), as_thread) = Some (Ok (), ((w', no_vectors), r'))"
    and q: "\<forall>i tx. senders as_thread i = Some tx \<longrightarrow> mq (as_out w') tx =
      mq (as_out (as_start\<lparr>as_chans := s_take 1 [] (as_chans as_start)\<rparr>)) tx @
      messages_of i [MessageReceived 1 (opaque_message_new (ip_parts as_message))]"
    and "streams_ok (ip_async_inv as_env as_cb) ip_member_ids 0 ((w', no_vectors), r')"
    using streams_get_messages [OF as_laws 1 as_select 2 3, of 0] by blast
  moreover have "mq (as_out w') 5 = [opaque_message_new (ip_parts as_message)]"
    using q [rule_format, of 1 5] by (simp add: as_thread_def as_start_def mp_init_def)
  ultimately show ?thesis by blast
qed

theorem stream_yields_values_witness:
  "\<exists>w'. repeated 1 (stream_poll_next as_env de_ipc_sender \<lparr>stream_receiver = 5\<rparr>)
      (as_start\<lparr>as_out := mp_init\<lparr>mq := (\<lambda>_. [])(5 := [opaque_message_new (ip_parts as_message)])\<rparr>\<rparr>, no_vectors) =
    Some (Ok [Ready (Some (Inr \<lparr>os_sender = \<lparr>ip_tx = 9\<rparr>\<rparr>))], (w', no_vectors))"
  using stream_yields_values [OF _ _ rt_serde as_laws, of as_cb
      "as_start\<lparr>as_out := mp_init\<lparr>mq := (\<lambda>_. [])(5 := [opaque_message_new (ip_parts as_message)])\<rparr>\<rparr>"
      "\<lparr>stream_receiver = 5\<rparr>" "[\<lparr>os_sender = \<lparr>ip_tx = 9\<rparr>\<rparr>]" no_vectors] bincode_le_ok
  by (auto simp: as_env_def as_message_def)

end
