(* ===== verification/Unix_Value.thy ===== *)
theory Unix_Value
  imports Ipc_Channel
begin

text \<open>
  The public interface over the Unix back end, from end to end: a typed value with channels in it, serialized, cut into
  packets, reassembled and deserialized in another process.
\<close>

section \<open>Serializing on Unix\<close>

text \<open>Cloning a sender is sharing its descriptor, so that serializing a value without regions leaves the kernel alone.\<close>

lemma unix_backend_simps [simp]:
  "os_clone_tx (unix_backend sys ssb shared) = io_return"
  "os_send_message (unix_backend sys ssb shared) = os_send sys ssb shared"
  "os_recv_message (unix_backend sys ssb shared) = receiver_recv sys ssb"
  "os_to_sender (unix_backend sys ssb shared) = apfst Ok \<circ> to_sender"
  "os_to_receiver (unix_backend sys ssb shared) = apfst Ok \<circ> to_receiver"
  "os_drop_op (unix_backend sys ssb shared) = drop_opaque"
  "os_consume (unix_backend sys ssb shared) = fst \<circ> consume"
  by (simp_all add: unix_backend_def)

lemma serialize_channels:
  assumes "os_clone_tx be = io_return" and "plain steps" and "regions_of steps = []"
  shows "serialize_steps be bc steps (w, t) =
    Some (Ok (bytes_of bc (length (channels_for_serialization t)) g steps),
      (w, t\<lparr>channels_for_serialization := channels_for_serialization t @ channels_of be steps\<rparr>))"
  using assms(2,3)
proof (induction steps arbitrary: t)
  case (Cons a steps)
  then show ?case
  proof (cases a)
    case (SerSender tx)
    have "serialize_os_ipc_sender be bc tx (w, t) = Some (Ok (put_usize bc (len_of (channels_for_serialization t))),
        (w, t\<lparr>channels_for_serialization := channels_for_serialization t @ [Sender tx]\<rparr>))"
      by (simp add: serialize_os_ipc_sender_def assms(1) lift_os_def on_world_def io_map_err_def on_self_def)
    with Cons SerSender show ?thesis by simp
  next
    case (SerReceiver rx)
    have "serialize_os_ipc_receiver be bc rx (w, t) = Some (Ok (put_usize bc (len_of (channels_for_serialization t))),
        (w, t\<lparr>channels_for_serialization := channels_for_serialization t @ [Receiver (os_consume be rx)]\<rparr>))"
      by (simp add: serialize_os_ipc_receiver_def on_self_def)
    with Cons SerReceiver show ?thesis by simp
  qed simp_all
qed simp

lemma unix_ipc_send:
  assumes "plain steps" and "regions_of steps = []"
  shows "ipc_send (unix_backend sys ssb shared) bc tx steps (w, t) = lift_os (unix_backend sys ssb shared)
    (os_send sys ssb shared tx (bytes_of bc 0 0 steps) (channels_of (unix_backend sys ssb shared) steps) []) (w, t)"
  using serialize_channels [OF _ assms, of "unix_backend sys ssb shared" bc w
    "t\<lparr>channels_for_serialization := [], regions_for_serialization := []\<rparr>" 0] by simp

section \<open>The value on the other side\<close>

text \<open>The steps of a value whose descriptors have other numbers.\<close>

fun renumbered ::
  "(fd \<Rightarrow> fd) \<Rightarrow> (os_ipc_sender, os_ipc_receiver, os_ipc_shared_memory) ser_step list
     \<Rightarrow> (os_ipc_sender, os_ipc_receiver, os_ipc_shared_memory) ser_step list" where
  "renumbered \<rho> [] = []"
| "renumbered \<rho> (SerSender tx # steps) = SerSender (sender_from_fd (\<rho> (tx_fd tx))) # renumbered \<rho> steps"
| "renumbered \<rho> (SerReceiver rx # steps) = SerReceiver (receiver_from_fd (\<rho> (rx_fd rx))) # renumbered \<rho> steps"
| "renumbered \<rho> (step # steps) = step # renumbered \<rho> steps"

lemma renumbered_bytes: "bytes_of bc c g (renumbered \<rho> steps) = bytes_of bc c g steps"
  by (induction bc c g steps rule: bytes_of.induct) simp_all

lemma renumbered_arrived:
  assumes "plain steps" and "regions_of steps = []"
  shows "arrived_as (unix_backend rsys ssb shared')
    (map (\<lambda>ch. opaque_from_fd (\<rho> (os_ipc_channel_fd ch))) (channels_of (unix_backend sys ssb shared) steps)) []
    (renumbered \<rho> steps)"
  using assms
  by (induction steps rule: plain.induct)
    (simp_all add: opaque_from_fd_def to_sender_def to_receiver_def os_ipc_channel_fd_def sender_from_fd_def
      receiver_from_fd_def consume_def consume_fd_def)

lemma unix_drops_used: "drops_used (unix_backend sys ssb shared)"
  by (simp add: drops_used_def to_sender_def to_receiver_def drop_opaque_def)

text \<open>C3: A typed value goes from one process to another over the Unix back end. When sending it returns \<open>Ok\<close>, a packet
  lies on the channel, and the rest of the bytes on a dedicated socket if they were cut; whenever the receiver finds that
  packet next, and the rest on the socket that came with it, receiving in its process returns the value with every sender
  and receiver in it under the descriptor \<open>\<rho>\<close> gave it there, and takes nothing else from the channel. The vectors of both
  threads are as before.\<close>

theorem unix_value_roundtrip:
  assumes "sendbuf_ok ssb" and "bincode_ok bc" and "plain steps" and "regions_of steps = []"
    and "rust_len (bytes_of bc 0 0 steps)" and "length (channels_of (unix_backend sys ssb shared) steps) < 64"
    and "seqpacket_sends sys sent" and "socketpair_fresh sys sent open_fds" and "tx_fd tx \<in> open_fds w"
    and "ipc_send (unix_backend sys ssb shared) bc tx steps (w, t) = Some (Ok (), (w', t'))"
  shows "t' = t \<and> (\<exists>pkt rx chunks.
    is_transfer ssb (bytes_of bc 0 0 steps) (message_fds (channels_of (unix_backend sys ssb shared) steps) []) pkt rx chunks \<and>
    sent w' (tx_fd tx) = sent w (tx_fd tx) @ [pkt] \<and>
    (\<forall>b. rx = Some b \<longrightarrow> (\<exists>i a w1 w2. sys_socketpair sys w1 = ((i, a, b), w2) \<and> i \<ge> 0 \<and>
       a \<notin> open_fds w \<and> sent w' a = bare chunks)) \<and>
    (\<forall>(rsys :: 'v unix_sys) view wr fd \<rho> ps later des (v :: 'a) rt.
       receiving rsys view \<and> v_pending (view wr) fd = (fst pkt, map \<rho> (snd pkt)) # ps \<and>
       (\<forall>ch \<in> set (channels_of (unix_backend sys ssb shared) steps). \<rho> (os_ipc_channel_fd ch) \<in> v_socks (view wr)) \<and>
       (\<forall>b. rx = Some b \<longrightarrow> \<rho> b \<in> v_socks (view wr) \<and> \<rho> b \<noteq> fd \<and>
          v_pending (view wr) (\<rho> b) = bare chunks @ later) \<and>
       reads des (renumbered \<rho> steps) = Some v \<longrightarrow>
       (\<exists>wr'. ipc_recv (unix_backend rsys ssb shared) bc des \<lparr>os_receiver = \<lparr>rx_fd = fd\<rparr>\<rparr> (wr, rt) = Some (Ok v, (wr', rt)) \<and>
          v_pending (view wr') fd = ps)))"
proof -
  let ?data = "bytes_of bc 0 0 steps" and ?chs = "channels_of (unix_backend sys ssb shared) steps"
  have fds: "length (message_fds ?chs []) < 64" using assms(6) by (simp add: message_fds_def)
  then have "4 * (length (message_fds ?chs []) + 1) < 2 ^ 63" by simp
  moreover have send: "os_send sys ssb shared tx ?data ?chs [] w = Some (Ok (), w')" and t': "t' = t"
    using assms(10) [unfolded unix_ipc_send [OF assms(3,4)]]
    by (auto simp: lift_os_def on_world_def io_map_err_def)
  ultimately obtain pkt rx chunks where tr: "is_transfer ssb ?data (message_fds ?chs []) pkt rx chunks"
      "sent w' (tx_fd tx) = sent w (tx_fd tx) @ [pkt]"
      "\<forall>b. rx = Some b \<longrightarrow> (\<exists>i a w1 w2. sys_socketpair sys w1 = ((i, a, b), w2) \<and> i \<ge> 0 \<and>
         a \<notin> open_fds w \<and> sent w' a = bare chunks)"
    using os_send_wire [OF assms(1,5) _ assms(7-9)] by metis
  have received: "\<exists>wr'. ipc_recv (unix_backend rsys ssb shared) bc des \<lparr>os_receiver = \<lparr>rx_fd = fd\<rparr>\<rparr> (wr, rt) = Some (Ok v, (wr', rt)) \<and>
      v_pending (view wr') fd = ps"
    if r: "receiving rsys view" "v_pending (view wr) fd = (fst pkt, map \<rho> (snd pkt)) # ps"
        "\<forall>ch \<in> set ?chs. \<rho> (os_ipc_channel_fd ch) \<in> v_socks (view wr)"
        "\<forall>b. rx = Some b \<longrightarrow> \<rho> b \<in> v_socks (view wr) \<and> \<rho> b \<noteq> fd \<and> v_pending (view wr) (\<rho> b) = bare chunks @ later"
        "reads des (renumbered \<rho> steps) = Some v"
    for rsys :: "'v unix_sys" and view wr fd \<rho> ps later des and v :: 'a and rt
  proof -
    let ?ops = "map (\<lambda>ch. opaque_from_fd (\<rho> (os_ipc_channel_fd ch))) ?chs"
    obtain wr' where wr': "recv rsys ssb fd Blocking wr = Some (Ok (?data, ?ops, []), wr')" "v_pending (view wr') fd = ps"
      using recv_of_transfer [OF assms(1,5) fds tr(1) r(1-3) _ r(4), of Blocking] by auto
    have few: "length ?ops < 2 ^ 63" using assms(6) by simp
    have "message_to (unix_backend rsys ssb shared) bc des (opaque_message_new (?data, ?ops, [])) (wr', rt) = Some (Ok v, (wr', rt))"
      using message_to_arrived [OF assms(2) unix_drops_used r(5) renumbered_arrived [OF assms(3,4)] few,
        where junk = "[]" and w = wr' and t = rt]
      by (simp add: renumbered_bytes)
    then show ?thesis
      using wr' by (simp add: ipc_recv_def receiver_recv_def received_to_def on_world_def io_map_err_def)
  qed
  show ?thesis
    by (rule conjI, rule t', rule exI [of _ pkt], rule exI [of _ rx], rule exI [of _ chunks],
      intro conjI allI impI tr(1,2) tr(3) [rule_format], assumption, elim conjE, rule received, assumption+)
qed

text \<open>A byte and a sender, sent over a channel whose receiving end has the descriptor 4.\<close>

definition ex_value :: "(os_ipc_sender, os_ipc_receiver, os_ipc_shared_memory) ser_step list" where
  "ex_value = [SerBytes [9], SerSender \<lparr>tx_fd = 3\<rparr>]"

definition ex_value_sent :: knl where
  "ex_value_sent = example_pair\<lparr>k_sent := (k_sent example_pair)(3 := [([9, 0, 0, 0, 0, 0, 0, 0, 9, 0, 0, 0, 0, 0, 0, 0, 0], [3])]),
     k_pending := (k_pending example_pair)(4 := [([9, 0, 0, 0, 0, 0, 0, 0, 9, 0, 0, 0, 0, 0, 0, 0, 0], [3])])\<rparr>"

lemma ex_value_bytes: "bytes_of bincode_le 0 0 ex_value = [9, 0, 0, 0, 0, 0, 0, 0, 0]"
  by (simp add: ex_value_def bincode_le_def le_bytes_numeral)

lemma ex_value_run:
  "os_send k_sys 4096 (\<lambda>_. True) \<lparr>tx_fd = 3\<rparr> [9, 0, 0, 0, 0, 0, 0, 0, 0] [Sender \<lparr>tx_fd = 3\<rparr>] [] example_pair = Some (Ok (), ex_value_sent)"
proof -
  have "send k_sys 4096 3 [9, 0, 0, 0, 0, 0, 0, 0, 0] [3] example_pair = Some (Ok (), ex_value_sent)"
    by (simp add: send_defs get_max_fragment_size_eq first_fragment_size_eq fragment_size_eq
      example_pair_def ex_value_sent_def k_defs io_defs CMSG_SPACE_eq CMSG_LEN_eq le_bytes_numeral checked_add_def min_def)
  then show ?thesis by (simp add: os_send_def message_fds_def io_finally_def os_ipc_channel_fd_def drop_channel_def)
qed

definition ex_reader ::
  "(os_ipc_sender, os_ipc_receiver, os_ipc_shared_memory, u8 list \<times> os_ipc_sender) deser" where
  "ex_reader = DeBytes 1 (\<lambda>bs. DeSender (\<lambda>tx. DeReturn (bs, tx)))"

definition ex_tls :: "(os_ipc_sender, os_ipc_receiver, os_opaque_ipc_channel, os_ipc_shared_memory) tls" where
  "ex_tls =
     \<lparr>channels_for_serialization = [], regions_for_serialization = [],
      channels_for_deserialization = [], regions_for_deserialization = []\<rparr>"

theorem unix_value_roundtrip_witness:
  "\<exists>wr'. ipc_recv (unix_backend k_sys 4096 (\<lambda>_. True)) bincode_le ex_reader \<lparr>os_receiver = \<lparr>rx_fd = 4\<rparr>\<rparr> (ex_value_sent, ex_tls) =
     Some (Ok ([9], \<lparr>tx_fd = 3\<rparr>), (wr', ex_tls))"
proof -
  let ?be = "unix_backend k_sys 4096 (\<lambda>_. True)"
  have v: "plain ex_value" "regions_of ex_value = []" "channels_of ?be ex_value = [Sender \<lparr>tx_fd = 3\<rparr>]"
    "renumbered (\<lambda>f. f) ex_value = ex_value" "reads ex_reader ex_value = Some ([9], \<lparr>tx_fd = 3\<rparr>)"
    by (simp_all add: ex_value_def ex_reader_def sender_from_fd_def)
  have hyps: "sendbuf_ok 4096" "rust_len (bytes_of bincode_le 0 0 ex_value)" "length (channels_of ?be ex_value) < 64"
      "tx_fd \<lparr>tx_fd = 3\<rparr> \<in> k_open example_pair"
    by (simp_all add: ex_value_bytes v(3)) (simp add: example_pair_def k_open_def k_defs)
  have run: "ipc_send ?be bincode_le \<lparr>tx_fd = 3\<rparr> ex_value (example_pair, ex_tls) = Some (Ok (), (ex_value_sent, ex_tls))"
    unfolding unix_ipc_send [OF v(1,2)]
    by (simp add: ex_value_bytes v(3) ex_value_run lift_os_def on_world_def io_map_err_def)
  obtain pkt rx chunks where
    tr: "is_transfer 4096 (bytes_of bincode_le 0 0 ex_value) (message_fds (channels_of ?be ex_value) []) pkt rx chunks"
      "k_sent ex_value_sent (tx_fd \<lparr>tx_fd = 3\<rparr>) = k_sent example_pair (tx_fd \<lparr>tx_fd = 3\<rparr>) @ [pkt]"
    and r: "\<forall>(rsys :: knl unix_sys) view wr fd \<rho> ps later des (v :: u8 list \<times> os_ipc_sender) rt.
       receiving rsys view \<and> v_pending (view wr) fd = (fst pkt, map \<rho> (snd pkt)) # ps \<and>
       (\<forall>ch \<in> set (channels_of ?be ex_value). \<rho> (os_ipc_channel_fd ch) \<in> v_socks (view wr)) \<and>
       (\<forall>b. rx = Some b \<longrightarrow> \<rho> b \<in> v_socks (view wr) \<and> \<rho> b \<noteq> fd \<and>
          v_pending (view wr) (\<rho> b) = bare chunks @ later) \<and>
       reads des (renumbered \<rho> ex_value) = Some v \<longrightarrow>
       (\<exists>wr'. ipc_recv (unix_backend rsys 4096 (\<lambda>_. True)) bincode_le des \<lparr>os_receiver = \<lparr>rx_fd = fd\<rparr>\<rparr> (wr, rt) = Some (Ok v, (wr', rt)) \<and>
          v_pending (view wr') fd = ps)"
    using unix_value_roundtrip [OF hyps(1) bincode_le_ok v(1,2) hyps(2,3) k_seqpacket_sends k_socketpair_fresh hyps(4) run,
      where ?'v = knl and ?'a = "u8 list \<times> os_ipc_sender", THEN conjunct2]
    by (elim exE conjE) (rule that)
  have pkt: "pkt = ([9, 0, 0, 0, 0, 0, 0, 0, 9, 0, 0, 0, 0, 0, 0, 0, 0], [3])"
    using tr(2) by (simp add: ex_value_sent_def example_pair_def k_defs)
  have "rx = None"
    using tr(1) by (auto simp: pkt v(3) is_transfer_def message_fds_def os_ipc_channel_fd_def split: option.splits)
  then show ?thesis
    using r [rule_format, of k_sys k_view ex_value_sent 4 "\<lambda>f. f" "[]" "[]" ex_reader] k_receiving v
    by (auto simp: pkt k_view_def ex_value_sent_def example_pair_def os_ipc_channel_fd_def k_defs)
qed

end
