(* ===== verification/Win_Message.thy ===== *)
theory Win_Message
  imports Receiver_Set Ipc_Errors
begin

text \<open>
  Errors and messages of the Windows back end (\<open>src/src/platform/windows/mod.rs\<close>). A pipe is a stream of
  bytes, so each message starts with a header of two lengths: of the data, and of the out-of-band part with
  the handles that travel with it.
\<close>

section \<open>Errors\<close>

datatype win_error = WindowsResult u32 | WinChannelClosed | WinNoData

definition ERROR_BROKEN_PIPE :: u32 where "ERROR_BROKEN_PIPE = 109"
definition ERROR_NO_DATA :: u32 where "ERROR_NO_DATA = 232"
definition WAIT_TIMEOUT :: u32 where "WAIT_TIMEOUT = 258"
definition ERROR_PIPE_CONNECTED :: u32 where "ERROR_PIPE_CONNECTED = 535"
definition ERROR_IO_INCOMPLETE :: u32 where "ERROR_IO_INCOMPLETE = 996"
definition ERROR_IO_PENDING :: u32 where "ERROR_IO_PENDING = 997"
definition ERROR_NOT_FOUND :: u32 where "ERROR_NOT_FOUND = 1168"

definition win_from_system :: "u32 \<Rightarrow> win_error" where
  "win_from_system err = WindowsResult err"

definition win_channel_is_closed :: "win_error \<Rightarrow> bool" where
  "win_channel_is_closed e \<longleftrightarrow> e = WinChannelClosed"

text \<open>\<open>err as i32\<close> reads the code as a signed number.\<close>

fun win_to_io :: "win_error \<Rightarrow> string io_error" where
  "win_to_io WinChannelClosed = RawOs (sint ERROR_BROKEN_PIPE)"
| "win_to_io WinNoData = Custom WouldBlock ''Win channel has no data available''"
| "win_to_io (WindowsResult err) = RawOs (sint err)"

definition win_to_bincode :: "win_error \<Rightarrow> string bincode_error" where
  "win_to_bincode e = BincodeIo (win_to_io e)"

fun win_to_ipc :: "win_error \<Rightarrow> string ipc_error" where
  "win_to_ipc WinChannelClosed = Disconnected"
| "win_to_ipc e = Io (win_to_io e)"

fun win_to_try :: "win_error \<Rightarrow> string try_recv_error" where
  "win_to_try WinChannelClosed = IpcErr Disconnected"
| "win_to_try WinNoData = Empty"
| "win_to_try e = IpcErr (Io (win_to_io e))"

text \<open>\<open>error_string\<close> is the system's text for a code.\<close>

fun display_win_error :: "(u32 \<Rightarrow> string) \<Rightarrow> win_error \<Rightarrow> string" where
  "display_win_error error_string (WindowsResult errnum) = ''windows result: '' @ error_string errnum"
| "display_win_error error_string WinChannelClosed = ''channel closed''"
| "display_win_error error_string WinNoData = ''no data''"

interpretation wie: backend_error win_channel_is_closed "\<lambda>e. e = WinNoData" win_to_ipc win_to_try win_to_io
proof
  fix e
  show "win_to_ipc e \<in> (if win_channel_is_closed e then {Disconnected}
      else {Io (win_to_io e), Bincode (BincodeIo (win_to_io e))})"
    by (cases e) (auto simp: win_channel_is_closed_def)
  show "win_to_try e = Empty \<longleftrightarrow> e = WinNoData" by (cases e) auto
  show "e \<noteq> WinNoData \<Longrightarrow> win_to_try e = IpcErr (win_to_ipc e)" by (cases e) auto
  show "win_channel_is_closed e \<Longrightarrow> e \<noteq> WinNoData" by (auto simp: win_channel_is_closed_def)
qed

section \<open>Sizes\<close>

definition WIN_MAX_FRAGMENT_SIZE :: usize where
  "WIN_MAX_FRAGMENT_SIZE = 64 * 1024"

definition PIPE_BUFFER_SIZE :: usize where
  "PIPE_BUFFER_SIZE = WIN_MAX_FRAGMENT_SIZE + 4 * 1024"

lemma pipe_buffer_size [simp]: "unat PIPE_BUFFER_SIZE = 69632"
  by (simp add: PIPE_BUFFER_SIZE_def WIN_MAX_FRAGMENT_SIZE_def)

section \<open>Messages\<close>

record message_header =
  hdr_data_len :: u32
  hdr_oob_len :: u32

text \<open>\<open>mem::size_of::<MessageHeader>()\<close>, and the header as it is in memory.\<close>

definition HEADER_SIZE :: usize where
  "HEADER_SIZE = 8"

definition header_bytes :: "message_header \<Rightarrow> u8 list" where
  "header_bytes h = le_bytes 4 (unat (hdr_data_len h)) @ le_bytes 4 (unat (hdr_oob_len h))"

definition header_at :: "u8 list \<Rightarrow> message_header" where
  "header_at bytes =
     \<lparr>hdr_data_len = word_of_nat (le_nat (take 4 bytes)), hdr_oob_len = word_of_nat (le_nat (take 4 (drop 4 bytes)))\<rparr>"

text \<open>Sums of two 32-bit lengths and 8 stay far below \<open>usize::MAX\<close>.\<close>

definition total_message_bytes_needed :: "message_header \<Rightarrow> usize" where
  "total_message_bytes_needed h = HEADER_SIZE + ucast (hdr_data_len h) + ucast (hdr_oob_len h)"

record win_message =
  wm_data_len :: usize
  wm_oob_len :: usize
  wm_bytes :: "u8 list"

definition message_from_bytes :: "u8 list \<Rightarrow> win_message option" where
  "message_from_bytes bytes =
     (if length bytes < unat HEADER_SIZE then None
      else
        let header = header_at bytes in
        if length bytes < unat (total_message_bytes_needed header) then None
        else Some \<lparr>wm_data_len = ucast (hdr_data_len header), wm_oob_len = ucast (hdr_oob_len header),
               wm_bytes = take (unat (total_message_bytes_needed header)) bytes\<rparr>)"

definition message_data :: "win_message \<Rightarrow> (u8 list, 'e) res" where
  "message_data m = slice_of (wm_bytes m) HEADER_SIZE (HEADER_SIZE + wm_data_len m)"

definition message_oob_bytes :: "win_message \<Rightarrow> (u8 list, 'e) res" where
  "message_oob_bytes m = slice_of (wm_bytes m) (HEADER_SIZE + wm_data_len m) (len_of (wm_bytes m))"

definition message_size :: "win_message \<Rightarrow> usize" where
  "message_size m = HEADER_SIZE + wm_data_len m + wm_oob_len m"

section \<open>Out-of-band data\<close>

type_synonym handle = "64 word"

record oob_message =
  target_process_id :: u32
  channel_handles :: "handle list"
  shmem_handles :: "(handle \<times> u64) list"
  big_data_receiver_handle :: "(handle \<times> u64) option"

definition oob_new :: "u32 \<Rightarrow> oob_message" where
  "oob_new target_id =
     \<lparr>target_process_id = target_id, channel_handles = [], shmem_handles = [], big_data_receiver_handle = None\<rparr>"

definition oob_needs_to_be_sent :: "oob_message \<Rightarrow> bool" where
  "oob_needs_to_be_sent oob \<longleftrightarrow>
     channel_handles oob \<noteq> [] \<or> shmem_handles oob \<noteq> [] \<or> big_data_receiver_handle oob \<noteq> None"

text \<open>\<open>bincode\<close> on the tuple of the fields. \<open>serialized_size\<close> is the length of what \<open>serialize\<close> gives.\<close>

type_synonym oob_tuple = "u32 \<times> handle list \<times> (handle \<times> u64) list \<times> (handle \<times> u64) option"

record oob_bincode =
  put_oob :: "oob_tuple \<Rightarrow> u8 list"
  get_oob :: "u8 list \<Rightarrow> oob_tuple option"

definition oob_serialize :: "oob_bincode \<Rightarrow> oob_message \<Rightarrow> u8 list" where
  "oob_serialize bc oob =
     put_oob bc (target_process_id oob, channel_handles oob, shmem_handles oob, big_data_receiver_handle oob)"

definition oob_deserialize :: "oob_bincode \<Rightarrow> u8 list \<Rightarrow> oob_message option" where
  "oob_deserialize bc bytes =
     map_option (\<lambda>(target, channels, shmems, big).
       \<lparr>target_process_id = target, channel_handles = channels, shmem_handles = shmems, big_data_receiver_handle = big\<rparr>)
       (get_oob bc bytes)"

text \<open>Documented behaviour of \<open>bincode\<close>: it reads back what it wrote, with integers at their width, a length of
  8 bytes before a vector's elements, and one byte before an optional value. Lengths are at most \<open>usize::MAX\<close>.\<close>

definition oob_bincode_ok :: "oob_bincode \<Rightarrow> bool" where
  "oob_bincode_ok bc \<longleftrightarrow>
     (\<forall>t cs ss b. length cs < 2 ^ 64 \<and> length ss < 2 ^ 64 \<longrightarrow>
        get_oob bc (put_oob bc (t, cs, ss, b)) = Some (t, cs, ss, b)) \<and>
     (\<forall>t cs ss b. length (put_oob bc (t, cs, ss, b)) =
        4 + (8 + 8 * length cs) + (8 + 16 * length ss) + (1 + (if b = None then 0 else 16)))"

lemma oob_roundtrip:
  "oob_bincode_ok bc \<Longrightarrow> length (channel_handles oob) < 2 ^ 64 \<Longrightarrow> length (shmem_handles oob) < 2 ^ 64 \<Longrightarrow>
     oob_deserialize bc (oob_serialize bc oob) = Some oob"
  by (simp add: oob_bincode_ok_def oob_serialize_def oob_deserialize_def)

lemma length_oob_serialize:
  "oob_bincode_ok bc \<Longrightarrow> length (oob_serialize bc oob) =
     21 + 8 * length (channel_handles oob) + 16 * length (shmem_handles oob) +
     (if big_data_receiver_handle oob = None then 0 else 16)"
  by (simp add: oob_bincode_ok_def oob_serialize_def)

text \<open>A message for another process is a panic.\<close>

definition message_oob_data :: "oob_bincode \<Rightarrow> u32 \<Rightarrow> win_message \<Rightarrow> (oob_message option, 'e) res" where
  "message_oob_data bc pid m =
     (if wm_oob_len m > 0 then
        res_bind (message_oob_bytes m) (\<lambda>bytes.
          case oob_deserialize bc bytes of
            None \<Rightarrow> Panic
          | Some oob \<Rightarrow> if target_process_id oob \<noteq> pid then Panic else Ok (Some oob))
      else Ok None)"

section \<open>Framing\<close>

text \<open>What \<open>send\<close> writes, and what is found there.\<close>

definition frame :: "u8 list \<Rightarrow> u8 list \<Rightarrow> u8 list" where
  "frame data oob = header_bytes \<lparr>hdr_data_len = word_of_nat (length data), hdr_oob_len = word_of_nat (length oob)\<rparr> @ data @ oob"

abbreviation frame_len :: "u8 list \<Rightarrow> u8 list \<Rightarrow> nat" where
  "frame_len data oob \<equiv> 8 + length data + length oob"

lemma length_frame [simp]: "length (frame data oob) = frame_len data oob"
  by (simp add: frame_def header_bytes_def)

lemma header_size [simp]: "unat HEADER_SIZE = 8"
  by (simp add: HEADER_SIZE_def)

lemma header_at_bytes [simp]: "header_at (header_bytes h @ rest) = h"
proof -
  have "unat x < 256 ^ 4" for x :: u32
    using unsigned_less [of x, where ?'a = nat] by simp
  then show ?thesis
    by (simp add: header_at_def header_bytes_def del: power_numeral)
qed

lemma unat_total:
  "unat (total_message_bytes_needed h) = 8 + unat (hdr_data_len h) + unat (hdr_oob_len h)"
proof -
  have "unat x < 2 ^ 32" for x :: u32
    using unsigned_less [of x, where ?'a = nat] by simp
  from this [of "hdr_data_len h"] this [of "hdr_oob_len h"] show ?thesis
    by (simp add: total_message_bytes_needed_def HEADER_SIZE_def unat_word_ariths unsigned_ucast_eq take_bit_nat_eq_self)
qed

lemma total_frame:
  assumes "length data < 2 ^ 32" "length oob < 2 ^ 32"
  shows "unat (total_message_bytes_needed
      \<lparr>hdr_data_len = word_of_nat (length data), hdr_oob_len = word_of_nat (length oob)\<rparr>) = frame_len data oob"
  using assms by (simp add: unat_total unat_of_nat take_bit_nat_eq_self)

definition framed :: "u8 list \<Rightarrow> u8 list \<Rightarrow> win_message" where
  "framed data oob = \<lparr>wm_data_len = len_of data, wm_oob_len = len_of oob, wm_bytes = frame data oob\<rparr>"

lemma ucast_of_nat32: "n < 2 ^ 32 \<Longrightarrow> ucast (word_of_nat n :: u32) = usize_of n"
  by (simp add: word_unat_eq_iff unsigned_ucast_eq unat_of_nat take_bit_nat_eq_self)

lemma message_from_frame:
  assumes "length data < 2 ^ 32" "length oob < 2 ^ 32"
  shows "message_from_bytes (frame data oob @ rest) = Some (framed data oob)"
proof -
  have "header_at (frame data oob @ rest) =
      \<lparr>hdr_data_len = word_of_nat (length data), hdr_oob_len = word_of_nat (length oob)\<rparr>"
    by (simp add: frame_def)
  then show ?thesis
    using assms total_frame [OF assms]
    by (simp add: message_from_bytes_def framed_def Let_def ucast_of_nat32)
qed

lemma message_from_partial:
  assumes "length data < 2 ^ 32" "length oob < 2 ^ 32" and "k < frame_len data oob"
  shows "message_from_bytes (take k (frame data oob)) = None"
proof (cases "k < 8")
  case False
  then have "take k (frame data oob) =
      header_bytes \<lparr>hdr_data_len = word_of_nat (length data), hdr_oob_len = word_of_nat (length oob)\<rparr> @ take (k - 8) (data @ oob)"
    by (simp add: frame_def header_bytes_def)
  then have "header_at (take k (frame data oob)) =
      \<lparr>hdr_data_len = word_of_nat (length data), hdr_oob_len = word_of_nat (length oob)\<rparr>"
    by simp
  then show ?thesis using assms total_frame [OF assms(1,2)] by (simp add: message_from_bytes_def Let_def)
qed (simp add: message_from_bytes_def)

lemma unat_header_plus: "n < 2 ^ 33 \<Longrightarrow> unat (HEADER_SIZE + usize_of n) = 8 + n"
  by (simp add: HEADER_SIZE_def unat_word_ariths unat_of_nat take_bit_nat_eq_self)

lemma framed_parts:
  assumes "length data < 2 ^ 32" "length oob < 2 ^ 32"
  shows "message_data (framed data oob) = Ok data" "message_oob_bytes (framed data oob) = Ok oob"
    "unat (message_size (framed data oob)) = frame_len data oob" "wm_oob_len (framed data oob) > 0 \<longleftrightarrow> oob \<noteq> []"
proof -
  have u: "unat (HEADER_SIZE + len_of data) = 8 + length data" using assms by (simp add: unat_header_plus)
  have d: "drop (8 + n) (frame data oob) = drop n (data @ oob)" for n by (simp add: frame_def header_bytes_def)
  have l: "unat (len_of (frame data oob)) = frame_len data oob" using assms by (subst unat_usize_of) simp_all
  show "message_data (framed data oob) = Ok data"
    using u d [of 0] l by (simp add: message_data_def framed_def slice_of_def word_le_nat_alt del: length_frame)
  show "message_oob_bytes (framed data oob) = Ok oob"
    using u d [of "length data"] l by (simp add: message_oob_bytes_def framed_def slice_of_def word_le_nat_alt del: length_frame)
  have "HEADER_SIZE + len_of data + len_of oob = HEADER_SIZE + usize_of (length data + length oob)" by simp
  then show "unat (message_size (framed data oob)) = frame_len data oob"
    unfolding message_size_def framed_def win_message.simps
    using unat_header_plus [of "length data + length oob"] assms by (simp add: add.assoc)
  have "unat (len_of oob) = length oob" using assms by simp
  then show "wm_oob_len (framed data oob) > 0 \<longleftrightarrow> oob \<noteq> []"
    by (auto simp: framed_def word_less_nat_alt)
qed

end
