(* ===== verification/Win_Sys.thy ===== *)
theory Win_Sys
  imports Win_Message
begin

text \<open>
  The system calls of the Windows back end, which are a parameter of the model, and the wrappers around what
  they give out: \<open>WinHandle\<close>, \<open>Overlapped\<close>, and \<open>AliasedCell\<close> (\<open>src/src/platform/windows/aliased_cell.rs\<close>).
\<close>

section \<open>System calls\<close>

text \<open>
  A call that can fail gives the code of \<open>GetLastError\<close> or its result. \<open>w_overlapped_result\<close>,
  \<open>w_connect_result\<close>, \<open>w_next_completion\<close> and \<open>w_write_file\<close> may block.

  A read in flight is identified by its file handle and the event of its \<open>OVERLAPPED\<close>; when it is done, the
  system has written \<open>done_bytes\<close> into the buffer and reports their number (\<open>InternalHigh\<close>) and an offset.
  A completion packet has a key and, unless the call itself failed, the read it is about.
\<close>

record read_done =
  done_bytes :: "u8 list"
  done_offset :: u32

record completion =
  pkt_status :: "u32 + unit"
  pkt_key :: handle
  pkt_read :: "read_done option"

record 'w win_sys =
  w_pid :: u32
  w_current_process :: handle
  w_uuid :: "'w \<Rightarrow> string \<times> 'w"
  w_parse_uuid :: "string \<Rightarrow> string option"
  w_create_pipe :: "string \<Rightarrow> 'w \<Rightarrow> (u32 + handle) \<times> 'w"
  w_open_pipe :: "string \<Rightarrow> 'w \<Rightarrow> (u32 + handle) \<times> 'w"
  w_close_handle :: "handle \<Rightarrow> 'w \<Rightarrow> bool \<times> 'w"
  w_duplicate :: "handle \<Rightarrow> handle \<Rightarrow> bool \<Rightarrow> 'w \<Rightarrow> (u32 + handle) \<times> 'w"
  w_server_pid :: "handle \<Rightarrow> 'w \<Rightarrow> (u32 + u32) \<times> 'w"
  w_open_process :: "u32 \<Rightarrow> 'w \<Rightarrow> (u32 + handle) \<times> 'w"
  w_write_file :: "handle \<Rightarrow> u8 list \<Rightarrow> 'w \<Rightarrow> ((u32 + u32) \<times> 'w) option"
  w_create_event :: "'w \<Rightarrow> handle \<times> 'w"
  w_reset_event :: "handle \<Rightarrow> 'w \<Rightarrow> 'w"
  w_read_file :: "handle \<Rightarrow> handle \<Rightarrow> u32 \<Rightarrow> 'w \<Rightarrow> (u32 + unit) \<times> 'w"
  w_overlapped_result :: "handle \<Rightarrow> handle \<Rightarrow> u32 \<Rightarrow> 'w \<Rightarrow> ((u32 + read_done) \<times> 'w) option"
  w_cancel_io :: "handle \<Rightarrow> handle \<Rightarrow> 'w \<Rightarrow> (u32 + unit) \<times> 'w"
  w_connect_pipe :: "handle \<Rightarrow> 'w \<Rightarrow> (bool \<times> u32) \<times> 'w"
  w_connect_result :: "handle \<Rightarrow> 'w \<Rightarrow> ((u32 + unit) \<times> 'w) option"
  w_create_port :: "'w \<Rightarrow> (u32 + handle) \<times> 'w"
  w_add_to_port :: "handle \<Rightarrow> handle \<Rightarrow> handle \<Rightarrow> 'w \<Rightarrow> (u32 + unit) \<times> 'w"
  w_next_completion :: "handle \<Rightarrow> 'w \<Rightarrow> (completion \<times> 'w) option"
  w_create_mapping :: "u32 \<Rightarrow> u32 \<Rightarrow> 'w \<Rightarrow> (handle \<times> u32) \<times> 'w"
  w_map_view :: "handle \<Rightarrow> 'w \<Rightarrow> (u32 + usize) \<times> 'w"
  w_unmap_view :: "usize \<Rightarrow> 'w \<Rightarrow> bool \<times> 'w"
  w_peek :: "usize \<Rightarrow> usize \<Rightarrow> 'w \<Rightarrow> u8 list"
  w_poke :: "usize \<Rightarrow> u8 list \<Rightarrow> 'w \<Rightarrow> 'w"

text \<open>A failed call as an error of the back end.\<close>

definition or_last :: "('w \<Rightarrow> (u32 + 'a) \<times> 'w) \<Rightarrow> ('w, 'a, win_error) io" where
  "or_last f = io_bind (call f) (\<lambda>r. case r of Inl e \<Rightarrow> io_throw (win_from_system e) | Inr x \<Rightarrow> io_return x)"

lemma or_last_eq_Some [io_inv]:
  "or_last f w = Some (r, w') \<longleftrightarrow>
     (\<exists>x. f w = (Inr x, w') \<and> r = Ok x) \<or> (\<exists>e. f w = (Inl e, w') \<and> r = Err (WindowsResult e))"
  by (cases "f w") (auto simp: or_last_def call_def win_from_system_def split: sum.splits)

lemma or_last_run: "f w = (Inr x, w') \<Longrightarrow> or_last f w = Some (Ok x, w')"
  by (simp add: or_last_eq_Some)

section \<open>Handles\<close>

record win_handle = as_raw :: handle

definition INVALID_HANDLE_VALUE :: handle where
  "INVALID_HANDLE_VALUE = -1"

definition win_handle_new :: "handle \<Rightarrow> win_handle" where
  "win_handle_new h = \<lparr>as_raw = h\<rparr>"

definition win_handle_invalid :: win_handle where
  "win_handle_invalid = \<lparr>as_raw = INVALID_HANDLE_VALUE\<rparr>"

definition win_handle_is_valid :: "win_handle \<Rightarrow> bool" where
  "win_handle_is_valid h \<longleftrightarrow> as_raw h \<noteq> INVALID_HANDLE_VALUE"

definition win_handle_take_raw :: "win_handle \<Rightarrow> handle \<times> win_handle" where
  "win_handle_take_raw h = (as_raw h, h\<lparr>as_raw := INVALID_HANDLE_VALUE\<rparr>)"

definition win_handle_take :: "win_handle \<Rightarrow> win_handle \<times> win_handle" where
  "win_handle_take h = (case win_handle_take_raw h of (raw, h') \<Rightarrow> (win_handle_new raw, h'))"

definition drop_win_handle :: "'w win_sys \<Rightarrow> bool \<Rightarrow> win_handle \<Rightarrow> ('w, unit, win_error) io" where
  "drop_win_handle sys panicking h =
     (if win_handle_is_valid h then
        io_bind (call (w_close_handle sys (as_raw h))) (\<lambda>result.
        if panicking \<or> result then io_return () else io_panic)
      else io_return ())"

lemma win_handle_simps [simp]:
  "win_handle_is_valid win_handle_invalid = False" "as_raw (win_handle_new h) = h"
  "win_handle_take x = (x, win_handle_invalid)" "win_handle_take_raw x = (as_raw x, win_handle_invalid)"
  "drop_win_handle sys p win_handle_invalid = io_return ()"
  by (simp_all add: win_handle_is_valid_def win_handle_invalid_def win_handle_new_def win_handle_take_def
    win_handle_take_raw_def drop_win_handle_def)

section \<open>Duplicating handles\<close>

text \<open>The flag says to close the source (\<open>DUPLICATE_CLOSE_SOURCE\<close>); an invalid handle stays as it is.\<close>

definition dup_handle_to_process_with_flags ::
  "'w win_sys \<Rightarrow> win_handle \<Rightarrow> win_handle \<Rightarrow> bool \<Rightarrow> ('w, win_handle, win_error) io" where
  "dup_handle_to_process_with_flags sys h other_process close_source =
     (if \<not> win_handle_is_valid h then io_return win_handle_invalid
      else io_bind (or_last (w_duplicate sys (as_raw h) (as_raw other_process) close_source))
        (\<lambda>new_handle. io_return (win_handle_new new_handle)))"

definition dup_handle_to_process :: "'w win_sys \<Rightarrow> win_handle \<Rightarrow> win_handle \<Rightarrow> ('w, win_handle, win_error) io" where
  "dup_handle_to_process sys h other_process = dup_handle_to_process_with_flags sys h other_process False"

text \<open>The handle of the current process is not one that is closed: dropping the wrapper around it does what
  \<open>drop_win_handle\<close> does.\<close>

definition dup_handle :: "'w win_sys \<Rightarrow> win_handle \<Rightarrow> ('w, win_handle, win_error) io" where
  "dup_handle sys h =
     (let this_process = win_handle_new (w_current_process sys) in
      io_finally (dup_handle_to_process sys h this_process) (\<lambda>panicking. drop_win_handle sys panicking this_process))"

definition move_handle_to_process :: "'w win_sys \<Rightarrow> win_handle \<Rightarrow> win_handle \<Rightarrow> ('w, win_handle, win_error) io" where
  "move_handle_to_process sys h other_process = dup_handle_to_process_with_flags sys h other_process True"

section \<open>Memory that the system writes to\<close>

text \<open>
  An \<open>AliasedCell\<close> is not to be dropped: its bomb goes off then, and only \<open>into_inner\<close> defuses it. What is
  inside is leaked, not dropped.
\<close>

record 'a aliased_cell = cell_value :: 'a

definition drop_bomb :: "bool \<Rightarrow> ('w, unit, 'e) io" where
  "drop_bomb panicking = (if panicking then io_return () else io_panic)"

definition aliased_cell_new :: "'a \<Rightarrow> 'a aliased_cell" where
  "aliased_cell_new x = \<lparr>cell_value = x\<rparr>"

definition alias_mut :: "'a aliased_cell \<Rightarrow> ('a \<Rightarrow> 'a) \<Rightarrow> 'a aliased_cell" where
  "alias_mut c f = c\<lparr>cell_value := f (cell_value c)\<rparr>"

definition cell_alias :: "'a aliased_cell \<Rightarrow> 'a" where
  "cell_alias c = cell_value c"

definition into_inner :: "'a aliased_cell \<Rightarrow> 'a" where
  "into_inner c = cell_value c"

definition drop_aliased_cell :: "bool \<Rightarrow> 'a aliased_cell \<Rightarrow> ('w, unit, 'e) io" where
  "drop_aliased_cell panicking c = drop_bomb panicking"

lemma aliased_cell_simps [simp]:
  "cell_alias (aliased_cell_new x) = x" "into_inner (aliased_cell_new x) = x"
  "alias_mut (aliased_cell_new x) f = aliased_cell_new (f x)" "into_inner c = cell_alias c"
  "cell_alias (alias_mut c f) = f (cell_alias c)"
  by (simp_all add: cell_alias_def aliased_cell_new_def into_inner_def alias_mut_def)

text \<open>An \<open>Overlapped\<close>, by its event.\<close>

definition drop_overlapped :: "'w win_sys \<Rightarrow> bool \<Rightarrow> handle \<Rightarrow> ('w, unit, win_error) io" where
  "drop_overlapped sys panicking event =
     (if event \<noteq> 0 \<and> event \<noteq> INVALID_HANDLE_VALUE then
        io_bind (call (w_close_handle sys event)) (\<lambda>result.
        if panicking \<or> result then io_return () else io_panic)
      else io_return ())"

text \<open>A vector of bytes with the space it has. \<open>reserve\<close> grows it as the standard library does, to at least twice
  its size.\<close>

record byte_vec =
  vec_data :: "u8 list"
  vec_capacity :: nat

definition vec_new :: byte_vec where
  "vec_new = \<lparr>vec_data = [], vec_capacity = 0\<rparr>"

definition vec_reserve :: "nat \<Rightarrow> byte_vec \<Rightarrow> byte_vec" where
  "vec_reserve n v =
     (if n \<le> vec_capacity v - length (vec_data v) then v
      else v\<lparr>vec_capacity := max 8 (max (2 * vec_capacity v) (length (vec_data v) + n))\<rparr>)"

definition vec_ok :: "byte_vec \<Rightarrow> bool" where
  "vec_ok v \<longleftrightarrow> length (vec_data v) \<le> vec_capacity v"

lemma vec_ok_new [simp]: "vec_ok vec_new"
  by (simp add: vec_ok_def vec_new_def)

lemma vec_reserve [simp]:
  "vec_data (vec_reserve n v) = vec_data v"
  "vec_ok v \<Longrightarrow> vec_ok (vec_reserve n v) \<and> length (vec_data v) + n \<le> vec_capacity (vec_reserve n v)"
  by (auto simp: vec_reserve_def vec_ok_def)

end
