(* ===== verification/Win_Shmem.thy ===== *)
theory Win_Shmem
  imports Win_Sys
begin

text \<open>
  Shared memory of the Windows back end: \<open>OsIpcSharedMemory\<close> is a view of a file mapping; the length travels
  with the handle, as the system has no easy way to ask for it.
\<close>

record win_shmem =
  wshm_handle :: win_handle
  wshm_ptr :: usize
  wshm_length :: usize

text \<open>\<open>Drop\<close> takes the view away; the handle is closed as the region's field after that.\<close>

definition drop_win_shmem :: "'w win_sys \<Rightarrow> bool \<Rightarrow> win_shmem \<Rightarrow> ('w, unit, win_error) io" where
  "drop_win_shmem sys panicking shm =
     io_finally
       (io_bind (call (w_unmap_view sys (wshm_ptr shm))) (\<lambda>result.
        if panicking \<or> result then io_return () else io_panic))
       (\<lambda>unwinding. drop_win_handle sys (panicking \<or> unwinding) (wshm_handle shm))"

definition win_shmem_from_handle :: "'w win_sys \<Rightarrow> win_handle \<Rightarrow> usize \<Rightarrow> ('w, win_shmem, win_error) io" where
  "win_shmem_from_handle sys h len =
     io_on_failure
       (io_bind (or_last (w_map_view sys (as_raw h))) (\<lambda>address.
        io_return \<lparr>wshm_handle = h, wshm_ptr = address, wshm_length = len\<rparr>))
       (\<lambda>panicking. drop_win_handle sys panicking h)"

text \<open>The length in two halves; only \<open>INVALID_HANDLE_VALUE\<close> counts as a failure of \<open>CreateFileMapping\<close>.\<close>

definition win_shmem_new :: "'w win_sys \<Rightarrow> usize \<Rightarrow> ('w, win_shmem, win_error) io" where
  "win_shmem_new sys len =
     (if \<not> len < 0xFFFFFFFF then io_panic
      else
        let lhigh = ucast (drop_bit 32 len); llow = ucast (len AND 0xFFFFFFFF) in
        io_bind (call (w_create_mapping sys lhigh llow)) (\<lambda>(h, err).
        if h = INVALID_HANDLE_VALUE then io_throw (win_from_system err)
        else win_shmem_from_handle sys (win_handle_new h) len))"

definition win_shmem_from_byte :: "'w win_sys \<Rightarrow> u8 \<Rightarrow> usize \<Rightarrow> ('w, win_shmem, win_error) io" where
  "win_shmem_from_byte sys byte len =
     io_bind (io_unwrap (win_shmem_new sys len)) (\<lambda>mem.
     io_bind (call (\<lambda>w. ((), w_poke sys (wshm_ptr mem) (replicate (unat (wshm_length mem)) byte) w))) (\<lambda>_.
     io_return mem))"

definition win_shmem_from_bytes :: "'w win_sys \<Rightarrow> u8 list \<Rightarrow> ('w, win_shmem, win_error) io" where
  "win_shmem_from_bytes sys bytes =
     io_bind (io_unwrap (win_shmem_new sys (len_of bytes))) (\<lambda>mem.
     io_bind (call (\<lambda>w. ((), w_poke sys (wshm_ptr mem) bytes w))) (\<lambda>_.
     io_return mem))"

definition win_shmem_clone :: "'w win_sys \<Rightarrow> win_shmem \<Rightarrow> ('w, win_shmem, win_error) io" where
  "win_shmem_clone sys shm =
     io_bind (io_unwrap (dup_handle sys (wshm_handle shm))) (\<lambda>h.
     io_unwrap (win_shmem_from_handle sys h (wshm_length shm)))"

definition win_shmem_deref :: "'w win_sys \<Rightarrow> win_shmem \<Rightarrow> ('w, u8 list, win_error) io" where
  "win_shmem_deref sys shm =
     (if wshm_ptr shm = 0 \<or> \<not> win_handle_is_valid (wshm_handle shm) then io_panic
      else (\<lambda>w. Some (Ok (w_peek sys (wshm_ptr shm) (wshm_length shm) w), w)))"

section \<open>Contents\<close>

text \<open>Documented behaviour of views: memory reads back what was written last, a new view of a mapping shows what
  the other views of it show, and a view's address is not null.\<close>

definition win_memory :: "'w win_sys \<Rightarrow> ('w \<Rightarrow> usize \<Rightarrow> handle option) \<Rightarrow> bool" where
  "win_memory sys views \<longleftrightarrow>
     (\<forall>a bytes w n. n = len_of bytes \<and> views w a \<noteq> None \<longrightarrow>
        w_peek sys a n (w_poke sys a bytes w) = bytes \<and> views (w_poke sys a bytes w) = views w) \<and>
     (\<forall>h w a w'. w_map_view sys h w = (Inr a, w') \<longrightarrow> a \<noteq> 0 \<and> views w' a = Some h)"

lemma win_shmem_new_Ok:
  assumes "win_memory sys views" and "win_shmem_new sys len w = Some (Ok mem, w')"
  shows "wshm_ptr mem \<noteq> 0 \<and> views w' (wshm_ptr mem) \<noteq> None \<and> wshm_length mem = len \<and>
    win_handle_is_valid (wshm_handle mem) \<and> len < 0xFFFFFFFF"
proof -
  obtain h w1 a where "h \<noteq> INVALID_HANDLE_VALUE" and map: "w_map_view sys h w1 = (Inr a, w')"
    and mem: "mem = \<lparr>wshm_handle = win_handle_new h, wshm_ptr = a, wshm_length = len\<rparr>" and "len < 0xFFFFFFFF"
    using assms(2)
    by (auto simp: win_shmem_new_def win_shmem_from_handle_def io_inv Let_def split: if_splits prod.splits)
  moreover have "a \<noteq> 0 \<and> views w' a = Some h"
    using assms(1) map unfolding win_memory_def by blast
  ultimately show ?thesis by (simp add: win_handle_is_valid_def win_handle_new_def)
qed

lemma win_shmem_contents:
  assumes "win_memory sys views" and "win_shmem_from_bytes sys bytes w = Some (Ok mem, w')"
  shows "win_shmem_deref sys mem w' = Some (Ok bytes, w')"
proof -
  obtain w1 where new: "win_shmem_new sys (len_of bytes) w = Some (Ok mem, w1)"
    and w': "w' = w_poke sys (wshm_ptr mem) bytes w1"
    using assms(2) by (auto simp: win_shmem_from_bytes_def io_inv)
  note mem = win_shmem_new_Ok [OF assms(1) new]
  moreover have "w_peek sys (wshm_ptr mem) (len_of bytes) w' = bytes"
    using assms(1) mem unfolding win_memory_def w' by blast
  ultimately show ?thesis by (auto simp: win_shmem_deref_def)
qed

end
