(* ===== verification/Win_Reader.thy ===== *)
theory Win_Reader
  imports Win_Shmem
begin

text \<open>
  The reading end of a pipe on Windows: \<open>MessageReader\<close>, which keeps an asynchronous read in flight with the
  system, and \<open>OsIpcReceiver\<close>, a cell around it. While a read is in flight, the handle and the buffer are not in
  the reader but in the \<open>AliasedCell\<close> of the read.
\<close>

section \<open>State\<close>

record async_data =
  async_handle :: win_handle
  async_ov :: handle
  async_buf :: byte_vec

record message_reader =
  reader_handle :: win_handle
  read_buf :: byte_vec
  in_flight :: "async_data aliased_cell option"
  entry_id :: "u64 option"

type_synonym ('w, 'a) reader_io = "('w \<times> message_reader, 'a, win_error) io"

definition reader_new :: "win_handle \<Rightarrow> message_reader" where
  "reader_new h = \<lparr>reader_handle = h, read_buf = vec_new, in_flight = None, entry_id = None\<rparr>"

definition reader_take :: "message_reader \<Rightarrow> message_reader \<times> message_reader" where
  "reader_take r = (r, reader_new win_handle_invalid)"

section \<open>Reads in flight\<close>

text \<open>\<open>async.take().unwrap().into_inner()\<close>, and moving handle and buffer back. What they replace is an invalid handle
  and an empty vector, so that nothing is dropped but the \<open>Overlapped\<close>.\<close>

definition restored :: "async_data \<Rightarrow> message_reader \<Rightarrow> message_reader" where
  "restored a r = r\<lparr>in_flight := None, reader_handle := async_handle a, read_buf := async_buf a\<rparr>"

definition taking_async :: "(handle \<Rightarrow> ('w, 'a) reader_io) \<Rightarrow> ('w, 'a) reader_io" where
  "taking_async f = with_self (\<lambda>r.
     case in_flight r of
       None \<Rightarrow> io_panic
     | Some c \<Rightarrow> io_bind (on_self (\<lambda>r. ((), restored (into_inner c) r))) (\<lambda>_. f (async_ov (into_inner c))))"

definition release_async :: "'w win_sys \<Rightarrow> ('w, unit) reader_io" where
  "release_async sys = taking_async (\<lambda>ov. on_world (drop_overlapped sys False ov))"

definition issue_async_cancel :: "'w win_sys \<Rightarrow> ('w, unit) reader_io" where
  "issue_async_cancel sys = with_self (\<lambda>r.
     (case in_flight r of
        None \<Rightarrow> io_panic
      | Some c \<Rightarrow>
          io_bind (on_world (call (w_cancel_io sys (as_raw (async_handle (cell_alias c))) (async_ov (cell_alias c))))) (\<lambda>status.
          case status of
            Inr u \<Rightarrow> io_return ()
          | Inl err \<Rightarrow> if err \<noteq> ERROR_NOT_FOUND then io_panic else release_async sys)))"

definition start_read :: "'w win_sys \<Rightarrow> ('w, unit) reader_io" where
  "start_read sys = with_self (\<lambda>r.
     if in_flight r \<noteq> None then io_return ()
     else
       let buf = (if length (vec_data (read_buf r)) = vec_capacity (read_buf r)
              then vec_reserve (unat PIPE_BUFFER_SIZE) (read_buf r) else read_buf r);
           remaining = vec_capacity buf - length (vec_data buf) in
       io_bind (on_world (call (w_create_event sys))) (\<lambda>event.
       io_bind (on_self (\<lambda>s. ((), s\<lparr>reader_handle := win_handle_invalid, read_buf := vec_new,
          in_flight := Some (aliased_cell_new \<lparr>async_handle = reader_handle r, async_ov = event, async_buf = buf\<rparr>)\<rparr>))) (\<lambda>_.
       io_bind (on_world (call (w_read_file sys (as_raw (reader_handle r)) event (word_of_nat remaining)))) (\<lambda>ok.
       case ok of
         Inr u \<Rightarrow> io_return ()
       | Inl err \<Rightarrow>
           if err = ERROR_IO_PENDING then io_return ()
           else if err = ERROR_BROKEN_PIPE then io_bind (release_async sys) (\<lambda>_. io_throw WinChannelClosed)
           else io_bind (release_async sys) (\<lambda>_. io_throw (win_from_system err))))))"

text \<open>\<open>ov.InternalHigh as u32\<close> is the number of bytes read.\<close>

definition notify_completion :: "'w win_sys \<Rightarrow> win_error + read_done \<Rightarrow> ('w, unit) reader_io" where
  "notify_completion sys io_result = taking_async (\<lambda>ov.
     io_finally
       (case io_result of
          Inl err \<Rightarrow> io_throw (if err = WindowsResult ERROR_BROKEN_PIPE then WinChannelClosed else err)
        | Inr d \<Rightarrow>
            if done_offset d \<noteq> 0 then io_panic
            else with_self (\<lambda>r.
              let buf = read_buf r; nbytes = unat (ucast (len_of (done_bytes d)) :: u32);
                  new_size = length (vec_data buf) + nbytes in
              if \<not> new_size \<le> vec_capacity buf then io_panic
              else on_self (\<lambda>_. ((), r\<lparr>read_buf := buf\<lparr>vec_data := vec_data buf @ take nbytes (done_bytes d)\<rparr>\<rparr>))))
       (\<lambda>panicking. on_world (drop_overlapped sys panicking ov)))"

definition INFINITE :: u32 where
  "INFINITE = 0xFFFFFFFF"

fun overlapped_timeout :: "blocking_mode \<Rightarrow> u32" where
  "overlapped_timeout Blocking = INFINITE"
| "overlapped_timeout Nonblocking = 0"
| "overlapped_timeout (Timeout duration) = (if duration < 2 ^ 32 then word_of_nat duration else INFINITE)"

definition overlapped_result :: "'w win_sys \<Rightarrow> blocking_mode \<Rightarrow> ('w, u32 + read_done) reader_io" where
  "overlapped_result sys mode = with_self (\<lambda>r.
     (case in_flight r of
        None \<Rightarrow> io_panic
      | Some c \<Rightarrow>
          io_bind (on_world (call_blocking (w_overlapped_result sys (as_raw (async_handle (cell_alias c)))
            (async_ov (cell_alias c)) (overlapped_timeout mode)))) (\<lambda>ok.
          io_bind (on_world (call (\<lambda>w. ((), w_reset_event sys (async_ov (cell_alias c)) w)))) (\<lambda>_.
          io_return ok))))"

text \<open>\<open>cancel_io\<close> up to the wait; its value says whether there is something to wait for.\<close>

definition begin_cancel :: "'w win_sys \<Rightarrow> ('w, bool) reader_io" where
  "begin_cancel sys = with_self (\<lambda>r.
     if in_flight r = None then io_return False
     else if entry_id r \<noteq> None then io_panic
     else io_bind (issue_async_cancel sys) (\<lambda>_. on_self (\<lambda>r. (in_flight r \<noteq> None, r))))"

text \<open>\<open>fetch_async_result\<close> and \<open>cancel_io\<close> call each other; the cancelling is written out in the first.\<close>

partial_function (option) fetch_async_result :: "'w win_sys \<Rightarrow> blocking_mode \<Rightarrow> ('w, unit) reader_io" where
  "fetch_async_result sys mode wr =
     io_bind (overlapped_result sys mode) (\<lambda>ok.
       case ok of
         Inl err \<Rightarrow>
           if mode \<noteq> Blocking \<and> err = ERROR_IO_INCOMPLETE then io_throw WinNoData
           else if err = WAIT_TIMEOUT then
             io_bind (begin_cancel sys) (\<lambda>wait.
             io_bind (if wait then io_match (fetch_async_result sys Blocking) (\<lambda>_. io_return ()) (\<lambda>_. io_return ())
                else io_return ()) (\<lambda>_.
             io_throw WinNoData))
           else notify_completion sys (Inl (win_from_system err))
       | Inr d \<Rightarrow> notify_completion sys (Inr d)) wr"

definition cancel_io :: "'w win_sys \<Rightarrow> ('w, unit) reader_io" where
  "cancel_io sys =
     io_bind (begin_cancel sys) (\<lambda>wait.
     if wait then io_match (fetch_async_result sys Blocking) (\<lambda>_. io_return ()) (\<lambda>_. io_return ()) else io_return ())"

section \<open>Dropping a reader\<close>

definition drop_reader_fields :: "'w win_sys \<Rightarrow> bool \<Rightarrow> message_reader \<Rightarrow> ('w, unit, win_error) io" where
  "drop_reader_fields sys panicking r =
     io_finally (drop_win_handle sys panicking (reader_handle r)) (\<lambda>unwinding.
       case in_flight r of None \<Rightarrow> io_return () | Some c \<Rightarrow> drop_aliased_cell (panicking \<or> unwinding) c)"

definition drop_message_reader :: "'w win_sys \<Rightarrow> bool \<Rightarrow> message_reader \<Rightarrow> ('w, unit, win_error) io" where
  "drop_message_reader sys panicking r =
     owning r (cancel_io sys) (\<lambda>unwinding. drop_reader_fields sys (panicking \<or> unwinding))"

section \<open>Raw reads\<close>

definition raw_error :: "win_error \<Rightarrow> win_error" where
  "raw_error e = (if e = WinChannelClosed then win_from_system ERROR_BROKEN_PIPE else e)"

definition read_raw_step :: "'w win_sys \<Rightarrow> ('w, unit) reader_io" where
  "read_raw_step sys =
     io_bind (io_map_err raw_error (start_read sys)) (\<lambda>_. io_map_err raw_error (fetch_async_result sys Blocking))"

partial_function (option) read_raw_loop :: "'w win_sys \<Rightarrow> nat \<Rightarrow> ('w, unit) reader_io" where
  "read_raw_loop sys sz wr =
     with_self (\<lambda>r.
       if length (vec_data (read_buf r)) < sz then io_bind (read_raw_step sys) (\<lambda>_. read_raw_loop sys sz)
       else io_return ()) wr"

definition read_raw_sized :: "'w win_sys \<Rightarrow> message_reader \<Rightarrow> usize \<Rightarrow> ('w, u8 list, win_error) io" where
  "read_raw_sized sys r sz =
     owning r
       (with_self (\<lambda>r.
          if length (vec_data (read_buf r)) \<noteq> 0 then io_panic
          else
            io_bind (on_self (\<lambda>r. ((), r\<lparr>read_buf := vec_reserve (unat sz) (read_buf r)\<rparr>))) (\<lambda>_.
            io_bind (read_raw_loop sys (unat sz)) (\<lambda>_.
            on_self (\<lambda>r. (vec_data (read_buf r), r\<lparr>read_buf := vec_new\<rparr>))))))
       (drop_message_reader sys)"

section \<open>Messages\<close>

record win_opaque = op_handle :: win_handle

definition win_opaque_new :: "win_handle \<Rightarrow> win_opaque" where
  "win_opaque_new h = \<lparr>op_handle = h\<rparr>"

text \<open>\<open>Drop\<close> asserts that the channel was taken out; the handle is closed as its field after that.\<close>

definition drop_win_opaque :: "'w win_sys \<Rightarrow> bool \<Rightarrow> win_opaque \<Rightarrow> ('w, unit, win_error) io" where
  "drop_win_opaque sys panicking c =
     io_finally (if win_handle_is_valid (op_handle c) then io_panic else io_return ()) (\<lambda>unwinding.
       drop_win_handle sys (panicking \<or> unwinding) (op_handle c))"

type_synonym win_received = "u8 list \<times> win_opaque list \<times> win_shmem list"

fun map_shmems :: "'w win_sys \<Rightarrow> win_shmem list \<Rightarrow> (handle \<times> u64) list \<Rightarrow> ('w, win_shmem list, win_error) io" where
  "map_shmems sys shmems [] = io_return shmems"
| "map_shmems sys shmems ((h, sz) # rest) =
     io_bind (io_on_failure (io_unwrap (win_shmem_from_handle sys (win_handle_new h) sz))
         (\<lambda>panicking. drop_all (drop_win_shmem sys) panicking shmems))
       (\<lambda>shm. map_shmems sys (shmems @ [shm]) rest)"

definition recv_raw :: "'w win_sys \<Rightarrow> message_reader \<Rightarrow> usize \<Rightarrow> ('w, u8 list, win_error) io" where
  "recv_raw sys r sz = read_raw_sized sys r sz"

definition message_parts :: "'w win_sys \<Rightarrow> oob_bincode \<Rightarrow> win_message \<Rightarrow> ('w, win_received, win_error) io" where
  "message_parts sys bc m =
     io_bind (io_lift (message_oob_data bc (w_pid sys) m)) (\<lambda>oob.
       case oob of
         None \<Rightarrow> io_bind (io_lift (message_data m)) (\<lambda>data. io_return (data, [], []))
       | Some oob \<Rightarrow>
           let channels = map (\<lambda>h. win_opaque_new (win_handle_new h)) (channel_handles oob) in
           io_on_failure
             (io_bind (map_shmems sys [] (shmem_handles oob)) (\<lambda>shmems.
              io_on_failure
                (io_bind
                   (case big_data_receiver_handle oob of
                      None \<Rightarrow> io_lift (message_data m)
                    | Some (h, sz) \<Rightarrow> recv_raw sys (reader_new (win_handle_new h)) sz)
                   (\<lambda>data. io_return (data, channels, shmems)))
                (\<lambda>panicking. drop_all (drop_win_shmem sys) panicking shmems)))
             (\<lambda>panicking. drop_all (drop_win_opaque sys) panicking channels))"

definition drain_buf :: "nat \<Rightarrow> byte_vec \<Rightarrow> byte_vec" where
  "drain_buf sz buf = (if length (vec_data buf) = sz then buf\<lparr>vec_data := []\<rparr> else buf\<lparr>vec_data := drop sz (vec_data buf)\<rparr>)"

definition get_message :: "'w win_sys \<Rightarrow> oob_bincode \<Rightarrow> ('w, win_received option) reader_io" where
  "get_message sys bc = with_self (\<lambda>r.
     if in_flight r \<noteq> None then io_return None
     else
       (case message_from_bytes (vec_data (read_buf r)) of
          None \<Rightarrow> io_return None
        | Some m \<Rightarrow>
            io_bind (on_world (message_parts sys bc m)) (\<lambda>received.
            io_bind (on_self (\<lambda>r. ((), r\<lparr>read_buf := drain_buf (unat (message_size m)) (read_buf r)\<rparr>))) (\<lambda>_.
            io_return (Some received)))))"

section \<open>Receivers\<close>

text \<open>A receiver is a cell around a reader: its methods act on the reader.\<close>

definition win_receiver_new_named :: "'w win_sys \<Rightarrow> string \<Rightarrow> ('w, message_reader, win_error) io" where
  "win_receiver_new_named sys pipe_name =
     io_bind (or_last (w_create_pipe sys pipe_name)) (\<lambda>h. io_return (reader_new (win_handle_new h)))"

definition prepare_for_transfer :: "'w win_sys \<Rightarrow> ('w, bool) reader_io" where
  "prepare_for_transfer sys = io_bind (cancel_io sys) (\<lambda>_. on_self (\<lambda>r. (vec_data (read_buf r) = [], r)))"

definition win_consume :: "('w, message_reader) reader_io" where
  "win_consume = with_self (\<lambda>r.
     if in_flight r \<noteq> None then io_panic
     else on_self (\<lambda>r. (reader_new (reader_handle r), r\<lparr>reader_handle := win_handle_invalid\<rparr>)))"

text \<open>After the first read the call blocks: there is part of a message already.\<close>

partial_function (option) receive_loop ::
  "'w win_sys \<Rightarrow> oob_bincode \<Rightarrow> blocking_mode \<Rightarrow> ('w, win_received) reader_io" where
  "receive_loop sys bc mode wr =
     io_bind (get_message sys bc) (\<lambda>got.
       case got of
         None \<Rightarrow>
           io_bind (start_read sys) (\<lambda>_.
           io_bind (fetch_async_result sys mode) (\<lambda>_.
           receive_loop sys bc Blocking))
       | Some received \<Rightarrow> io_return received) wr"

definition receive_message :: "'w win_sys \<Rightarrow> oob_bincode \<Rightarrow> blocking_mode \<Rightarrow> ('w, win_received) reader_io" where
  "receive_message sys bc mode = with_self (\<lambda>r.
     if entry_id r \<noteq> None then io_panic else receive_loop sys bc mode)"

definition win_recv :: "'w win_sys \<Rightarrow> oob_bincode \<Rightarrow> ('w, win_received) reader_io" where
  "win_recv sys bc = receive_message sys bc Blocking"

definition win_try_recv :: "'w win_sys \<Rightarrow> oob_bincode \<Rightarrow> ('w, win_received) reader_io" where
  "win_try_recv sys bc = receive_message sys bc Nonblocking"

definition win_try_recv_timeout :: "'w win_sys \<Rightarrow> oob_bincode \<Rightarrow> duration \<Rightarrow> ('w, win_received) reader_io" where
  "win_try_recv_timeout sys bc duration = receive_message sys bc (Timeout duration)"

text \<open>\<open>ConnectNamedPipe\<close> with an \<open>OVERLAPPED\<close> of its own, in a cell that an early return drops.\<close>

definition win_accept_pipe :: "'w win_sys \<Rightarrow> ('w, unit) reader_io" where
  "win_accept_pipe sys = with_self (\<lambda>r.
     let cell = aliased_cell_new () in
     io_bind (on_world (call (w_connect_pipe sys (as_raw (reader_handle r))))) (\<lambda>(ok, err).
     if ok then io_finally io_panic (\<lambda>panicking. drop_aliased_cell panicking cell)
     else if err = ERROR_PIPE_CONNECTED then io_return ()
     else if err = ERROR_NO_DATA then io_return ()
     else if err = ERROR_IO_PENDING then
       io_bind (on_world (call_blocking (w_connect_result sys (as_raw (reader_handle r))))) (\<lambda>ok.
       case ok of
         Inl err \<Rightarrow> io_finally (io_throw (win_from_system err)) (\<lambda>panicking. drop_aliased_cell panicking cell)
       | Inr u \<Rightarrow> io_return ())
     else io_throw (win_from_system err)))"

definition opaque_to_win_receiver :: "win_opaque \<Rightarrow> message_reader \<times> win_opaque" where
  "opaque_to_win_receiver c = (case win_handle_take (op_handle c) of (h, h') \<Rightarrow> (reader_new h, c\<lparr>op_handle := h'\<rparr>))"

section \<open>Running\<close>

text \<open>What a read is started with.\<close>

definition read_space :: "message_reader \<Rightarrow> byte_vec" where
  "read_space r =
     (if length (vec_data (read_buf r)) = vec_capacity (read_buf r)
      then vec_reserve (unat PIPE_BUFFER_SIZE) (read_buf r) else read_buf r)"

definition reading :: "handle \<Rightarrow> message_reader \<Rightarrow> message_reader" where
  "reading event r = r\<lparr>reader_handle := win_handle_invalid, read_buf := vec_new,
     in_flight := Some (aliased_cell_new \<lparr>async_handle = reader_handle r, async_ov = event, async_buf = read_space r\<rparr>)\<rparr>"

lemma in_flight_reading [simp]:
  "in_flight (reading ev r) =
     Some (aliased_cell_new \<lparr>async_handle = reader_handle r, async_ov = ev, async_buf = read_space r\<rparr>)"
  by (simp add: reading_def)

lemma start_read_run:
  assumes "in_flight r = None" and "w_create_event sys w = (ev, w1)"
    and "w_read_file sys (as_raw (reader_handle r)) ev
      (word_of_nat (vec_capacity (read_space r) - length (vec_data (read_space r)))) w1 = (ok, w2)"
  shows "start_read sys (w, r) =
    (case ok of
       Inr u \<Rightarrow> Some (Ok (), (w2, reading ev r))
     | Inl err \<Rightarrow>
         if err = ERROR_IO_PENDING then Some (Ok (), (w2, reading ev r))
         else io_bind (release_async sys)
           (\<lambda>_. io_throw (if err = ERROR_BROKEN_PIPE then WinChannelClosed else win_from_system err)) (w2, reading ev r))"
  using assms
  by (simp add: start_read_def Let_def read_space_def [symmetric] on_world_def on_self_def call_def reading_def
    split: sum.split)

lemma start_read_in_flight:
  assumes "start_read sys (w, r) = Some (Ok (), (w', r'))"
  shows "in_flight r' \<noteq> None"
proof (cases "in_flight r")
  case None
  obtain ev w1 where 1: "w_create_event sys w = (ev, w1)" by force
  obtain ok w2 where 2: "w_read_file sys (as_raw (reader_handle r)) ev
      (word_of_nat (vec_capacity (read_space r) - length (vec_data (read_space r)))) w1 = (ok, w2)" by force
  show ?thesis
    using assms unfolding start_read_run [OF None 1 2]
    by (auto simp: io_bind_eq_Some split: sum.split_asm if_split_asm)
qed (use assms in \<open>simp add: start_read_def\<close>)

section \<open>What a reader keeps\<close>

text \<open>
  A reader's handle and buffer are either its own or in the cell of a read in flight, never in both places, and
  no operation loses the pipe.
\<close>

definition reader_ok :: "message_reader \<Rightarrow> bool" where
  "reader_ok r \<longleftrightarrow>
     (case in_flight r of
        None \<Rightarrow> vec_ok (read_buf r)
      | Some c \<Rightarrow> reader_handle r = win_handle_invalid \<and> read_buf r = vec_new \<and> vec_ok (async_buf (cell_alias c)))"

definition pipe_of :: "message_reader \<Rightarrow> win_handle" where
  "pipe_of r = (case in_flight r of None \<Rightarrow> reader_handle r | Some c \<Rightarrow> async_handle (cell_alias c))"

text \<open>With \<open>Some p\<close>: a reader in order whose pipe is \<open>p\<close>. With \<open>None\<close> any reader, of which only the identifier is followed.\<close>

definition holds_pipe :: "win_handle option \<Rightarrow> message_reader \<Rightarrow> bool" where
  "holds_pipe h r \<longleftrightarrow> h \<noteq> None \<longrightarrow> reader_ok r \<and> h = Some (pipe_of r)"

definition reader_keeps :: "win_handle option \<Rightarrow> u64 option \<Rightarrow> 'w \<times> message_reader \<Rightarrow> bool" where
  "reader_keeps h e wr \<longleftrightarrow> holds_pipe h (snd wr) \<and> entry_id (snd wr) = e"

lemma reader_keeps_iff [simp]: "reader_keeps h e (w, r) \<longleftrightarrow> holds_pipe h r \<and> entry_id r = e"
  by (simp add: reader_keeps_def)

lemma reader_ok_new [simp]: "reader_ok (reader_new h)" "pipe_of (reader_new h) = h" "entry_id (reader_new h) = None"
  by (simp_all add: reader_ok_def reader_new_def pipe_of_def)

lemma keeps_on_world_reader [io_keeps]: "keeps (reader_keeps h e) (on_world m)"
  by (auto simp: ensures_def on_world_eq_Some)

lemma keeps_on_self_reader:
  assumes "\<And>r. holds_pipe h r \<Longrightarrow> entry_id r = e \<Longrightarrow> holds_pipe h (snd (f r)) \<and> entry_id (snd (f r)) = e"
  shows "keeps (reader_keeps h e) (on_self f)"
  unfolding ensures_def on_self_eq_Some
proof (intro allI impI conjI TrueI)
  fix wr q wr' assume "reader_keeps h e wr" and "\<exists>w s s' x. wr = (w, s) \<and> wr' = (w, s') \<and> f s = (x, s') \<and> q = Ok x"
  then show "reader_keeps h e wr'" using assms by force
qed

lemma keeps_taking_async [io_keeps]:
  assumes "\<And>ov. keeps (reader_keeps h e) (f ov)"
  shows "keeps (reader_keeps h e) (taking_async f)"
  unfolding ensures_def
proof (intro allI impI conjI TrueI)
  fix wr q wr'
  assume keeps: "reader_keeps h e wr" and run: "taking_async f wr = Some (q, wr')"
  obtain w r where wr: "wr = (w, r)" by force
  show "reader_keeps h e wr'"
  proof (cases "in_flight r")
    case None
    with run keeps show ?thesis by (auto simp: taking_async_def wr)
  next
    case (Some c)
    then have "reader_keeps h e (w, restored (cell_alias c) r)"
      using keeps by (simp add: wr holds_pipe_def reader_ok_def restored_def pipe_of_def)
    moreover have "f (async_ov (cell_alias c)) (w, restored (cell_alias c) r) = Some (q, wr')"
      using run Some by (simp add: taking_async_def wr on_self_def)
    ultimately show ?thesis by (rule keepsD [OF assms])
  qed
qed

lemma release_async_keeps [io_keeps]: "keeps (reader_keeps h e) (release_async sys)"
  unfolding release_async_def by (intro io_keeps)

lemma issue_async_cancel_keeps [io_keeps]: "keeps (reader_keeps h e) (issue_async_cancel sys)"
  unfolding issue_async_cancel_def by (intro io_keeps)

lemma start_read_keeps [io_keeps]: "keeps (reader_keeps h e) (start_read sys)"
  unfolding start_read_def Let_def
proof (intro io_keeps keeps_on_self_reader)
qed (auto simp: holds_pipe_def reader_ok_def pipe_of_def split: option.splits)

lemma notify_completion_keeps [io_keeps]: "keeps (reader_keeps h e) (notify_completion sys res)"
  unfolding notify_completion_def Let_def
  by (intro io_keeps keeps_on_self_reader)
    (auto simp: holds_pipe_def reader_ok_def pipe_of_def vec_ok_def vec_new_def split: option.splits)

lemma overlapped_result_keeps [io_keeps]: "keeps (reader_keeps h e) (overlapped_result sys mode)"
  unfolding overlapped_result_def by (intro io_keeps)

lemma begin_cancel_keeps [io_keeps]: "keeps (reader_keeps h e) (begin_cancel sys)"
  unfolding begin_cancel_def by (intro io_keeps keeps_on_self_reader) auto

lemma fetch_async_result_keeps [io_keeps]:
  fixes sys :: "'w win_sys"
  shows "keeps (reader_keeps h e) (fetch_async_result sys mode)"
proof (rule keepsI)
  define P where "P sys mode wr out \<longleftrightarrow> (reader_keeps h e wr \<longrightarrow> reader_keeps h e (snd out))"
    for sys :: "'w win_sys" and mode :: blocking_mode and wr :: "'w \<times> message_reader"
      and out :: "(unit, win_error) res \<times> 'w \<times> message_reader"
  fix wr :: "'w \<times> message_reader" and out
  assume keeps: "reader_keeps h e wr" and run: "fetch_async_result sys mode wr = Some out"
  have "P sys mode wr out"
  proof (rule fetch_async_result.raw_induct [OF _ run, where P = P], goal_cases)
    case (1 loop sys mode wr out)
    have loop: "keeps (reader_keeps h e) (loop sys mode)" for sys mode
      using 1(1) by (intro keepsI) (simp add: P_def)
    show ?case
      unfolding P_def by (rule impI, rule keeps_out(1) [OF 1(2)]) (intro io_keeps loop)
  qed
  then show "reader_keeps h e (snd out)" using keeps by (simp add: P_def)
qed

lemma cancel_io_keeps [io_keeps]: "keeps (reader_keeps h e) (cancel_io sys)"
  unfolding cancel_io_def by (intro io_keeps)

lemma read_raw_step_keeps [io_keeps]: "keeps (reader_keeps h e) (read_raw_step sys)"
  unfolding read_raw_step_def by (intro io_keeps)

lemma drain_buf_ok: "vec_ok buf \<Longrightarrow> vec_ok (drain_buf n buf)" "drain_buf n vec_new = vec_new"
  by (auto simp: vec_ok_def drain_buf_def vec_new_def)

lemma get_message_keeps [io_keeps]: "keeps (reader_keeps h e) (get_message sys bc)"
  unfolding get_message_def
  by (intro io_keeps keeps_on_self_reader)
    (auto simp: holds_pipe_def reader_ok_def pipe_of_def drain_buf_ok split: option.splits)

end
