(* ===== verification/Win_Sender.thy ===== *)
theory Win_Sender
  imports Win_Reader
begin

text \<open>
  The writing end of a pipe on Windows: \<open>OsIpcSender\<close>, with handles moved to the process that reads from the pipe
  and data that is too long for one message sent over a pipe of its own; \<open>channel\<close> and \<open>OsIpcOneShotServer\<close>.
\<close>

section \<open>Names\<close>

definition make_pipe_id :: "'w win_sys \<Rightarrow> ('w, string, win_error) io" where
  "make_pipe_id sys = call (w_uuid sys)"

text \<open>\<open>CString::new\<close> fails on a text with a null character in it.\<close>

definition make_pipe_name :: "string \<Rightarrow> (string, win_error) res" where
  "make_pipe_name pipe_id =
     (let name = [CHR 0x5C, CHR 0x5C, CHR ''.'', CHR 0x5C] @ ''pipe'' @ [CHR 0x5C] @ ''rust-ipc-'' @ pipe_id in
      if CHR 0x00 \<in> set name then Panic else Ok name)"

section \<open>Writing\<close>

datatype atomic_mode = Atomic | Nonatomic

text \<open>\<open>bytes_to_write.len() as u32\<close> keeps the low 32 bits.\<close>

definition write_file :: "'w win_sys \<Rightarrow> win_handle \<Rightarrow> u8 list \<Rightarrow> ('w, u32, win_error) io" where
  "write_file sys h bytes =
     io_bind (call_blocking (w_write_file sys (as_raw h) (take (unat (ucast (len_of bytes) :: u32)) bytes))) (\<lambda>ok.
     case ok of Inl err \<Rightarrow> io_throw (win_from_system err) | Inr sz \<Rightarrow> io_return sz)"

partial_function (option) write_loop ::
  "'w win_sys \<Rightarrow> win_handle \<Rightarrow> u8 list \<Rightarrow> atomic_mode \<Rightarrow> nat \<Rightarrow> ('w, unit, win_error) io" where
  "write_loop sys h bytes atomic written w =
     (if written < length bytes then
        io_bind (write_file sys h (drop written bytes)) (\<lambda>sz.
          if atomic = Atomic \<and> written + unat sz \<noteq> length bytes then io_panic
          else write_loop sys h bytes atomic (written + unat sz)) w
      else io_return () w)"

definition write_buf :: "'w win_sys \<Rightarrow> win_handle \<Rightarrow> u8 list \<Rightarrow> atomic_mode \<Rightarrow> ('w, unit, win_error) io" where
  "write_buf sys h bytes atomic =
     (if length bytes = 0 then io_return () else write_loop sys h bytes atomic 0)"

section \<open>Senders\<close>

record win_sender = sender_handle :: win_handle

definition win_sender_from_handle :: "win_handle \<Rightarrow> win_sender" where
  "win_sender_from_handle h = \<lparr>sender_handle = h\<rparr>"

definition drop_win_sender :: "'w win_sys \<Rightarrow> bool \<Rightarrow> win_sender \<Rightarrow> ('w, unit, win_error) io" where
  "drop_win_sender sys panicking s = drop_win_handle sys panicking (sender_handle s)"

definition win_sender_clone :: "'w win_sys \<Rightarrow> win_sender \<Rightarrow> ('w, win_sender, win_error) io" where
  "win_sender_clone sys s =
     io_bind (io_unwrap (dup_handle sys (sender_handle s))) (\<lambda>h. io_return (win_sender_from_handle h))"

definition connect_named :: "'w win_sys \<Rightarrow> string \<Rightarrow> ('w, win_sender, win_error) io" where
  "connect_named sys pipe_name =
     io_bind (or_last (w_open_pipe sys pipe_name)) (\<lambda>h. io_return (win_sender_from_handle (win_handle_new h)))"

definition win_connect :: "'w win_sys \<Rightarrow> string \<Rightarrow> ('w, win_sender, win_error) io" where
  "win_connect sys name =
     (case w_parse_uuid sys name of
        None \<Rightarrow> io_panic
      | Some pipe_id \<Rightarrow> io_bind (io_lift (make_pipe_name pipe_id)) (connect_named sys))"

definition win_get_max_fragment_size :: usize where
  "win_get_max_fragment_size = WIN_MAX_FRAGMENT_SIZE"

definition win_channel :: "'w win_sys \<Rightarrow> ('w, win_sender \<times> message_reader, win_error) io" where
  "win_channel sys =
     io_bind (make_pipe_id sys) (\<lambda>pipe_id.
     io_bind (io_lift (make_pipe_name pipe_id)) (\<lambda>pipe_name.
     io_bind (win_receiver_new_named sys pipe_name) (\<lambda>receiver.
     io_bind (io_on_failure (connect_named sys pipe_name) (\<lambda>panicking. drop_message_reader sys panicking receiver)) (\<lambda>sender.
     io_return (sender, receiver)))))"

section \<open>The process at the other end\<close>

definition get_pipe_server_process_id :: "'w win_sys \<Rightarrow> win_sender \<Rightarrow> ('w, u32, win_error) io" where
  "get_pipe_server_process_id sys s = or_last (w_server_pid sys (as_raw (sender_handle s)))"

definition get_pipe_server_process_handle_and_pid ::
  "'w win_sys \<Rightarrow> win_sender \<Rightarrow> ('w, win_handle \<times> u32, win_error) io" where
  "get_pipe_server_process_handle_and_pid sys s =
     io_bind (get_pipe_server_process_id sys s) (\<lambda>server_pid.
     if server_pid = w_pid sys then io_return (win_handle_new (w_current_process sys), server_pid)
     else
       io_bind (or_last (w_open_process sys server_pid)) (\<lambda>raw_handle.
       io_return (win_handle_new raw_handle, server_pid)))"

section \<open>Handles that travel\<close>

type_synonym win_channel_end = "(win_sender, message_reader) os_ipc_channel"

fun drop_win_channel :: "'w win_sys \<Rightarrow> bool \<Rightarrow> win_channel_end \<Rightarrow> ('w, unit, win_error) io" where
  "drop_win_channel sys panicking (Sender s) = drop_win_sender sys panicking s"
| "drop_win_channel sys panicking (Receiver r) = drop_message_reader sys panicking r"

text \<open>A region is dropped when its handle was duplicated; the duplicate belongs to the other process.\<close>

fun send_shmems ::
  "'w win_sys \<Rightarrow> win_handle \<Rightarrow> oob_message \<Rightarrow> win_shmem list \<Rightarrow> ('w, oob_message, win_error) io" where
  "send_shmems sys server_h oob [] = io_return oob"
| "send_shmems sys server_h oob (shmem # rest) =
     io_bind (io_on_failure
         (io_finally (dup_handle_to_process sys (wshm_handle shmem) server_h)
           (\<lambda>panicking. drop_win_shmem sys panicking shmem))
         (\<lambda>panicking. drop_all (drop_win_shmem sys) panicking rest)) (\<lambda>remote_handle.
     send_shmems sys server_h
       (oob\<lparr>shmem_handles := shmem_handles oob @ [(as_raw remote_handle, wshm_length shmem)]\<rparr>) rest)"

definition take_reader_handle :: "'w win_sys \<Rightarrow> message_reader \<Rightarrow> ('w, win_handle, win_error) io" where
  "take_reader_handle sys r =
     owning r (on_self (\<lambda>r. (reader_handle r, r\<lparr>reader_handle := win_handle_invalid\<rparr>))) (drop_message_reader sys)"

definition port_handle :: "'w win_sys \<Rightarrow> win_channel_end \<Rightarrow> ('w, win_handle, win_error) io" where
  "port_handle sys port =
     (case port of
        Sender s \<Rightarrow> io_return (sender_handle s)
      | Receiver r \<Rightarrow>
          owning r
            (io_bind (prepare_for_transfer sys) (\<lambda>ok.
             if ok = False then io_panic
             else on_self (\<lambda>r. (reader_handle r, r\<lparr>reader_handle := win_handle_invalid\<rparr>))))
            (drop_message_reader sys))"

fun send_ports ::
  "'w win_sys \<Rightarrow> win_handle \<Rightarrow> oob_message \<Rightarrow> win_channel_end list \<Rightarrow> ('w, oob_message, win_error) io" where
  "send_ports sys server_h oob [] = io_return oob"
| "send_ports sys server_h oob (port # rest) =
     io_bind (io_on_failure
         (io_bind (port_handle sys port) (\<lambda>h. move_handle_to_process sys h server_h))
         (\<lambda>panicking. drop_all (drop_win_channel sys) panicking rest)) (\<lambda>raw_remote_handle.
     send_ports sys server_h (oob\<lparr>channel_handles := channel_handles oob @ [as_raw raw_remote_handle]\<rparr>) rest)"

section \<open>Sending\<close>

definition needs_fragmentation :: "oob_bincode \<Rightarrow> usize \<Rightarrow> oob_message \<Rightarrow> (bool, win_error) res" where
  "needs_fragmentation bc data_len oob =
     (let oob_size = (if oob_needs_to_be_sent oob then len_of (oob_serialize bc oob) else 0) in
      if \<not> oob_size \<le> PIPE_BUFFER_SIZE - HEADER_SIZE then Panic
      else
        let bytes_left_for_data = (PIPE_BUFFER_SIZE - HEADER_SIZE) - oob_size in
        Ok (bytes_left_for_data \<le> data_len))"

definition send_raw :: "'w win_sys \<Rightarrow> win_sender \<Rightarrow> u8 list \<Rightarrow> ('w, unit, win_error) io" where
  "send_raw sys s data = write_buf sys (sender_handle s) data Nonatomic"

text \<open>
  The pipe for data that does not fit: its receiver goes into the out-of-band message, its sender is for later.
  \<open>server_h\<close> is moved into this block when it is valid, and dropped at its end.
\<close>

definition big_data_pipe ::
  "'w win_sys \<Rightarrow> win_sender \<Rightarrow> win_handle \<times> u32 \<Rightarrow> usize \<Rightarrow> oob_message
     \<Rightarrow> ('w, win_sender \<times> oob_message, win_error) io" where
  "big_data_pipe sys s server data_len oob =
     io_bind (io_on_failure (win_channel sys) (\<lambda>panicking. drop_win_handle sys panicking (fst server))) (\<lambda>(sender, receiver).
     io_on_failure
       (io_bind
          (io_on_failure
            (if win_handle_is_valid (fst server) then io_return server else get_pipe_server_process_handle_and_pid sys s)
            (\<lambda>panicking. drop_message_reader sys panicking receiver)) (\<lambda>(server_h, server_pid).
        io_finally
          (io_bind (take_reader_handle sys receiver) (\<lambda>h.
           io_bind (move_handle_to_process sys h server_h) (\<lambda>raw_receiver_handle.
           io_return (sender,
             oob\<lparr>big_data_receiver_handle := Some (as_raw raw_receiver_handle, data_len), target_process_id := server_pid\<rparr>))))
          (\<lambda>panicking. drop_win_handle sys panicking server_h)))
       (\<lambda>panicking. drop_win_sender sys panicking sender))"

text \<open>The header, the data when it travels in the message, and the out-of-band part.\<close>

definition full_message :: "u8 list \<Rightarrow> u8 list \<Rightarrow> (u8 list, win_error) res" where
  "full_message in_band oob_data =
     (let header = \<lparr>hdr_data_len = ucast (len_of in_band), hdr_oob_len = ucast (len_of oob_data)\<rparr>;
          full_in_band_len = total_message_bytes_needed header;
          full = header_bytes header @ in_band @ oob_data in
      if \<not> full_in_band_len \<le> PIPE_BUFFER_SIZE then Panic
      else if len_of full \<noteq> full_in_band_len then Panic
      else Ok full)"

definition write_message ::
  "'w win_sys \<Rightarrow> oob_bincode \<Rightarrow> win_sender \<Rightarrow> u8 list \<Rightarrow> win_sender option \<times> oob_message \<Rightarrow> ('w, unit, win_error) io" where
  "write_message sys bc s data big =
     (let oob_data = (if oob_needs_to_be_sent (snd big) then oob_serialize bc (snd big) else []) in
      case fst big of
        None \<Rightarrow>
          io_bind (io_lift (full_message data oob_data)) (\<lambda>full. write_buf sys (sender_handle s) full Atomic)
      | Some big_data_sender \<Rightarrow>
          io_finally
            (io_bind (io_lift (full_message [] oob_data)) (\<lambda>full.
             io_bind (write_buf sys (sender_handle s) full Atomic) (\<lambda>_.
             send_raw sys big_data_sender data)))
            (\<lambda>panicking. drop_win_sender sys panicking big_data_sender))"

definition win_send_oob ::
  "'w win_sys \<Rightarrow> oob_bincode \<Rightarrow> win_sender \<Rightarrow> u8 list \<Rightarrow> win_handle \<times> u32 \<Rightarrow> oob_message \<Rightarrow> ('w, unit, win_error) io" where
  "win_send_oob sys bc s data server oob =
     io_bind (io_on_failure (io_lift (needs_fragmentation bc (len_of data) oob))
         (\<lambda>panicking. drop_win_handle sys panicking (fst server))) (\<lambda>fragment.
     if fragment then
       io_bind (big_data_pipe sys s server (len_of data) oob) (\<lambda>(sender, oob').
       write_message sys bc s data (Some sender, oob'))
     else
       io_finally (write_message sys bc s data (None, oob)) (\<lambda>panicking. drop_win_handle sys panicking (fst server)))"

definition win_send ::
  "'w win_sys \<Rightarrow> oob_bincode \<Rightarrow> win_sender \<Rightarrow> u8 list \<Rightarrow> win_channel_end list \<Rightarrow> win_shmem list
     \<Rightarrow> ('w, unit, win_error) io" where
  "win_send sys bc s data ports shared_memory_regions =
     io_bind (io_on_failure
         (if \<not> len_of data \<le> 0xFFFFFFFF then io_panic
          else if shared_memory_regions \<noteq> [] \<or> ports \<noteq> [] then get_pipe_server_process_handle_and_pid sys s
          else io_return (win_handle_invalid, 0))
         (\<lambda>panicking. io_finally (drop_all (drop_win_shmem sys) panicking shared_memory_regions)
            (\<lambda>unwinding. drop_all (drop_win_channel sys) (panicking \<or> unwinding) ports))) (\<lambda>(server_h, server_pid).
     io_bind (io_on_failure (send_shmems sys server_h (oob_new server_pid) shared_memory_regions)
         (\<lambda>panicking. io_finally (drop_win_handle sys panicking server_h)
            (\<lambda>unwinding. drop_all (drop_win_channel sys) (panicking \<or> unwinding) ports))) (\<lambda>oob1.
     io_bind (io_on_failure (send_ports sys server_h oob1 ports)
         (\<lambda>panicking. drop_win_handle sys panicking server_h)) (\<lambda>oob2.
     win_send_oob sys bc s data (server_h, server_pid) oob2)))"

section \<open>One-shot servers\<close>

record win_server = win_server_receiver :: message_reader

definition win_server_new :: "'w win_sys \<Rightarrow> ('w, win_server \<times> string, win_error) io" where
  "win_server_new sys =
     io_bind (make_pipe_id sys) (\<lambda>pipe_id.
     io_bind (io_lift (make_pipe_name pipe_id)) (\<lambda>pipe_name.
     io_bind (win_receiver_new_named sys pipe_name) (\<lambda>receiver.
     io_return (\<lparr>win_server_receiver = receiver\<rparr>, pipe_id))))"

definition win_server_accept ::
  "'w win_sys \<Rightarrow> oob_bincode \<Rightarrow> win_server \<Rightarrow> ('w, message_reader \<times> win_received, win_error) io" where
  "win_server_accept sys bc server = (\<lambda>w.
     Option.bind (io_bind (win_accept_pipe sys) (\<lambda>_. win_recv sys bc) (w, win_server_receiver server)) (\<lambda>(q, (w', receiver)).
       case q of
         Ok received \<Rightarrow> Some (Ok (receiver, received), w')
       | Err e \<Rightarrow> io_finally (io_throw e) (\<lambda>panicking. drop_message_reader sys panicking receiver) w'
       | Panic \<Rightarrow> io_finally io_panic (\<lambda>panicking. drop_message_reader sys panicking receiver) w'))"

definition opaque_to_win_sender :: "win_opaque \<Rightarrow> win_sender \<times> win_opaque" where
  "opaque_to_win_sender c =
     (case win_handle_take (op_handle c) of (h, h') \<Rightarrow> (win_sender_from_handle h, c\<lparr>op_handle := h'\<rparr>))"

end
