(* ===== verification/Win_Example.thy ===== *)
theory Win_Example
  imports Win_Sys
begin

text \<open>
  Instances of the parameters of the Windows back end: they show that what is assumed of the system and of
  \<open>bincode\<close> can hold, and carry the examples.
\<close>

section \<open>A system that refuses\<close>

text \<open>For examples: every call fails, as with access denied; an example replaces the calls it needs.\<close>

definition ACCESS_DENIED :: u32 where
  "ACCESS_DENIED = 5"

definition refusing :: "'w win_sys" where
  "refusing = \<lparr>w_pid = 1, w_current_process = INVALID_HANDLE_VALUE, w_uuid = Pair ''id'', w_parse_uuid = Some,
     w_create_pipe = (\<lambda>_. Pair (Inl ACCESS_DENIED)), w_open_pipe = (\<lambda>_. Pair (Inl ACCESS_DENIED)),
     w_close_handle = (\<lambda>_. Pair True), w_duplicate = (\<lambda>_ _ _. Pair (Inl ACCESS_DENIED)),
     w_server_pid = (\<lambda>_. Pair (Inl ACCESS_DENIED)), w_open_process = (\<lambda>_. Pair (Inl ACCESS_DENIED)),
     w_write_file = (\<lambda>_ _ w. Some (Inl ACCESS_DENIED, w)), w_create_event = Pair 7, w_reset_event = (\<lambda>_ w. w),
     w_read_file = (\<lambda>_ _ _. Pair (Inl ACCESS_DENIED)), w_overlapped_result = (\<lambda>_ _ _ w. Some (Inl ACCESS_DENIED, w)),
     w_cancel_io = (\<lambda>_ _. Pair (Inl ERROR_NOT_FOUND)), w_connect_pipe = (\<lambda>_. Pair (False, ACCESS_DENIED)),
     w_connect_result = (\<lambda>_ w. Some (Inl ACCESS_DENIED, w)), w_create_port = Pair (Inl ACCESS_DENIED),
     w_add_to_port = (\<lambda>_ _ _. Pair (Inl ACCESS_DENIED)),
     w_next_completion = (\<lambda>_ w. Some (\<lparr>pkt_status = Inl ACCESS_DENIED, pkt_key = 0, pkt_read = None\<rparr>, w)),
     w_create_mapping = (\<lambda>_ _. Pair (0, ACCESS_DENIED)), w_map_view = (\<lambda>_. Pair (Inl ACCESS_DENIED)),
     w_unmap_view = (\<lambda>_. Pair True), w_peek = (\<lambda>_ _ _. []), w_poke = (\<lambda>_ _ w. w)\<rparr>"

section \<open>The encoding of handles\<close>

text \<open>\<open>bincode\<close> on the out-of-band tuple: little-endian integers, lengths of eight bytes, one byte for an option.\<close>

definition put_u64 :: "u64 \<Rightarrow> u8 list" where
  "put_u64 x = le_bytes 8 (unat x)"

definition get_u64 :: "u8 list \<Rightarrow> (u64 \<times> u8 list) option" where
  "get_u64 bs = (if length bs < 8 then None else Some (word_of_nat (le_nat (take 8 bs)), drop 8 bs))"

definition put_pair :: "u64 \<times> u64 \<Rightarrow> u8 list" where
  "put_pair = (\<lambda>(x, y). put_u64 x @ put_u64 y)"

definition get_pair :: "u8 list \<Rightarrow> ((u64 \<times> u64) \<times> u8 list) option" where
  "get_pair bs = Option.bind (get_u64 bs) (\<lambda>(x, bs). Option.bind (get_u64 bs) (\<lambda>(y, bs). Some ((x, y), bs)))"

primrec get_many :: "nat \<Rightarrow> (u8 list \<Rightarrow> ('a \<times> u8 list) option) \<Rightarrow> u8 list \<Rightarrow> ('a list \<times> u8 list) option" where
  "get_many 0 get bs = Some ([], bs)"
| "get_many (Suc n) get bs = Option.bind (get bs) (\<lambda>(x, bs). Option.bind (get_many n get bs) (\<lambda>(xs, bs). Some (x # xs, bs)))"

definition put_vec :: "('a \<Rightarrow> u8 list) \<Rightarrow> 'a list \<Rightarrow> u8 list" where
  "put_vec put xs = put_u64 (word_of_nat (length xs)) @ concat (map put xs)"

definition get_vec :: "(u8 list \<Rightarrow> ('a \<times> u8 list) option) \<Rightarrow> u8 list \<Rightarrow> ('a list \<times> u8 list) option" where
  "get_vec get bs = Option.bind (get_u64 bs) (\<lambda>(n, bs). get_many (unat n) get bs)"

fun put_opt :: "(u64 \<times> u64) option \<Rightarrow> u8 list" where
  "put_opt None = [0]"
| "put_opt (Some x) = 1 # put_pair x"

fun get_opt :: "u8 list \<Rightarrow> (u64 \<times> u64) option option" where
  "get_opt [] = None"
| "get_opt (b # bs) = (if b = 0 then Some None else map_option (Some \<circ> fst) (get_pair bs))"

definition bincode_oob :: oob_bincode where
  "bincode_oob = \<lparr>put_oob = (\<lambda>(t, cs, ss, b). le_bytes 4 (unat t) @ put_vec put_u64 cs @ put_vec put_pair ss @ put_opt b),
     get_oob = (\<lambda>bs. Option.bind (get_vec get_u64 (drop 4 bs)) (\<lambda>(cs, bs1).
        Option.bind (get_vec get_pair bs1) (\<lambda>(ss, bs2).
        map_option (\<lambda>b. (word_of_nat (le_nat (take 4 bs)), cs, ss, b)) (get_opt bs2))))\<rparr>"

lemma get_put_u64 [simp]: "get_u64 (put_u64 x @ bs) = Some (x, bs)" "length (put_u64 x) = 8"
proof -
  have "unat x < 256 ^ 8" using unsigned_less [of x, where ?'a = nat] by simp
  then show "get_u64 (put_u64 x @ bs) = Some (x, bs)" by (simp add: get_u64_def put_u64_def del: power_numeral)
qed (simp add: put_u64_def)

lemma get_put_pair [simp]: "get_pair (put_pair x @ bs) = Some (x, bs)" "length (put_pair x) = 16"
  by (simp_all add: get_pair_def put_pair_def split: prod.split)

lemma get_many_concat:
  assumes "\<And>x bs. get (put x @ bs) = Some (x, bs)"
  shows "get_many (length xs) get (concat (map put xs) @ bs) = Some (xs, bs)"
  by (induction xs) (simp_all add: assms)

lemma get_put_vec [simp]:
  assumes "\<And>x bs. get (put x @ bs) = Some (x, bs)" "length xs < 2 ^ 64"
  shows "get_vec get (put_vec put xs @ bs) = Some (xs, bs)"
  using assms(2) by (simp add: get_vec_def put_vec_def get_many_concat [OF assms(1)] unsigned_of_nat take_bit_nat_eq_self)

lemma length_concat_const: "(\<And>x. length (f x) = n) \<Longrightarrow> length (concat (map f xs)) = n * length xs"
  by (induction xs) simp_all

lemma length_put_vec: "(\<And>x. length (put x) = n) \<Longrightarrow> length (put_vec put xs) = 8 + n * length xs"
  by (simp add: put_vec_def length_concat_const)

lemma get_put_opt [simp]: "get_opt (put_opt b) = Some b" "length (put_opt b) = 1 + (if b = None then 0 else 16)"
  using get_put_pair(1) [of _ "[]"] by (cases b; simp)+

lemma bincode_oob_ok: "oob_bincode_ok bincode_oob"
proof -
  have "unat x < 256 ^ 4" for x :: u32 using unsigned_less [of x, where ?'a = nat] by simp
  then show ?thesis
    by (simp add: oob_bincode_ok_def bincode_oob_def length_put_vec del: power_numeral)
qed

end
