(* ===== verification/Win_Stream.thy ===== *)
theory Win_Stream
  imports Win_Sender Win_Example Transport
begin

text \<open>
  Messages over a pipe on Windows: what is sent is received in order and whole, however the system cuts the bytes
  into pieces.
\<close>

section \<open>Pipes\<close>

text \<open>
  Documented behaviour of pipes, over a view of the world: the bytes in a pipe that were not read yet, by the handle
  of its reading end; the read in flight there, by its event and the space for it; the events that are open; the
  reading end that a writing end leads to; and how many bytes a pipe takes without blocking.
\<close>

record 'w pipe_view =
  pv_bytes :: "'w \<Rightarrow> handle \<Rightarrow> u8 list"
  pv_read :: "'w \<Rightarrow> handle \<Rightarrow> (handle \<times> nat) option"
  pv_events :: "'w \<Rightarrow> handle set"
  pv_dest :: "'w \<Rightarrow> handle \<Rightarrow> handle option"
  pv_quota :: nat

definition same_pipes :: "'w pipe_view \<Rightarrow> 'w \<Rightarrow> 'w \<Rightarrow> bool" where
  "same_pipes v w w' \<longleftrightarrow> pv_bytes v w' = pv_bytes v w \<and> pv_read v w' = pv_read v w \<and> pv_dest v w' = pv_dest v w"

definition win_pipe :: "'w win_sys \<Rightarrow> 'w pipe_view \<Rightarrow> bool" where
  "win_pipe sys v \<longleftrightarrow>
     (\<forall>w ev w'. w_create_event sys w = (ev, w') \<longrightarrow> same_pipes v w w' \<and> pv_events v w' = insert ev (pv_events v w)) \<and>
     (\<forall>w ev. ev \<in> pv_events v w \<longrightarrow> (\<exists>w'. w_close_handle sys ev w = (True, w') \<and> same_pipes v w w')) \<and>
     (\<forall>w ev. same_pipes v w (w_reset_event sys ev w) \<and> pv_events v (w_reset_event sys ev w) = pv_events v w) \<and>
     (\<forall>w h ev n. pv_read v w h = None \<and> pv_bytes v w h \<noteq> [] \<and> n \<noteq> 0 \<longrightarrow>
        (\<exists>ok w'. w_read_file sys h ev n w = (ok, w') \<and> ok \<in> {Inr (), Inl ERROR_IO_PENDING} \<and>
          pv_bytes v w' = pv_bytes v w \<and> pv_events v w' = pv_events v w \<and> pv_dest v w' = pv_dest v w \<and>
          pv_read v w' = (pv_read v w)(h \<mapsto> (ev, unat n)))) \<and>
     (\<forall>w h ev n. pv_read v w h = Some (ev, n) \<and> n \<noteq> 0 \<and> pv_bytes v w h \<noteq> [] \<longrightarrow>
        (\<exists>k w'. w_overlapped_result sys h ev INFINITE w =
            Some (Inr \<lparr>done_bytes = take k (pv_bytes v w h), done_offset = 0\<rparr>, w') \<and>
          0 < k \<and> k \<le> n \<and> k \<le> length (pv_bytes v w h) \<and>
          pv_bytes v w' = (pv_bytes v w)(h := drop k (pv_bytes v w h)) \<and> pv_events v w' = pv_events v w \<and>
          pv_dest v w' = pv_dest v w \<and> pv_read v w' = (pv_read v w)(h := None))) \<and>
     (\<forall>w h g bytes. pv_dest v w h = Some g \<and> length (pv_bytes v w g) + length bytes \<le> pv_quota v \<longrightarrow>
        (\<exists>w'. w_write_file sys h bytes w = Some (Inr (word_of_nat (length bytes)), w') \<and>
          pv_bytes v w' = (pv_bytes v w)(g := pv_bytes v w g @ bytes) \<and> pv_events v w' = pv_events v w \<and>
          pv_dest v w' = pv_dest v w \<and> pv_read v w' = pv_read v w))"

lemma win_pipeD:
  assumes "win_pipe sys v"
  shows "w_create_event sys w = (ev, w') \<Longrightarrow> same_pipes v w w' \<and> pv_events v w' = insert ev (pv_events v w)"
    and "ev \<in> pv_events v w \<Longrightarrow> \<exists>w'. w_close_handle sys ev w = (True, w') \<and> same_pipes v w w'"
    and "same_pipes v w (w_reset_event sys ev w) \<and> pv_events v (w_reset_event sys ev w) = pv_events v w"
    and "pv_read v w h = None \<Longrightarrow> pv_bytes v w h \<noteq> [] \<Longrightarrow> m \<noteq> 0 \<Longrightarrow>
        \<exists>ok w'. w_read_file sys h ev m w = (ok, w') \<and> ok \<in> {Inr (), Inl ERROR_IO_PENDING} \<and>
          pv_bytes v w' = pv_bytes v w \<and> pv_events v w' = pv_events v w \<and> pv_dest v w' = pv_dest v w \<and>
          pv_read v w' = (pv_read v w)(h \<mapsto> (ev, unat m))"
    and "pv_read v w h = Some (ev, n) \<Longrightarrow> n \<noteq> 0 \<Longrightarrow> pv_bytes v w h \<noteq> [] \<Longrightarrow>
        \<exists>k w'. w_overlapped_result sys h ev INFINITE w =
            Some (Inr \<lparr>done_bytes = take k (pv_bytes v w h), done_offset = 0\<rparr>, w') \<and>
          0 < k \<and> k \<le> n \<and> k \<le> length (pv_bytes v w h) \<and>
          pv_bytes v w' = (pv_bytes v w)(h := drop k (pv_bytes v w h)) \<and> pv_events v w' = pv_events v w \<and>
          pv_dest v w' = pv_dest v w \<and> pv_read v w' = (pv_read v w)(h := None)"
    and "pv_dest v w h = Some g \<Longrightarrow> length (pv_bytes v w g) + length bytes \<le> pv_quota v \<Longrightarrow>
        \<exists>w'. w_write_file sys h bytes w = Some (Inr (word_of_nat (length bytes)), w') \<and>
          pv_bytes v w' = (pv_bytes v w)(g := pv_bytes v w g @ bytes) \<and> pv_events v w' = pv_events v w \<and>
          pv_dest v w' = pv_dest v w \<and> pv_read v w' = pv_read v w"
proof -
  note l = assms [unfolded win_pipe_def]
  show "w_create_event sys w = (ev, w') \<Longrightarrow> same_pipes v w w' \<and> pv_events v w' = insert ev (pv_events v w)"
    using l [THEN conjunct1] by blast
  show "ev \<in> pv_events v w \<Longrightarrow> \<exists>w'. w_close_handle sys ev w = (True, w') \<and> same_pipes v w w'"
    using l [THEN conjunct2, THEN conjunct1] by blast
  show "same_pipes v w (w_reset_event sys ev w) \<and> pv_events v (w_reset_event sys ev w) = pv_events v w"
    using l [THEN conjunct2, THEN conjunct2, THEN conjunct1] by blast
qed (use assms [unfolded win_pipe_def, THEN conjunct2, THEN conjunct2, THEN conjunct2] in simp_all)

section \<open>One read\<close>

text \<open>The bytes that are still to come out of a receiver: those in its buffer and those in its pipe.\<close>

definition stream :: "'w pipe_view \<Rightarrow> 'w \<times> message_reader \<Rightarrow> u8 list" where
  "stream v wr = vec_data (read_buf (snd wr)) @ pv_bytes v (fst wr) (as_raw (reader_handle (snd wr)))"

text \<open>A receiver between two calls. One that receives messages has a buffer that is at most two messages long.\<close>

definition quiet :: "'w pipe_view \<Rightarrow> 'w \<times> message_reader \<Rightarrow> bool" where
  "quiet v wr \<longleftrightarrow> in_flight (snd wr) = None \<and> entry_id (snd wr) = None \<and> vec_ok (read_buf (snd wr)) \<and>
     pv_read v (fst wr) (as_raw (reader_handle (snd wr))) = None"

definition idle :: "'w pipe_view \<Rightarrow> 'w \<times> message_reader \<Rightarrow> bool" where
  "idle v wr \<longleftrightarrow> quiet v wr \<and> vec_capacity (read_buf (snd wr)) \<le> 2 * unat PIPE_BUFFER_SIZE"

lemma unat_len32: "length xs < 2 ^ 32 \<Longrightarrow> unat (ucast (len_of xs) :: u32) = length xs"
  by (simp add: unsigned_ucast_eq unsigned_of_nat take_bit_nat_eq_self)

text \<open>Fetching the result of a read that is done.\<close>

lemma fetch_done:
  assumes flight: "in_flight r = Some c" and res: "w_overlapped_result sys (as_raw (async_handle (cell_alias c)))
      (async_ov (cell_alias c)) INFINITE w = Some (Inr \<lparr>done_bytes = bs, done_offset = 0\<rparr>, w1)"
    and close: "w_close_handle sys (async_ov (cell_alias c)) (w_reset_event sys (async_ov (cell_alias c)) w1) = (True, w2)"
    and space: "length (vec_data (async_buf (cell_alias c))) + length bs \<le> vec_capacity (async_buf (cell_alias c))"
      "length bs < 2 ^ 32"
  shows "\<exists>w3 \<in> {w_reset_event sys (async_ov (cell_alias c)) w1, w2}.
    fetch_async_result sys Blocking (w, r) = Some (Ok (), (w3, (restored (cell_alias c) r)\<lparr>read_buf :=
      (async_buf (cell_alias c))\<lparr>vec_data := vec_data (async_buf (cell_alias c)) @ bs\<rparr>\<rparr>))"
proof -
  let ?a = "cell_alias c"
  note u = unat_len32 [OF space(2)]
  have "overlapped_result sys Blocking (w, r) =
      Some (Ok (Inr \<lparr>done_bytes = bs, done_offset = 0\<rparr>), (w_reset_event sys (async_ov ?a) w1, r))"
    using flight res by (simp add: overlapped_result_def on_world_def call_def call_blocking_def)
  then show ?thesis using space(1) close
    by (subst fetch_async_result.simps)
      (auto simp: notify_completion_def taking_async_def flight Let_def u restored_def on_self_def on_world_def
      io_finally_def drop_overlapped_def call_def)
qed

lemma read_once:
  assumes laws: "win_pipe sys v" and quiet: "quiet v (w, r)" and more: "pv_bytes v w (as_raw (reader_handle r)) \<noteq> []"
    and cap: "vec_capacity (read_space r) < 2 ^ 32"
  shows "\<exists>w' r'. io_bind (start_read sys) (\<lambda>_. fetch_async_result sys Blocking) (w, r) = Some (Ok (), (w', r')) \<and>
    quiet v (w', r') \<and> stream v (w', r') = stream v (w, r) \<and> reader_handle r' = reader_handle r \<and>
    vec_capacity (read_buf r') = vec_capacity (read_space r) \<and>
    length (pv_bytes v w' (as_raw (reader_handle r))) < length (pv_bytes v w (as_raw (reader_handle r)))"
proof -
  let ?h = "as_raw (reader_handle r)" and ?b = "read_space r"
  define room where "room = vec_capacity ?b - length (vec_data ?b)"
  have flight: "in_flight r = None" and buf: "vec_ok (read_buf r)"
    and nr: "pv_read v w ?h = None" using quiet by (simp_all add: quiet_def)
  have b: "vec_data ?b = vec_data (read_buf r)" "vec_ok ?b" "0 < room"
    using buf by (auto simp: read_space_def room_def vec_reserve_def vec_ok_def)
  then have room: "0 < room" "room < 2 ^ 32" using cap by (simp_all add: room_def)
  then have u: "unat (word_of_nat room :: u32) = room" by (simp add: unat_of_nat take_bit_nat_eq_self)
  then have nz: "(word_of_nat room :: u32) \<noteq> 0" using room by (metis less_irrefl unsigned_0)
  obtain ev w1 where ev: "w_create_event sys w = (ev, w1)" by force
  note l1 = win_pipeD(1) [OF laws ev, unfolded same_pipes_def]
  obtain ok w2 where rf: "w_read_file sys ?h ev (word_of_nat room) w1 = (ok, w2)" "ok \<in> {Inr (), Inl ERROR_IO_PENDING}"
    and l2: "pv_bytes v w2 = pv_bytes v w1" "pv_events v w2 = pv_events v w1" "pv_dest v w2 = pv_dest v w1"
      "pv_read v w2 = (pv_read v w1)(?h \<mapsto> (ev, room))"
    using win_pipeD(4) [OF laws, of w1 ?h "word_of_nat room" ev] l1 nr more nz u by auto
  have start: "start_read sys (w, r) = Some (Ok (), (w2, reading ev r))"
    using start_read_run [OF flight ev, of ok w2] rf b(1) by (auto simp: room_def)
  obtain k w3 where res: "w_overlapped_result sys ?h ev INFINITE w2 =
        Some (Inr \<lparr>done_bytes = take k (pv_bytes v w2 ?h), done_offset = 0\<rparr>, w3)"
    and k: "0 < k" "k \<le> room" "k \<le> length (pv_bytes v w2 ?h)"
    and l3: "pv_bytes v w3 = (pv_bytes v w2)(?h := drop k (pv_bytes v w2 ?h))" "pv_events v w3 = pv_events v w2"
      "pv_dest v w3 = pv_dest v w2" "pv_read v w3 = (pv_read v w2)(?h := None)"
    using win_pipeD(5) [OF laws, of w2 ?h ev room] l1 l2 more room by auto
  let ?w4 = "w_reset_event sys ev w3"
  note l4 = win_pipeD(3) [OF laws, of w3 ev, unfolded same_pipes_def]
  have e: "ev \<in> pv_events v ?w4" using l1 l2 l3 l4 by simp
  obtain w5 where close: "w_close_handle sys ev ?w4 = (True, w5)" and l5: "same_pipes v ?w4 w5"
    using win_pipeD(2) [OF laws e] by blast
  define r' where "r' = (restored \<lparr>async_handle = reader_handle r, async_ov = ev, async_buf = ?b\<rparr> (reading ev r))
    \<lparr>read_buf := ?b\<lparr>vec_data := vec_data ?b @ take k (pv_bytes v w2 ?h)\<rparr>\<rparr>"
  have "length (vec_data ?b) + k \<le> vec_capacity ?b" using k b by (simp add: room_def)
  then obtain w6 where w6: "w6 \<in> {?w4, w5}" "fetch_async_result sys Blocking (w2, reading ev r) = Some (Ok (), (w6, r'))"
    using fetch_done [of "reading ev r", OF in_flight_reading, of sys w2 "take k (pv_bytes v w2 ?h)" w3 w5] res close k b room
    by (auto simp: room_def r'_def)
  have l6: "pv_bytes v w6 = (pv_bytes v w)(?h := drop k (pv_bytes v w ?h))" "pv_read v w6 ?h = None" "pv_dest v w6 = pv_dest v w"
    using w6(1) l1 l2 l3 l4 l5 by (auto simp: same_pipes_def)
  have "quiet v (w6, r')" "vec_capacity (read_buf r') = vec_capacity ?b" "stream v (w6, r') = stream v (w, r)" "reader_handle r' = reader_handle r"
    using quiet l1 l2 k b l6 by (auto simp: quiet_def stream_def r'_def restored_def reading_def vec_ok_def room_def)
  moreover have "length (pv_bytes v w6 ?h) < length (pv_bytes v w ?h)" using k l1 l2 l6 by simp
  ultimately show ?thesis using start w6(2) by (intro exI [of _ w6] exI [of _ r']) simp
qed

section \<open>Messages out of the stream\<close>

text \<open>A message without handles as it travels, the messages that travel in a buffer of the pipe, and the messages in a
  sequence of bytes.\<close>

abbreviation plain :: "u8 list \<Rightarrow> u8 list" where
  "plain data \<equiv> frame data []"

definition fits :: "u8 list \<Rightarrow> bool" where
  "fits data \<longleftrightarrow> length data < unat PIPE_BUFFER_SIZE - 8"

lemma message_size_pos: "message_from_bytes bs = Some m \<Longrightarrow> 8 \<le> unat (message_size m) \<and> unat (message_size m) \<le> length bs"
  using unat_total [of "header_at bs"]
  by (auto simp: message_from_bytes_def message_size_def total_message_bytes_needed_def Let_def split: if_split_asm)

function frames_of :: "u8 list \<Rightarrow> u8 list list" where
  "frames_of bs =
     (case message_from_bytes bs of
        None \<Rightarrow> []
      | Some m \<Rightarrow> take (unat (wm_data_len m)) (drop 8 bs) # frames_of (drop (unat (message_size m)) bs))"
  by pat_completeness auto

termination
  by (relation "measure length") (use message_size_pos in force)+

declare frames_of.simps [simp del]

lemma message_from_plain:
  assumes "fits m"
  shows "message_from_bytes (plain m @ rest) = Some (framed m [])" "message_data (framed m []) = Ok m"
    "unat (message_size (framed m [])) = length (plain m)" "wm_oob_len (framed m []) = 0"
  using message_from_frame [of m "[]"] framed_parts [of m "[]"] assms by (simp_all add: fits_def framed_def)

lemma message_from_prefix:
  assumes "fits m" "k < length (plain m)"
  shows "message_from_bytes (take k (plain m)) = None"
  using message_from_partial [of m "[]" k] assms by (simp add: fits_def)

lemma frames_of_plain:
  assumes "fits m"
  shows "frames_of (plain m @ rest) = m # frames_of rest"
proof -
  have "unat (wm_data_len (framed m [])) = length m" using assms by (simp add: framed_def fits_def)
  moreover have "take (length m) (drop 8 (plain m @ rest)) = m" by (simp add: frame_def header_bytes_def)
  ultimately show ?thesis
    using message_from_plain [OF assms] by (subst frames_of.simps) simp
qed

lemma frames_of_concat: "list_all fits ms \<Longrightarrow> frames_of (concat (map plain ms)) = ms"
proof (induction ms)
  case Nil
  then show ?case by (simp add: frames_of.simps message_from_bytes_def)
qed (simp add: frames_of_plain)

section \<open>Receiving\<close>

lemma get_message_plain:
  assumes "idle v (w, r)" "fits m" "vec_data (read_buf r) = plain m @ rest"
  shows "\<exists>r'. get_message sys bc (w, r) = Some (Ok (Some (m, [], [])), (w, r')) \<and> idle v (w, r') \<and>
    vec_data (read_buf r') = rest \<and> reader_handle r' = reader_handle r"
proof -
  have "message_parts sys bc (framed m []) w = Some (Ok (m, [], []), w)"
    by (simp add: message_parts_def message_oob_data_def message_from_plain [OF assms(2)])
  then show ?thesis
    using message_from_plain(1) [OF assms(2), of rest] message_from_plain(3) [OF assms(2)] assms(1,3)
    by (auto simp: get_message_def idle_def quiet_def on_world_def on_self_def drain_buf_def vec_ok_def)
qed

lemma get_message_prefix:
  assumes "idle v (w, r)" "fits m" "vec_data (read_buf r) = take k (plain m)" "k < length (plain m)"
  shows "get_message sys bc (w, r) = Some (Ok None, (w, r))"
  using message_from_prefix [OF assms(2,4)] assms(1,3) by (simp add: get_message_def idle_def quiet_def)

text \<open>Part of a message is in the buffer, or all of it.\<close>

lemma stream_cases:
  assumes "stream v (w, r) = plain m @ rest"
  obtains (whole) rest' where "vec_data (read_buf r) = plain m @ rest'"
      "rest = rest' @ pv_bytes v w (as_raw (reader_handle r))"
    | (part) k where "vec_data (read_buf r) = take k (plain m)" "k < length (plain m)" "pv_bytes v w (as_raw (reader_handle r)) \<noteq> []"
proof (cases "length (vec_data (read_buf r)) < length (plain m)")
  case True
  moreover from this have "vec_data (read_buf r) = take (length (vec_data (read_buf r))) (plain m)"
    using assms by (auto simp: stream_def append_eq_append_conv_if)
  moreover have "pv_bytes v w (as_raw (reader_handle r)) \<noteq> []"
    using True arg_cong [OF assms, of length] by (auto simp: stream_def)
  ultimately show thesis by (intro part)
next
  case False
  then have "vec_data (read_buf r) = plain m @ take (length (vec_data (read_buf r)) - length (plain m)) rest"
      "pv_bytes v w (as_raw (reader_handle r)) = drop (length (vec_data (read_buf r)) - length (plain m)) rest"
    using assms by (auto simp: stream_def append_eq_append_conv_if append_eq_conv_conj)
  then show thesis by (intro whole) (assumption, simp only: append_take_drop_id)
qed

lemma receive_plain:
  assumes "win_pipe sys v" "idle v (w, r)" "fits m" "stream v (w, r) = plain m @ rest"
  shows "\<exists>w' r'. receive_loop sys bc Blocking (w, r) = Some (Ok (m, [], []), (w', r')) \<and> idle v (w', r') \<and>
    stream v (w', r') = rest"
  using assms(2,4)
proof (induction "length (pv_bytes v w (as_raw (reader_handle r)))" arbitrary: w r rule: less_induct)
  case less
  show ?case using less.prems(2)
  proof (cases rule: stream_cases)
    case (whole rest')
    obtain r' where "get_message sys bc (w, r) = Some (Ok (Some (m, [], [])), (w, r'))" "idle v (w, r')"
        "vec_data (read_buf r') = rest'" "reader_handle r' = reader_handle r"
      using get_message_plain [OF less.prems(1) assms(3) whole(1)] by blast
    then show ?thesis using whole(2) by (subst receive_loop.simps) (simp add: stream_def)
  next
    case (part k)
    have short: "vec_capacity (read_space r) \<le> 2 * unat PIPE_BUFFER_SIZE"
      using part(1,2) assms(3) less.prems(1) by (auto simp: fits_def read_space_def vec_reserve_def idle_def)
    obtain w1 r1 where step: "io_bind (start_read sys) (\<lambda>_. fetch_async_result sys Blocking) (w, r) = Some (Ok (), (w1, r1))"
      and i: "idle v (w1, r1)" and st: "stream v (w1, r1) = stream v (w, r)"
      and lt: "length (pv_bytes v w1 (as_raw (reader_handle r1))) < length (pv_bytes v w (as_raw (reader_handle r)))"
      using read_once [OF assms(1) _ part(3), of] short less.prems(1) by (auto simp: idle_def)
    have "receive_loop sys bc Blocking (w, r) = receive_loop sys bc Blocking (w1, r1)"
      using get_message_prefix [OF less.prems(1) assms(3) part(1,2)] step
      by (subst receive_loop.simps) (simp add: io_bind_assoc [symmetric])
    then show ?thesis using less.hyps [OF lt i] st less.prems(2) by simp
  qed
qed

text \<open>A pipe with whole messages in it.\<close>

definition ready :: "'w win_sys \<Rightarrow> 'w pipe_view \<Rightarrow> 'w \<times> message_reader \<Rightarrow> bool" where
  "ready sys v wr \<longleftrightarrow> win_pipe sys v \<and> idle v wr \<and> list_all fits (frames_of (stream v wr)) \<and>
     stream v wr = concat (map plain (frames_of (stream v wr)))"

interpretation wpf: fifo_receiver "ready sys v" "\<lambda>wr. frames_of (stream v wr)" "win_recv sys bc" "\<lambda>m. (m, [], [])"
proof
  fix wr m ms
  assume "ready sys v wr" and q: "frames_of (stream v wr) = m # ms"
  then have laws: "win_pipe sys v" and i: "idle v (fst wr, snd wr)" and m: "fits m" and ms: "list_all fits ms"
    and st: "stream v (fst wr, snd wr) = plain m @ concat (map plain ms)"
    by (simp_all add: ready_def)
  obtain w' r' where "receive_loop sys bc Blocking (fst wr, snd wr) = Some (Ok (m, [], []), (w', r'))"
      "idle v (w', r')" "stream v (w', r') = concat (map plain ms)"
    using receive_plain [OF laws i m st] by blast
  moreover have "win_recv sys bc wr = receive_loop sys bc Blocking (fst wr, snd wr)"
    using i by (cases wr) (simp add: win_recv_def receive_message_def idle_def quiet_def)
  ultimately show "\<exists>wr'. win_recv sys bc wr = Some (Ok (m, [], []), wr') \<and> ready sys v wr' \<and> frames_of (stream v wr') = ms"
    using laws ms by (intro exI [of _ "(w', r')"]) (simp add: ready_def frames_of_concat)
qed

section \<open>Sending\<close>

lemma write_all:
  assumes "win_pipe sys v" "pv_dest v w (as_raw h) = Some g" "length (pv_bytes v w g) + length bytes \<le> pv_quota v"
    and "bytes \<noteq> []" "length bytes < 2 ^ 32"
  shows "\<exists>w'. write_buf sys h bytes Atomic w = Some (Ok (), w') \<and>
      pv_bytes v w' = (pv_bytes v w)(g := pv_bytes v w g @ bytes) \<and> pv_events v w' = pv_events v w \<and>
      pv_dest v w' = pv_dest v w \<and> pv_read v w' = pv_read v w"
proof -
  obtain w' where w': "w_write_file sys (as_raw h) bytes w = Some (Inr (word_of_nat (length bytes)), w')"
    and keep: "pv_bytes v w' = (pv_bytes v w)(g := pv_bytes v w g @ bytes) \<and> pv_events v w' = pv_events v w \<and>
      pv_dest v w' = pv_dest v w \<and> pv_read v w' = pv_read v w"
    using win_pipeD(6) [OF assms(1-3)] by blast
  have u: "unat (ucast (len_of bytes) :: u32) = length bytes" "unat (word_of_nat (length bytes) :: u32) = length bytes"
    using assms(5) by (simp_all add: unsigned_ucast_eq unsigned_of_nat take_bit_nat_eq_self)
  have "write_file sys h bytes w = Some (Ok (word_of_nat (length bytes)), w')"
    using w' u by (simp add: write_file_def call_blocking_def)
  then have "write_loop sys h bytes Atomic 0 w = Some (Ok (), w')"
    using assms(4) u by (subst write_loop.simps) (simp, subst write_loop.simps, simp)
  then show ?thesis using keep assms(4) by (auto simp: write_buf_def)
qed

lemma frame_not_Nil [simp]: "frame data oob \<noteq> []"
  using length_frame [of data oob] by force

lemma full_message_plain:
  assumes "fits m"
  shows "full_message m [] = Ok (plain m)"
proof -
  have w: "ucast (len_of m) = (word_of_nat (length m) :: u32)"
    by (rule word_unat_eq_iff [THEN iffD2]) (simp add: unsigned_ucast_eq unsigned_of_nat take_bit_nat_eq_self)
  let ?h = "\<lparr>hdr_data_len = word_of_nat (length m), hdr_oob_len = 0\<rparr> :: message_header"
  have t: "unat (total_message_bytes_needed ?h) = 8 + length m"
    using assms total_frame [of m "[]"] by (simp add: fits_def)
  moreover have "header_bytes ?h @ m = plain m" by (simp add: frame_def)
  moreover have "unat (8 + len_of m) = 8 + length m"
    using assms unat_header_plus [of "length m"] by (simp add: fits_def HEADER_SIZE_def)
  ultimately show ?thesis
    using assms by (simp add: full_message_def Let_def w word_le_nat_alt word_unat_eq_iff fits_def)
qed

lemma send_plain:
  assumes "fits m"
  shows "win_send sys bc s m [] [] = write_buf sys (sender_handle s) (plain m) Atomic"
proof -
  have l: "unat (len_of m) = length m" using assms by (simp add: fits_def)
  have "unat (PIPE_BUFFER_SIZE - HEADER_SIZE) = unat PIPE_BUFFER_SIZE - 8"
    by (simp add: unat_sub word_le_nat_alt)
  then have "needs_fragmentation bc (len_of m) (oob_new 0) = Ok False"
    using assms l by (simp add: needs_fragmentation_def oob_needs_to_be_sent_def oob_new_def Let_def fits_def
        word_le_nat_alt)
  moreover have "len_of m \<le> 0xFFFFFFFF" using assms l by (simp add: fits_def word_le_nat_alt)
  ultimately show ?thesis
    by (simp add: win_send_def win_send_oob_def write_message_def full_message_plain [OF assms] io_pure
        oob_needs_to_be_sent_def oob_new_def)
qed

lemma send_all_plain:
  assumes "win_pipe sys v" "pv_dest v w (as_raw (sender_handle s)) = Some g" "list_all fits ms"
    and "length (pv_bytes v w g) + length (concat (map plain ms)) \<le> pv_quota v"
  shows "\<exists>w'. in_sequence (\<lambda>m. win_send sys bc s m [] []) ms w = Some (Ok (), w') \<and>
    pv_bytes v w' g = pv_bytes v w g @ concat (map plain ms) \<and> pv_read v w' = pv_read v w"
  using assms(2-)
proof (induction ms arbitrary: w)
  case (Cons m ms)
  then have "\<exists>w'. win_send sys bc s m [] [] w = Some (Ok (), w') \<and>
      pv_bytes v w' = (pv_bytes v w)(g := pv_bytes v w g @ plain m) \<and> pv_dest v w' = pv_dest v w \<and> pv_read v w' = pv_read v w"
    using write_all [OF assms(1), of w "sender_handle s" g "plain m"]
    by (auto simp: send_plain fits_def simp del: split_paired_Ex)
  then obtain w1 where w1: "win_send sys bc s m [] [] w = Some (Ok (), w1)"
      "pv_bytes v w1 = (pv_bytes v w)(g := pv_bytes v w g @ plain m)" "pv_dest v w1 = pv_dest v w" "pv_read v w1 = pv_read v w"
    by blast
  then show ?case using Cons.IH [of w1] Cons.prems by (auto simp del: split_paired_Ex)
qed simp

section \<open>Data in a pipe of its own\<close>

lemma read_raw_loop_all:
  assumes "win_pipe sys v" "quiet v (w, r)" "length (stream v (w, r)) \<le> vec_capacity (read_buf r)"
    and "vec_capacity (read_buf r) < 2 ^ 32"
  shows "\<exists>w' r'. read_raw_loop sys (length (stream v (w, r))) (w, r) = Some (Ok (), (w', r')) \<and>
    quiet v (w', r') \<and> vec_data (read_buf r') = stream v (w, r) \<and> reader_handle r' = reader_handle r \<and>
    pv_bytes v w' (as_raw (reader_handle r)) = []"
  using assms(2-)
proof (induction "length (pv_bytes v w (as_raw (reader_handle r)))" arbitrary: w r rule: less_induct)
  case less
  show ?case
  proof (cases "pv_bytes v w (as_raw (reader_handle r)) = []")
    case True
    then show ?thesis using less.prems(1) by (subst read_raw_loop.simps) (simp add: stream_def)
  next
    case False
    then have part: "length (vec_data (read_buf r)) < length (stream v (w, r))" by (simp add: stream_def)
    then have sp: "read_space r = read_buf r" using less.prems(2) by (auto simp: read_space_def)
    obtain w1 r1 where step: "io_bind (start_read sys) (\<lambda>_. fetch_async_result sys Blocking) (w, r) = Some (Ok (), (w1, r1))"
      and i: "quiet v (w1, r1)" and st: "stream v (w1, r1) = stream v (w, r)" and h: "reader_handle r1 = reader_handle r"
      and c: "vec_capacity (read_buf r1) = vec_capacity (read_buf r)"
      and lt: "length (pv_bytes v w1 (as_raw (reader_handle r1))) < length (pv_bytes v w (as_raw (reader_handle r)))"
      using read_once [OF assms(1) less.prems(1) False] less.prems(3) sp by auto
    have "read_raw_step sys (w, r) = Some (Ok (), (w1, r1))"
      using step by (auto simp: read_raw_step_def io_bind_eq_Some io_map_err_eq_Some)
    then have "read_raw_loop sys (length (stream v (w, r))) (w, r) = read_raw_loop sys (length (stream v (w, r))) (w1, r1)"
      using part by (subst read_raw_loop.simps) simp
    then show ?thesis using less.hyps [OF lt i] less.prems st h c by simp
  qed
qed

section \<open>Properties\<close>

text \<open>C5: over a pipe of Windows, the messages that one end sends come out of the other end: the same bytes, in the same order,
  each of them once, and without handles, even though the receiver gets them in pieces that the system chooses. The
  messages each fit into a buffer of the pipe and together into what the pipe takes without a reader.
\<close>

theorem win_pipe_roundtrip:
  assumes "win_pipe sys v" and "idle v (w, r)" and "stream v (w, r) = []"
    and "pv_dest v w (as_raw (sender_handle s)) = Some (as_raw (reader_handle r))"
    and "list_all fits ms" and "length (concat (map plain ms)) \<le> pv_quota v"
  shows "\<exists>w1 w2 r2. in_sequence (\<lambda>m. win_send sys bc s m [] []) ms w = Some (Ok (), w1) \<and>
    repeated (length ms) (win_recv sys bc) (w1, r) = Some (Ok (map (\<lambda>m. (m, [], [])) ms), (w2, r2)) \<and>
    idle v (w2, r2) \<and> stream v (w2, r2) = []"
proof -
  let ?g = "as_raw (reader_handle r)"
  obtain w1 where w1: "in_sequence (\<lambda>m. win_send sys bc s m [] []) ms w = Some (Ok (), w1)"
      "pv_bytes v w1 ?g = concat (map plain ms)" "pv_read v w1 = pv_read v w"
    using send_all_plain [OF assms(1,4,5), of bc] assms(3,6) by (auto simp: stream_def)
  then have st: "stream v (w1, r) = concat (map plain ms)" using assms(3) by (simp add: stream_def)
  then have q: "frames_of (stream v (w1, r)) = ms @ []" using assms(5) by (simp add: frames_of_concat)
  have "ready sys v (w1, r)" using assms(1,2,5) w1(3) st q by (simp add: ready_def idle_def quiet_def)
  then obtain wr2 where "repeated (length ms) (win_recv sys bc) (w1, r) = Some (Ok (map (\<lambda>m. (m, [], [])) ms), wr2)"
      "ready sys v wr2" "frames_of (stream v wr2) = []"
    using wpf.recv_n_queue [OF _ q] by blast
  with w1(1) show ?thesis by (cases wr2) (auto simp: ready_def)
qed

text \<open>An example: a pipe that is read at 5 and written at 6, and that gives at most three bytes at a time.\<close>

record example_pipe =
  ex_bytes :: "u8 list"
  ex_read :: "(handle \<times> nat) option"

definition example_sys :: "example_pipe win_sys" where
  "example_sys = refusing\<lparr>
     w_write_file := (\<lambda>h bytes w. Some (Inr (word_of_nat (length bytes)), if h = 6 then w\<lparr>ex_bytes := ex_bytes w @ bytes\<rparr> else w)),
     w_read_file := (\<lambda>h ev n w. (Inl ERROR_IO_PENDING, if h = 5 then w\<lparr>ex_read := Some (ev, unat n)\<rparr> else w)),
     w_overlapped_result := (\<lambda>h ev _ w.
       case ex_read w of
         None \<Rightarrow> Some (Inl ACCESS_DENIED, w)
       | Some (_, n) \<Rightarrow>
           Some (Inr \<lparr>done_bytes = take (min n 3) (ex_bytes w), done_offset = 0\<rparr>,
             w\<lparr>ex_bytes := drop (min n 3) (ex_bytes w), ex_read := None\<rparr>))\<rparr>"

definition example_view :: "example_pipe pipe_view" where
  "example_view = \<lparr>pv_bytes = (\<lambda>w h. if h = 5 then ex_bytes w else []), pv_read = (\<lambda>w h. if h = 5 then ex_read w else None),
     pv_events = (\<lambda>_. {7}), pv_dest = (\<lambda>w h. if h = 6 then Some 5 else None), pv_quota = 100\<rparr>"

lemma example_pipe_laws: "win_pipe example_sys example_view"
  unfolding win_pipe_def
proof (intro conjI allI impI, goal_cases)
  case (7 w h ev n)
  then show ?case
    by (intro exI [of _ "min (min n 3) (length (ex_bytes w))"])
      (auto simp: example_sys_def example_view_def refusing_def fun_eq_iff min_def)
qed (auto simp: example_sys_def example_view_def refusing_def same_pipes_def fun_eq_iff split: if_split_asm)

theorem win_pipe_roundtrip_witness:
  "\<exists>w1 w2 r2. in_sequence (\<lambda>m. win_send example_sys bincode_oob \<lparr>sender_handle = win_handle_new 6\<rparr> m [] [])
      [[1, 2, 3, 4, 5], [], [6]] \<lparr>ex_bytes = [], ex_read = None\<rparr> = Some (Ok (), w1) \<and>
    repeated 3 (win_recv example_sys bincode_oob) (w1, reader_new (win_handle_new 5)) =
      Some (Ok [([1, 2, 3, 4, 5], [], []), ([], [], []), ([6], [], [])], (w2, r2))"
  using win_pipe_roundtrip [OF example_pipe_laws, of "\<lparr>ex_bytes = [], ex_read = None\<rparr>" "reader_new (win_handle_new 5)"
      "\<lparr>sender_handle = win_handle_new 6\<rparr>" "[[1, 2, 3, 4, 5], [], [6]]" bincode_oob]
  by (auto simp: idle_def quiet_def stream_def reader_new_def vec_new_def vec_ok_def example_view_def fits_def numeral_3_eq_3
      simp del: repeated.simps in_sequence.simps)

text \<open>C25: data that is too long for a message travels in a pipe of its own, whose receiver reads it with one call: that call
  returns all of the data that is in the pipe, in whatever pieces the system gives it, and leaves nothing in it. The
  receiver is used up: the last thing the call does is to close its handle.
\<close>

theorem win_big_data_read:
  assumes "win_pipe sys v" and "pv_read v w h = None" and "length (pv_bytes v w h) < 2 ^ 32"
    and "h \<noteq> INVALID_HANDLE_VALUE" and "\<forall>w. fst (w_close_handle sys h w)"
  shows "\<exists>w1 w'. recv_raw sys (reader_new (win_handle_new h)) (len_of (pv_bytes v w h)) w = Some (Ok (pv_bytes v w h), w') \<and>
    pv_bytes v w1 h = [] \<and> pv_read v w1 h = None \<and> w_close_handle sys h w1 = (True, w')"
proof -
  let ?bs = "pv_bytes v w h" and ?r = "reader_new (win_handle_new h)"
  let ?r1 = "?r\<lparr>read_buf := vec_reserve (length ?bs) (read_buf ?r)\<rparr>"
  have u: "unat (len_of ?bs) = length ?bs" using assms(3) by simp
  have st: "stream v (w, ?r1) = ?bs" and q: "quiet v (w, ?r1)" "vec_capacity (read_buf ?r1) < 2 ^ 32"
      "length ?bs \<le> vec_capacity (read_buf ?r1)"
    using assms(2,3) by (simp_all add: stream_def quiet_def reader_new_def vec_new_def vec_reserve_def vec_ok_def)
  then obtain w1 r' where loop: "read_raw_loop sys (length ?bs) (w, ?r1) = Some (Ok (), (w1, r'))"
    and r': "quiet v (w1, r')" "vec_data (read_buf r') = ?bs" "as_raw (reader_handle r') = h" "pv_bytes v w1 h = []"
    using read_raw_loop_all [OF assms(1) q(1)] by (auto simp: reader_new_def)
  obtain w' where cl: "w_close_handle sys h w1 = (True, w')"
    using assms(5) by (metis eq_fst_iff)
  have "drop_message_reader sys False (r'\<lparr>read_buf := vec_new\<rparr>) w1 = Some (Ok (), w')"
    using r'(1,3) assms(4) cl
    by (auto simp: drop_message_reader_def owning_def cancel_io_def begin_cancel_def quiet_def on_self_def drop_reader_fields_def
        drop_win_handle_def win_handle_is_valid_def call_def io_finally_def)
  then have "recv_raw sys ?r (len_of ?bs) w = Some (Ok ?bs, w')"
    using loop r'(2) u by (simp add: recv_raw_def read_raw_sized_def owning_def on_self_def reader_new_def vec_new_def io_finally_def)
  moreover have "pv_read v w1 h = None" using r'(1,3) by (auto simp: quiet_def)
  ultimately show ?thesis using r'(4) cl by blast
qed

theorem win_big_data_read_witness:
  "\<exists>w1 w'. recv_raw example_sys (reader_new (win_handle_new 5)) 7 \<lparr>ex_bytes = [1, 2, 3, 4, 5, 6, 7], ex_read = None\<rparr> =
    Some (Ok [1, 2, 3, 4, 5, 6, 7], w') \<and> ex_bytes w1 = [] \<and> w_close_handle example_sys 5 w1 = (True, w')"
  using win_big_data_read [OF example_pipe_laws, of "\<lparr>ex_bytes = [1, 2, 3, 4, 5, 6, 7], ex_read = None\<rparr>" 5]
  by (simp add: example_view_def example_sys_def refusing_def INVALID_HANDLE_VALUE_def) blast

text \<open>C26: a message that carries channels, and is for the process that receives it, comes out of the buffer with its data
  and its channels in the order they were sent, and the bytes behind it stay; one for another process is a panic, since
  its handles mean nothing here.
\<close>

theorem win_message_channels:
  assumes "oob_bincode_ok bc" and "in_flight r = None" and "channel_handles oob \<noteq> []"
    and "shmem_handles oob = []" and "big_data_receiver_handle oob = None"
    and "length data < 2 ^ 32" and "length (oob_serialize bc oob) < 2 ^ 32"
    and "vec_data (read_buf r) = frame data (oob_serialize bc oob) @ rest"
  shows "get_message sys bc (w, r) =
    (if target_process_id oob = w_pid sys
     then Some (Ok (Some (data, map (\<lambda>h. win_opaque_new (win_handle_new h)) (channel_handles oob), [])),
       (w, r\<lparr>read_buf := (read_buf r)\<lparr>vec_data := rest\<rparr>\<rparr>))
     else Some (Panic, (w, r)))"
proof -
  let ?o = "oob_serialize bc oob"
  have "?o \<noteq> []" "length (channel_handles oob) < 2 ^ 64"
    using length_oob_serialize [OF assms(1), of oob] assms(7) by auto
  then have "message_oob_data bc pid (framed data ?o) = 
      (if target_process_id oob = pid then Ok (Some oob) else Panic :: (_, win_error) res)" for pid
    using oob_roundtrip [OF assms(1), of oob] assms(4)
    by (simp add: message_oob_data_def framed_parts [OF assms(6,7)])
  then have "message_parts sys bc (framed data ?o) w =
      (if target_process_id oob = w_pid sys
       then Some (Ok (data, map (\<lambda>h. win_opaque_new (win_handle_new h)) (channel_handles oob), []), w) else Some (Panic, w))"
    using assms(4,5) by (simp add: message_parts_def framed_parts [OF assms(6,7)] Let_def io_on_failure_def)
  moreover have "drain_buf (unat (message_size (framed data ?o))) (read_buf r) = (read_buf r)\<lparr>vec_data := rest\<rparr>"
    using assms(8) by (simp add: framed_parts [OF assms(6,7)] drain_buf_def)
  ultimately show ?thesis
    using assms(2,8) message_from_frame [OF assms(6,7), of rest]
    by (simp add: get_message_def on_world_def on_self_def)
qed

definition example_oob :: oob_message where
  "example_oob = \<lparr>target_process_id = 1, channel_handles = [8, 9], shmem_handles = [], big_data_receiver_handle = None\<rparr>"

lemma example_simps [simp]:
  "w_pid example_sys = 1" "target_process_id example_oob = 1" "channel_handles example_oob = [8, 9]"
  "shmem_handles example_oob = []" "big_data_receiver_handle example_oob = None"
  by (simp_all add: example_sys_def refusing_def example_oob_def)

theorem win_message_channels_witness:
  "get_message example_sys bincode_oob (\<lparr>ex_bytes = [], ex_read = None\<rparr>, (reader_new (win_handle_new 5))\<lparr>read_buf :=
      \<lparr>vec_data = frame [1, 2] (oob_serialize bincode_oob example_oob) @ [3], vec_capacity = 100\<rparr>\<rparr>) =
    Some (Ok (Some ([1, 2], [win_opaque_new (win_handle_new 8), win_opaque_new (win_handle_new 9)], [])),
      (\<lparr>ex_bytes = [], ex_read = None\<rparr>, (reader_new (win_handle_new 5))\<lparr>read_buf := \<lparr>vec_data = [3], vec_capacity = 100\<rparr>\<rparr>))"
  using win_message_channels [OF bincode_oob_ok, of "(reader_new (win_handle_new 5))\<lparr>read_buf :=
      \<lparr>vec_data = frame [1, 2] (oob_serialize bincode_oob example_oob) @ [3], vec_capacity = 100\<rparr>\<rparr>" example_oob "[1, 2]" "[3]" example_sys "\<lparr>ex_bytes = [], ex_read = None\<rparr>"]
    length_oob_serialize [OF bincode_oob_ok, of example_oob]
  by (simp add: reader_new_def)

section \<open>Handles that just fit\<close>

text \<open>A system that grants every request that sending handles makes.\<close>

definition obliging :: "'w win_sys \<Rightarrow> bool" where
  "obliging sys \<longleftrightarrow>
     (\<forall>w. \<exists>name w'. w_uuid sys w = (name, w') \<and> CHR 0x00 \<notin> set name) \<and>
     (\<forall>h w. \<exists>w'. w_close_handle sys h w = (True, w')) \<and>
     (\<forall>name w. \<exists>h w'. w_create_pipe sys name w = (Inr h, w')) \<and>
     (\<forall>name w. \<exists>h w'. w_open_pipe sys name w = (Inr h, w')) \<and>
     (\<forall>h p c w. \<exists>g w'. w_duplicate sys h p c w = (Inr g, w')) \<and>
     (\<forall>h w. \<exists>pid w'. w_server_pid sys h w = (Inr pid, w')) \<and>
     (\<forall>pid w. \<exists>h w'. w_open_process sys pid w = (Inr h, w'))"

lemma obliging_drop:
  assumes "obliging sys"
  shows "\<exists>w'. drop_win_handle sys p h w = Some (Ok (), w')"
proof -
  obtain w' where "w_close_handle sys (as_raw h) w = (True, w')" using assms unfolding obliging_def by blast
  then show ?thesis by (simp add: drop_win_handle_def call_def)
qed

lemma obliging_move:
  assumes "obliging sys"
  shows "\<exists>g w'. move_handle_to_process sys h p w = Some (Ok g, w')"
proof -
  obtain g w' where "w_duplicate sys (as_raw h) (as_raw p) True w = (Inr g, w')"
    using assms unfolding obliging_def by blast
  then show ?thesis
    by (simp add: move_handle_to_process_def dup_handle_to_process_with_flags_def or_last_run)
qed

lemma obliging_server:
  assumes "obliging sys"
  shows "\<exists>server w'. get_pipe_server_process_handle_and_pid sys s w = Some (Ok server, w')"
proof -
  obtain pid w1 where pid: "w_server_pid sys (as_raw (sender_handle s)) w = (Inr pid, w1)"
    using assms unfolding obliging_def by blast
  obtain h w2 where "w_open_process sys pid w1 = (Inr h, w2)"
    using assms unfolding obliging_def by blast
  with pid show ?thesis
    by (simp add: get_pipe_server_process_handle_and_pid_def get_pipe_server_process_id_def or_last_run)
qed

lemma obliging_channel:
  assumes "obliging sys"
  shows "\<exists>tx h w'. win_channel sys w = Some (Ok (tx, reader_new h), w')"
proof -
  obtain pid w1 where "w_uuid sys w = (pid, w1)" "CHR 0x00 \<notin> set pid"
    using assms unfolding obliging_def by blast
  moreover from this obtain name where "make_pipe_name pid = Ok name"
    by (simp add: make_pipe_name_def Let_def)
  moreover obtain h w2 where "w_create_pipe sys name w1 = (Inr h, w2)"
    using assms unfolding obliging_def by blast
  moreover obtain g w3 where "w_open_pipe sys name w2 = (Inr g, w3)"
    using assms unfolding obliging_def by blast
  ultimately have "win_channel sys w = Some (Ok (win_sender_from_handle (win_handle_new g), reader_new (win_handle_new h)), w3)"
    by (simp add: win_channel_def make_pipe_id_def call_def win_receiver_new_named_def connect_named_def or_last_run
      io_on_failure_Ok)
  then show ?thesis by blast
qed

lemma obliging_send_ports:
  assumes "obliging sys"
  shows "\<exists>hs w'. length hs = length ss \<and>
    send_ports sys p oob (map Sender ss) w = Some (Ok (oob\<lparr>channel_handles := channel_handles oob @ hs\<rparr>), w')"
proof (induction ss arbitrary: oob w)
  case (Cons s ss)
  obtain g w1 where g: "move_handle_to_process sys (sender_handle s) p w = Some (Ok g, w1)"
    using obliging_move [OF assms] by blast
  obtain hs w2 where "length hs = length ss"
    "send_ports sys p (oob\<lparr>channel_handles := channel_handles oob @ [as_raw g]\<rparr>) (map Sender ss) w1 =
      Some (Ok (oob\<lparr>channel_handles := channel_handles oob @ as_raw g # hs\<rparr>), w2)"
    using Cons.IH [of "oob\<lparr>channel_handles := channel_handles oob @ [as_raw g]\<rparr>" w1] by auto
  with g show ?case
    by (intro exI [of _ "as_raw g # hs"] exI [of _ w2]) (simp add: port_handle_def io_on_failure_Ok)
qed simp

lemma obliging_big_data_pipe:
  assumes "obliging sys"
  shows "\<exists>tx h pid w'. big_data_pipe sys s server n oob w =
    Some (Ok (tx, oob\<lparr>big_data_receiver_handle := Some (h, n), target_process_id := pid\<rparr>), w')"
proof -
  obtain tx rh w1 where ch: "win_channel sys w = Some (Ok (tx, reader_new rh), w1)" using obliging_channel [OF assms] by blast
  obtain sh pid w2 where srv: "(if win_handle_is_valid (fst server) then io_return server
      else get_pipe_server_process_handle_and_pid sys s) w1 = Some (Ok (sh, pid), w2)"
    using obliging_server [OF assms, of s w1] by (cases server; cases "win_handle_is_valid (fst server)") auto
  have take: "take_reader_handle sys (reader_new rh) w2 = Some (Ok rh, w2)"
    by (simp add: take_reader_handle_def owning_def on_self_def drop_message_reader_def cancel_io_def begin_cancel_def
      drop_reader_fields_def reader_new_def io_finally_def)
  obtain g w3 where mv: "move_handle_to_process sys rh sh w2 = Some (Ok g, w3)" using obliging_move [OF assms] by blast
  obtain w4 where dr: "drop_win_handle sys False sh w3 = Some (Ok (), w4)" using obliging_drop [OF assms] by blast
  have "big_data_pipe sys s server n oob w =
      Some (Ok (tx, oob\<lparr>big_data_receiver_handle := Some (as_raw g, n), target_process_id := pid\<rparr>), w4)"
    by (simp add: big_data_pipe_def io_on_failure_Ok ch srv take mv dr io_finally_def)
  then show ?thesis by blast
qed

lemma oob_overflow:
  assumes "oob_bincode_ok bc" and "big_data_receiver_handle oob = None" and "oob_needs_to_be_sent oob"
    and "69608 < length (oob_serialize bc oob)" and "length (oob_serialize bc oob) \<le> 69624"
    and "69624 \<le> length data + length (oob_serialize bc oob)" and "length data < 2 ^ 32"
  shows "needs_fragmentation bc (len_of data) oob = Ok True"
    and "full_message [] (oob_serialize bc (oob\<lparr>big_data_receiver_handle := Some (h, len_of data), target_process_id := pid\<rparr>)) = Panic"
proof -
  let ?n = "length (oob_serialize bc oob)"
  have u: "unat (PIPE_BUFFER_SIZE - HEADER_SIZE) = 69624" by (simp add: unat_sub word_le_nat_alt)
  have n: "unat (usize_of ?n) = ?n" "unat (len_of data) = length data" using assms(5,7) by simp_all
  then have le: "usize_of ?n \<le> PIPE_BUFFER_SIZE - HEADER_SIZE" using assms(5) u by (simp add: word_le_nat_alt)
  then have "unat (PIPE_BUFFER_SIZE - HEADER_SIZE - usize_of ?n) = 69624 - ?n" using u n by (simp add: unat_sub)
  then show "needs_fragmentation bc (len_of data) oob = Ok True"
    using assms(3,6) le n by (simp add: needs_fragmentation_def Let_def word_le_nat_alt)
  let ?o = "oob_serialize bc (oob\<lparr>big_data_receiver_handle := Some (h, len_of data), target_process_id := pid\<rparr>)"
  have o: "length ?o = ?n + 16" using length_oob_serialize [OF assms(1)] assms(2) by simp
  have "unat (ucast (len_of ?o) :: u32) = length ?o"
    using o assms(5) by (intro unat_len32) simp
  then show "full_message [] ?o = Panic"
    using o assms(4) by (simp add: full_message_def Let_def word_le_nat_alt unat_total)
qed

lemma win_send_oob_overflow:
  assumes "obliging sys" and "oob_bincode_ok bc" and "big_data_receiver_handle oob = None" and "oob_needs_to_be_sent oob"
    and "69608 < length (oob_serialize bc oob)" and "length (oob_serialize bc oob) \<le> 69624"
    and "69624 \<le> length data + length (oob_serialize bc oob)" and "length data < 2 ^ 32"
  shows "\<exists>w'. win_send_oob sys bc s data server oob w = Some (Panic, w')"
proof -
  note over = oob_overflow [OF assms(2-)]
  obtain tx h pid w1 where pipe: "big_data_pipe sys s server (len_of data) oob w =
      Some (Ok (tx, oob\<lparr>big_data_receiver_handle := Some (h, len_of data), target_process_id := pid\<rparr>), w1)"
    using obliging_big_data_pipe [OF assms(1)] by blast
  obtain w2 where "drop_win_handle sys True (sender_handle tx) w1 = Some (Ok (), w2)" using obliging_drop [OF assms(1)] by blast
  then have "write_message sys bc s data (Some tx, oob\<lparr>big_data_receiver_handle := Some (h, len_of data), target_process_id := pid\<rparr>) w1 =
      Some (Panic, w2)"
    by (simp add: write_message_def Let_def over(2) oob_needs_to_be_sent_def io_finally_def drop_win_sender_def)
  then show ?thesis
    using over(1) pipe by (simp add: win_send_oob_def io_on_failure_Ok)
qed

text \<open>C37: whether data needs a pipe of its own is decided before the handle of that pipe is in the out-of-band message. With
  8699 or 8700 senders to send along, their handles just fit into a message, and no longer do once that handle is added. Then
  \<open>send\<close> panics, instead of returning an error, when the data does not fit as well, although every call into the system succeeds.
\<close>

theorem win_oob_overflow_panics:
  assumes "oob_bincode_ok bc" and "obliging sys" and "length ss \<in> {8699, 8700}"
    and "69603 \<le> length data + 8 * length ss" and "length data < 2 ^ 32"
  shows "\<exists>w'. win_send sys bc s data (map Sender ss) [] w = Some (Panic, w')"
proof -
  obtain sh pid w1 where srv: "get_pipe_server_process_handle_and_pid sys s w = Some (Ok (sh, pid), w1)"
    using obliging_server [OF assms(2)] by force
  obtain hs w2 where hs: "length hs = length ss" and
    send: "send_ports sys sh (oob_new pid) (map Sender ss) w1 = Some (Ok ((oob_new pid)\<lparr>channel_handles := hs\<rparr>), w2)"
    using obliging_send_ports [OF assms(2), of ss sh "oob_new pid" w1] by (auto simp: oob_new_def)
  let ?oob = "(oob_new pid)\<lparr>channel_handles := hs\<rparr>"
  have len: "length (oob_serialize bc ?oob) = 21 + 8 * length ss"
    using length_oob_serialize [OF assms(1), of ?oob] hs by (simp add: oob_new_def)
  have "hs \<noteq> []" "ss \<noteq> []" using hs assms(3) by auto
  then obtain w3 where "win_send_oob sys bc s data (sh, pid) ?oob w2 = Some (Panic, w3)"
    using win_send_oob_overflow [OF assms(2,1), of ?oob data s "(sh, pid)" w2] len assms(3-5)
    by (auto simp: oob_new_def oob_needs_to_be_sent_def)
  moreover have "len_of data \<le> 0xFFFFFFFF" using assms(5) by (simp add: word_le_nat_alt)
  ultimately show ?thesis
    using srv send \<open>ss \<noteq> []\<close> by (simp add: win_send_def io_on_failure_Ok)
qed

definition granting :: "unit win_sys" where
  "granting = refusing\<lparr>w_create_pipe := (\<lambda>_. Pair (Inr 5)), w_open_pipe := (\<lambda>_. Pair (Inr 6)),
     w_duplicate := (\<lambda>h _ _. Pair (Inr h)), w_server_pid := (\<lambda>_. Pair (Inr 2)), w_open_process := (\<lambda>_. Pair (Inr 9))\<rparr>"

theorem win_oob_overflow_panics_witness:
  "\<exists>w'. win_send granting bincode_oob \<lparr>sender_handle = win_handle_new 6\<rparr> (replicate 11 0)
     (map Sender (replicate 8699 \<lparr>sender_handle = win_handle_new 8\<rparr>)) [] () = Some (Panic, w')"
proof (rule win_oob_overflow_panics [OF bincode_oob_ok])
  show "obliging granting" by (simp add: obliging_def granting_def refusing_def)
qed simp_all

end
