(* ===== verification/Win_Set.thy ===== *)
theory Win_Set
  imports Win_Stream Receiver_Set "HOL-Library.Multiset"
begin

text \<open>
  Receiver sets of the Windows back end: the readers of a set share a completion port, and each of them has a read
  in flight while the set waits.
\<close>

section \<open>State\<close>

record win_receiver_set =
  win_incrementor :: u64
  iocp :: win_handle
  set_readers :: "message_reader list"
  closed_readers :: "u64 list"

type_synonym ('w, 'a) win_set_io = "('w \<times> win_receiver_set, 'a, win_error) io"

type_synonym win_selection = "(win_opaque, win_shmem) os_ipc_selection_result"

definition win_set_new :: "'w win_sys \<Rightarrow> ('w, win_receiver_set, win_error) io" where
  "win_set_new sys =
     io_bind (or_last (w_create_port sys)) (\<lambda>port.
     io_return \<lparr>win_incrementor = 0, iocp = win_handle_new port, set_readers = [], closed_readers = []\<rparr>)"

section \<open>Adding\<close>

definition add_to_iocp :: "'w win_sys \<Rightarrow> win_handle \<Rightarrow> u64 \<Rightarrow> ('w, unit) reader_io" where
  "add_to_iocp sys port i = with_self (\<lambda>r.
     if entry_id r \<noteq> None then io_panic
     else
       let completion_key = as_raw (reader_handle r) in
       io_bind (on_world (or_last (w_add_to_port sys (as_raw (reader_handle r)) (as_raw port) completion_key))) (\<lambda>_.
       io_bind (on_self (\<lambda>r. ((), r\<lparr>entry_id := Some i\<rparr>))) (\<lambda>_.
       start_read sys)))"

text \<open>Code of the set that works on a reader it owns; a panic drops the reader.\<close>

definition run_reader ::
  "'w win_sys \<Rightarrow> message_reader \<Rightarrow> ('w, 'a) reader_io \<Rightarrow> ('w, (win_error + 'a) \<times> message_reader) win_set_io" where
  "run_reader sys r m = (\<lambda>(w, s).
     Option.bind (m (w, r)) (\<lambda>(q, (w', r')).
       case q of
         Ok x \<Rightarrow> Some (Ok (Inr x, r'), (w', s))
       | Err e \<Rightarrow> Some (Ok (Inl e, r'), (w', s))
       | Panic \<Rightarrow> io_finally io_panic (\<lambda>panicking. on_world (drop_message_reader sys panicking r')) (w', s)))"

text \<open>\<open>incrementor.next().unwrap()\<close>: the range \<open>0..\<close> of \<open>u64\<close> overflows after its last element.\<close>

definition win_next_index :: "('w, u64) win_set_io" where
  "win_next_index = with_self (\<lambda>s.
     if win_incrementor s = -1 then io_panic
     else on_self (\<lambda>s. (win_incrementor s, s\<lparr>win_incrementor := win_incrementor s + 1\<rparr>)))"

definition win_set_add :: "'w win_sys \<Rightarrow> message_reader \<Rightarrow> ('w, u64) win_set_io" where
  "win_set_add sys receiver =
     io_bind (io_on_failure win_next_index (\<lambda>panicking. on_world (drop_message_reader sys panicking receiver))) (\<lambda>i.
     with_self (\<lambda>s.
     io_bind (run_reader sys receiver (add_to_iocp sys (iocp s) i)) (\<lambda>(result, reader).
     case result of
       Inr u \<Rightarrow> on_self (\<lambda>s. (i, s\<lparr>set_readers := set_readers s @ [reader]\<rparr>))
     | Inl err \<Rightarrow>
         if err = WinChannelClosed then
           io_bind (on_self (\<lambda>s. ((), s\<lparr>closed_readers := closed_readers s @ [i]\<rparr>))) (\<lambda>_.
           io_finally (io_return i) (\<lambda>panicking. on_world (drop_message_reader sys panicking reader)))
         else io_finally (io_throw err) (\<lambda>panicking. on_world (drop_message_reader sys panicking reader)))))"

section \<open>Completions\<close>

text \<open>The first reader with the key of a completion. Every reader before it has a read in flight, or \<open>unwrap\<close> panics.\<close>

fun find_reader :: "handle \<Rightarrow> message_reader list \<Rightarrow> (nat option, win_error) res" where
  "find_reader key [] = Ok None"
| "find_reader key (r # rs) =
     (case in_flight r of
        None \<Rightarrow> Panic
      | Some c \<Rightarrow> if as_raw (async_handle (cell_alias c)) = key then Ok (Some 0)
          else res_map (map_option Suc) (find_reader key rs))"

definition swap_remove :: "nat \<Rightarrow> 'a list \<Rightarrow> 'a \<times> 'a list" where
  "swap_remove i xs = (xs ! i, butlast (xs[i := last xs]))"

definition completed_reader :: "handle \<Rightarrow> ('w, message_reader) win_set_io" where
  "completed_reader key = with_self (\<lambda>s.
     io_bind (io_lift (find_reader key (set_readers s))) (\<lambda>found.
     case found of
       None \<Rightarrow> io_panic
     | Some reader_index \<Rightarrow>
         on_self (\<lambda>s. case swap_remove reader_index (set_readers s) of (reader, rest) \<Rightarrow> (reader, s\<lparr>set_readers := rest\<rparr>))))"

definition fetch_iocp_result :: "'w win_sys \<Rightarrow> ('w, (win_error + unit) \<times> message_reader) win_set_io" where
  "fetch_iocp_result sys = with_self (\<lambda>s.
     io_bind (on_world (call_blocking (w_next_completion sys (as_raw (iocp s))))) (\<lambda>packet.
     case pkt_read packet of
       None \<Rightarrow>
         (case pkt_status packet of
            Inl err \<Rightarrow> io_throw (win_from_system err)
          | Inr u \<Rightarrow> io_panic)
     | Some d \<Rightarrow>
         if pkt_key packet = INVALID_HANDLE_VALUE then io_panic
         else
           io_bind (completed_reader (pkt_key packet)) (\<lambda>reader.
           run_reader sys reader (notify_completion sys
             (case pkt_status packet of Inl err \<Rightarrow> Inl (win_from_system err) | Inr u \<Rightarrow> Inr d)))))"

section \<open>Selecting\<close>

definition drop_win_result :: "'w win_sys \<Rightarrow> bool \<Rightarrow> win_selection \<Rightarrow> ('w, unit, win_error) io" where
  "drop_win_result sys panicking res =
     (case res of
        DataReceived i data channels shmems \<Rightarrow>
          io_finally (drop_all (drop_win_opaque sys) panicking channels)
            (\<lambda>unwinding. drop_all (drop_win_shmem sys) (panicking \<or> unwinding) shmems)
      | ChannelClosed i \<Rightarrow> io_return ())"

text \<open>What leaves \<open>select\<close> early drops the reader and the results so far.\<close>

definition drop_select ::
  "'w win_sys \<Rightarrow> message_reader \<Rightarrow> win_selection list \<Rightarrow> bool \<Rightarrow> ('w, unit) win_set_io" where
  "drop_select sys reader results panicking =
     on_world (io_finally (drop_message_reader sys panicking reader)
       (\<lambda>unwinding. drop_all (drop_win_result sys) (panicking \<or> unwinding) results))"

text \<open>\<open>while let Some(..) = reader.get_message()?\<close>; \<open>entry_id.unwrap()\<close> is a panic for a reader without one.\<close>

partial_function (option) drain_messages ::
  "'w win_sys \<Rightarrow> oob_bincode \<Rightarrow> win_selection list \<Rightarrow> message_reader
     \<Rightarrow> ('w, win_selection list \<times> message_reader) win_set_io" where
  "drain_messages sys bc results reader ws =
     io_bind (io_on_failure (run_reader sys reader (get_message sys bc))
         (\<lambda>panicking. on_world (drop_all (drop_win_result sys) panicking results))) (\<lambda>(got, reader').
       case got of
         Inl err \<Rightarrow> io_finally (io_throw err) (drop_select sys reader' results)
       | Inr message \<Rightarrow>
           (case message of
              None \<Rightarrow> io_return (results, reader')
            | Some received \<Rightarrow>
                (case entry_id reader' of
                   None \<Rightarrow> io_finally io_panic (drop_select sys reader' results)
                 | Some i \<Rightarrow>
                     drain_messages sys bc
                       (results @ [DataReceived i (fst received) (fst (snd received)) (snd (snd received))]) reader'))) ws"

definition report_closed ::
  "'w win_sys \<Rightarrow> win_selection list \<Rightarrow> message_reader \<Rightarrow> ('w, win_selection list) win_set_io" where
  "report_closed sys results reader =
     (case entry_id reader of
        None \<Rightarrow> io_finally io_panic (drop_select sys reader results)
      | Some i \<Rightarrow>
          io_finally (io_return (results @ [ChannelClosed i]))
            (\<lambda>panicking. on_world (drop_message_reader sys panicking reader)))"

definition restart_reader ::
  "'w win_sys \<Rightarrow> win_selection list \<Rightarrow> message_reader \<Rightarrow> ('w, win_selection list) win_set_io" where
  "restart_reader sys results reader =
     io_bind (io_on_failure (run_reader sys reader (start_read sys))
         (\<lambda>panicking. on_world (drop_all (drop_win_result sys) panicking results))) (\<lambda>(started, reader').
       case started of
         Inr u \<Rightarrow>
           io_bind (on_self (\<lambda>s. ((), s\<lparr>set_readers := set_readers s @ [fst (reader_take reader')]\<rparr>))) (\<lambda>_.
           io_finally (io_return results)
             (\<lambda>panicking. on_world (drop_message_reader sys panicking (snd (reader_take reader')))))
       | Inl err \<Rightarrow>
           if err = WinChannelClosed then report_closed sys results reader'
           else io_finally (io_throw err) (drop_select sys reader' results))"

definition select_step :: "'w win_sys \<Rightarrow> oob_bincode \<Rightarrow> ('w, win_selection list) win_set_io" where
  "select_step sys bc =
     io_bind (fetch_iocp_result sys) (\<lambda>(result, reader).
       case result of
         Inl err \<Rightarrow>
           if err = WinChannelClosed then report_closed sys [] reader
           else io_finally (io_throw err) (drop_select sys reader [])
       | Inr u \<Rightarrow>
           io_bind (drain_messages sys bc [] reader) (\<lambda>(results, reader'). restart_reader sys results reader'))"

partial_function (option) select_loop :: "'w win_sys \<Rightarrow> oob_bincode \<Rightarrow> ('w, win_selection list) win_set_io" where
  "select_loop sys bc ws =
     io_bind (select_step sys bc) (\<lambda>results.
       if results = [] then select_loop sys bc else io_return results) ws"

definition win_select :: "'w win_sys \<Rightarrow> oob_bincode \<Rightarrow> ('w, win_selection list) win_set_io" where
  "win_select sys bc = with_self (\<lambda>s.
     if \<not> length (set_readers s) + length (closed_readers s) > 0 then io_panic
     else
       io_bind (on_self (\<lambda>s. (map ChannelClosed (closed_readers s), s\<lparr>closed_readers := []\<rparr>))) (\<lambda>results.
       if results = [] then select_loop sys bc else io_return results))"

section \<open>Dropping a set\<close>

fun cancel_all :: "'w win_sys \<Rightarrow> message_reader list \<Rightarrow> message_reader list \<Rightarrow> ('w, unit) win_set_io" where
  "cancel_all sys before [] = io_return ()"
| "cancel_all sys before (r # rs) = (\<lambda>(w, s).
     Option.bind (issue_async_cancel sys (w, r)) (\<lambda>(q, (w', r')).
       let s' = s\<lparr>set_readers := before @ r' # rs\<rparr> in
       case q of Ok u \<Rightarrow> cancel_all sys (before @ [r']) rs (w', s') | _ \<Rightarrow> Some (q, (w', s'))))"

definition retain_in_flight :: "'w win_sys \<Rightarrow> ('w, unit) win_set_io" where
  "retain_in_flight sys = with_self (\<lambda>s.
     io_bind (on_self (\<lambda>s. ((), s\<lparr>set_readers := filter (\<lambda>r. in_flight r \<noteq> None) (set_readers s)\<rparr>))) (\<lambda>_.
     on_world (drop_all (drop_message_reader sys) False (filter (\<lambda>r. in_flight r = None) (set_readers s)))))"

partial_function (option) await_all :: "'w win_sys \<Rightarrow> ('w, unit) win_set_io" where
  "await_all sys ws =
     with_self (\<lambda>s.
       if set_readers s = [] then io_return ()
       else
         io_bind (io_unwrap (fetch_iocp_result sys)) (\<lambda>(result, reader).
         io_bind (on_world (drop_message_reader sys False reader)) (\<lambda>_. await_all sys))) ws"

definition drop_win_set :: "'w win_sys \<Rightarrow> bool \<Rightarrow> win_receiver_set \<Rightarrow> ('w, unit, win_error) io" where
  "drop_win_set sys panicking s =
     owning s
       (with_self (\<lambda>s.
          io_bind (cancel_all sys [] (set_readers s)) (\<lambda>_.
          io_bind (retain_in_flight sys) (\<lambda>_. await_all sys))))
       (\<lambda>unwinding s.
          io_finally (drop_win_handle sys (panicking \<or> unwinding) (iocp s)) (\<lambda>more.
            drop_all (drop_message_reader sys) (panicking \<or> unwinding \<or> more) (set_readers s)))"

section \<open>Readers on loan\<close>

lemma run_reader_Ok:
  "run_reader sys r m (w, s) = Some (Ok (x, r'), (w', s')) \<longleftrightarrow>
     s' = s \<and> ((\<exists>e. m (w, r) = Some (Err e, (w', r')) \<and> x = Inl e) \<or> (\<exists>y. m (w, r) = Some (Ok y, (w', r')) \<and> x = Inr y))"
proof (cases "m (w, r)")
  case (Some out)
  obtain q w1 r1 where "out = (q, (w1, r1))" by (metis surj_pair)
  with Some show ?thesis
    by (cases q) (auto simp: run_reader_def io_finally_eq_Some)
qed (simp add: run_reader_def)

lemma run_reader_not_Err: "run_reader sys r m ws \<noteq> Some (Err e, ws')"
proof (cases "m (fst ws, r)")
  case (Some out)
  obtain q w1 r1 where "out = (q, (w1, r1))" by (metis surj_pair)
  with Some show ?thesis
    by (cases ws; cases q) (auto simp: run_reader_def io_finally_eq_Some)
qed (cases ws, simp add: run_reader_def)

lemma run_reader_entry:
  assumes "run_reader sys r m (w, s) = Some (Ok (x, r'), (w', s'))" and "\<And>e. keeps (reader_keeps None e) m"
  shows "entry_id r' = entry_id r"
proof -
  obtain q where "m (w, r) = Some (q, (w', r'))" using assms(1) unfolding run_reader_Ok by blast
  from keepsD [OF assms(2) _ this, of "entry_id r"] show ?thesis by (simp add: holds_pipe_def)
qed

section \<open>The invariant of a set\<close>

text \<open>Every reader has an identifier of its own that was given out, and a read in flight.\<close>

definition win_ids :: "win_receiver_set \<Rightarrow> u64 list" where
  "win_ids s = map (the \<circ> entry_id) (set_readers s) @ closed_readers s"

definition win_set_ok :: "win_receiver_set \<Rightarrow> bool" where
  "win_set_ok s \<longleftrightarrow> distinct (win_ids s) \<and> (\<forall>i\<in>set (win_ids s). i < win_incrementor s) \<and>
     (\<forall>r\<in>set (set_readers s). entry_id r \<noteq> None \<and> in_flight r \<noteq> None)"

abbreviation win_members :: "win_receiver_set \<Rightarrow> u64 set" where
  "win_members s \<equiv> set (win_ids s)"

lemma mset_swap_remove:
  assumes "i < length xs"
  shows "mset xs = add_mset (fst (swap_remove i xs)) (mset (snd (swap_remove i xs)))"
proof (cases "i = length xs - 1")
  case True
  have xs: "xs \<noteq> []" using assms by auto
  then have "xs ! i = last xs" using True by (simp add: last_conv_nth)
  then have "xs[i := last xs] = xs" by (metis list_update_id)
  moreover have "mset xs = mset (butlast xs @ [last xs])" using xs by simp
  ultimately show ?thesis using \<open>xs ! i = last xs\<close> by (simp add: swap_remove_def)
next
  case False
  obtain ys z where xs: "xs = ys @ [z]" using assms by (metis append_butlast_last_id length_greater_0_conv less_nat_zero_code list.size(3))
  then have i: "i < length ys" using assms False by simp
  then have "swap_remove i xs = (ys ! i, ys[i := z])"
    by (simp add: swap_remove_def xs nth_append list_update_append)
  then show ?thesis using i by (simp add: xs mset_update)
qed

text \<open>What is left when a reader is on loan, and when it comes back.\<close>

definition lent :: "u64 \<Rightarrow> win_receiver_set \<Rightarrow> win_receiver_set \<Rightarrow> bool" where
  "lent i s s' \<longleftrightarrow> win_set_ok s' \<and> win_incrementor s' = win_incrementor s \<and> i \<in> win_members s \<and>
     win_members s' = win_members s - {i}"

lemma lent_taken:
  assumes "win_set_ok s" and "k < length (set_readers s)" and "swap_remove k (set_readers s) = (r, rest)"
  shows "\<exists>i. entry_id r = Some i \<and> lent i s (s\<lparr>set_readers := rest\<rparr>)"
proof -
  have m: "mset (set_readers s) = add_mset r (mset rest)" using mset_swap_remove [OF assms(2)] assms(3) by simp
  then have sub: "set (set_readers s) = insert r (set rest)" by (metis set_mset_add_mset_insert set_mset_mset)
  then obtain i where i: "entry_id r = Some i" using assms(1) unfolding win_set_ok_def by blast
  have "mset (win_ids s) = add_mset i (mset (win_ids (s\<lparr>set_readers := rest\<rparr>)))"
    using m i by (simp add: win_ids_def)
  then have ids: "mset (win_ids s) = mset (i # win_ids (s\<lparr>set_readers := rest\<rparr>))" by simp
  then have "distinct (i # win_ids (s\<lparr>set_readers := rest\<rparr>))"
    using assms(1) mset_eq_imp_distinct_iff unfolding win_set_ok_def by blast
  moreover have "win_members s = insert i (win_members (s\<lparr>set_readers := rest\<rparr>))"
    using mset_eq_setD [OF ids] by simp
  ultimately have "lent i s (s\<lparr>set_readers := rest\<rparr>)"
    using assms(1) sub unfolding lent_def win_set_ok_def by auto
  with i show ?thesis by blast
qed

lemma lent_back:
  assumes "lent i s s'" and "win_set_ok s" and "entry_id r = Some i" and "in_flight r \<noteq> None"
  shows "win_set_ok (s'\<lparr>set_readers := set_readers s' @ [r]\<rparr>)"
    and "win_members (s'\<lparr>set_readers := set_readers s' @ [r]\<rparr>) = win_members s"
proof -
  have ids: "mset (win_ids (s'\<lparr>set_readers := set_readers s' @ [r]\<rparr>)) = mset (i # win_ids s')"
    using assms(3) by (simp add: win_ids_def)
  have i: "i \<in> win_members s" "win_members s' = win_members s - {i}" "win_set_ok s'"
      "win_incrementor s' = win_incrementor s"
    using assms(1) by (simp_all add: lent_def)
  show mem: "win_members (s'\<lparr>set_readers := set_readers s' @ [r]\<rparr>) = win_members s"
    using mset_eq_setD [OF ids] i by auto
  have "distinct (i # win_ids s')" using i by (simp add: win_set_ok_def)
  then have "distinct (win_ids (s'\<lparr>set_readers := set_readers s' @ [r]\<rparr>))"
    using mset_eq_imp_distinct_iff [OF ids] by blast
  then show "win_set_ok (s'\<lparr>set_readers := set_readers s' @ [r]\<rparr>)"
    using i assms(2-4) unfolding win_set_ok_def mem by auto
qed

lemma find_reader_bound: "find_reader key rs = Ok (Some i) \<Longrightarrow> i < length rs"
  by (induction rs arbitrary: i) (auto split: option.splits if_splits dest!: sym [of "Some _"])

lemma completed_reader_Ok:
  assumes "win_set_ok s" and "completed_reader key (w, s) = Some (Ok r, (w', s'))"
  shows "w' = w \<and> (\<exists>i. entry_id r = Some i \<and> lent i s s')"
proof -
  obtain k where k: "find_reader key (set_readers s) = Ok (Some k)"
    and out: "s' = s\<lparr>set_readers := snd (swap_remove k (set_readers s))\<rparr>" "r = fst (swap_remove k (set_readers s))" "w' = w"
    using assms(2)
    by (cases "find_reader key (set_readers s)")
      (auto simp: completed_reader_def on_self_def split: option.split_asm prod.split_asm)
  with lent_taken [OF assms(1) find_reader_bound [OF k], of r] show ?thesis by (metis prod.collapse)
qed

lemma completed_reader_not_Err: "completed_reader key ws \<noteq> Some (Err e, ws')"
proof -
  have "find_reader key rs \<noteq> Err e" for rs by (induction rs) (auto split: option.split, metis res.distinct(1) res_map.elims)
  then show ?thesis
    by (cases ws; cases "find_reader key (set_readers (snd ws))")
      (auto simp: completed_reader_def on_self_def split: option.split_asm prod.split_asm)
qed

lemma fetch_iocp_result_Ok:
  assumes "win_set_ok s" and "fetch_iocp_result sys (w, s) = Some (Ok (x, r), (w', s'))"
  shows "\<exists>i. entry_id r = Some i \<and> lent i s s'"
proof -
  obtain packet w1 d where "w_next_completion sys (as_raw (iocp s)) w = Some (packet, w1)" "pkt_read packet = Some d"
      "pkt_key packet \<noteq> INVALID_HANDLE_VALUE"
      "io_bind (completed_reader (pkt_key packet)) (\<lambda>reader.
         run_reader sys reader (notify_completion sys
           (case pkt_status packet of Inl err \<Rightarrow> Inl (win_from_system err) | Inr u \<Rightarrow> Inr d))) (w1, s) = Some (Ok (x, r), (w', s'))"
    using assms(2)
    by (auto simp: fetch_iocp_result_def io_bind_eq_Some [of "on_world m" for m] on_world_eq_Some call_blocking_eq_Some
      split: option.split_asm sum.split_asm if_split_asm)
  then obtain r1 w2 s2 where r1: "completed_reader (pkt_key packet) (w1, s) = Some (Ok r1, (w2, s2))"
    and run: "run_reader sys r1 (notify_completion sys
           (case pkt_status packet of Inl err \<Rightarrow> Inl (win_from_system err) | Inr u \<Rightarrow> Inr d)) (w2, s2) = Some (Ok (x, r), (w', s'))"
    by (auto simp: io_bind_eq_Some)
  have "entry_id r = entry_id r1" by (rule run_reader_entry [OF run notify_completion_keeps])
  moreover have "s' = s2" using run by (simp add: run_reader_Ok)
  ultimately show ?thesis using completed_reader_Ok [OF assms(1) r1] by simp
qed

lemma fetch_iocp_result_Err:
  assumes "fetch_iocp_result sys (w, s) = Some (Err e, (w', s'))"
  shows "s' = s"
  using assms
  by (auto simp: completed_reader_not_Err run_reader_not_Err fetch_iocp_result_def io_bind_eq_Some on_world_eq_Some call_blocking_eq_Some
      split: option.split_asm sum.split_asm if_split_asm)

section \<open>The contract\<close>

text \<open>Code that leaves the set alone.\<close>

definition same_win_set :: "win_receiver_set \<Rightarrow> 'w \<times> win_receiver_set \<Rightarrow> bool" where
  "same_win_set s ws \<longleftrightarrow> snd ws = s"

lemma keeps_same_on_world [io_keeps]: "keeps (same_win_set s) (on_world m)"
  by (auto simp: ensures_def on_world_eq_Some same_win_set_def)

lemma drop_select_same [io_keeps]: "keeps (same_win_set s) (drop_select sys r results p)"
  unfolding drop_select_def by (intro io_keeps)

lemma ensures_run_reader:
  assumes "\<And>e. keeps (reader_keeps None e) m"
  shows "ensures (same_win_set s) (run_reader sys r m) (\<lambda>(x, r'). entry_id r' = entry_id r)"
  unfolding ensures_def
proof (intro allI impI)
  fix ws q ws'
  assume "same_win_set s ws" and run: "run_reader sys r m ws = Some (q, ws')"
  then obtain w where ws: "ws = (w, s)" by (cases ws) (simp add: same_win_set_def)
  obtain q1 w1 r1 where 1: "m (w, r) = Some (q1, (w1, r1))"
    using run by (auto simp: run_reader_def ws bind_eq_Some_conv)
  have e: "entry_id r1 = entry_id r"
    using keepsD [OF assms _ 1, of "entry_id r"] by (simp add: holds_pipe_def)
  show "same_win_set s ws' \<and> (\<forall>x. q = Ok x \<longrightarrow> (case x of (x, r') \<Rightarrow> entry_id r' = entry_id r))"
    using run 1 e by (cases q1)
      (auto simp: run_reader_def ws same_win_set_def io_finally_eq_Some on_world_eq_Some)
qed

definition data_of :: "u64 \<Rightarrow> win_selection \<Rightarrow> bool" where
  "data_of i res \<longleftrightarrow> os_report res = (i, False)"

definition drained :: "u64 \<Rightarrow> win_selection list \<times> message_reader \<Rightarrow> bool" where
  "drained i x \<longleftrightarrow> entry_id (snd x) = Some i \<and> list_all (data_of i) (fst x)"

lemma drain_messages_ensures:
  fixes sys :: "'w win_sys"
  assumes "drained i (results, r)"
  shows "ensures (same_win_set s) (drain_messages sys bc results r) (drained i)"
proof (rule ensuresI_out)
  define P where "P sys bc results r ws out \<longleftrightarrow>
      (drained i (results, r) \<longrightarrow> same_win_set s ws \<longrightarrow>
        same_win_set s (snd out) \<and> (\<forall>x. fst out = Ok x \<longrightarrow> drained i x))"
    for sys :: "'w win_sys" and bc :: oob_bincode and results and r :: message_reader and ws :: "'w \<times> win_receiver_set"
      and out :: "(win_selection list \<times> message_reader, win_error) res \<times> ('w \<times> win_receiver_set)"
  fix ws :: "'w \<times> win_receiver_set" and out
  assume ws: "same_win_set s ws" and run: "drain_messages sys bc results r ws = Some out"
  have "P sys bc results r ws out"
  proof (rule drain_messages.raw_induct [OF _ run, where P = P], goal_cases)
    case (1 loop sys bc results r ws out)
    have loop: "ensures (same_win_set s) (loop sys bc results r) (drained i)" if "drained i (results, r)" for results r
      using 1(1) that by (intro ensuresI_out) (simp add: P_def)
    show ?case
      unfolding P_def
    proof (intro impI, rule ensures_out [OF 1(2)])
      assume r: "drained i (results, r)"
      have step: "ensures (same_win_set s) (io_on_failure (run_reader sys r (get_message sys bc))
         (\<lambda>panicking. on_world (drop_all (drop_win_result sys) panicking results))) (\<lambda>(x, r'). entry_id r' = entry_id r)"
        by (intro ensures_on_failure ensures_run_reader get_message_keeps keeps_same_on_world)
      show "ensures (same_win_set s) (io_bind (io_on_failure (run_reader sys r (get_message sys bc))
         (\<lambda>panicking. on_world (drop_all (drop_win_result sys) panicking results))) (\<lambda>(got, reader').
       case got of
         Inl err \<Rightarrow> io_finally (io_throw err) (drop_select sys reader' results)
       | Inr message \<Rightarrow>
           (case message of
              None \<Rightarrow> io_return (results, reader')
            | Some received \<Rightarrow>
                (case entry_id reader' of
                   None \<Rightarrow> io_finally io_panic (drop_select sys reader' results)
                 | Some i \<Rightarrow>
                     loop sys bc
                       (results @ [DataReceived i (fst received) (fst (snd received)) (snd (snd received))]) reader'))))
        (drained i)"
      proof (rule ensures_bind [OF step], goal_cases)
        case (1 x)
        obtain got r' where x: "x = (got, r')" by force
        then have r': "entry_id r' = Some i" using 1 r by (simp add: drained_def)
        have more: "ensures (same_win_set s) (loop sys bc
            (results @ [DataReceived i (fst received) (fst (snd received)) (snd (snd received))]) r') (drained i)" for received
          using r r' by (intro loop) (simp add: drained_def data_of_def)
        have stop: "ensures (same_win_set s) (io_finally (io_throw err) (drop_select sys r' results)) (drained i)" for err
          by (intro ensures_finally ensures_basic drop_select_same)
        show ?case
        proof (cases got)
          case (Inl err)
          then show ?thesis using stop by (simp add: x)
        next
          case (Inr message)
          show ?thesis
          proof (cases message)
            case None
            then show ?thesis using r r' by (simp add: x Inr ensures_def drained_def)
          next
            case (Some received)
            then show ?thesis using more [of received] r' by (simp add: x Inr)
          qed
        qed
      qed
    qed
  qed
  then show "same_win_set s (snd out) \<and> (\<forall>x. fst out = Ok x \<longrightarrow> drained i x)" using assms ws by (simp add: P_def)
qed

lemma report_closed_ensures:
  assumes "entry_id r = Some i"
  shows "ensures (same_win_set s) (report_closed sys results r) (\<lambda>rs. rs = results @ [ChannelClosed i])"
  using assms unfolding report_closed_def
  by (auto intro!: ensures_finally ensures_basic keeps_same_on_world)

lemma io_on_failure_run_reader:
  assumes "io_on_failure (run_reader sys r m) c ws = Some (q, ws')"
  shows "q = Panic \<or> (\<exists>x. q = Ok x \<and> run_reader sys r m ws = Some (Ok x, ws'))"
proof -
  from assms consider x where "run_reader sys r m ws = Some (Ok x, ws')" "q = Ok x"
    | p w1 where "run_reader sys r m ws = Some (p, w1)" "\<forall>x. p \<noteq> Ok x" "q = Panic \<or> q = p"
    unfolding io_on_failure_eq_Some by (metis (full_types))
  then show ?thesis
  proof cases
    case 2
    then show ?thesis using run_reader_not_Err [of sys r m ws] by (cases p) auto
  qed simp
qed

lemma io_bind_run_reader:
  assumes "io_bind (io_on_failure (run_reader sys r m) c) f (w, s) = Some (q, ws')" and "q \<noteq> Panic"
  obtains x r' w1 where "run_reader sys r m (w, s) = Some (Ok (x, r'), (w1, s))" "f (x, r') (w1, s) = Some (q, ws')"
proof -
  obtain p ws1 where p: "io_on_failure (run_reader sys r m) c (w, s) = Some (p, ws1)"
    and rest: "(case p of Ok x \<Rightarrow> f x ws1 | Err e \<Rightarrow> Some (Err e, ws1) | Panic \<Rightarrow> Some (Panic, ws1)) = Some (q, ws')"
    using assms(1) by (rule io_bind_step)
  from io_on_failure_run_reader [OF p] show thesis
  proof
    assume "p = Panic"
    then show thesis using rest assms(2) by simp
  next
    assume "\<exists>x. p = Ok x \<and> run_reader sys r m (w, s) = Some (Ok x, ws1)"
    then obtain x r' w1 s1 where x: "p = Ok (x, r')" and ws1: "ws1 = (w1, s1)"
      and run: "run_reader sys r m (w, s) = Some (Ok (x, r'), (w1, s1))" by (metis surj_pair)
    then have "s1 = s" by (simp add: run_reader_Ok)
    then show thesis using that [of x r' w1] run rest unfolding x ws1 by simp
  qed
qed

text \<open>The reader comes back, or it is reported closed.\<close>

lemma restart_reader_Ok:
  assumes "restart_reader sys results r (w, s) = Some (Ok rs, (w', s'))" and "entry_id r = Some i"
  shows "rs = results \<and> (\<exists>r'. entry_id r' = Some i \<and> in_flight r' \<noteq> None \<and>
        s' = s\<lparr>set_readers := set_readers s @ [r']\<rparr>) \<or>
      rs = results @ [ChannelClosed i] \<and> s' = s"
proof -
  obtain started r' w1 where run: "run_reader sys r (start_read sys) (w, s) = Some (Ok (started, r'), (w1, s))"
    and rest: "(case started of
         Inr u \<Rightarrow>
           io_bind (on_self (\<lambda>s. ((), s\<lparr>set_readers := set_readers s @ [fst (reader_take r')]\<rparr>))) (\<lambda>_.
           io_finally (io_return results)
             (\<lambda>panicking. on_world (drop_message_reader sys panicking (snd (reader_take r')))))
       | Inl err \<Rightarrow>
           if err = WinChannelClosed then report_closed sys results r'
           else io_finally (io_throw err) (drop_select sys r' results)) (w1, s) = Some (Ok rs, (w', s'))"
    by (rule io_bind_run_reader [OF assms(1) [unfolded restart_reader_def]]) simp_all
  have e: "entry_id r' = Some i" using run_reader_entry [OF run start_read_keeps] assms(2) by simp
  show ?thesis
  proof (cases started)
    case (Inl err)
    then have "report_closed sys results r' (w1, s) = Some (Ok rs, (w', s'))"
      using rest by (auto simp: io_finally_eq_Some split: if_splits)
    then show ?thesis
      using report_closed_ensures [OF e, of s sys results] unfolding ensures_def same_win_set_def by fastforce
  next
    case (Inr u)
    then have "start_read sys (w, r) = Some (Ok (), (w1, r'))" using run by (auto simp: run_reader_Ok)
    from start_read_in_flight [OF this] have "in_flight r' \<noteq> None" .
    moreover have "rs = results" "s' = s\<lparr>set_readers := set_readers s @ [r']\<rparr>"
      using rest unfolding Inr
      by (auto simp: on_self_def io_finally_eq_Some on_world_eq_Some reader_take_def split: if_splits)
    ultimately show ?thesis using e by blast
  qed
qed

lemma restart_reader_Err:
  assumes "restart_reader sys results r (w, s) = Some (Err e, (w', s'))"
  shows "s' = s"
proof -
  obtain started r' w1 where run: "run_reader sys r (start_read sys) (w, s) = Some (Ok (started, r'), (w1, s))"
    and rest: "(case started of
         Inr u \<Rightarrow>
           io_bind (on_self (\<lambda>s. ((), s\<lparr>set_readers := set_readers s @ [fst (reader_take r')]\<rparr>))) (\<lambda>_.
           io_finally (io_return results)
             (\<lambda>panicking. on_world (drop_message_reader sys panicking (snd (reader_take r')))))
       | Inl err \<Rightarrow>
           if err = WinChannelClosed then report_closed sys results r'
           else io_finally (io_throw err) (drop_select sys r' results)) (w1, s) = Some (Err e, (w', s'))"
    by (rule io_bind_run_reader [OF assms [unfolded restart_reader_def]]) simp_all
  then show ?thesis
    by (auto simp: run_reader_Ok on_self_def io_finally_eq_Some on_world_eq_Some drop_select_def report_closed_def
      split: sum.split_asm if_split_asm option.split_asm)
qed

lemma data_of_report: "list_all (data_of i) rs \<Longrightarrow> i \<in> M \<Longrightarrow>
    report_ok M (map os_report rs) \<and> left_after M (map os_report rs) = M"
  by (induction rs) (auto simp: data_of_def)

lemma select_step_Ok:
  assumes "win_set_ok s" and "select_step sys bc (w, s) = Some (Ok rs, (w', s'))"
  shows "win_set_ok s' \<and> win_incrementor s' = win_incrementor s \<and>
    report_ok (win_members s) (map os_report rs) \<and> win_members s' = left_after (win_members s) (map os_report rs)"
proof -
  obtain x r w1 s1 where f: "fetch_iocp_result sys (w, s) = Some (Ok (x, r), (w1, s1))"
    and rest: "(case x of
         Inl err \<Rightarrow>
           if err = WinChannelClosed then report_closed sys [] r
           else io_finally (io_throw err) (drop_select sys r [])
       | Inr u \<Rightarrow>
           io_bind (drain_messages sys bc [] r) (\<lambda>(results, reader'). restart_reader sys results reader'))
       (w1, s1) = Some (Ok rs, (w', s'))"
    using assms(2) by (auto simp: select_step_def io_bind_eq_Some [of "fetch_iocp_result sys"])
  obtain i where i: "entry_id r = Some i" and l: "lent i s s1" using fetch_iocp_result_Ok [OF assms(1) f] by blast
  then have lent: "win_set_ok s1" "win_incrementor s1 = win_incrementor s" "i \<in> win_members s"
      "win_members s1 = win_members s - {i}" by (simp_all add: lent_def)
  show ?thesis
  proof (cases x)
    case (Inl err)
    then have "report_closed sys [] r (w1, s1) = Some (Ok rs, (w', s'))"
      using rest by (auto simp: io_finally_eq_Some split: if_splits)
    then have "rs = [ChannelClosed i]" "s' = s1"
      using report_closed_ensures [OF i, of s1 sys "[]"] unfolding ensures_def same_win_set_def by fastforce+
    then show ?thesis using lent by simp
  next
    case (Inr u)
    obtain results r' w2 s2 where d: "drain_messages sys bc [] r (w1, s1) = Some (Ok (results, r'), (w2, s2))"
      and re: "restart_reader sys results r' (w2, s2) = Some (Ok rs, (w', s'))"
      using rest unfolding Inr by (auto simp: io_bind_eq_Some)
    have "ensures (same_win_set s1) (drain_messages sys bc [] r) (drained i)"
      by (rule drain_messages_ensures) (simp add: drained_def i)
    from ensuresD [OF this _ d] have 2: "s2 = s1" "drained i (results, r')"
      by (simp_all add: same_win_set_def)
    then have i': "entry_id r' = Some i" and data: "list_all (data_of i) results" by (simp_all add: drained_def)
    note rep = data_of_report [OF data lent(3)]
    from restart_reader_Ok [OF re i'] show ?thesis
    proof (elim disjE conjE exE)
      fix r1 assume "rs = results" "entry_id r1 = Some i" "in_flight r1 \<noteq> None"
        "s' = s2\<lparr>set_readers := set_readers s2 @ [r1]\<rparr>"
      then show ?thesis using lent_back [OF l assms(1), of r1] rep lent(2) by (simp add: 2(1))
    next
      assume "rs = results @ [ChannelClosed i]" "s' = s2"
      then show ?thesis using rep lent by (simp add: 2(1))
    qed
  qed
qed

lemma select_step_Err:
  assumes "win_set_ok s" and "select_step sys bc (w, s) = Some (Err e, (w', s'))"
  shows "win_set_ok s' \<and> win_incrementor s' = win_incrementor s \<and> win_members s' \<subseteq> win_members s"
proof -
  from assms(2) [unfolded select_step_def] obtain p ws1 where p: "fetch_iocp_result sys (w, s) = Some (p, ws1)"
    and rest: "(case p of Ok x \<Rightarrow> (\<lambda>(result, reader).
       case result of
         Inl err \<Rightarrow>
           if err = WinChannelClosed then report_closed sys [] reader
           else io_finally (io_throw err) (drop_select sys reader [])
       | Inr u \<Rightarrow>
           io_bind (drain_messages sys bc [] reader) (\<lambda>(results, reader'). restart_reader sys results reader')) x ws1
      | Err e \<Rightarrow> Some (Err e, ws1) | Panic \<Rightarrow> Some (Panic, ws1)) = Some (Err e, (w', s'))"
    by (rule io_bind_step)
  obtain w1 s1 where ws1: "ws1 = (w1, s1)" by force
  show ?thesis
  proof (cases p)
    case (Ok xr)
    obtain x r where xr: "xr = (x, r)" by force
    note f = p [unfolded Ok xr ws1]
    obtain i where i: "entry_id r = Some i" and l: "lent i s s1" using fetch_iocp_result_Ok [OF assms(1) f] by blast
    have "s' = s1"
    proof (cases x)
      case (Inl err)
      have "keeps (same_win_set s1) (report_closed sys [] r)"
        using report_closed_ensures [OF i] by (rule ensures_weaken) simp
      then have k: "keeps (same_win_set s1) (if err = WinChannelClosed then report_closed sys [] r
           else io_finally (io_throw err) (drop_select sys r []))" by (intro io_keeps)
      from keepsD [OF k, of ws1] show ?thesis
        using rest by (simp add: Ok xr Inl ws1 same_win_set_def)
    next
      case (Inr u)
      have run: "io_bind (drain_messages sys bc [] r) (\<lambda>(results, reader'). restart_reader sys results reader') (w1, s1) =
          Some (Err e, (w', s'))" using rest by (simp add: Ok xr Inr ws1)
      have d: "ensures (same_win_set s1) (drain_messages sys bc [] r) (drained i)"
        by (rule drain_messages_ensures) (simp add: drained_def i)
      from run obtain p2 ws2 where p2: "drain_messages sys bc [] r (w1, s1) = Some (p2, ws2)"
        and rest2: "(case p2 of Ok x \<Rightarrow> (\<lambda>(results, reader'). restart_reader sys results reader') x ws2
          | Err e \<Rightarrow> Some (Err e, ws2) | Panic \<Rightarrow> Some (Panic, ws2)) = Some (Err e, (w', s'))"
        by (rule io_bind_step)
      obtain w2 where ws2: "ws2 = (w2, s1)"
        using ensuresD(1) [OF d _ p2] by (cases ws2) (simp add: same_win_set_def)
      show ?thesis
        using rest2 restart_reader_Err by (cases p2) (auto simp: ws2)
    qed
    then show ?thesis using l by (auto simp: lent_def)
  next
    case (Err e1)
    then show ?thesis using fetch_iocp_result_Err [OF p [unfolded ws1 Err]] rest assms(1) by (simp add: ws1)
  qed (use rest in simp)
qed

text \<open>A step without results leaves the members as they are, so the loop can be seen as one step.\<close>

definition selected :: "win_receiver_set \<Rightarrow> (win_selection list, win_error) res \<Rightarrow> win_receiver_set \<Rightarrow> bool" where
  "selected s q s' \<longleftrightarrow>
     (case q of
        Ok rs \<Rightarrow> win_set_ok s' \<and> win_incrementor s' = win_incrementor s \<and>
          report_ok (win_members s) (map os_report rs) \<and> win_members s' = left_after (win_members s) (map os_report rs)
      | Err e \<Rightarrow> win_set_ok s' \<and> win_incrementor s' = win_incrementor s \<and> win_members s' \<subseteq> win_members s
      | Panic \<Rightarrow> True)"

lemma selected_step: "win_set_ok s \<Longrightarrow> select_step sys bc (w, s) = Some (q, (w', s')) \<Longrightarrow> selected s q s'"
  using select_step_Ok [of s sys bc w _ w' s'] select_step_Err [of s sys bc w _ w' s']
  by (cases q) (simp_all add: selected_def)

lemma select_loop_selected:
  fixes sys :: "'w win_sys"
  assumes "win_set_ok s" and "select_loop sys bc (w, s) = Some (q, (w', s'))"
  shows "selected s q s'"
proof -
  define P where "P sys bc ws out \<longleftrightarrow> (win_set_ok (snd ws) \<longrightarrow> selected (snd ws) (fst out) (snd (snd out)))"
    for sys :: "'w win_sys" and bc :: oob_bincode and ws :: "'w \<times> win_receiver_set"
      and out :: "(win_selection list, win_error) res \<times> ('w \<times> win_receiver_set)"
  have "P sys bc (w, s) (q, (w', s'))"
  proof (rule select_loop.raw_induct [OF _ assms(2), where P = P], goal_cases)
    case (1 loop sys bc ws out)
    show ?case
      unfolding P_def
    proof
      assume ok: "win_set_ok (snd ws)"
      obtain w0 s0 where ws: "ws = (w0, s0)" by force
      from 1(2) obtain p ws1 where p: "select_step sys bc ws = Some (p, ws1)"
        and rest: "(case p of Ok x \<Rightarrow> (if x = [] then loop sys bc else io_return x) ws1
          | Err e \<Rightarrow> Some (Err e, ws1) | Panic \<Rightarrow> Some (Panic, ws1)) = Some out"
        by (rule io_bind_step)
      obtain w1 s1 where ws1: "ws1 = (w1, s1)" by force
      have sel: "selected s0 p s1" using selected_step [of s0] ok p by (simp add: ws ws1)
      show "selected (snd ws) (fst out) (snd (snd out))"
      proof (cases "p = Ok []")
        case True
        then have "P sys bc ws1 out" using 1(1) rest by simp
        then show ?thesis
          using sel unfolding P_def ws ws1 True by (auto simp: selected_def split: res.splits)
      next
        case False
        then have "out = (p, ws1)" using rest by (cases p) auto
        then show ?thesis using sel by (simp add: ws ws1)
      qed
    qed
  qed
  then show ?thesis using assms(1) by (simp add: P_def)
qed

lemma win_select_selected:
  assumes "win_set_ok s" and "win_select sys bc (w, s) = Some (q, (w', s'))"
  shows "selected s q s'"
proof (cases "closed_readers s")
  case Nil
  then have eq: "s\<lparr>closed_readers := []\<rparr> = s" by simp
  have "q = Panic \<or> select_loop sys bc (w, s) = Some (q, (w', s'))"
    using assms(2) Nil by (auto simp: eq win_select_def on_self_def split: if_splits)
  then show ?thesis using select_loop_selected [OF assms(1)] by (auto simp: selected_def)
next
  case (Cons c cs)
  then have out: "q = Ok (map ChannelClosed (closed_readers s))" "s' = s\<lparr>closed_readers := []\<rparr>"
    using assms(2) by (auto simp: win_select_def on_self_def split: if_splits)
  have rep: "report_ok (M \<union> set cs) (map os_report (map ChannelClosed cs :: win_selection list)) \<and>
      left_after (M \<union> set cs) (map os_report (map ChannelClosed cs :: win_selection list)) = M"
    if "distinct cs" "M \<inter> set cs = {}" for M :: "u64 set" and cs
    using that
  proof (induction cs)
    case (Cons c cs)
    have "M \<union> set (c # cs) - {c} = M \<union> set cs" using Cons.prems by auto
    then show ?case using Cons by simp
  qed simp
  have "distinct (closed_readers s)" "set (map (the \<circ> entry_id) (set_readers s)) \<inter> set (closed_readers s) = {}"
    using assms(1) by (simp_all add: win_set_ok_def win_ids_def)
  from rep [OF this] show ?thesis
    using assms(1) unfolding out selected_def by (simp add: win_set_ok_def win_ids_def)
qed

lemma win_set_ok_new:
  assumes "win_set_ok s" and "win_incrementor s \<noteq> -1"
  shows "win_set_ok (s\<lparr>win_incrementor := win_incrementor s + 1\<rparr>)"
    and "entry_id r = Some (win_incrementor s) \<Longrightarrow> in_flight r \<noteq> None \<Longrightarrow>
      win_set_ok (s\<lparr>win_incrementor := win_incrementor s + 1, set_readers := set_readers s @ [r]\<rparr>)"
    and "win_set_ok (s\<lparr>win_incrementor := win_incrementor s + 1, closed_readers := closed_readers s @ [win_incrementor s]\<rparr>)"
proof -
  have new: "win_incrementor s \<notin> win_members s" using assms(1) by (auto simp: win_set_ok_def)
  have lt: "i < win_incrementor s + 1" if "i = win_incrementor s \<or> i < win_incrementor s" for i
    using that assms(2) by (auto intro: word_less_inc order_less_imp_le)
  show "win_set_ok (s\<lparr>win_incrementor := win_incrementor s + 1\<rparr>)"
    using assms(1) lt by (auto simp: win_set_ok_def win_ids_def)
  show "win_set_ok (s\<lparr>win_incrementor := win_incrementor s + 1, set_readers := set_readers s @ [r]\<rparr>)"
    if "entry_id r = Some (win_incrementor s)" "in_flight r \<noteq> None"
    using assms(1) lt new that by (auto simp: win_set_ok_def win_ids_def)
  show "win_set_ok (s\<lparr>win_incrementor := win_incrementor s + 1, closed_readers := closed_readers s @ [win_incrementor s]\<rparr>)"
    using assms(1) lt new by (auto simp: win_set_ok_def win_ids_def)
qed

lemma add_to_iocp_Ok:
  assumes "add_to_iocp sys port i (w, r) = Some (Ok (), (w', r'))"
  shows "entry_id r' = Some i \<and> in_flight r' \<noteq> None"
proof -
  obtain w1 where run: "start_read sys (w1, r\<lparr>entry_id := Some i\<rparr>) = Some (Ok (), (w', r'))"
    using assms by (auto simp: add_to_iocp_def Let_def io_bind_eq_Some on_world_eq_Some on_self_eq_Some split: if_splits)
  have "entry_id r' = Some i"
    using keepsD [OF start_read_keeps [of None] _ run, of "Some i"] by (simp add: holds_pipe_def)
  with start_read_in_flight [OF run] show ?thesis by simp
qed

lemma win_set_add_out:
  assumes "win_set_ok s" and "win_set_add sys r (w, s) = Some (q, (w', s'))" and "q \<noteq> Panic"
  shows "win_set_ok s' \<and> win_incrementor s' = win_incrementor s + 1 \<and> win_incrementor s \<noteq> -1 \<and>
    (case q of Ok i \<Rightarrow> i = win_incrementor s \<and> win_members s' = insert i (win_members s)
      | _ \<Rightarrow> win_members s' = win_members s)"
proof -
  let ?i = "win_incrementor s" and ?s = "s\<lparr>win_incrementor := win_incrementor s + 1\<rparr>"
  from assms(2) [unfolded win_set_add_def] obtain p ws1 where
    p: "io_on_failure win_next_index (\<lambda>panicking. on_world (drop_message_reader sys panicking r)) (w, s) = Some (p, ws1)"
    and rest: "(case p of Ok i \<Rightarrow> with_self (\<lambda>s.
         io_bind (run_reader sys r (add_to_iocp sys (iocp s) i)) (\<lambda>(result, reader).
         case result of
           Inr u \<Rightarrow> on_self (\<lambda>s. (i, s\<lparr>set_readers := set_readers s @ [reader]\<rparr>))
         | Inl err \<Rightarrow>
             if err = WinChannelClosed then
               io_bind (on_self (\<lambda>s. ((), s\<lparr>closed_readers := closed_readers s @ [i]\<rparr>))) (\<lambda>_.
               io_finally (io_return i) (\<lambda>panicking. on_world (drop_message_reader sys panicking reader)))
             else io_finally (io_throw err) (\<lambda>panicking. on_world (drop_message_reader sys panicking reader)))) ws1
       | Err e \<Rightarrow> Some (Err e, ws1) | Panic \<Rightarrow> Some (Panic, ws1)) = Some (q, (w', s'))"
    by (rule io_bind_step)
  have inc: "?i \<noteq> -1"
    using p rest assms(3) by (auto simp: io_on_failure_eq_Some win_next_index_def split: if_splits)
  then have "win_next_index (w, s) = Some (Ok ?i, (w, ?s))" by (simp add: win_next_index_def on_self_def)
  then have p1: "p = Ok ?i" "ws1 = (w, ?s)" using p by simp_all
  note new = win_set_ok_new [OF assms(1) inc]
  from rest obtain p2 ws2 where p2: "run_reader sys r (add_to_iocp sys (iocp ?s) ?i) (w, ?s) = Some (p2, ws2)"
    and rest2: "(case p2 of Ok x \<Rightarrow> (\<lambda>(result, reader).
         case result of
           Inr u \<Rightarrow> on_self (\<lambda>s. (?i, s\<lparr>set_readers := set_readers s @ [reader]\<rparr>))
         | Inl err \<Rightarrow>
             if err = WinChannelClosed then
               io_bind (on_self (\<lambda>s. ((), s\<lparr>closed_readers := closed_readers s @ [?i]\<rparr>))) (\<lambda>_.
               io_finally (io_return ?i) (\<lambda>panicking. on_world (drop_message_reader sys panicking reader)))
             else io_finally (io_throw err) (\<lambda>panicking. on_world (drop_message_reader sys panicking reader))) x ws2
       | Err e \<Rightarrow> Some (Err e, ws2) | Panic \<Rightarrow> Some (Panic, ws2)) = Some (q, (w', s'))"
    unfolding p1 by (simp only: res.case with_self_run) (rule io_bind_step)
  obtain x r2 where x: "p2 = Ok (x, r2)"
    using p2 rest2 assms(3) by (cases p2) (auto simp: run_reader_not_Err)
  obtain w2 where ws2: "ws2 = (w2, ?s)" using p2 unfolding x by (cases ws2) (simp add: run_reader_Ok)
  show ?thesis
  proof (cases x)
    case (Inr u)
    then have "add_to_iocp sys (iocp ?s) ?i (w, r) = Some (Ok (), (w2, r2))"
      using p2 by (simp add: x ws2 run_reader_Ok)
    note r2 = add_to_iocp_Ok [OF this]
    have "q = Ok ?i" "s' = ?s\<lparr>set_readers := set_readers s @ [r2]\<rparr>"
      using rest2 by (auto simp: x ws2 Inr on_self_def)
    then show ?thesis using new(2) [of r2] r2 inc by (auto simp: win_ids_def)
  next
    case (Inl err)
    show ?thesis
    proof (cases "err = WinChannelClosed")
      case True
      then have "q = Ok ?i" "s' = ?s\<lparr>closed_readers := closed_readers s @ [?i]\<rparr>"
        using rest2 assms(3) by (auto simp: x ws2 Inl on_self_def io_finally_eq_Some on_world_eq_Some split: if_splits)
      then show ?thesis using new(3) inc by (auto simp: win_ids_def)
    next
      case False
      then have "q = Err err" "s' = ?s"
        using rest2 assms(3) by (auto simp: x ws2 Inl io_finally_eq_Some on_world_eq_Some split: if_splits)
      then show ?thesis using new(1) inc by (simp add: win_ids_def)
    qed
  qed
qed

interpretation wis: numbered_receiver_set "\<lambda>ws. win_set_ok (snd ws)" "\<lambda>ws. win_members (snd ws)"
  "win_set_add sys" "win_select sys bc" os_report "\<lambda>ws. win_incrementor (snd ws)"
proof (unfold_locales, goal_cases)
  case (1 s r i s')
  then show ?case
    using win_set_add_out [of "snd s" sys r "fst s" "Ok i" "fst s'" "snd s'"] by (auto simp: win_set_ok_def)
next
  case (2 s r e s')
  then show ?case
    using win_set_add_out [of "snd s" sys r "fst s" "Err e" "fst s'" "snd s'"] by simp
next
  case (3 s rs s')
  then show ?case
    using win_select_selected [of "snd s" sys bc "fst s" "Ok rs" "fst s'" "snd s'"] by (simp add: selected_def)
next
  case (4 s e s')
  then show ?case
    using win_select_selected [of "snd s" sys bc "fst s" "Err e" "fst s'" "snd s'"] by (simp add: selected_def)
next
  case (5 s i)
  then show ?case by (simp add: win_set_ok_def)
next
  case (6 s r i s')
  then show ?case
    using win_set_add_out [of "snd s" sys r "fst s" "Ok i" "fst s'" "snd s'"] by (simp add: word_less_inc)
next
  case (7 s rs s')
  then show ?case
    using win_select_selected [of "snd s" sys bc "fst s" "Ok rs" "fst s'" "snd s'"] by (simp add: selected_def)
qed

section \<open>Properties\<close>

text \<open>C11: a receiver that is added to a set of the Windows back end gets an identifier that no member has; from then on
  the calls of \<open>select\<close> report messages of members and, for a member that is closed, that it is closed, once and as the
  last thing about it; the members afterwards are those that were not reported closed.
\<close>

theorem win_set_contract:
  assumes "win_set_ok s" and "win_set_add sys r (w, s) = Some (Ok i, (w1, s1))"
    and "repeated n (win_select sys bc) (w1, s1) = Some (Ok rss, (w2, s2))"
  shows "i \<notin> win_members s \<and> win_set_ok s2 \<and>
    report_ok (insert i (win_members s)) (map os_report (concat rss)) \<and>
    win_members s2 = left_after (insert i (win_members s)) (map os_report (concat rss))"
proof -
  have "win_set_ok s1 \<and> i \<notin> win_members s \<and> win_members s1 = insert i (win_members s)"
    using wis.add_Ok [OF _ assms(2)] assms(1) by simp
  then show ?thesis using wis.repeated_select_Ok [OF _ assms(3)] by simp
qed

text \<open>An example: reads are always pending, and the world is the completions that are to come.\<close>

definition example_port :: "completion list win_sys" where
  "example_port = refusing\<lparr>
     w_add_to_port := (\<lambda>_ _ _. Pair (Inr ())), w_read_file := (\<lambda>_ _ _. Pair (Inl ERROR_IO_PENDING)),
     w_next_completion := (\<lambda>_ w. case w of [] \<Rightarrow> None | c # cs \<Rightarrow> Some (c, cs))\<rparr>"

definition example_packets :: "completion list" where
  "example_packets =
     [\<lparr>pkt_status = Inr (), pkt_key = 5, pkt_read = Some \<lparr>done_bytes = [1, 0, 0], done_offset = 0\<rparr>\<rparr>,
      \<lparr>pkt_status = Inr (), pkt_key = 5, pkt_read = Some \<lparr>done_bytes = [0, 0, 0, 0, 0, 42, 0, 0], done_offset = 0\<rparr>\<rparr>,
      \<lparr>pkt_status = Inl ERROR_BROKEN_PIPE, pkt_key = 5, pkt_read = Some \<lparr>done_bytes = [], done_offset = 0\<rparr>\<rparr>]"

definition example_reader :: "u8 list \<Rightarrow> message_reader" where
  "example_reader bs = \<lparr>reader_handle = win_handle_new 5, read_buf = \<lparr>vec_data = bs, vec_capacity = unat PIPE_BUFFER_SIZE\<rparr>,
     in_flight = None, entry_id = Some 3\<rparr>"

definition example_set :: "u64 \<Rightarrow> message_reader list \<Rightarrow> u64 list \<Rightarrow> win_receiver_set" where
  "example_set n rs cl = \<lparr>win_incrementor = n, iocp = win_handle_new 4, set_readers = rs, closed_readers = cl\<rparr>"

lemma example_port_simps [simp]:
  "w_add_to_port example_port h p k w = (Inr (), w)" "w_read_file example_port h ev n w = (Inl ERROR_IO_PENDING, w)"
  "w_next_completion example_port h w = (case w of [] \<Rightarrow> None | c # cs \<Rightarrow> Some (c, cs))"
  "w_create_event example_port w = (7, w)" "w_close_handle example_port h w = (True, w)" "w_pid example_port = 1"
  by (simp_all add: example_port_def refusing_def)

lemma example_start [simp]:
  "in_flight r = None \<Longrightarrow> start_read example_port (w, r) = Some (Ok (), (w, reading 7 r))"
  using start_read_run [of r example_port w 7 w "Inl ERROR_IO_PENDING" w] by simp

lemma example_add:
  "win_set_add example_port (reader_new (win_handle_new 5)) (example_packets, example_set 3 [] [2]) =
     Some (Ok 3, (example_packets, example_set 4 [reading 7 (example_reader [])] [2]))"
  by (simp add: win_set_add_def win_next_index_def on_self_def on_world_def run_reader_def add_to_iocp_def or_last_run
      io_on_failure_def example_set_def reader_new_def example_reader_def reading_def read_space_def vec_new_def vec_reserve_def)

lemma example_fetch:
  assumes "length bs + length new \<le> 100" "pkt_key c = 5" "pkt_read c = Some \<lparr>done_bytes = new, done_offset = 0\<rparr>"
  shows "fetch_iocp_result example_port (c # cs, example_set 4 [reading 7 (example_reader bs)] []) =
    Some (Ok (case pkt_status c of Inr u \<Rightarrow> (Inr (), example_reader (bs @ new))
        | Inl err \<Rightarrow> (Inl (if err = ERROR_BROKEN_PIPE then WinChannelClosed else WindowsResult err), example_reader bs)),
      (cs, example_set 4 [] []))"
proof -
  have "read_space (example_reader bs) = read_buf (example_reader bs)"
    using assms(1) by (simp add: read_space_def example_reader_def)
  moreover have "unat (ucast (len_of new) :: u32) = length new"
    using assms(1) by (intro unat_len32) simp
  moreover have "completed_reader 5 (cs, example_set 4 [reading 7 (example_reader bs)] []) =
      Some (Ok (reading 7 (example_reader bs)), (cs, example_set 4 [] []))"
    by (simp add: completed_reader_def swap_remove_def on_self_def example_set_def) (simp add: example_reader_def)
  ultimately show ?thesis
    using assms
    by (cases "pkt_status c") (simp_all add: fetch_iocp_result_def on_world_def call_blocking_def run_reader_def INVALID_HANDLE_VALUE_def
      notify_completion_def taking_async_def Let_def io_finally_def restored_def on_self_def drop_overlapped_def call_def
      example_reader_def reading_def win_from_system_def)
qed

lemma example_drain:
  assumes "length bs < 8"
  shows "drain_messages example_port bc results (example_reader bs) ws = Some (Ok (results, example_reader bs), ws)"
proof -
  have "get_message example_port bc (fst ws, example_reader bs) = Some (Ok None, (fst ws, example_reader bs))"
    using assms by (simp add: get_message_def message_from_bytes_def example_reader_def)
  then have "run_reader example_port (example_reader bs) (get_message example_port bc) ws =
      Some (Ok (Inr None, example_reader bs), ws)"
    by (cases ws) (simp add: run_reader_Ok)
  then show ?thesis by (subst drain_messages.simps) (simp add: io_on_failure_def)
qed

lemma example_drain_message:
  "drain_messages example_port bc [] (example_reader (plain [42] @ [0, 0])) ws =
     Some (Ok ([DataReceived 3 [42] [] []], example_reader [0, 0]), ws)"
proof -
  have f: "fits [42]" by (simp add: fits_def)
  have "message_parts example_port bc (framed [42] []) (fst ws) = Some (Ok ([42], [], []), fst ws)"
    by (simp add: message_parts_def message_oob_data_def message_from_plain [OF f])
  then have "get_message example_port bc (fst ws, example_reader (plain [42] @ [0, 0])) =
      Some (Ok (Some ([42], [], [])), (fst ws, example_reader [0, 0]))"
    using message_from_plain(1) [OF f, of "[0, 0]"] message_from_plain(3) [OF f]
    by (simp add: get_message_def example_reader_def on_world_def on_self_def drain_buf_def)
  then have "run_reader example_port (example_reader (plain [42] @ [0, 0])) (get_message example_port bc) ws =
      Some (Ok (Inr (Some ([42], [], [])), example_reader [0, 0]), ws)"
    by (cases ws) (simp add: run_reader_Ok)
  moreover have "entry_id (example_reader bs) = Some 3" for bs by (simp add: example_reader_def)
  ultimately show ?thesis
    using example_drain [of "[0, 0]" bc "[DataReceived 3 [42] [] []]" ws]
    by (subst drain_messages.simps) (simp add: io_on_failure_def)
qed

lemma example_restart:
  "restart_reader example_port results (example_reader bs) (w, example_set 4 [] []) =
     Some (Ok results, (w, example_set 4 [reading 7 (example_reader bs)] []))"
proof -
  have "run_reader example_port (example_reader bs) (start_read example_port) (w, example_set 4 [] []) =
      Some (Ok (Inr (), reading 7 (example_reader bs)), (w, example_set 4 [] []))"
    by (simp add: run_reader_Ok example_reader_def)
  then show ?thesis
    by (simp add: restart_reader_def io_on_failure_def on_self_def on_world_def example_set_def reader_take_def
      drop_message_reader_def owning_def cancel_io_def begin_cancel_def drop_reader_fields_def reader_new_def io_finally_def)
qed

lemma example_closed:
  "report_closed example_port [] (example_reader bs) (w, s) = Some (Ok [ChannelClosed 3], (w, s))"
  by (simp add: report_closed_def example_reader_def io_finally_def on_world_def drop_message_reader_def owning_def
    cancel_io_def begin_cancel_def drop_reader_fields_def drop_win_handle_def call_def)

lemma example_steps:
  "select_step example_port bc (example_packets, example_set 4 [reading 7 (example_reader [])] []) =
     Some (Ok [], (tl example_packets, example_set 4 [reading 7 (example_reader [1, 0, 0])] []))"
  "select_step example_port bc (tl example_packets, example_set 4 [reading 7 (example_reader [1, 0, 0])] []) =
     Some (Ok [DataReceived 3 [42] [] []], (tl (tl example_packets), example_set 4 [reading 7 (example_reader [0, 0])] []))"
  "select_step example_port bc (tl (tl example_packets), example_set 4 [reading 7 (example_reader [0, 0])] []) =
     Some (Ok [ChannelClosed 3], ([], example_set 4 [] []))"
proof -
  have p: "[1, 0, 0, 0, 0, 0, 0, 0, 42, 0, 0] = plain [42] @ [0, 0]"
    by (simp add: frame_def header_bytes_def le_bytes_numeral)
  show "select_step example_port bc (example_packets, example_set 4 [reading 7 (example_reader [])] []) =
     Some (Ok [], (tl example_packets, example_set 4 [reading 7 (example_reader [1, 0, 0])] []))"
    by (simp add: select_step_def example_packets_def example_fetch [of "[]" "[1, 0, 0]"] example_drain example_restart)
  show "select_step example_port bc (tl example_packets, example_set 4 [reading 7 (example_reader [1, 0, 0])] []) =
     Some (Ok [DataReceived 3 [42] [] []], (tl (tl example_packets), example_set 4 [reading 7 (example_reader [0, 0])] []))"
    by (simp add: select_step_def example_packets_def example_fetch [of "[1, 0, 0]" "[0, 0, 0, 0, 0, 42, 0, 0]"] p example_drain_message example_restart)
  show "select_step example_port bc (tl (tl example_packets), example_set 4 [reading 7 (example_reader [0, 0])] []) =
     Some (Ok [ChannelClosed 3], ([], example_set 4 [] []))"
    by (simp add: select_step_def example_packets_def example_fetch [of "[0, 0]" "[]"] example_closed)
qed

lemma example_select:
  "repeated 3 (win_select example_port bc) (example_packets, example_set 4 [reading 7 (example_reader [])] [2]) =
     Some (Ok [[ChannelClosed 2], [DataReceived 3 [42] [] []], [ChannelClosed 3]], ([], example_set 4 [] []))"
proof -
  let ?s = "\<lambda>bs. example_set 4 [reading 7 (example_reader bs)] []"
  have "win_select example_port bc (example_packets, example_set 4 [reading 7 (example_reader [])] [2]) =
      Some (Ok [ChannelClosed 2], (example_packets, ?s []))"
    by (simp add: win_select_def on_self_def example_set_def)
  moreover have sel: "win_select example_port bc (w, ?s bs) = select_loop example_port bc (w, ?s bs)" for w bs
    by (simp add: win_select_def on_self_def example_set_def)
  moreover have "select_loop example_port bc (example_packets, ?s []) =
      Some (Ok [DataReceived 3 [42] [] []], (tl (tl example_packets), ?s [0, 0]))"
    using example_steps(1,2) [of bc] by (subst select_loop.simps) (simp, subst select_loop.simps, simp)
  moreover have "select_loop example_port bc (tl (tl example_packets), ?s [0, 0]) = Some (Ok [ChannelClosed 3], ([], example_set 4 [] []))"
    using example_steps(3) [of bc] by (subst select_loop.simps) simp
  ultimately show ?thesis by (simp add: numeral_3_eq_3)
qed

theorem win_set_contract_witness:
  "win_members (example_set 3 [] [2]) = {2} \<and>
    win_set_add example_port (reader_new (win_handle_new 5)) (example_packets, example_set 3 [] [2]) =
      Some (Ok 3, (example_packets, example_set 4 [reading 7 (example_reader [])] [2])) \<and>
    repeated 3 (win_select example_port bincode_oob) (example_packets, example_set 4 [reading 7 (example_reader [])] [2]) =
      Some (Ok [[ChannelClosed 2], [DataReceived 3 [42] [] []], [ChannelClosed 3]], ([], example_set 4 [] [])) \<and>
    report_ok {3, 2} [(2, True), (3, False), (3, True)] \<and> win_members (example_set 4 [] []) = {}"
proof -
  have s: "win_set_ok (example_set 3 [] [2])" "win_members (example_set 3 [] [2]) = {2}"
    by (simp_all add: win_set_ok_def win_ids_def example_set_def)
  show ?thesis
    using win_set_contract [OF s(1) example_add example_select [of bincode_oob]] s(2) example_add example_select [of bincode_oob]
    by auto
qed

text \<open>C36: a receiver on which a call that does not block has left a read in flight cannot be added to a set: \<open>add\<close> registers
  the handle that the reader has at hand, which is the invalid one while a read is in flight. It never succeeds, the set's
  readers stay the ones they were, and the receiver is lost.
\<close>

theorem win_add_in_flight_fails:
  assumes "reader_ok r" and "in_flight r \<noteq> None" and "entry_id r = None" and "win_incrementor s \<noteq> -1"
    and "w_add_to_port sys INVALID_HANDLE_VALUE (as_raw (iocp s)) INVALID_HANDLE_VALUE w = (Inl e, w1)"
  shows "win_set_add sys r (w, s) =
    io_finally (io_throw (WindowsResult e)) (\<lambda>panicking. on_world (drop_message_reader sys panicking r))
      (w1, s\<lparr>win_incrementor := win_incrementor s + 1\<rparr>)"
proof -
  have h: "as_raw (reader_handle r) = INVALID_HANDLE_VALUE"
    using assms(1,2) by (auto simp: reader_ok_def win_handle_invalid_def)
  have "add_to_iocp sys (iocp s) i (w, r) = Some (Err (WindowsResult e), (w1, r))" for i
    using assms(3,5) by (simp add: add_to_iocp_def h Let_def on_world_def or_last_def call_def win_from_system_def)
  then show ?thesis
    using assms(4)
    by (simp add: win_set_add_def win_next_index_def on_self_def run_reader_def io_on_failure_def)
qed

lemma refusing_simps:
  "w_add_to_port refusing h p k w = (Inl ACCESS_DENIED, w)" "w_cancel_io refusing h ev w = (Inl ERROR_NOT_FOUND, w)"
  "w_close_handle refusing h w = (True, w)"
  by (simp_all add: refusing_def)

theorem win_add_in_flight_fails_witness:
  "win_set_add (refusing :: unit win_sys) (reading 7 (reader_new (win_handle_new 5))) ((), example_set 0 [] []) =
    Some (Err (WindowsResult ACCESS_DENIED), ((), example_set 1 [] []))"
proof -
  let ?r = "reading 7 (reader_new (win_handle_new 5))" and ?s = "example_set 0 [] []" and ?sys = "refusing :: unit win_sys"
  have r: "reader_ok ?r" "in_flight ?r \<noteq> None" "entry_id ?r = None"
    by (simp_all add: reader_ok_def reading_def reader_new_def read_space_def)
  obtain r' where r': "restored (cell_alias (the (in_flight ?r))) ?r = r'" "reader_handle r' = win_handle_new 5" "in_flight r' = None"
    by (simp add: restored_def reader_new_def)
  then have "release_async ?sys ((), ?r) = Some (Ok (), ((), r'))"
    by (simp add: release_async_def taking_async_def on_world_def on_self_def drop_overlapped_def call_def refusing_simps)
  then have "issue_async_cancel ?sys ((), ?r) = Some (Ok (), ((), r'))"
    by (simp add: issue_async_cancel_def on_world_def call_def refusing_simps)
  then have "begin_cancel ?sys ((), ?r) = Some (Ok False, ((), r'))"
    using r r' by (simp add: begin_cancel_def on_self_def)
  then have "cancel_io ?sys ((), ?r) = Some (Ok (), ((), r'))" by (simp add: cancel_io_def)
  then have "drop_message_reader ?sys False ?r () = Some (Ok (), ())"
    using r' by (simp add: drop_message_reader_def owning_def drop_reader_fields_def drop_win_handle_def call_def
      io_finally_def refusing_simps)
  then show ?thesis
    using win_add_in_flight_fails [OF r, of ?s ?sys "()" ACCESS_DENIED "()"]
    by (simp add: refusing_simps io_finally_def on_world_def example_set_def)
qed

end
