(* ===== verification/Mac_Error.thy ===== *)
theory Mac_Error
  imports Ipc_Errors
begin

text \<open>
  Errors of the macOS back end (\<open>src/src/platform/macos/mod.rs\<close>): the return codes of the Mach kernel as
  \<open>KernelError\<close> and \<open>MachError\<close>, their texts, and the conversions into the errors of the public interface.
\<close>

section \<open>Return codes\<close>

text \<open>\<open>kern_return_t\<close> and \<open>mach_msg_return_t\<close> are 32-bit signed numbers, kept here by their bits.\<close>

type_synonym kern_return = "32 word"

definition BOOTSTRAP_NAME_IN_USE :: kern_return where "BOOTSTRAP_NAME_IN_USE = 1101"
definition BOOTSTRAP_SUCCESS :: kern_return where "BOOTSTRAP_SUCCESS = 0"
definition KERN_SUCCESS :: kern_return where "KERN_SUCCESS = 0"
definition MACH_MSG_SUCCESS :: kern_return where "MACH_MSG_SUCCESS = 0"
definition MACH_RCV_TIMED_OUT :: kern_return where "MACH_RCV_TIMED_OUT = 0x10004003"
definition MACH_RCV_TOO_LARGE :: kern_return where "MACH_RCV_TOO_LARGE = 0x10004004"
definition MACH_SEND_TOO_LARGE :: kern_return where "MACH_SEND_TOO_LARGE = 0x1000000e"
definition MACH_NOTIFY_FIRST :: kern_return where "MACH_NOTIFY_FIRST = 64"
definition MACH_NOTIFY_NO_SENDERS :: kern_return where "MACH_NOTIFY_NO_SENDERS = MACH_NOTIFY_FIRST + 6"

text \<open>Codes that only the tables below know.\<close>

abbreviation (input) KERN_NOT_IN_SET :: kern_return where "KERN_NOT_IN_SET \<equiv> 12"
abbreviation (input) KERN_INVALID_NAME :: kern_return where "KERN_INVALID_NAME \<equiv> 15"
abbreviation (input) KERN_INVALID_RIGHT :: kern_return where "KERN_INVALID_RIGHT \<equiv> 17"
abbreviation (input) KERN_INVALID_VALUE :: kern_return where "KERN_INVALID_VALUE \<equiv> 18"
abbreviation (input) KERN_UREFS_OVERFLOW :: kern_return where "KERN_UREFS_OVERFLOW \<equiv> 19"
abbreviation (input) KERN_INVALID_CAPABILITY :: kern_return where "KERN_INVALID_CAPABILITY \<equiv> 20"
abbreviation (input) KERN_NO_SPACE :: kern_return where "KERN_NO_SPACE \<equiv> 3"
abbreviation (input) MACH_MSG_IPC_KERNEL :: kern_return where "MACH_MSG_IPC_KERNEL \<equiv> 0x00000800"
abbreviation (input) MACH_MSG_IPC_SPACE :: kern_return where "MACH_MSG_IPC_SPACE \<equiv> 0x00002000"
abbreviation (input) MACH_MSG_VM_KERNEL :: kern_return where "MACH_MSG_VM_KERNEL \<equiv> 0x00000400"
abbreviation (input) MACH_MSG_VM_SPACE :: kern_return where "MACH_MSG_VM_SPACE \<equiv> 0x00001000"
abbreviation (input) MACH_RCV_BODY_ERROR :: kern_return where "MACH_RCV_BODY_ERROR \<equiv> 0x1000400c"
abbreviation (input) MACH_RCV_HEADER_ERROR :: kern_return where "MACH_RCV_HEADER_ERROR \<equiv> 0x1000400b"
abbreviation (input) MACH_RCV_INTERRUPTED :: kern_return where "MACH_RCV_INTERRUPTED \<equiv> 0x10004005"
abbreviation (input) MACH_RCV_INVALID_DATA :: kern_return where "MACH_RCV_INVALID_DATA \<equiv> 0x10004008"
abbreviation (input) MACH_RCV_INVALID_NAME :: kern_return where "MACH_RCV_INVALID_NAME \<equiv> 0x10004002"
abbreviation (input) MACH_RCV_INVALID_NOTIFY :: kern_return where "MACH_RCV_INVALID_NOTIFY \<equiv> 0x10004007"
abbreviation (input) MACH_RCV_INVALID_TRAILER :: kern_return where "MACH_RCV_INVALID_TRAILER \<equiv> 0x1000400f"
abbreviation (input) MACH_RCV_INVALID_TYPE :: kern_return where "MACH_RCV_INVALID_TYPE \<equiv> 0x1000400d"
abbreviation (input) MACH_RCV_IN_PROGRESS :: kern_return where "MACH_RCV_IN_PROGRESS \<equiv> 0x10004001"
abbreviation (input) MACH_RCV_IN_PROGRESS_TIMED :: kern_return where "MACH_RCV_IN_PROGRESS_TIMED \<equiv> 0x10004011"
abbreviation (input) MACH_RCV_IN_SET :: kern_return where "MACH_RCV_IN_SET \<equiv> 0x1000400a"
abbreviation (input) MACH_RCV_PORT_CHANGED :: kern_return where "MACH_RCV_PORT_CHANGED \<equiv> 0x10004006"
abbreviation (input) MACH_RCV_PORT_DIED :: kern_return where "MACH_RCV_PORT_DIED \<equiv> 0x10004009"
abbreviation (input) MACH_RCV_SCATTER_SMALL :: kern_return where "MACH_RCV_SCATTER_SMALL \<equiv> 0x1000400e"
abbreviation (input) MACH_SEND_INTERRUPTED :: kern_return where "MACH_SEND_INTERRUPTED \<equiv> 0x10000007"
abbreviation (input) MACH_SEND_INVALID_DATA :: kern_return where "MACH_SEND_INVALID_DATA \<equiv> 0x10000002"
abbreviation (input) MACH_SEND_INVALID_DEST :: kern_return where "MACH_SEND_INVALID_DEST \<equiv> 0x10000003"
abbreviation (input) MACH_SEND_INVALID_HEADER :: kern_return where "MACH_SEND_INVALID_HEADER \<equiv> 0x10000010"
abbreviation (input) MACH_SEND_INVALID_MEMORY :: kern_return where "MACH_SEND_INVALID_MEMORY \<equiv> 0x1000000c"
abbreviation (input) MACH_SEND_INVALID_NOTIFY :: kern_return where "MACH_SEND_INVALID_NOTIFY \<equiv> 0x1000000b"
abbreviation (input) MACH_SEND_INVALID_REPLY :: kern_return where "MACH_SEND_INVALID_REPLY \<equiv> 0x10000009"
abbreviation (input) MACH_SEND_INVALID_RIGHT :: kern_return where "MACH_SEND_INVALID_RIGHT \<equiv> 0x1000000a"
abbreviation (input) MACH_SEND_INVALID_RT_OOL_SIZE :: kern_return where "MACH_SEND_INVALID_RT_OOL_SIZE \<equiv> 0x10000015"
abbreviation (input) MACH_SEND_INVALID_TRAILER :: kern_return where "MACH_SEND_INVALID_TRAILER \<equiv> 0x10000011"
abbreviation (input) MACH_SEND_INVALID_TYPE :: kern_return where "MACH_SEND_INVALID_TYPE \<equiv> 0x1000000f"
abbreviation (input) MACH_SEND_INVALID_VOUCHER :: kern_return where "MACH_SEND_INVALID_VOUCHER \<equiv> 0x10000005"
abbreviation (input) MACH_SEND_IN_PROGRESS :: kern_return where "MACH_SEND_IN_PROGRESS \<equiv> 0x10000001"
abbreviation (input) MACH_SEND_MSG_TOO_SMALL :: kern_return where "MACH_SEND_MSG_TOO_SMALL \<equiv> 0x10000008"
abbreviation (input) MACH_SEND_NO_BUFFER :: kern_return where "MACH_SEND_NO_BUFFER \<equiv> 0x1000000d"
abbreviation (input) MACH_SEND_TIMED_OUT :: kern_return where "MACH_SEND_TIMED_OUT \<equiv> 0x10000004"

lemmas mach_codes =
  BOOTSTRAP_NAME_IN_USE_def BOOTSTRAP_SUCCESS_def KERN_SUCCESS_def MACH_MSG_SUCCESS_def MACH_RCV_TOO_LARGE_def
  MACH_SEND_TOO_LARGE_def MACH_RCV_TIMED_OUT_def MACH_NOTIFY_FIRST_def MACH_NOTIFY_NO_SENDERS_def

section \<open>Kernel errors\<close>

datatype kernel_error =
    KernelSuccess | NoSpace | InvalidName | InvalidRight | InvalidValue | InvalidCapability | UrefsOverflow | NotInSet | UnknownKernel kern_return

definition kernel_from_code :: "kern_return \<Rightarrow> kernel_error" where
  "kernel_from_code code =
     (if code = KERN_SUCCESS then KernelSuccess
      else if code = KERN_NO_SPACE then NoSpace
      else if code = KERN_INVALID_NAME then InvalidName
      else if code = KERN_INVALID_RIGHT then InvalidRight
      else if code = KERN_INVALID_VALUE then InvalidValue
      else if code = KERN_INVALID_CAPABILITY then InvalidCapability
      else if code = KERN_UREFS_OVERFLOW then UrefsOverflow
      else if code = KERN_NOT_IN_SET then NotInSet
      else UnknownKernel code)"

text \<open>\<open>{:x}\<close>: the bits as a hexadecimal number.\<close>

function hex_digits :: "nat \<Rightarrow> string" where
  "hex_digits n = (if n < 16 then [] else hex_digits (n div 16)) @ [''0123456789abcdef'' ! (n mod 16)]"
  by pat_completeness auto

termination
  by (relation "measure id") auto

declare hex_digits.simps [simp del]

fun display_kernel_error :: "kernel_error \<Rightarrow> string" where
  "display_kernel_error KernelSuccess = ''Success.''"
| "display_kernel_error NoSpace = ''No room in IPC name space for another right.''"
| "display_kernel_error InvalidName = ''Name doesn't denote a right in the task.''"
| "display_kernel_error InvalidRight = ''Name denotes a right, but not an appropriate right.''"
| "display_kernel_error InvalidValue = ''Blatant range error.''"
| "display_kernel_error InvalidCapability = ''The supplied (port) capability is improper.''"
| "display_kernel_error UrefsOverflow = ''Operation would overflow limit on user-references.''"
| "display_kernel_error NotInSet = ''Receive right is not a member of a port set.''"
| "display_kernel_error (UnknownKernel code) = ''Unknown kernel error: '' @ hex_digits (unat code)"

section \<open>Mach errors\<close>

datatype mach_error =
    MachSuccess | Kernel kernel_error | IpcSpace | VmSpace | IpcKernel | VmKernel | RcvInProgress
    | RcvInvalidName | RcvTimedOut | RcvTooLarge | RcvInterrupted | RcvPortChanged | RcvInvalidNotify
    | RcvInvalidData | RcvPortDied | RcvInSet | RcvHeaderError | RcvBodyError | RcvInvalidType
    | RcvScatterSmall | RcvInvalidTrailer | RcvInProgressTimed | NotifyNoSenders | SendInterrupted
    | SendInvalidData | SendInvalidDest | SendInvalidHeader | SendInvalidMemory | SendInvalidNotify
    | SendInvalidReply | SendInvalidRight | SendInvalidRtOolSize | SendInvalidTrailer | SendInvalidType
    | SendInvalidVoucher | SendInProgress | SendMsgTooSmall | SendNoBuffer | SendTimedOut | SendTooLarge
    | UnknownMach kern_return

definition mach_channel_is_closed :: "mach_error \<Rightarrow> bool" where
  "mach_channel_is_closed e \<longleftrightarrow> e = NotifyNoSenders"

definition mach_from_code :: "kern_return \<Rightarrow> mach_error" where
  "mach_from_code code =
     (if code = MACH_MSG_SUCCESS then MachSuccess
      else if code = MACH_MSG_IPC_KERNEL then IpcKernel
      else if code = MACH_MSG_IPC_SPACE then IpcSpace
      else if code = MACH_MSG_VM_KERNEL then VmKernel
      else if code = MACH_MSG_VM_SPACE then VmSpace
      else if code = MACH_RCV_BODY_ERROR then RcvBodyError
      else if code = MACH_RCV_HEADER_ERROR then RcvHeaderError
      else if code = MACH_RCV_INTERRUPTED then RcvInterrupted
      else if code = MACH_RCV_INVALID_DATA then RcvInvalidData
      else if code = MACH_RCV_INVALID_NAME then RcvInvalidName
      else if code = MACH_RCV_INVALID_NOTIFY then RcvInvalidNotify
      else if code = MACH_RCV_INVALID_TRAILER then RcvInvalidTrailer
      else if code = MACH_RCV_INVALID_TYPE then RcvInvalidType
      else if code = MACH_RCV_IN_PROGRESS then RcvInProgress
      else if code = MACH_RCV_IN_PROGRESS_TIMED then RcvInProgressTimed
      else if code = MACH_RCV_IN_SET then RcvInSet
      else if code = MACH_RCV_PORT_CHANGED then RcvPortChanged
      else if code = MACH_RCV_PORT_DIED then RcvPortDied
      else if code = MACH_RCV_SCATTER_SMALL then RcvScatterSmall
      else if code = MACH_RCV_TIMED_OUT then RcvTimedOut
      else if code = MACH_RCV_TOO_LARGE then RcvTooLarge
      else if code = MACH_NOTIFY_NO_SENDERS then NotifyNoSenders
      else if code = MACH_SEND_INTERRUPTED then SendInterrupted
      else if code = MACH_SEND_INVALID_DATA then SendInvalidData
      else if code = MACH_SEND_INVALID_DEST then SendInvalidDest
      else if code = MACH_SEND_INVALID_HEADER then SendInvalidHeader
      else if code = MACH_SEND_INVALID_MEMORY then SendInvalidMemory
      else if code = MACH_SEND_INVALID_NOTIFY then SendInvalidNotify
      else if code = MACH_SEND_INVALID_REPLY then SendInvalidReply
      else if code = MACH_SEND_INVALID_RIGHT then SendInvalidRight
      else if code = MACH_SEND_INVALID_RT_OOL_SIZE then SendInvalidRtOolSize
      else if code = MACH_SEND_INVALID_TRAILER then SendInvalidTrailer
      else if code = MACH_SEND_INVALID_TYPE then SendInvalidType
      else if code = MACH_SEND_INVALID_VOUCHER then SendInvalidVoucher
      else if code = MACH_SEND_IN_PROGRESS then SendInProgress
      else if code = MACH_SEND_MSG_TOO_SMALL then SendMsgTooSmall
      else if code = MACH_SEND_NO_BUFFER then SendNoBuffer
      else if code = MACH_SEND_TIMED_OUT then SendTimedOut
      else if code = MACH_SEND_TOO_LARGE then SendTooLarge
      else UnknownMach code)"

definition mach_from_kernel :: "kernel_error \<Rightarrow> mach_error" where
  "mach_from_kernel e = Kernel e"

fun display_mach_error :: "mach_error \<Rightarrow> string" where
  "display_mach_error MachSuccess = ''Success''"
| "display_mach_error (Kernel kernel_error) = display_kernel_error kernel_error"
| "display_mach_error IpcSpace = ''No room in IPC name space for another capability name.''"
| "display_mach_error VmSpace = ''No room in VM address space for out-of-line memory.''"
| "display_mach_error IpcKernel = ''Kernel resource shortage handling an IPC capability.''"
| "display_mach_error VmKernel = ''Kernel resource shortage handling out-of-line memory.''"
| "display_mach_error SendInProgress = ''Thread is waiting to send.  (Internal use only.)''"
| "display_mach_error SendInvalidData = ''Bogus in-line data.''"
| "display_mach_error SendInvalidDest = ''Bogus destination port.''"
| "display_mach_error SendTimedOut = ''Message not sent before timeout expired.''"
| "display_mach_error SendInvalidVoucher = ''Bogus voucher port.''"
| "display_mach_error SendInterrupted = ''Software interrupt.''"
| "display_mach_error SendMsgTooSmall = ''Data doesn't contain a complete message.''"
| "display_mach_error SendInvalidReply = ''Bogus reply port.''"
| "display_mach_error SendInvalidRight = ''Bogus port rights in the message body.''"
| "display_mach_error SendInvalidNotify = ''Bogus notify port argument.''"
| "display_mach_error SendInvalidMemory = ''Invalid out-of-line memory pointer.''"
| "display_mach_error SendNoBuffer = ''No message buffer is available.''"
| "display_mach_error SendTooLarge = ''Send is too large for port''"
| "display_mach_error SendInvalidType = ''Invalid msg-type specification.''"
| "display_mach_error SendInvalidHeader = ''A field in the header had a bad value.''"
| "display_mach_error SendInvalidTrailer = ''The trailer to be sent does not match kernel format.''"
| "display_mach_error SendInvalidRtOolSize = ''compatibility: no longer a returned error''"
| "display_mach_error RcvInProgress = ''Thread is waiting for receive.  (Internal use only.)''"
| "display_mach_error RcvInvalidName = ''Bogus name for receive port/port-set.''"
| "display_mach_error RcvTimedOut = ''Didn't get a message within the timeout value.''"
| "display_mach_error RcvTooLarge = ''Message buffer is not large enough for inline data.''"
| "display_mach_error RcvInterrupted = ''Software interrupt.''"
| "display_mach_error RcvPortChanged = ''compatibility: no longer a returned error''"
| "display_mach_error RcvInvalidNotify = ''Bogus notify port argument.''"
| "display_mach_error RcvInvalidData = ''Bogus message buffer for inline data.''"
| "display_mach_error RcvPortDied = ''Port/set was sent away/died during receive.''"
| "display_mach_error RcvInSet = ''compatibility: no longer a returned error''"
| "display_mach_error RcvHeaderError = ''Error receiving message header.  See special bits.''"
| "display_mach_error RcvBodyError = ''Error receiving message body.  See special bits.''"
| "display_mach_error RcvInvalidType = ''Invalid msg-type specification in scatter list.''"
| "display_mach_error RcvScatterSmall = ''Out-of-line overwrite region is not large enough''"
| "display_mach_error RcvInvalidTrailer = ''trailer type or number of trailer elements not supported''"
| "display_mach_error RcvInProgressTimed = ''Waiting for receive with timeout. (Internal use only.)''"
| "display_mach_error NotifyNoSenders = ''No senders exist for this port.''"
| "display_mach_error (UnknownMach mach_error_number) = ''Unknown Mach error: '' @ hex_digits (unat mach_error_number)"

fun mach_io_kind :: "mach_error \<Rightarrow> io_kind" where
  "mach_io_kind MachSuccess = OtherKind"
| "mach_io_kind (Kernel KernelSuccess) = OtherKind"
| "mach_io_kind (Kernel NoSpace) = OtherKind"
| "mach_io_kind (Kernel InvalidName) = OtherKind"
| "mach_io_kind (Kernel InvalidRight) = OtherKind"
| "mach_io_kind (Kernel InvalidValue) = OtherKind"
| "mach_io_kind (Kernel InvalidCapability) = OtherKind"
| "mach_io_kind (Kernel UrefsOverflow) = OtherKind"
| "mach_io_kind (Kernel NotInSet) = OtherKind"
| "mach_io_kind (Kernel (UnknownKernel code)) = OtherKind"
| "mach_io_kind IpcSpace = OtherKind"
| "mach_io_kind VmSpace = OtherKind"
| "mach_io_kind IpcKernel = OtherKind"
| "mach_io_kind VmKernel = OtherKind"
| "mach_io_kind SendInProgress = Interrupted"
| "mach_io_kind SendInvalidData = InvalidData"
| "mach_io_kind SendInvalidDest = NotFound"
| "mach_io_kind SendTimedOut = TimedOut"
| "mach_io_kind SendInvalidVoucher = NotFound"
| "mach_io_kind SendInterrupted = Interrupted"
| "mach_io_kind SendMsgTooSmall = InvalidData"
| "mach_io_kind SendInvalidReply = InvalidInput"
| "mach_io_kind SendInvalidRight = InvalidInput"
| "mach_io_kind SendInvalidNotify = InvalidInput"
| "mach_io_kind SendInvalidMemory = InvalidInput"
| "mach_io_kind SendNoBuffer = OtherKind"
| "mach_io_kind SendTooLarge = InvalidData"
| "mach_io_kind SendInvalidType = InvalidInput"
| "mach_io_kind SendInvalidHeader = InvalidInput"
| "mach_io_kind SendInvalidTrailer = InvalidData"
| "mach_io_kind SendInvalidRtOolSize = OtherKind"
| "mach_io_kind RcvInProgress = Interrupted"
| "mach_io_kind RcvInvalidName = InvalidInput"
| "mach_io_kind RcvTimedOut = TimedOut"
| "mach_io_kind RcvTooLarge = InvalidInput"
| "mach_io_kind RcvInterrupted = Interrupted"
| "mach_io_kind RcvPortChanged = OtherKind"
| "mach_io_kind RcvInvalidNotify = InvalidInput"
| "mach_io_kind RcvInvalidData = InvalidInput"
| "mach_io_kind RcvPortDied = BrokenPipe"
| "mach_io_kind RcvInSet = OtherKind"
| "mach_io_kind RcvHeaderError = OtherKind"
| "mach_io_kind RcvBodyError = OtherKind"
| "mach_io_kind RcvInvalidType = InvalidInput"
| "mach_io_kind RcvScatterSmall = InvalidInput"
| "mach_io_kind RcvInvalidTrailer = InvalidInput"
| "mach_io_kind RcvInProgressTimed = Interrupted"
| "mach_io_kind NotifyNoSenders = ConnectionReset"
| "mach_io_kind (UnknownMach code) = OtherKind"

definition mach_to_io :: "mach_error \<Rightarrow> mach_error io_error" where
  "mach_to_io e = Custom (mach_io_kind e) e"

definition mach_to_bincode :: "mach_error \<Rightarrow> mach_error bincode_error" where
  "mach_to_bincode e = BincodeIo (mach_to_io e)"

definition mach_to_ipc :: "mach_error \<Rightarrow> mach_error ipc_error" where
  "mach_to_ipc e = (if e = NotifyNoSenders then Disconnected else Io (mach_to_io e))"

definition mach_to_try :: "mach_error \<Rightarrow> mach_error try_recv_error" where
  "mach_to_try e =
     (if e = NotifyNoSenders then IpcErr Disconnected
      else if e = RcvTimedOut then Empty
      else IpcErr (Io (mach_to_io e)))"

interpretation me: backend_error mach_channel_is_closed "\<lambda>e. e = RcvTimedOut" mach_to_ipc mach_to_try mach_to_io
  by unfold_locales (auto simp: mach_channel_is_closed_def mach_to_ipc_def mach_to_try_def)

section \<open>Codes and errors\<close>


text \<open>The code an error stands for.\<close>

fun mach_code :: "mach_error \<Rightarrow> kern_return" where
  "mach_code MachSuccess = MACH_MSG_SUCCESS"
| "mach_code IpcKernel = MACH_MSG_IPC_KERNEL"
| "mach_code IpcSpace = MACH_MSG_IPC_SPACE"
| "mach_code VmKernel = MACH_MSG_VM_KERNEL"
| "mach_code VmSpace = MACH_MSG_VM_SPACE"
| "mach_code RcvBodyError = MACH_RCV_BODY_ERROR"
| "mach_code RcvHeaderError = MACH_RCV_HEADER_ERROR"
| "mach_code RcvInterrupted = MACH_RCV_INTERRUPTED"
| "mach_code RcvInvalidData = MACH_RCV_INVALID_DATA"
| "mach_code RcvInvalidName = MACH_RCV_INVALID_NAME"
| "mach_code RcvInvalidNotify = MACH_RCV_INVALID_NOTIFY"
| "mach_code RcvInvalidTrailer = MACH_RCV_INVALID_TRAILER"
| "mach_code RcvInvalidType = MACH_RCV_INVALID_TYPE"
| "mach_code RcvInProgress = MACH_RCV_IN_PROGRESS"
| "mach_code RcvInProgressTimed = MACH_RCV_IN_PROGRESS_TIMED"
| "mach_code RcvInSet = MACH_RCV_IN_SET"
| "mach_code RcvPortChanged = MACH_RCV_PORT_CHANGED"
| "mach_code RcvPortDied = MACH_RCV_PORT_DIED"
| "mach_code RcvScatterSmall = MACH_RCV_SCATTER_SMALL"
| "mach_code RcvTimedOut = MACH_RCV_TIMED_OUT"
| "mach_code RcvTooLarge = MACH_RCV_TOO_LARGE"
| "mach_code NotifyNoSenders = MACH_NOTIFY_NO_SENDERS"
| "mach_code SendInterrupted = MACH_SEND_INTERRUPTED"
| "mach_code SendInvalidData = MACH_SEND_INVALID_DATA"
| "mach_code SendInvalidDest = MACH_SEND_INVALID_DEST"
| "mach_code SendInvalidHeader = MACH_SEND_INVALID_HEADER"
| "mach_code SendInvalidMemory = MACH_SEND_INVALID_MEMORY"
| "mach_code SendInvalidNotify = MACH_SEND_INVALID_NOTIFY"
| "mach_code SendInvalidReply = MACH_SEND_INVALID_REPLY"
| "mach_code SendInvalidRight = MACH_SEND_INVALID_RIGHT"
| "mach_code SendInvalidRtOolSize = MACH_SEND_INVALID_RT_OOL_SIZE"
| "mach_code SendInvalidTrailer = MACH_SEND_INVALID_TRAILER"
| "mach_code SendInvalidType = MACH_SEND_INVALID_TYPE"
| "mach_code SendInvalidVoucher = MACH_SEND_INVALID_VOUCHER"
| "mach_code SendInProgress = MACH_SEND_IN_PROGRESS"
| "mach_code SendMsgTooSmall = MACH_SEND_MSG_TOO_SMALL"
| "mach_code SendNoBuffer = MACH_SEND_NO_BUFFER"
| "mach_code SendTimedOut = MACH_SEND_TIMED_OUT"
| "mach_code SendTooLarge = MACH_SEND_TOO_LARGE"
| "mach_code (UnknownMach code) = code"
| "mach_code (Kernel e) = 0"

lemma mach_code_from [simp]: "mach_code (mach_from_code c) = c"
  unfolding mach_from_code_def by (simp split: if_split)

lemma mach_from_code_inj: "mach_from_code c = mach_from_code d \<longleftrightarrow> c = d"
  by (metis mach_code_from)

lemma mach_from_code_closed: "mach_from_code MACH_NOTIFY_NO_SENDERS = NotifyNoSenders"
  "mach_from_code MACH_RCV_TIMED_OUT = RcvTimedOut"
  by (simp_all add: mach_from_code_def mach_codes)

text \<open>C28: The return codes of the kernel keep their identity as errors: no two codes become the same error. Of all codes
  exactly the notification that no senders are left is reported as a closed channel, and exactly the timeout of a
  receive as an empty one.\<close>

theorem mach_error_conversions:
  "(mach_from_code c = mach_from_code d \<longleftrightarrow> c = d) \<and>
   (mach_to_ipc (mach_from_code c) = Disconnected \<longleftrightarrow> c = MACH_NOTIFY_NO_SENDERS) \<and>
   (mach_to_try (mach_from_code c) = IpcErr Disconnected \<longleftrightarrow> c = MACH_NOTIFY_NO_SENDERS) \<and>
   (mach_to_try (mach_from_code c) = Empty \<longleftrightarrow> c = MACH_RCV_TIMED_OUT)"
  unfolding me.to_ipc_closed me.try_disconnected me.to_try_empty mach_channel_is_closed_def mach_from_code_closed [symmetric]
    mach_from_code_inj
  by blast

end
