(* ===== verification/Mac_Port.thy ===== *)
theory Mac_Port
  imports Mac_Error
begin

text \<open>
  The Mach kernel, a parameter of the model, and what the macOS back end builds on it: port rights, senders and
  receivers, the names of servers, and memory that is handed over.
\<close>

section \<open>The kernel\<close>

type_synonym mach_port = "32 word"

definition MACH_PORT_NULL :: mach_port where "MACH_PORT_NULL = 0"
definition MACH_PORT_RIGHT_SEND :: u32 where "MACH_PORT_RIGHT_SEND = 0"
definition MACH_PORT_RIGHT_RECEIVE :: u32 where "MACH_PORT_RIGHT_RECEIVE = 1"
definition MACH_PORT_RIGHT_PORT_SET :: u32 where "MACH_PORT_RIGHT_PORT_SET = 3"
definition MACH_PORT_QLIMIT_MAX :: u32 where "MACH_PORT_QLIMIT_MAX = 1024"
definition MACH_MSG_TYPE_MOVE_RECEIVE :: u8 where "MACH_MSG_TYPE_MOVE_RECEIVE = 16"
definition MACH_MSG_TYPE_MOVE_SEND :: u8 where "MACH_MSG_TYPE_MOVE_SEND = 17"
definition MACH_MSG_TYPE_COPY_SEND :: u8 where "MACH_MSG_TYPE_COPY_SEND = 19"
definition MACH_MSG_TYPE_MAKE_SEND :: u8 where "MACH_MSG_TYPE_MAKE_SEND = 20"
definition MACH_MSG_TYPE_PORT_SEND :: u8 where "MACH_MSG_TYPE_PORT_SEND = MACH_MSG_TYPE_MOVE_SEND"

text \<open>
  A message as \<open>mach_msg\<close> sends and receives it: the header, the descriptors behind it, and the bytes behind the
  descriptors. A port descriptor has the name of a right and what is done with it, an out-of-line descriptor the
  memory that travels, with its flags. After a receive, \<open>msg_tail\<close> is the memory from the last descriptor on, which
  goes on behind the message.
\<close>

datatype mach_descriptor =
    PortDescriptor mach_port u8
  | OolDescriptor usize u32 u8 u8

record mach_message =
  msgh_bits :: u32
  msgh_size :: u32
  msgh_remote_port :: mach_port
  msgh_local_port :: mach_port
  msgh_id :: kern_return
  msg_descriptors :: "mach_descriptor list"
  msg_tail :: "u8 list"

text \<open>
  Calls give the kernel's return code and what they write. \<open>m_msg_send\<close> and \<open>m_msg_recv\<close> may block; a receive has
  flags, the size of the buffer, the port and the timeout. \<open>m_malloc\<close> gives the bytes found in new memory.
\<close>

record 'w mac_sys =
  m_allocate :: "u32 \<Rightarrow> 'w \<Rightarrow> (kern_return \<times> mach_port) \<times> 'w"
  m_mod_refs :: "mach_port \<Rightarrow> u32 \<Rightarrow> int \<Rightarrow> 'w \<Rightarrow> kern_return \<times> 'w"
  m_move_member :: "mach_port \<Rightarrow> mach_port \<Rightarrow> 'w \<Rightarrow> kern_return \<times> 'w"
  m_extract_right :: "mach_port \<Rightarrow> u32 \<Rightarrow> 'w \<Rightarrow> (kern_return \<times> mach_port \<times> u32) \<times> 'w"
  m_set_qlimit :: "mach_port \<Rightarrow> u32 \<Rightarrow> 'w \<Rightarrow> kern_return \<times> 'w"
  m_no_senders :: "mach_port \<Rightarrow> 'w \<Rightarrow> kern_return \<times> 'w"
  m_deallocate :: "mach_port \<Rightarrow> 'w \<Rightarrow> kern_return \<times> 'w"
  m_bootstrap_port :: "'w \<Rightarrow> (kern_return \<times> mach_port) \<times> 'w"
  m_register :: "mach_port \<Rightarrow> string \<Rightarrow> mach_port \<Rightarrow> 'w \<Rightarrow> kern_return \<times> 'w"
  m_look_up :: "mach_port \<Rightarrow> string \<Rightarrow> 'w \<Rightarrow> (kern_return \<times> mach_port) \<times> 'w"
  m_random :: "'w \<Rightarrow> int \<times> 'w"
  m_vm_allocate :: "usize \<Rightarrow> 'w \<Rightarrow> (kern_return \<times> usize) \<times> 'w"
  m_vm_deallocate :: "usize \<Rightarrow> usize \<Rightarrow> 'w \<Rightarrow> kern_return \<times> 'w"
  m_vm_remap :: "usize \<Rightarrow> usize \<Rightarrow> 'w \<Rightarrow> (kern_return \<times> usize) \<times> 'w"
  m_peek :: "usize \<Rightarrow> usize \<Rightarrow> 'w \<Rightarrow> u8 list"
  m_poke :: "usize \<Rightarrow> u8 list \<Rightarrow> 'w \<Rightarrow> 'w"
  m_malloc :: "usize \<Rightarrow> 'w \<Rightarrow> u8 list \<times> 'w"
  m_msg_send :: "mach_message \<Rightarrow> 'w \<Rightarrow> (kern_return \<times> 'w) option"
  m_msg_recv :: "u32 \<Rightarrow> u32 \<Rightarrow> mach_port \<Rightarrow> u32 \<Rightarrow> 'w \<Rightarrow> ((kern_return \<times> mach_message) \<times> 'w) option"

section \<open>Port rights\<close>

definition kernel_result :: "kern_return \<Rightarrow> 'a \<Rightarrow> ('a, kernel_error) res" where
  "kernel_result code x = (if code = KERN_SUCCESS then Ok x else Err (kernel_from_code code))"

definition mach_port_allocate :: "'w mac_sys \<Rightarrow> u32 \<Rightarrow> ('w, mach_port, kernel_error) io" where
  "mach_port_allocate sys right =
     io_bind (call (m_allocate sys right)) (\<lambda>(os_result, port). io_lift (kernel_result os_result port))"

definition mach_port_mod_addref :: "'w mac_sys \<Rightarrow> mach_port \<Rightarrow> u32 \<Rightarrow> ('w, unit, kernel_error) io" where
  "mach_port_mod_addref sys port right =
     io_bind (call (m_mod_refs sys port right 1)) (\<lambda>err. io_lift (kernel_result err ()))"

definition mach_port_mod_release :: "'w mac_sys \<Rightarrow> mach_port \<Rightarrow> u32 \<Rightarrow> ('w, unit, kernel_error) io" where
  "mach_port_mod_release sys port right =
     io_bind (call (m_mod_refs sys port right (- 1))) (\<lambda>err. io_lift (kernel_result err ()))"

definition mach_port_move_member :: "'w mac_sys \<Rightarrow> mach_port \<Rightarrow> mach_port \<Rightarrow> ('w, unit, kernel_error) io" where
  "mach_port_move_member sys port set_port =
     io_bind (call (m_move_member sys port set_port)) (\<lambda>err. io_lift (kernel_result err ()))"

definition mach_port_extract_right ::
  "'w mac_sys \<Rightarrow> mach_port \<Rightarrow> u32 \<Rightarrow> ('w, mach_port \<times> u32, kernel_error) io" where
  "mach_port_extract_right sys port message_type =
     io_bind (call (m_extract_right sys port message_type)) (\<lambda>(err, right, acquired_right).
     io_lift (kernel_result err (right, acquired_right)))"

text \<open>\<open>?\<close> on a kernel error in code that fails with a Mach error.\<close>

definition kernel_try :: "('w, 'a, kernel_error) io \<Rightarrow> ('w, 'a, mach_error) io" where
  "kernel_try m = io_map_err mach_from_kernel m"

section \<open>Receivers and senders\<close>

record mac_receiver = rcv_port :: mach_port

record mac_sender = snd_port :: mach_port

text \<open>\<open>unwrap\<close> panics also while another panic unwinds.\<close>

definition drop_mac_receiver :: "'w mac_sys \<Rightarrow> bool \<Rightarrow> mac_receiver \<Rightarrow> ('w, unit, mach_error) io" where
  "drop_mac_receiver sys panicking r =
     (if rcv_port r \<noteq> MACH_PORT_NULL
      then io_unwrap (mach_port_mod_release sys (rcv_port r) MACH_PORT_RIGHT_RECEIVE) else io_return ())"

definition mac_receiver_from_name :: "mach_port \<Rightarrow> mac_receiver" where
  "mac_receiver_from_name port = \<lparr>rcv_port = port\<rparr>"

definition mac_receiver_new :: "'w mac_sys \<Rightarrow> ('w, mac_receiver, mach_error) io" where
  "mac_receiver_new sys =
     io_bind (kernel_try (mach_port_allocate sys MACH_PORT_RIGHT_RECEIVE)) (\<lambda>port.
     io_bind (call (m_set_qlimit sys port MACH_PORT_QLIMIT_MAX)) (\<lambda>os_result.
     if os_result = KERN_SUCCESS then io_return (mac_receiver_from_name port)
     else io_throw (mach_from_kernel (kernel_from_code os_result))))"

definition extract_port :: "mac_receiver \<Rightarrow> (mach_port, mach_error) res" where
  "extract_port r = (if rcv_port r = MACH_PORT_NULL then Panic else Ok (rcv_port r))"

definition consume_port :: "('w \<times> mac_receiver, mach_port, mach_error) io" where
  "consume_port = with_self (\<lambda>r.
     io_bind (io_lift (extract_port r)) (\<lambda>port.
     io_bind (on_self (\<lambda>r. ((), r\<lparr>rcv_port := MACH_PORT_NULL\<rparr>))) (\<lambda>_. io_return port)))"

definition mac_consume :: "('w \<times> mac_receiver, mac_receiver, mach_error) io" where
  "mac_consume = io_bind consume_port (\<lambda>port. io_return (mac_receiver_from_name port))"

definition mac_sender_from_name :: "mach_port \<Rightarrow> mac_sender" where
  "mac_sender_from_name port = \<lparr>snd_port = port\<rparr>"

definition receiver_sender :: "'w mac_sys \<Rightarrow> mac_receiver \<Rightarrow> ('w, mac_sender, mach_error) io" where
  "receiver_sender sys r =
     (if rcv_port r = MACH_PORT_NULL then io_panic
      else
        io_bind (kernel_try (mach_port_extract_right sys (rcv_port r) (ucast MACH_MSG_TYPE_MAKE_SEND))) (\<lambda>(right, acquired_right).
        if acquired_right \<noteq> ucast MACH_MSG_TYPE_PORT_SEND then io_panic
        else io_return (mac_sender_from_name right)))"

definition request_no_senders_notification :: "'w mac_sys \<Rightarrow> mac_receiver \<Rightarrow> ('w, unit, mach_error) io" where
  "request_no_senders_notification sys r =
     (if rcv_port r = MACH_PORT_NULL then io_panic
      else
        io_bind (call (m_no_senders sys (rcv_port r))) (\<lambda>os_result.
        if os_result \<noteq> KERN_SUCCESS then io_throw (mach_from_kernel (kernel_from_code os_result))
        else io_return ()))"

definition drop_mac_sender :: "'w mac_sys \<Rightarrow> bool \<Rightarrow> mac_sender \<Rightarrow> ('w, unit, mach_error) io" where
  "drop_mac_sender sys panicking s =
     (if snd_port s = MACH_PORT_NULL then io_return ()
      else
        io_bind (call (m_deallocate sys (snd_port s))) (\<lambda>err.
        if err \<noteq> KERN_SUCCESS then io_panic else io_return ()))"

definition mac_sender_clone :: "'w mac_sys \<Rightarrow> mac_sender \<Rightarrow> ('w, mac_sender, mach_error) io" where
  "mac_sender_clone sys s =
     (if snd_port s \<noteq> MACH_PORT_NULL then
        io_match (mach_port_mod_addref sys (snd_port s) MACH_PORT_RIGHT_SEND)
          (\<lambda>_. io_return \<lparr>snd_port = snd_port s\<rparr>)
          (\<lambda>e. if e = InvalidRight then io_return \<lparr>snd_port = MACH_PORT_NULL\<rparr> else io_panic)
      else io_return \<lparr>snd_port = snd_port s\<rparr>)"

definition mac_channel :: "'w mac_sys \<Rightarrow> ('w, mac_sender \<times> mac_receiver, mach_error) io" where
  "mac_channel sys =
     io_bind (mac_receiver_new sys) (\<lambda>receiver.
     io_on_failure
       (io_bind (receiver_sender sys receiver) (\<lambda>sender.
        io_bind (io_on_failure (request_no_senders_notification sys receiver) (\<lambda>panicking. drop_mac_sender sys panicking sender)) (\<lambda>_.
        io_return (sender, receiver))))
       (\<lambda>panicking. drop_mac_receiver sys panicking receiver))"

section \<open>Names\<close>

definition BOOTSTRAP_PREFIX :: string where
  "BOOTSTRAP_PREFIX = ''org.rust-lang.ipc-channel.''"

text \<open>\<open>format!("{}{}", BOOTSTRAP_PREFIX, n)\<close>, and \<open>CString::new(name).unwrap()\<close>, which panics on a null character.\<close>

definition bootstrap_name :: "int \<Rightarrow> string" where
  "bootstrap_name n = BOOTSTRAP_PREFIX @ (if n < 0 then ''-'' @ show_nat (nat (- n)) else show_nat (nat n))"

definition c_name :: "string \<Rightarrow> (string, mach_error) res" where
  "c_name name = (if CHR 0x00 \<in> set name then Panic else Ok name)"

definition bootstrap_port :: "'w mac_sys \<Rightarrow> ('w, mach_port, mach_error) io" where
  "bootstrap_port sys =
     io_bind (call (m_bootstrap_port sys)) (\<lambda>(os_result, port).
     if os_result \<noteq> KERN_SUCCESS then io_throw (mach_from_kernel (kernel_from_code os_result)) else io_return port)"

text \<open>Another name is tried as long as names are in use.\<close>

partial_function (option) register_loop ::
  "'w mac_sys \<Rightarrow> mach_port \<Rightarrow> mach_port \<Rightarrow> ('w, string, mach_error) io" where
  "register_loop sys bootstrap right w =
     io_bind (call (m_random sys)) (\<lambda>n.
     io_bind (io_lift (c_name (bootstrap_name n))) (\<lambda>name.
     io_bind (call (m_register sys bootstrap name right)) (\<lambda>os_result.
       if os_result = BOOTSTRAP_NAME_IN_USE then register_loop sys bootstrap right
       else if os_result \<noteq> BOOTSTRAP_SUCCESS then io_throw (mach_from_code os_result)
       else io_return name))) w"

definition register_bootstrap_name :: "'w mac_sys \<Rightarrow> mac_receiver \<Rightarrow> ('w, string, mach_error) io" where
  "register_bootstrap_name sys r =
     (if rcv_port r = MACH_PORT_NULL then io_panic
      else
        io_bind (bootstrap_port sys) (\<lambda>bootstrap.
        io_bind (kernel_try (mach_port_extract_right sys (rcv_port r) (ucast MACH_MSG_TYPE_MAKE_SEND))) (\<lambda>(right, acquired_right).
        if acquired_right \<noteq> ucast MACH_MSG_TYPE_PORT_SEND then io_panic
        else register_loop sys bootstrap right)))"

definition unregister_global_name :: "'w mac_sys \<Rightarrow> string \<Rightarrow> ('w, unit, mach_error) io" where
  "unregister_global_name sys name =
     io_bind (bootstrap_port sys) (\<lambda>bootstrap.
     io_bind (io_lift (c_name name)) (\<lambda>name.
     io_bind (call (m_register sys bootstrap name MACH_PORT_NULL)) (\<lambda>os_result.
     if os_result = BOOTSTRAP_SUCCESS then io_return () else io_throw (mach_from_code os_result))))"

definition mac_connect :: "'w mac_sys \<Rightarrow> string \<Rightarrow> ('w, mac_sender, mach_error) io" where
  "mac_connect sys name =
     io_bind (bootstrap_port sys) (\<lambda>bootstrap.
     io_bind (io_lift (c_name name)) (\<lambda>name.
     io_bind (call (m_look_up sys bootstrap name)) (\<lambda>(os_result, port).
     if os_result = BOOTSTRAP_SUCCESS then io_return (mac_sender_from_name port)
     else io_throw (mach_from_code os_result))))"

section \<open>Memory\<close>

record mac_shmem =
  mshm_ptr :: usize
  mshm_length :: usize

definition mac_shmem_from_raw_parts :: "usize \<Rightarrow> usize \<Rightarrow> mac_shmem" where
  "mac_shmem_from_raw_parts ptr len = \<lparr>mshm_ptr = ptr, mshm_length = len\<rparr>"

definition drop_mac_shmem :: "'w mac_sys \<Rightarrow> bool \<Rightarrow> mac_shmem \<Rightarrow> ('w, unit, mach_error) io" where
  "drop_mac_shmem sys panicking shm =
     (if mshm_ptr shm \<noteq> 0 then
        io_bind (call (m_vm_deallocate sys (mshm_ptr shm) (mshm_length shm))) (\<lambda>err.
        if err = KERN_SUCCESS then io_return () else io_panic)
      else io_return ())"

definition mac_shmem_clone :: "'w mac_sys \<Rightarrow> mac_shmem \<Rightarrow> ('w, mac_shmem, mach_error) io" where
  "mac_shmem_clone sys shm =
     (if mshm_ptr shm \<noteq> 0 then
        io_bind (call (m_vm_remap sys (mshm_length shm) (mshm_ptr shm))) (\<lambda>(err, address).
        if err = KERN_SUCCESS then io_return (mac_shmem_from_raw_parts address (mshm_length shm)) else io_panic)
      else io_return (mac_shmem_from_raw_parts 0 (mshm_length shm)))"

definition mac_shmem_deref :: "'w mac_sys \<Rightarrow> mac_shmem \<Rightarrow> ('w, u8 list, mach_error) io" where
  "mac_shmem_deref sys shm =
     (if mshm_ptr shm = 0 \<and> mshm_length shm > 0 then io_panic
      else (\<lambda>w. Some (Ok (m_peek sys (mshm_ptr shm) (mshm_length shm) w), w)))"

definition mac_shmem_eq :: "'w mac_sys \<Rightarrow> mac_shmem \<Rightarrow> mac_shmem \<Rightarrow> ('w, bool, mach_error) io" where
  "mac_shmem_eq sys a b =
     io_bind (mac_shmem_deref sys a) (\<lambda>xs. io_bind (mac_shmem_deref sys b) (\<lambda>ys. io_return (xs = ys)))"

definition allocate_vm_pages :: "'w mac_sys \<Rightarrow> usize \<Rightarrow> ('w, usize, mach_error) io" where
  "allocate_vm_pages sys len =
     io_bind (call (m_vm_allocate sys len)) (\<lambda>(result, address).
     if result \<noteq> KERN_SUCCESS then io_panic else io_return address)"

definition mac_shmem_from_byte :: "'w mac_sys \<Rightarrow> u8 \<Rightarrow> usize \<Rightarrow> ('w, mac_shmem, mach_error) io" where
  "mac_shmem_from_byte sys byte len =
     io_bind (allocate_vm_pages sys len) (\<lambda>address.
     io_bind (call (\<lambda>w. ((), m_poke sys address (replicate (unat len) byte) w))) (\<lambda>_.
     io_return (mac_shmem_from_raw_parts address len)))"

definition mac_shmem_from_bytes :: "'w mac_sys \<Rightarrow> u8 list \<Rightarrow> ('w, mac_shmem, mach_error) io" where
  "mac_shmem_from_bytes sys bytes =
     io_bind (allocate_vm_pages sys (len_of bytes)) (\<lambda>address.
     io_bind (call (\<lambda>w. ((), m_poke sys address bytes w))) (\<lambda>_.
     io_return (mac_shmem_from_raw_parts address (len_of bytes))))"

end
