(* ===== verification/Mac_Message.thy ===== *)
theory Mac_Message
  imports Mac_Port
begin

unbundle bit_operations_syntax

text \<open>
  Messages of the macOS back end: a header, descriptors for the ports and the memory that travel, and the data. Data
  that is too long for the kernel travels as memory instead, behind the regions of the caller.
\<close>

section \<open>The data of a message\<close>

datatype send_data = Inline "u8 list" | OutOfLine "mac_shmem option"

text \<open>\<open>MAX_INLINE_SIZE\<close> is a static of the process: the code acts on the kernel and on it. Its lock is not poisoned,
  as nothing panics while it is held.\<close>

type_synonym ('w, 'a) mac_io = "('w \<times> usize, 'a, mach_error) io"

definition send_data_from :: "'w mac_sys \<Rightarrow> u8 list \<Rightarrow> ('w, send_data) mac_io" where
  "send_data_from sys data = with_self (\<lambda>max_inline_size.
     if len_of data \<ge> max_inline_size then
       io_bind (on_world (mac_shmem_from_bytes sys data)) (\<lambda>shm. io_return (OutOfLine (Some shm)))
     else io_return (Inline data))"

fun take_shared_memory :: "send_data \<Rightarrow> mac_shmem option \<times> send_data" where
  "take_shared_memory (Inline data) = (None, Inline data)"
| "take_shared_memory (OutOfLine shm) = (shm, OutOfLine None)"

fun is_inline :: "send_data \<Rightarrow> bool" where
  "is_inline (Inline data) = True"
| "is_inline (OutOfLine shm) = False"

fun inline_data :: "send_data \<Rightarrow> u8 list" where
  "inline_data (Inline data) = data"
| "inline_data (OutOfLine shm) = []"

section \<open>Sizes\<close>

text \<open>\<open>mem::size_of\<close> of the structures in front of the data.\<close>

definition MESSAGE_SIZE :: usize where "MESSAGE_SIZE = 28"
definition PORT_DESCRIPTOR_SIZE :: usize where "PORT_DESCRIPTOR_SIZE = 12"
definition OOL_DESCRIPTOR_SIZE :: usize where "OOL_DESCRIPTOR_SIZE = 16"
definition MAX_TRAILER_SIZE :: u32 where "MAX_TRAILER_SIZE = 72"

definition descriptors_end :: "nat \<Rightarrow> nat \<Rightarrow> usize" where
  "descriptors_end ports shms = MESSAGE_SIZE + PORT_DESCRIPTOR_SIZE * usize_of ports + OOL_DESCRIPTOR_SIZE * usize_of shms"

definition message_size_of :: "send_data \<Rightarrow> nat \<Rightarrow> nat \<Rightarrow> usize" where
  "message_size_of data port_length shared_memory_length =
     (let size0 = descriptors_end port_length shared_memory_length + 1;
          size1 = (if is_inline data then size0 + (8 + len_of (inline_data data)) else size0) in
      if size1 AND 3 \<noteq> 0 then (size1 AND NOT 3) + 4 else size1)"

section \<open>Writing a message\<close>

type_synonym mac_channel_end = "(mac_sender, mac_receiver) os_ipc_channel"

fun mac_channel_port :: "mac_channel_end \<Rightarrow> mach_port" where
  "mac_channel_port (Sender s) = snd_port s"
| "mac_channel_port (Receiver r) = rcv_port r"

fun port_descriptor :: "mac_channel_end \<Rightarrow> mach_descriptor" where
  "port_descriptor (Sender s) = PortDescriptor (snd_port s) MACH_MSG_TYPE_MOVE_SEND"
| "port_descriptor (Receiver r) = PortDescriptor (rcv_port r) MACH_MSG_TYPE_MOVE_RECEIVE"

text \<open>The address and the length are those of the slice, which is no slice when the region was consumed.\<close>

definition ool_descriptor :: "mac_shmem \<Rightarrow> (mach_descriptor, mach_error) res" where
  "ool_descriptor shm =
     (if mshm_ptr shm = 0 \<and> mshm_length shm > 0 then Panic
      else Ok (OolDescriptor (mshm_ptr shm) (ucast (mshm_length shm)) 1 1))"

fun ool_descriptors :: "mac_shmem list \<Rightarrow> (mach_descriptor list, mach_error) res" where
  "ool_descriptors [] = Ok []"
| "ool_descriptors (shm # shms) =
     res_bind (ool_descriptor shm) (\<lambda>d. res_bind (ool_descriptors shms) (\<lambda>ds. Ok (d # ds)))"

text \<open>Bytes written over memory, and what the message has behind its descriptors: whether the data is inline and, if so,
  its length and the data, in memory whose last word was zeroed before.\<close>

definition write_at :: "nat \<Rightarrow> u8 list \<Rightarrow> u8 list \<Rightarrow> u8 list" where
  "write_at i bytes mem = take i mem @ bytes @ drop (i + length bytes) mem"

definition message_tail :: "send_data \<Rightarrow> u8 list \<Rightarrow> u8 list" where
  "message_tail data mem =
     (let mem1 = write_at 0 [if is_inline data then 1 else 0] mem in
      if is_inline data then
        write_at 9 (inline_data data)
          (write_at 1 (le_bytes 8 (length (inline_data data))) (write_at (length mem1 - 4) [0, 0, 0, 0] mem1))
      else mem1)"

definition MACH_MSGH_BITS_COMPLEX :: u32 where "MACH_MSGH_BITS_COMPLEX = 0x80000000"

definition outgoing_message ::
  "mac_sender \<Rightarrow> send_data \<Rightarrow> mac_channel_end list \<Rightarrow> mac_shmem list \<Rightarrow> u8 list \<Rightarrow> (mach_message, mach_error) res" where
  "outgoing_message s data ports shms mem =
     res_bind (ool_descriptors shms) (\<lambda>ools.
     Ok \<lparr>msgh_bits = ucast MACH_MSG_TYPE_COPY_SEND OR MACH_MSGH_BITS_COMPLEX,
       msgh_size = ucast (message_size_of data (length ports) (length shms)),
       msgh_remote_port = snd_port s, msgh_local_port = MACH_PORT_NULL, msgh_id = 0,
       msg_descriptors = map port_descriptor ports @ ools,
       msg_tail = message_tail data (drop (unat (descriptors_end (length ports) (length shms))) mem)\<rparr>)"

section \<open>Reading a message\<close>

record mac_opaque = mop_port :: mach_port

definition mac_opaque_from_name :: "mach_port \<Rightarrow> mac_opaque" where
  "mac_opaque_from_name name = \<lparr>mop_port = name\<rparr>"

text \<open>\<open>debug_assert\<close> panics also while another panic unwinds.\<close>

definition drop_mac_opaque :: "'w mac_sys \<Rightarrow> bool \<Rightarrow> mac_opaque \<Rightarrow> ('w, unit, mach_error) io" where
  "drop_mac_opaque sys panicking c = (if mop_port c = MACH_PORT_NULL then io_return () else io_panic)"

definition opaque_to_mac_sender :: "mac_opaque \<Rightarrow> mac_sender \<times> mac_opaque" where
  "opaque_to_mac_sender c = (\<lparr>snd_port = mop_port c\<rparr>, c\<lparr>mop_port := MACH_PORT_NULL\<rparr>)"

definition opaque_to_mac_receiver :: "mac_opaque \<Rightarrow> mac_receiver \<times> mac_opaque" where
  "opaque_to_mac_receiver c = (mac_receiver_from_name (mop_port c), c\<lparr>mop_port := MACH_PORT_NULL\<rparr>)"

fun received_ports :: "mach_descriptor list \<Rightarrow> mac_opaque list \<times> mach_descriptor list" where
  "received_ports (PortDescriptor name disposition # ds) =
     (case received_ports ds of (ports, rest) \<Rightarrow> (mac_opaque_from_name name # ports, rest))"
| "received_ports ds = ([], ds)"

text \<open>Regions before a descriptor that is not one of memory are dropped by the panic.\<close>

fun received_shms :: "mac_shmem list \<Rightarrow> mach_descriptor list \<Rightarrow> mac_shmem list \<times> bool" where
  "received_shms shms [] = (shms, True)"
| "received_shms shms (OolDescriptor address sz deallocate copy # ds) =
     received_shms (shms @ [mac_shmem_from_raw_parts address (ucast sz)]) ds"
| "received_shms shms (PortDescriptor name disposition # ds) = (shms, False)"

text \<open>Inline data; the length is compared with what is left of the message behind the descriptors.\<close>

definition inline_payload :: "u32 \<Rightarrow> usize \<Rightarrow> u8 list \<Rightarrow> (u8 list, mach_error) res" where
  "inline_payload sz start tail =
     (let payload_size = word_of_nat (le_nat (take 8 (drop 1 tail))) :: usize in
      if ucast sz < start then Panic
      else
        let max_payload_size = ucast sz - start in
        if \<not> payload_size \<le> max_payload_size then Panic
        else Ok (take (unat payload_size) (drop 9 tail)))"

definition has_inline_data :: "u8 list \<Rightarrow> bool" where
  "has_inline_data tail \<longleftrightarrow> tail \<noteq> [] \<and> hd tail \<noteq> 0"

end
