(* ===== verification/Mac_Channel.thy ===== *)
theory Mac_Channel
  imports Mac_Message
begin

text \<open>
  Sending and receiving on macOS, receiver sets and one-shot servers. \<open>select\<close> is one call for both, a receiver and a
  set of receivers: the kernel takes either for the port to receive from.
\<close>

section \<open>Sending\<close>

fun drop_mac_channel :: "'w mac_sys \<Rightarrow> bool \<Rightarrow> mac_channel_end \<Rightarrow> ('w, unit, mach_error) io" where
  "drop_mac_channel sys panicking (Sender s) = drop_mac_sender sys panicking s"
| "drop_mac_channel sys panicking (Receiver r) = drop_mac_receiver sys panicking r"

definition drop_send_args ::
  "'w mac_sys \<Rightarrow> mac_channel_end list \<Rightarrow> mac_shmem list \<Rightarrow> bool \<Rightarrow> ('w, unit) mac_io" where
  "drop_send_args sys ports shms panicking =
     on_world (io_finally (drop_all (drop_mac_shmem sys) panicking shms)
       (\<lambda>unwinding. drop_all (drop_mac_channel sys) (panicking \<or> unwinding) ports))"

definition with_data :: "mac_shmem list \<Rightarrow> send_data \<Rightarrow> mac_shmem list" where
  "with_data shms data = (case fst (take_shared_memory data) of None \<Rightarrow> shms | Some shm \<Rightarrow> shms @ [shm])"

definition compose_message ::
  "'w mac_sys \<Rightarrow> mac_sender \<Rightarrow> send_data \<Rightarrow> mac_channel_end list \<Rightarrow> mac_shmem list \<Rightarrow> ('w, mach_message) mac_io" where
  "compose_message sys s data ports shms =
     io_bind (on_world (call (m_malloc sys (message_size_of data (length ports) (length shms))))) (\<lambda>mem.
     io_lift (outgoing_message s data ports shms mem))"

text \<open>\<open>MAX_INLINE_SIZE\<close> only ever goes down.\<close>

definition lower_max_inline :: "u8 list \<Rightarrow> usize \<Rightarrow> usize" where
  "lower_max_inline data max_inline_size = (if len_of data < max_inline_size then len_of data else max_inline_size)"

text \<open>A message that is too large for the kernel is sent again with its data as memory. What was sent is forgotten, not
  dropped.\<close>

partial_function (option) mac_send ::
  "'w mac_sys \<Rightarrow> mac_sender \<Rightarrow> u8 list \<Rightarrow> mac_channel_end list \<Rightarrow> mac_shmem list \<Rightarrow> ('w, unit) mac_io" where
  "mac_send sys s data ports shms ws =
     io_bind (io_on_failure (send_data_from sys data) (drop_send_args sys ports shms)) (\<lambda>d.
     io_bind (io_on_failure (compose_message sys s (snd (take_shared_memory d)) ports (with_data shms d))
         (drop_send_args sys ports (with_data shms d))) (\<lambda>message.
     io_bind (on_world (call_blocking (m_msg_send sys message))) (\<lambda>os_result.
       if os_result = MACH_SEND_TOO_LARGE \<and> is_inline d then
         io_bind (on_self (\<lambda>m. ((), lower_max_inline (inline_data d) m))) (\<lambda>_.
         mac_send sys s (inline_data d) ports (with_data shms d))
       else if os_result \<noteq> MACH_MSG_SUCCESS then
         io_finally (io_throw (mach_from_code os_result)) (drop_send_args sys ports (with_data shms d))
       else io_return ()))) ws"

definition mac_get_max_fragment_size :: usize where
  "mac_get_max_fragment_size = -1"

section \<open>Receiving\<close>

type_synonym mac_selection = "(mac_opaque, mac_shmem) os_ipc_selection_result"

definition SMALL_MESSAGE_SIZE :: u32 where "SMALL_MESSAGE_SIZE = 4096"
definition MACH_RCV_MSG :: u32 where "MACH_RCV_MSG = 2"
definition MACH_RCV_LARGE :: u32 where "MACH_RCV_LARGE = 4"
definition MACH_RCV_TIMEOUT :: u32 where "MACH_RCV_TIMEOUT = 0x100"
definition MACH_MSG_TIMEOUT_NONE :: u32 where "MACH_MSG_TIMEOUT_NONE = 0"

fun receive_options :: "blocking_mode \<Rightarrow> u32 \<times> u32" where
  "receive_options Blocking = (MACH_RCV_MSG OR MACH_RCV_LARGE, MACH_MSG_TIMEOUT_NONE)"
| "receive_options Nonblocking = (MACH_RCV_MSG OR MACH_RCV_LARGE OR MACH_RCV_TIMEOUT, 0)"
| "receive_options (Timeout duration) =
     (if duration < 2 ^ 32 then (MACH_RCV_MSG OR MACH_RCV_LARGE OR MACH_RCV_TIMEOUT, word_of_nat duration)
      else (MACH_RCV_MSG OR MACH_RCV_LARGE, MACH_MSG_TIMEOUT_NONE))"

text \<open>The kernel writes the size of a message that does not fit into its header; the sum with the size of a trailer
  panics when it overflows.\<close>

partial_function (option) receive_large ::
  "'w mac_sys \<Rightarrow> mach_port \<Rightarrow> u32 \<times> u32 \<Rightarrow> mach_message \<Rightarrow> ('w, mach_message, mach_error) io" where
  "receive_large sys port options message w =
     (if unat (msgh_size message) + unat MAX_TRAILER_SIZE \<ge> 2 ^ 32 then io_panic w
      else
        io_bind (call_blocking (m_msg_recv sys (fst options) (msgh_size message + MAX_TRAILER_SIZE) port (snd options)))
          (\<lambda>(os_result, message').
            if os_result = MACH_MSG_SUCCESS then io_return message'
            else if os_result = MACH_RCV_TOO_LARGE then receive_large sys port options message'
            else io_throw (mach_from_code os_result)) w)"

definition receive_mach_message ::
  "'w mac_sys \<Rightarrow> mach_port \<Rightarrow> u32 \<times> u32 \<Rightarrow> ('w, mach_message, mach_error) io" where
  "receive_mach_message sys port options =
     io_bind (call_blocking (m_msg_recv sys (fst options) SMALL_MESSAGE_SIZE port (snd options))) (\<lambda>(os_result, message).
     if os_result = MACH_RCV_TOO_LARGE then receive_large sys port options message
     else if os_result = MACH_MSG_SUCCESS then io_return message
     else io_throw (mach_from_code os_result))"

definition drop_received_parts ::
  "'w mac_sys \<Rightarrow> mac_opaque list \<Rightarrow> mac_shmem list \<Rightarrow> bool \<Rightarrow> ('w, unit, mach_error) io" where
  "drop_received_parts sys ports shms panicking =
     io_finally (drop_all (drop_mac_shmem sys) panicking shms)
       (\<lambda>unwinding. drop_all (drop_mac_opaque sys) (panicking \<or> unwinding) ports)"

text \<open>Data that is not inline is the last region.\<close>

definition ool_payload :: "'w mac_sys \<Rightarrow> mac_shmem list \<Rightarrow> ('w, u8 list \<times> mac_shmem list, mach_error) io" where
  "ool_payload sys shms =
     (if shms = [] then io_panic
      else
        io_bind (io_finally (mac_shmem_deref sys (last shms)) (\<lambda>panicking. drop_mac_shmem sys panicking (last shms))) (\<lambda>payload.
        io_return (payload, butlast shms)))"

definition message_payload ::
  "'w mac_sys \<Rightarrow> mach_message \<Rightarrow> mac_opaque list \<Rightarrow> mac_shmem list \<Rightarrow> ('w, mac_selection, mach_error) io" where
  "message_payload sys message ports shms =
     (if has_inline_data (msg_tail message) then
        io_bind (io_on_failure
            (io_lift (inline_payload (msgh_size message) (descriptors_end (length ports) (length shms)) (msg_tail message)))
            (drop_received_parts sys ports shms)) (\<lambda>payload.
        io_return (DataReceived (ucast (msgh_local_port message)) payload ports shms))
      else
        io_bind (io_on_failure (ool_payload sys shms) (drop_received_parts sys ports (butlast shms))) (\<lambda>(payload, shms').
        io_return (DataReceived (ucast (msgh_local_port message)) payload ports shms')))"

definition take_message :: "'w mac_sys \<Rightarrow> mach_message \<Rightarrow> ('w, mac_selection, mach_error) io" where
  "take_message sys message =
     (if msgh_id message = MACH_NOTIFY_NO_SENDERS then io_return (ChannelClosed (ucast (msgh_local_port message)))
      else
        let (ports, rest) = received_ports (msg_descriptors message);
            (shms, all_memory) = received_shms [] rest in
        if \<not> all_memory then io_finally io_panic (drop_received_parts sys ports shms)
        else message_payload sys message ports shms)"

definition mac_select :: "'w mac_sys \<Rightarrow> mach_port \<Rightarrow> blocking_mode \<Rightarrow> ('w, mac_selection, mach_error) io" where
  "mac_select sys port blocking_mode =
     (if port = MACH_PORT_NULL then io_panic
      else io_bind (receive_mach_message sys port (receive_options blocking_mode)) (take_message sys))"

type_synonym mac_received = "u8 list \<times> mac_opaque list \<times> mac_shmem list"

definition recv_with_blocking_mode ::
  "'w mac_sys \<Rightarrow> mac_receiver \<Rightarrow> blocking_mode \<Rightarrow> ('w, mac_received, mach_error) io" where
  "recv_with_blocking_mode sys r blocking_mode =
     io_bind (mac_select sys (rcv_port r) blocking_mode) (\<lambda>result.
     case result of
       DataReceived i data channels shared_memory_regions \<Rightarrow> io_return (data, channels, shared_memory_regions)
     | ChannelClosed i \<Rightarrow> io_throw (mach_from_code MACH_NOTIFY_NO_SENDERS))"

definition mac_recv :: "'w mac_sys \<Rightarrow> mac_receiver \<Rightarrow> ('w, mac_received, mach_error) io" where
  "mac_recv sys r = recv_with_blocking_mode sys r Blocking"

definition mac_try_recv :: "'w mac_sys \<Rightarrow> mac_receiver \<Rightarrow> ('w, mac_received, mach_error) io" where
  "mac_try_recv sys r = recv_with_blocking_mode sys r Nonblocking"

definition mac_try_recv_timeout :: "'w mac_sys \<Rightarrow> mac_receiver \<Rightarrow> duration \<Rightarrow> ('w, mac_received, mach_error) io" where
  "mac_try_recv_timeout sys r duration = recv_with_blocking_mode sys r (Timeout duration)"

section \<open>Receiver sets\<close>

record mac_receiver_set =
  mset_port :: mach_port
  mset_ports :: "mach_port list"

type_synonym ('w, 'a) mac_set_io = "('w \<times> mac_receiver_set, 'a, mach_error) io"

definition mac_set_new :: "'w mac_sys \<Rightarrow> ('w, mac_receiver_set, mach_error) io" where
  "mac_set_new sys =
     io_bind (kernel_try (mach_port_allocate sys MACH_PORT_RIGHT_PORT_SET)) (\<lambda>port.
     io_return \<lparr>mset_port = port, mset_ports = []\<rparr>)"

text \<open>The receiver is dropped at the end; without its port there is nothing left to release.\<close>

definition mac_set_add :: "'w mac_sys \<Rightarrow> mac_receiver \<Rightarrow> ('w, u64) mac_set_io" where
  "mac_set_add sys receiver = with_self (\<lambda>s.
     io_bind (on_world (owning receiver
         (io_bind (with_self (\<lambda>r. io_lift (extract_port r))) (\<lambda>port.
          io_bind (on_world (kernel_try (mach_port_move_member sys port (mset_port s)))) (\<lambda>_. consume_port)))
         (drop_mac_receiver sys))) (\<lambda>receiver_port.
     io_bind (on_self (\<lambda>s. ((), s\<lparr>mset_ports := mset_ports s @ [receiver_port]\<rparr>))) (\<lambda>_.
     io_return (ucast receiver_port))))"

definition mac_set_select :: "'w mac_sys \<Rightarrow> ('w, mac_selection list) mac_set_io" where
  "mac_set_select sys = with_self (\<lambda>s.
     io_bind (on_world (mac_select sys (mset_port s) Blocking)) (\<lambda>result. io_return [result]))"

text \<open>The first \<open>unwrap\<close> that fails leaves the loop.\<close>

fun release_ports :: "'w mac_sys \<Rightarrow> mach_port list \<Rightarrow> ('w, unit, mach_error) io" where
  "release_ports sys [] = io_return ()"
| "release_ports sys (port # ports) =
     io_bind (io_unwrap (mach_port_mod_release sys port MACH_PORT_RIGHT_RECEIVE)) (\<lambda>_. release_ports sys ports)"

definition drop_mac_set :: "'w mac_sys \<Rightarrow> bool \<Rightarrow> mac_receiver_set \<Rightarrow> ('w, unit, mach_error) io" where
  "drop_mac_set sys panicking s =
     io_bind (release_ports sys (mset_ports s)) (\<lambda>_.
     io_unwrap (mach_port_mod_release sys (mset_port s) MACH_PORT_RIGHT_PORT_SET))"

section \<open>One-shot servers\<close>

record mac_server =
  mserver_receiver :: mac_receiver
  mserver_name :: string

text \<open>\<open>Drop\<close> ignores whether the name could be taken away; the receiver is dropped after it.\<close>

definition drop_mac_server :: "'w mac_sys \<Rightarrow> bool \<Rightarrow> mac_server \<Rightarrow> ('w, unit, mach_error) io" where
  "drop_mac_server sys panicking server =
     io_finally (io_match (unregister_global_name sys (mserver_name server)) io_return (\<lambda>_. io_return ()))
       (\<lambda>unwinding. drop_mac_receiver sys (panicking \<or> unwinding) (mserver_receiver server))"

definition mac_server_new :: "'w mac_sys \<Rightarrow> ('w, mac_server \<times> string, mach_error) io" where
  "mac_server_new sys =
     io_bind (mac_receiver_new sys) (\<lambda>receiver.
     io_bind (io_on_failure (register_bootstrap_name sys receiver) (\<lambda>panicking. drop_mac_receiver sys panicking receiver)) (\<lambda>name.
     io_return (\<lparr>mserver_receiver = receiver, mserver_name = name\<rparr>, name)))"

definition on_receiver :: "('w \<times> mac_receiver, 'a, mach_error) io \<Rightarrow> ('w \<times> mac_server, 'a, mach_error) io" where
  "on_receiver m = (\<lambda>(w, server).
     map_option (\<lambda>(q, (w', r)). (q, (w', server\<lparr>mserver_receiver := r\<rparr>))) (m (w, mserver_receiver server)))"

definition mac_server_accept ::
  "'w mac_sys \<Rightarrow> mac_server \<Rightarrow> ('w, mac_receiver \<times> mac_received, mach_error) io" where
  "mac_server_accept sys server =
     owning server
       (with_self (\<lambda>server.
          io_bind (on_world (mac_recv sys (mserver_receiver server))) (\<lambda>received.
          io_bind (on_receiver mac_consume) (\<lambda>receiver. io_return (receiver, received)))))
       (drop_mac_server sys)"

end
