(* ===== verification/Mac_Stream.thy ===== *)
theory Mac_Stream
  imports Mac_Channel
begin

text \<open>
  Messages from one process to another over a Mach port: what was sent is what is received, also when the data is too
  long for the kernel and travels as memory.
\<close>

section \<open>Sizes\<close>

lemma round_up:
  fixes x :: usize
  assumes "unat x < 2 ^ 63"
  defines "y \<equiv> if x AND 3 \<noteq> 0 then (x AND NOT 3) + 4 else x"
  shows "unat x \<le> unat y \<and> unat y < unat x + 4"
proof -
  have "(x AND NOT 3) + (x AND 3) = x"
    by (subst disjunctive_add) (auto simp: bit_simps bit_eq_iff)
  then have n: "x AND NOT 3 = x - (x AND 3)" by (simp add: eq_diff_eq)
  have "x AND mask 2 = x mod 2 ^ 2" by (simp only: take_bit_eq_mask [symmetric] take_bit_eq_mod)
  then have "x AND 3 = x mod 4" by (simp add: mask_eq_exp_minus_1)
  then have u: "unat (x AND 3) = unat x mod 4" by (simp add: unat_mod)
  then have "unat (x AND NOT 3) = unat x - unat x mod 4"
    unfolding n by (subst unat_sub) (simp_all add: word_le_nat_alt)
  moreover from this have "unat ((x AND NOT 3) + 4) = unat x - unat x mod 4 + 4"
    using assms(1) by (simp add: unat_word_ariths)
  moreover have "x AND 3 \<noteq> 0 \<longleftrightarrow> unat x mod 4 \<noteq> 0" unfolding u [symmetric] unsigned_eq_0_iff ..
  moreover have "unat x mod 4 < 4" "unat x mod 4 \<le> unat x" by simp_all
  moreover have "y = (if unat x mod 4 \<noteq> 0 then (x AND NOT 3) + 4 else x)"
    unfolding y_def calculation(3) ..
  ultimately show ?thesis by auto
qed

text \<open>Bounds that make the sizes of a message stay what they are.\<close>

lemma unat_descriptors_end:
  assumes "p < 2 ^ 32" "s < 2 ^ 32"
  shows "unat (descriptors_end p s) = 28 + 12 * p + 16 * s"
  using assms
  by (simp add: descriptors_end_def MESSAGE_SIZE_def PORT_DESCRIPTOR_SIZE_def OOL_DESCRIPTOR_SIZE_def unat_word_ariths)

lemma message_size_bounds:
  assumes "p < 2 ^ 32" "s < 2 ^ 32" "length (inline_data d) < 2 ^ 32"
  defines "n \<equiv> 28 + 12 * p + 16 * s + 1 + (if is_inline d then 8 + length (inline_data d) else 0)"
  shows "n \<le> unat (message_size_of d p s)" "unat (message_size_of d p s) < n + 4"
proof -
  define x where "x = (if is_inline d then descriptors_end p s + 1 + (8 + len_of (inline_data d)) else descriptors_end p s + 1)"
  have "unat x = n"
    using assms unat_descriptors_end [OF assms(1,2)] by (simp add: x_def unat_word_ariths)
  moreover have "n < 2 ^ 63" using assms by simp
  moreover have "message_size_of d p s = (if x AND 3 \<noteq> 0 then (x AND NOT 3) + 4 else x)"
    by (simp only: message_size_of_def Let_def x_def)
  ultimately show "n \<le> unat (message_size_of d p s)" "unat (message_size_of d p s) < n + 4"
    using round_up [of x] by simp_all
qed

section \<open>The tail of a message\<close>

lemma length_write_at [simp]: "i + length bs \<le> length mem \<Longrightarrow> length (write_at i bs mem) = length mem"
  by (simp add: write_at_def)

lemma message_tail_inline:
  assumes "9 + length data \<le> length mem"
  shows "take (9 + length data) (message_tail (Inline data) mem) = 1 # le_bytes 8 (length data) @ data"
    "length (message_tail (Inline data) mem) = length mem"
proof -
  let ?m1 = "write_at 0 [1] mem"
  let ?m2 = "write_at (length mem - 4) [0, 0, 0, 0] ?m1"
  let ?m3 = "write_at 1 (le_bytes 8 (length data)) ?m2"
  have l: "length ?m1 = length mem" "length ?m2 = length mem" "length ?m3 = length mem" using assms by simp_all
  have t: "message_tail (Inline data) mem = write_at 9 data ?m3"
    using l(1) by (simp add: message_tail_def Let_def)
  show "length (message_tail (Inline data) mem) = length mem" using assms l by (simp add: t)
  have "take 1 ?m2 = [1]" using assms l(1) by (simp add: write_at_def take_Cons')
  then have "take 9 ?m3 = 1 # le_bytes 8 (length data)" by (simp add: write_at_def)
  then have "message_tail (Inline data) mem = (1 # le_bytes 8 (length data) @ data) @ drop (9 + length data) ?m3"
    by (simp add: t write_at_def [of 9])
  moreover have "length (1 # le_bytes 8 (length data) @ data) = 9 + length data" by simp
  ultimately show "take (9 + length data) (message_tail (Inline data) mem) = 1 # le_bytes 8 (length data) @ data"
    by (metis append_eq_conv_conj)
qed

lemma message_tail_ool:
  assumes "mem \<noteq> []"
  shows "hd (message_tail (OutOfLine shm) mem) = 0" "length (message_tail (OutOfLine shm) mem) = length mem"
  using assms by (cases mem; simp add: message_tail_def write_at_def)+

text \<open>Reading it back, with other memory behind it.\<close>

lemma inline_payload_tail:
  assumes "take (9 + length data) tail = 1 # le_bytes 8 (length data) @ data" "length data < 2 ^ 32"
    and "unat start + 9 + length data \<le> unat sz"
  shows "has_inline_data tail" "inline_payload sz start tail = Ok data"
proof -
  have tail: "tail = (1 # le_bytes 8 (length data) @ data) @ drop (9 + length data) tail"
    using assms(1) append_take_drop_id by metis
  show "has_inline_data tail" by (subst tail) (simp add: has_inline_data_def)
  have n: "le_nat (take 8 (drop 1 tail)) = length data" using assms(2) by (subst tail) simp
  have d: "take (length data) (drop 9 tail) = data" by (subst tail) simp
  have "unat sz < 2 ^ 32" using unsigned_less [of sz, where ?'a = nat] by simp
  then have u: "unat (ucast sz :: usize) = unat sz" by (simp add: unsigned_ucast_eq take_bit_nat_eq_self)
  have "start \<le> ucast sz" using assms(3) u by (simp add: word_le_nat_alt)
  then have "unat (ucast sz - start) = unat sz - unat start" using u by (simp add: unat_sub)
  then show "inline_payload sz start tail = Ok data"
    using assms(2,3) n d u \<open>start \<le> ucast sz\<close>
    by (simp add: inline_payload_def Let_def word_le_nat_alt not_less word_less_nat_alt)
qed

text \<open>The check of the length counts from the end of the descriptors and not from the start of the data: a message
  of 65 bytes, of which 28 are left for data, may claim 37.\<close>

lemma inline_payload_overread:
  "inline_payload 65 (descriptors_end 0 0) (1 # le_bytes 8 37 @ data) = Ok (take 37 data)"
  by (simp add: inline_payload_def descriptors_end_def MESSAGE_SIZE_def)

section \<open>What the kernel does\<close>

text \<open>
  Documented behaviour of \<open>mach_msg\<close> and of memory, over a view of the world: the messages that wait at a receive right,
  each with the contents of the memory that travels; the receive right behind a send right; the memory of the process
  that runs, by its address; the largest message the kernel takes; and the name that a right gets in the process that
  receives it.
\<close>

record 'w mac_view =
  mv_queue :: "'w \<Rightarrow> mach_port \<Rightarrow> (mach_message \<times> u8 list list) list"
  mv_dest :: "'w \<Rightarrow> mach_port \<Rightarrow> mach_port option"
  mv_mem :: "'w \<Rightarrow> usize \<Rightarrow> u8 list option"
  mv_limit :: nat
  mv_name :: "mach_port \<Rightarrow> mach_port"

fun contents :: "(usize \<Rightarrow> u8 list option) \<Rightarrow> mach_descriptor list \<Rightarrow> u8 list list option" where
  "contents mem [] = Some []"
| "contents mem (PortDescriptor n d # ds) = contents mem ds"
| "contents mem (OolDescriptor a n f g # ds) =
     (case mem a of
        None \<Rightarrow> None
      | Some bs \<Rightarrow> if length bs = unat n then map_option (Cons bs) (contents mem ds) else None)"

definition same_mac :: "'w mac_view \<Rightarrow> 'w \<Rightarrow> 'w \<Rightarrow> bool" where
  "same_mac v w w' \<longleftrightarrow> mv_queue v w' = mv_queue v w \<and> mv_dest v w' = mv_dest v w \<and> mv_mem v w' = mv_mem v w"

definition new_memory :: "'w mac_view \<Rightarrow> 'w \<Rightarrow> usize \<Rightarrow> usize \<Rightarrow> 'w \<Rightarrow> bool" where
  "new_memory v w n a w' \<longleftrightarrow> (n = 0 \<or> a \<noteq> 0) \<and> mv_mem v w a = None \<and>
     (\<exists>bs. length bs = unat n \<and> mv_mem v w' = (mv_mem v w)(a \<mapsto> bs)) \<and>
     mv_queue v w' = mv_queue v w \<and> mv_dest v w' = mv_dest v w"

text \<open>The kernel takes descriptors only from a message that is marked complex, rights only with a disposition it knows,
  and keeps a message that is too large for the buffer only when the receiver asks for that.\<close>

fun known_disposition :: "mach_descriptor \<Rightarrow> bool" where
  "known_disposition (PortDescriptor n d) \<longleftrightarrow> d \<in> {MACH_MSG_TYPE_MOVE_SEND, MACH_MSG_TYPE_COPY_SEND, MACH_MSG_TYPE_MOVE_RECEIVE}"
| "known_disposition (OolDescriptor a n f g) \<longleftrightarrow> True"

definition well_formed :: "mach_message \<Rightarrow> bool" where
  "well_formed msg \<longleftrightarrow>
     (msg_descriptors msg = [] \<or> bit (msgh_bits msg) 31) \<and> list_all known_disposition (msg_descriptors msg)"

definition keeps_large :: "u32 \<Rightarrow> bool" where
  "keeps_large flags \<longleftrightarrow> bit flags 1 \<and> bit flags 2"

definition mac_sends :: "'w mac_sys \<Rightarrow> 'w mac_view \<Rightarrow> bool" where
  "mac_sends sys v \<longleftrightarrow>
     (\<forall>n w. \<exists>mem w'. m_malloc sys n w = (mem, w') \<and> length mem = unat n \<and> same_mac v w w') \<and>
     (\<forall>n w a w'. m_vm_allocate sys n w = ((KERN_SUCCESS, a), w') \<longrightarrow> new_memory v w n a w') \<and>
     (\<forall>a bs old w. mv_mem v w a = Some old \<and> length bs = length old \<longrightarrow>
        mv_mem v (m_poke sys a bs w) = (mv_mem v w)(a \<mapsto> bs) \<and>
        mv_queue v (m_poke sys a bs w) = mv_queue v w \<and> mv_dest v (m_poke sys a bs w) = mv_dest v w) \<and>
     (\<forall>msg w p cs. mv_dest v w (msgh_remote_port msg) = Some p \<and> unat (msgh_size msg) \<le> mv_limit v \<and>
        well_formed msg \<and> contents (mv_mem v w) (msg_descriptors msg) = Some cs \<and> length (mv_queue v w p) < 1024 \<longrightarrow>
        (\<exists>w'. m_msg_send sys msg w = Some (MACH_MSG_SUCCESS, w') \<and>
          mv_queue v w' = (mv_queue v w)(p := mv_queue v w p @ [(msg, cs)]))) \<and>
     (\<forall>msg w p. mv_dest v w (msgh_remote_port msg) = Some p \<and> unat (msgh_size msg) > mv_limit v \<longrightarrow>
        (\<exists>w'. m_msg_send sys msg w = Some (MACH_SEND_TOO_LARGE, w') \<and> same_mac v w w'))"

text \<open>A message that is received: rights have new names, and memory has new addresses.\<close>

fun descs_arrived ::
  "(mach_port \<Rightarrow> mach_port) \<Rightarrow> (usize \<Rightarrow> u8 list option) \<Rightarrow> mach_descriptor list \<Rightarrow> u8 list list \<Rightarrow> mach_descriptor list \<Rightarrow> bool" where
  "descs_arrived name mem [] cs ds' \<longleftrightarrow> cs = [] \<and> ds' = []"
| "descs_arrived name mem (PortDescriptor n d # ds) cs ds' \<longleftrightarrow>
     (case ds' of PortDescriptor n' d' # ds' \<Rightarrow> n' = name n \<and> descs_arrived name mem ds cs ds' | _ \<Rightarrow> False)"
| "descs_arrived name mem (OolDescriptor a n f g # ds) cs ds' \<longleftrightarrow>
     (case (cs, ds') of
        (c # cs, OolDescriptor a' n' f' g' # ds') \<Rightarrow>
          n' = n \<and> mem a' = Some c \<and> length c = unat n \<and> (c = [] \<or> a' \<noteq> 0) \<and> descs_arrived name mem ds cs ds'
      | _ \<Rightarrow> False)"

fun addresses :: "mach_descriptor list \<Rightarrow> usize list" where
  "addresses [] = []"
| "addresses (PortDescriptor n d # ds) = addresses ds"
| "addresses (OolDescriptor a n f g # ds) = a # addresses ds"

definition arrived ::
  "'w mac_view \<Rightarrow> mach_port \<Rightarrow> mach_message \<Rightarrow> u8 list list \<Rightarrow> mach_message \<Rightarrow> 'w \<Rightarrow> bool" where
  "arrived v p msg cs m w \<longleftrightarrow>
     msgh_id m = msgh_id msg \<and> msgh_size m = msgh_size msg \<and> msgh_local_port m = p \<and>
     take (length (msg_tail msg)) (msg_tail m) = msg_tail msg \<and>
     descs_arrived (mv_name v) (mv_mem v w) (msg_descriptors msg) cs (msg_descriptors m) \<and>
     ([] \<in> set cs \<or> distinct (addresses (msg_descriptors m)))"

definition mac_receives :: "'w mac_sys \<Rightarrow> 'w mac_view \<Rightarrow> bool" where
  "mac_receives sys v \<longleftrightarrow>
     (\<forall>w p msg cs rest flags n t.
        keeps_large flags \<and> mv_queue v w p = (msg, cs) # rest \<and> length cs < 2 ^ 32 \<and> (\<exists>mem. contents mem (msg_descriptors msg) = Some cs) \<longrightarrow>
        (\<exists>m w'. m_msg_recv sys flags n p t w = Some ((MACH_MSG_SUCCESS, m), w') \<and>
           mv_queue v w' = (mv_queue v w)(p := rest) \<and> arrived v p msg cs m w') \<or>
        (unat n < unat (msgh_size msg) + unat MAX_TRAILER_SIZE \<and>
         (\<exists>m w'. m_msg_recv sys flags n p t w = Some ((MACH_RCV_TOO_LARGE, m), w') \<and>
            msgh_size m = msgh_size msg \<and> mv_queue v w' = mv_queue v w))) \<and>
     (\<forall>a bs w. mv_mem v w a = Some bs \<longrightarrow>
        m_peek sys a (len_of bs) w = bs \<and>
        (\<exists>w'. m_vm_deallocate sys a (len_of bs) w = (KERN_SUCCESS, w') \<and> mv_mem v w' = (mv_mem v w)(a := None)))"

section \<open>Regions\<close>

definition regions :: "(usize \<Rightarrow> u8 list option) \<Rightarrow> mac_shmem list \<Rightarrow> u8 list list \<Rightarrow> bool" where
  "regions mem shms cs \<longleftrightarrow> list_all2 (\<lambda>shm c. mshm_ptr shm \<noteq> 0 \<and> mem (mshm_ptr shm) = Some c \<and>
     mshm_length shm = len_of c \<and> c \<noteq> [] \<and> length c < 2 ^ 32) shms cs"

abbreviation ool :: "mac_shmem \<Rightarrow> mach_descriptor" where
  "ool shm \<equiv> OolDescriptor (mshm_ptr shm) (ucast (mshm_length shm)) 1 1"

lemma regions_descriptors:
  assumes "regions mem shms cs"
  shows "ool_descriptors shms = Ok (map ool shms)" "contents mem (map port_descriptor ports @ map ool shms) = Some cs"
proof -
  have "ool_descriptors shms = Ok (map ool shms) \<and> contents mem (map ool shms) = Some cs"
    using assms unfolding regions_def
    by (induction rule: list_all2_induct)
      (auto simp: ool_descriptor_def unsigned_ucast_eq unsigned_of_nat take_bit_nat_eq_self)
  moreover have "contents mem (map port_descriptor ports @ ds) = contents mem ds" for ds
  proof (induction ports)
    case (Cons c ports)
    then show ?case by (cases c) simp_all
  qed simp
  ultimately show "ool_descriptors shms = Ok (map ool shms)"
    "contents mem (map port_descriptor ports @ map ool shms) = Some cs" by simp_all
qed

lemma received_regions:
  assumes "regions mem0 shms cs" and "descs_arrived name mem (map ool shms) cs ds'"
  shows "\<exists>shms'. received_shms acc ds' = (acc @ shms', True) \<and> regions mem shms' cs \<and> map mshm_ptr shms' = addresses ds' \<and>
    received_ports ds' = ([], ds')"
  using assms unfolding regions_def
proof (induction arbitrary: ds' acc rule: list_all2_induct)
  case Nil
  then show ?case by simp
next
  case (Cons shm shms c cs)
  then obtain a f g ds where ds': "ds' = OolDescriptor a (ucast (mshm_length shm)) f g # ds" and a: "mem a = Some c" "a \<noteq> 0"
    and rest: "descs_arrived name mem (map ool shms) cs ds"
    by (auto split: list.splits mach_descriptor.splits)
  let ?s = "mac_shmem_from_raw_parts a (ucast (ucast (mshm_length shm) :: u32))"
  obtain shms' where shms': "received_shms (acc @ [?s]) ds = ((acc @ [?s]) @ shms', True)"
      "list_all2 (\<lambda>shm c. mshm_ptr shm \<noteq> 0 \<and> mem (mshm_ptr shm) = Some c \<and>
        mshm_length shm = len_of c \<and> c \<noteq> [] \<and> length c < 2 ^ 32) shms' cs" "map mshm_ptr shms' = addresses ds"
    using Cons.IH [OF rest] by blast
  have "mshm_length ?s = len_of c"
    using Cons.hyps(1)
    by (simp add: mac_shmem_from_raw_parts_def word_unat_eq_iff unsigned_ucast_eq unsigned_of_nat unsigned_take_bit_eq
      take_bit_nat_eq_self)
  then show ?case
    using shms' a Cons.hyps(1) ds'
    by (intro exI [of _ "?s # shms'"]) (auto simp: mac_shmem_from_raw_parts_def)
qed

lemma received_ports_arrived:
  assumes "descs_arrived name mem (map port_descriptor ports @ ds) cs ds'"
    and "\<And>ds1. descs_arrived name mem ds cs ds1 \<Longrightarrow> received_ports ds1 = ([], ds1)"
  shows "\<exists>ds1. received_ports ds' = (map (mac_opaque_from_name \<circ> name \<circ> mac_channel_port) ports, ds1) \<and>
    descs_arrived name mem ds cs ds1 \<and> addresses ds' = addresses ds1"
  using assms(1)
proof (induction ports arbitrary: ds')
  case Nil
  then show ?case using assms(2) by simp
next
  case (Cons c ports)
  then obtain n d ds1 where "ds' = PortDescriptor n d # ds1" "n = name (mac_channel_port c)"
      "descs_arrived name mem (map port_descriptor ports @ ds) cs ds1"
    by (cases c) (auto split: list.splits mach_descriptor.splits)
  then show ?case using Cons.IH by fastforce
qed

section \<open>Receiving\<close>

lemma mac_receivesD:
  assumes "mac_receives sys v"
  shows "keeps_large flags \<Longrightarrow> mv_queue v w p = (msg, cs) # rest \<Longrightarrow> length cs < 2 ^ 32 \<Longrightarrow> contents mem (msg_descriptors msg) = Some cs \<Longrightarrow>
      (\<exists>m w'. m_msg_recv sys flags n p t w = Some ((MACH_MSG_SUCCESS, m), w') \<and>
         mv_queue v w' = (mv_queue v w)(p := rest) \<and> arrived v p msg cs m w') \<or>
      (unat n < unat (msgh_size msg) + unat MAX_TRAILER_SIZE \<and>
       (\<exists>m w'. m_msg_recv sys flags n p t w = Some ((MACH_RCV_TOO_LARGE, m), w') \<and>
          msgh_size m = msgh_size msg \<and> mv_queue v w' = mv_queue v w))"
    and "mv_mem v w a = Some bs \<Longrightarrow> m_peek sys a (len_of bs) w = bs"
    and "mv_mem v w a = Some bs \<Longrightarrow>
      \<exists>w'. m_vm_deallocate sys a (len_of bs) w = (KERN_SUCCESS, w') \<and> mv_mem v w' = (mv_mem v w)(a := None)"
proof -
  note l = assms [unfolded mac_receives_def]
  show "keeps_large flags \<Longrightarrow> mv_queue v w p = (msg, cs) # rest \<Longrightarrow> length cs < 2 ^ 32 \<Longrightarrow> contents mem (msg_descriptors msg) = Some cs \<Longrightarrow>
      (\<exists>m w'. m_msg_recv sys flags n p t w = Some ((MACH_MSG_SUCCESS, m), w') \<and>
         mv_queue v w' = (mv_queue v w)(p := rest) \<and> arrived v p msg cs m w') \<or>
      (unat n < unat (msgh_size msg) + unat MAX_TRAILER_SIZE \<and>
       (\<exists>m w'. m_msg_recv sys flags n p t w = Some ((MACH_RCV_TOO_LARGE, m), w') \<and>
          msgh_size m = msgh_size msg \<and> mv_queue v w' = mv_queue v w))"
    using l [THEN conjunct1] by blast
qed (use assms [unfolded mac_receives_def, THEN conjunct2] in blast)+

lemma receive_arrived:
  assumes "mac_receives sys v" and "mv_queue v w p = (msg, cs) # rest" "length cs < 2 ^ 32"
    "contents mem (msg_descriptors msg) = Some cs" and "unat (msgh_size msg) + 72 < 2 ^ 32"
    and "keeps_large (fst options)"
  shows "\<exists>m w'. receive_mach_message sys p options w = Some (Ok m, w') \<and> arrived v p msg cs m w' \<and>
    mv_queue v w' = (mv_queue v w)(p := rest)"
proof -
  note law = mac_receivesD(1) [OF assms(1,6) _ assms(3,4)]
  have codes: "MACH_RCV_TOO_LARGE \<noteq> MACH_MSG_SUCCESS" by (simp add: mach_codes)
  have u: "unat (msgh_size msg + MAX_TRAILER_SIZE) = unat (msgh_size msg) + 72"
    using assms(5) by (simp add: MAX_TRAILER_SIZE_def unat_word_ariths)
  have large: "\<exists>m' w'. receive_large sys p options m w1 = Some (Ok m', w') \<and> arrived v p msg cs m' w' \<and>
      mv_queue v w' = (mv_queue v w)(p := rest)"
    if "msgh_size m = msgh_size msg" "mv_queue v w1 = mv_queue v w" for m w1
  proof -
    have "\<exists>m' w'. m_msg_recv sys (fst options) (msgh_size msg + MAX_TRAILER_SIZE) p (snd options) w1 =
        Some ((MACH_MSG_SUCCESS, m'), w') \<and> mv_queue v w' = (mv_queue v w)(p := rest) \<and> arrived v p msg cs m' w'"
      using law [of w1 p rest "msgh_size msg + MAX_TRAILER_SIZE" "snd options"] that assms(2) u
      by (auto simp: MAX_TRAILER_SIZE_def)
    then obtain m' w' where "m_msg_recv sys (fst options) (msgh_size msg + MAX_TRAILER_SIZE) p (snd options) w1 =
        Some ((MACH_MSG_SUCCESS, m'), w')" "mv_queue v w' = (mv_queue v w)(p := rest)" "arrived v p msg cs m' w'"
      by blast
    then show ?thesis
      using that assms(5) by (subst receive_large.simps) (simp add: call_blocking_def MAX_TRAILER_SIZE_def)
  qed
  show ?thesis
    using law [OF assms(2), of SMALL_MESSAGE_SIZE "snd options"]
  proof (elim disjE exE conjE)
    fix m w' assume "m_msg_recv sys (fst options) SMALL_MESSAGE_SIZE p (snd options) w = Some ((MACH_MSG_SUCCESS, m), w')"
      "mv_queue v w' = (mv_queue v w)(p := rest)" "arrived v p msg cs m w'"
    then show ?thesis using codes by (auto simp: receive_mach_message_def call_blocking_def)
  next
    fix m w' assume "m_msg_recv sys (fst options) SMALL_MESSAGE_SIZE p (snd options) w = Some ((MACH_RCV_TOO_LARGE, m), w')"
      "msgh_size m = msgh_size msg" "mv_queue v w' = mv_queue v w"
    then show ?thesis using large [of m w'] by (simp add: receive_mach_message_def call_blocking_def)
  qed
qed

text \<open>The parts of a message that arrived.\<close>

lemma arrived_parts:
  assumes "arrived v p msg cs m w" and "msg_descriptors msg = map port_descriptor ports @ map ool shms" and "regions mem0 shms cs"
  shows "\<exists>ds shms'. received_ports (msg_descriptors m) = (map (mac_opaque_from_name \<circ> mv_name v \<circ> mac_channel_port) ports, ds) \<and>
    received_shms [] ds = (shms', True) \<and> regions (mv_mem v w) shms' cs \<and> distinct (map mshm_ptr shms')"
proof -
  have ne: "[] \<notin> set cs" using assms(3) unfolding regions_def by (auto simp: list_all2_conv_all_nth in_set_conv_nth)
  have d: "descs_arrived (mv_name v) (mv_mem v w) (map port_descriptor ports @ map ool shms) cs (msg_descriptors m)"
    "distinct (addresses (msg_descriptors m))"
    using assms(1,2) ne by (auto simp: arrived_def)
  obtain ds where ds: "received_ports (msg_descriptors m) = (map (mac_opaque_from_name \<circ> mv_name v \<circ> mac_channel_port) ports, ds)"
      "descs_arrived (mv_name v) (mv_mem v w) (map ool shms) cs ds" "addresses (msg_descriptors m) = addresses ds"
    using received_ports_arrived [OF d(1)] received_regions [OF assms(3)] by blast
  then show ?thesis using received_regions [OF assms(3) ds(2), of "[]"] d(2) by auto
qed

lemma take_message_inline:
  assumes "arrived v p msg cs m w" and "msg_descriptors msg = map port_descriptor ports @ map ool shms" and "regions mem0 shms cs"
    and "msgh_id msg = 0" and "msg_tail msg = message_tail (Inline data) mem" "9 + length data \<le> length mem"
    and "length data < 2 ^ 32" "length ports < 2 ^ 32" "length cs < 2 ^ 32"
    and "28 + 12 * length ports + 16 * length cs + 9 + length data \<le> unat (msgh_size msg)"
  shows "\<exists>shms'. take_message sys m w = Some (Ok (DataReceived (ucast p) data
      (map (mac_opaque_from_name \<circ> mv_name v \<circ> mac_channel_port) ports) shms'), w) \<and> regions (mv_mem v w) shms' cs"
proof -
  obtain ds shms' where parts: "received_ports (msg_descriptors m) = (map (mac_opaque_from_name \<circ> mv_name v \<circ> mac_channel_port) ports, ds)"
      "received_shms [] ds = (shms', True)" "regions (mv_mem v w) shms' cs"
    using arrived_parts [OF assms(1-3)] by blast
  have m: "msgh_id m = 0" "msgh_size m = msgh_size msg" "msgh_local_port m = p"
    and tail: "take (length (msg_tail msg)) (msg_tail m) = msg_tail msg"
    using assms(1,4) by (simp_all add: arrived_def)
  have "length (msg_tail msg) \<ge> 9 + length data" using message_tail_inline(2) [OF assms(6)] assms(5,6) by simp
  then have "take (9 + length data) (msg_tail m) = take (9 + length data) (msg_tail msg)"
    using tail by (metis min.absorb1 take_take)
  then have t: "take (9 + length data) (msg_tail m) = 1 # le_bytes 8 (length data) @ data"
    using message_tail_inline(1) [OF assms(6)] assms(5) by simp
  have l: "length shms' = length cs" using parts(3) unfolding regions_def by (rule list_all2_lengthD)
  note p = inline_payload_tail [OF t assms(7), of "descriptors_end (length ports) (length shms')" "msgh_size m"]
  have "inline_payload (msgh_size m) (descriptors_end (length ports) (length shms')) (msg_tail m) = Ok data"
    "has_inline_data (msg_tail m)"
    using p assms(8-10) l m(2) by (simp_all add: unat_descriptors_end)
  then show ?thesis
    using parts m
    by (intro exI [of _ shms']) (simp add: take_message_def message_payload_def MACH_NOTIFY_NO_SENDERS_def MACH_NOTIFY_FIRST_def)
qed

lemma take_message_ool:
  assumes "arrived v p msg (cs @ [data]) m w" and "msg_descriptors msg = map port_descriptor ports @ map ool shms"
    and "regions mem0 shms (cs @ [data])" and "mac_receives sys v"
    and "msgh_id msg = 0" and "msg_tail msg = message_tail (OutOfLine None) mem" "mem \<noteq> []"
  shows "\<exists>shms' w'. take_message sys m w = Some (Ok (DataReceived (ucast p) data
      (map (mac_opaque_from_name \<circ> mv_name v \<circ> mac_channel_port) ports) shms'), w') \<and> regions (mv_mem v w') shms' cs"
proof -
  obtain ds all where parts: "received_ports (msg_descriptors m) = (map (mac_opaque_from_name \<circ> mv_name v \<circ> mac_channel_port) ports, ds)"
      "received_shms [] ds = (all, True)" "regions (mv_mem v w) all (cs @ [data])" "distinct (map mshm_ptr all)"
    using arrived_parts [OF assms(1-3)] by blast
  obtain shms' shm where all: "all = shms' @ [shm]" and r: "regions (mv_mem v w) shms' cs"
    and shm: "mshm_ptr shm \<noteq> 0" "mv_mem v w (mshm_ptr shm) = Some data" "mshm_length shm = len_of data"
    using parts(3) unfolding regions_def by (auto simp: list_all2_append2 list_all2_Cons2)
  have m: "msgh_id m = 0" "msgh_local_port m = p" and tail: "take (length (msg_tail msg)) (msg_tail m) = msg_tail msg"
    using assms(1,5) by (simp_all add: arrived_def)
  have "hd (take (length mem) (msg_tail m)) = 0"
    using tail message_tail_ool [OF assms(7), of None] assms(6) by simp
  then have "\<not> has_inline_data (msg_tail m)" using assms(7) by (simp add: has_inline_data_def hd_take)
  obtain w' where w': "m_vm_deallocate sys (mshm_ptr shm) (len_of data) w = (KERN_SUCCESS, w')"
      "mv_mem v w' = (mv_mem v w)(mshm_ptr shm := None)"
    using mac_receivesD(3) [OF assms(4) shm(2)] by blast
  have pay: "ool_payload sys all w = Some (Ok (data, shms'), w')"
    using shm w' mac_receivesD(2) [OF assms(4) shm(2)]
    by (simp add: ool_payload_def all mac_shmem_deref_def io_finally_def drop_mac_shmem_def call_def)
  have "regions (mv_mem v w') shms' cs"
    using r parts(4) unfolding regions_def w'(2) all
    by (auto simp: list_all2_conv_all_nth) (metis image_eqI nth_mem)
  then show ?thesis
    using parts m pay \<open>\<not> has_inline_data (msg_tail m)\<close>
    by (intro exI [of _ shms'] exI [of _ w'])
      (simp add: take_message_def message_payload_def MACH_NOTIFY_NO_SENDERS_def MACH_NOTIFY_FIRST_def)
qed

section \<open>Sending\<close>

lemma mac_sendsD:
  assumes "mac_sends sys v"
  shows "\<exists>mem w'. m_malloc sys n w = (mem, w') \<and> length mem = unat n \<and> same_mac v w w'"
    and "m_vm_allocate sys n w = ((KERN_SUCCESS, a), w') \<Longrightarrow> new_memory v w n a w'"
    and "mv_mem v w a = Some old \<Longrightarrow> length bs = length old \<Longrightarrow>
        mv_mem v (m_poke sys a bs w) = (mv_mem v w)(a \<mapsto> bs) \<and>
        mv_queue v (m_poke sys a bs w) = mv_queue v w \<and> mv_dest v (m_poke sys a bs w) = mv_dest v w"
    and "mv_dest v w (msgh_remote_port msg) = Some p \<Longrightarrow> unat (msgh_size msg) \<le> mv_limit v \<Longrightarrow>
        well_formed msg \<Longrightarrow> contents (mv_mem v w) (msg_descriptors msg) = Some cs \<Longrightarrow> length (mv_queue v w p) < 1024 \<Longrightarrow>
        \<exists>w'. m_msg_send sys msg w = Some (MACH_MSG_SUCCESS, w') \<and>
          mv_queue v w' = (mv_queue v w)(p := mv_queue v w p @ [(msg, cs)])"
    and "mv_dest v w (msgh_remote_port msg) = Some p \<Longrightarrow> unat (msgh_size msg) > mv_limit v \<Longrightarrow>
        \<exists>w'. m_msg_send sys msg w = Some (MACH_SEND_TOO_LARGE, w') \<and> same_mac v w w'"
proof -
  note l = assms [unfolded mac_sends_def]
  show "\<exists>mem w'. m_malloc sys n w = (mem, w') \<and> length mem = unat n \<and> same_mac v w w'"
    using l [THEN conjunct1] by blast
  show "m_vm_allocate sys n w = ((KERN_SUCCESS, a), w') \<Longrightarrow> new_memory v w n a w'"
    using l [THEN conjunct2, THEN conjunct1] by blast
qed (use assms [unfolded mac_sends_def, THEN conjunct2, THEN conjunct2] in simp_all)

text \<open>A message as \<open>send\<close> composes it, in memory that was found as \<open>mem\<close> behind the descriptors. Composing it changes
  nothing.\<close>

definition carries ::
  "mach_message \<Rightarrow> mac_sender \<Rightarrow> send_data \<Rightarrow> mac_channel_end list \<Rightarrow> mac_shmem list \<Rightarrow> u8 list \<Rightarrow> bool" where
  "carries msg s d ports shms mem \<longleftrightarrow>
     msgh_size msg = ucast (message_size_of d (length ports) (length shms)) \<and> msgh_remote_port msg = snd_port s \<and>
     msgh_id msg = 0 \<and> bit (msgh_bits msg) 31 \<and> msg_descriptors msg = map port_descriptor ports @ map ool shms \<and> msg_tail msg = message_tail d mem \<and>
     length mem = unat (message_size_of d (length ports) (length shms)) - (28 + 12 * length ports + 16 * length shms)"

lemma compose_ok:
  assumes "mac_sends sys v" and "regions (mv_mem v w) shms cs" and "length ports < 2 ^ 32" "length shms < 2 ^ 32"
  shows "\<exists>mem w' msg. compose_message sys s d ports shms (w, m) = Some (Ok msg, (w', m)) \<and> same_mac v w w' \<and>
    carries msg s d ports shms mem"
proof -
  obtain all w' where all: "m_malloc sys (message_size_of d (length ports) (length shms)) w = (all, w')"
      "length all = unat (message_size_of d (length ports) (length shms))" "same_mac v w w'"
    using mac_sendsD(1) [OF assms(1)] by blast
  then show ?thesis
    using regions_descriptors(1) [OF assms(2)] unat_descriptors_end [OF assms(3,4)]
    by (auto simp: compose_message_def outgoing_message_def on_world_def call_def io_lift_def io_bind_def io_match_def
      carries_def MACH_MSGH_BITS_COMPLEX_def bit_or_iff bit_push_bit_iff)
qed

lemma carries_well_formed: "carries msg s d ports shms mem \<Longrightarrow> well_formed msg"
proof -
  have "known_disposition (port_descriptor c)" for c by (cases c) simp_all
  then show "carries msg s d ports shms mem \<Longrightarrow> well_formed msg" by (auto simp: carries_def well_formed_def list_all_iff)
qed

lemma keeps_large_blocking: "keeps_large (fst (receive_options Blocking))"
  by (simp add: keeps_large_def MACH_RCV_MSG_def MACH_RCV_LARGE_def bit_or_iff)

text \<open>A sender whose receiver has no messages yet, and a message within bounds: the number of ports and regions, and
  the length of the data, so that the size fits into the header.\<close>

definition can_send ::
  "'w mac_sys \<Rightarrow> 'w mac_view \<Rightarrow> 'w \<Rightarrow> mac_sender \<Rightarrow> mach_port \<Rightarrow> u8 list \<Rightarrow> mac_channel_end list \<Rightarrow> mac_shmem list
     \<Rightarrow> u8 list list \<Rightarrow> bool" where
  "can_send sys v w s p data ports shms cs \<longleftrightarrow>
     mac_sends sys v \<and> mv_dest v w (snd_port s) = Some p \<and> mv_queue v w p = [] \<and> regions (mv_mem v w) shms cs \<and>
     length ports < 2 ^ 16 \<and> length shms < 2 ^ 16 \<and> length data < 2 ^ 31"

lemma carried_size:
  assumes "carries msg s d ports shms mem" "length ports < 2 ^ 17" "length shms < 2 ^ 17" "length (inline_data d) < 2 ^ 31"
  shows "unat (msgh_size msg) = unat (message_size_of d (length ports) (length shms))"
    "28 + 12 * length ports + 16 * length shms + 1 + (if is_inline d then 8 + length (inline_data d) else 0) \<le> unat (msgh_size msg)"
    "unat (msgh_size msg) + 72 < 2 ^ 32"
    "1 + (if is_inline d then 8 + length (inline_data d) else 0) \<le> length mem"
proof -
  note b = message_size_bounds [of "length ports" "length shms" d]
  have lt: "unat (message_size_of d (length ports) (length shms)) + 72 < 2 ^ 32"
    using b(2) assms by (auto split: if_splits)
  then show u: "unat (msgh_size msg) = unat (message_size_of d (length ports) (length shms))"
    using assms(1) by (simp add: carries_def unsigned_ucast_eq take_bit_nat_eq_self)
  then show "unat (msgh_size msg) + 72 < 2 ^ 32" using lt by simp
  show "28 + 12 * length ports + 16 * length shms + 1 + (if is_inline d then 8 + length (inline_data d) else 0) \<le> unat (msgh_size msg)"
    using b(1) assms u by simp
  then show "1 + (if is_inline d then 8 + length (inline_data d) else 0) \<le> length mem"
    using assms(1) u by (simp add: carries_def)
qed

text \<open>The three ways a call of \<open>send\<close> goes: the data is inline and fits, is inline and does not fit, or travels as memory.\<close>

lemma send_inline:
  assumes "can_send sys v w s p data ports shms cs" and "len_of data < m"
  shows "(\<exists>msg mem w'. mac_send sys s data ports shms (w, m) = Some (Ok (), (w', m)) \<and>
      carries msg s (Inline data) ports shms mem \<and> mv_queue v w' p = [(msg, cs)]) \<or>
    (\<exists>w'. mac_send sys s data ports shms (w, m) = mac_send sys s data ports shms (w', len_of data) \<and> same_mac v w w')"
proof -
  have laws: "mac_sends sys v" and dest: "mv_dest v w (snd_port s) = Some p" and empty: "mv_queue v w p = []"
    and shms: "regions (mv_mem v w) shms cs" and len: "length ports < 2 ^ 16" "length shms < 2 ^ 16" "length data < 2 ^ 31"
    using assms(1) by (simp_all add: can_send_def)
  have d: "send_data_from sys data (w, m) = Some (Ok (Inline data), (w, m))"
    using assms(2) leD [of m "len_of data"] by (auto simp: send_data_from_def)
  obtain mem w1 msg where c: "compose_message sys s (Inline data) ports shms (w, m) = Some (Ok msg, (w1, m))"
      and same: "same_mac v w w1" and msg: "carries msg s (Inline data) ports shms mem"
    using compose_ok [OF laws shms, of ports s "Inline data" m] len by force
  have w1: "mv_dest v w1 (msgh_remote_port msg) = Some p" "mv_queue v w1 p = []"
      "contents (mv_mem v w1) (msg_descriptors msg) = Some cs"
    using same dest empty msg regions_descriptors(2) [OF shms] by (simp_all add: same_mac_def carries_def)
  have codes: "MACH_MSG_SUCCESS \<noteq> MACH_SEND_TOO_LARGE" by (simp add: mach_codes)
  show ?thesis
  proof (cases "unat (msgh_size msg) \<le> mv_limit v")
    case True
    then obtain w2 where "m_msg_send sys msg w1 = Some (MACH_MSG_SUCCESS, w2)"
        "mv_queue v w2 = (mv_queue v w1)(p := [(msg, cs)])"
      using mac_sendsD(4) [OF laws w1(1) _ carries_well_formed [OF msg] w1(3)] w1(2) by auto
    then have "mac_send sys s data ports shms (w, m) = Some (Ok (), (w2, m)) \<and> mv_queue v w2 p = [(msg, cs)]"
      using d c codes by (subst mac_send.simps) (simp add: on_world_def call_blocking_def with_data_def)
    with msg show ?thesis by blast
  next
    case False
    then obtain w2 where "m_msg_send sys msg w1 = Some (MACH_SEND_TOO_LARGE, w2)" "same_mac v w1 w2"
      using mac_sendsD(5) [OF laws w1(1)] by auto
    then have "mac_send sys s data ports shms (w, m) = mac_send sys s data ports shms (w2, len_of data) \<and> same_mac v w w2"
      using d c assms(2) same by (subst mac_send.simps)
        (simp add: on_world_def on_self_def call_blocking_def with_data_def lower_max_inline_def same_mac_def)
    then show ?thesis by blast
  qed
qed

lemma send_ool:
  assumes "can_send sys v w s p data ports shms cs" and "\<not> len_of data < m" and "data \<noteq> []"
    and limit: "unat (message_size_of (OutOfLine None) (length ports) (Suc (length shms))) \<le> mv_limit v"
    and alloc: "m_vm_allocate sys (len_of data) w = ((KERN_SUCCESS, a), w1)"
  shows "\<exists>msg mem w' shm mem0. mac_send sys s data ports shms (w, m) = Some (Ok (), (w', m)) \<and>
    carries msg s (OutOfLine None) ports (shms @ [shm]) mem \<and> mv_queue v w' p = [(msg, cs @ [data])] \<and>
    regions mem0 (shms @ [shm]) (cs @ [data])"
proof -
  have laws: "mac_sends sys v" and dest: "mv_dest v w (snd_port s) = Some p" and empty: "mv_queue v w p = []"
    and shms: "regions (mv_mem v w) shms cs" and len: "length ports < 2 ^ 16" "length shms < 2 ^ 16" "length data < 2 ^ 31"
    using assms(1) by (simp_all add: can_send_def)
  let ?shm = "mac_shmem_from_raw_parts a (len_of data)"
  let ?w2 = "m_poke sys a data w1"
  have "new_memory v w (len_of data) a w1" by (rule mac_sendsD(2) [OF laws alloc])
  then obtain bs where bs: "a \<noteq> 0" "mv_mem v w a = None" "length bs = length data" "mv_mem v w1 = (mv_mem v w)(a \<mapsto> bs)"
      "mv_queue v w1 = mv_queue v w" "mv_dest v w1 = mv_dest v w"
    using assms(3) len(3) by (auto simp: new_memory_def word_unat_eq_iff)
  then have w2: "mv_mem v ?w2 = (mv_mem v w)(a \<mapsto> data)" "mv_queue v ?w2 = mv_queue v w" "mv_dest v ?w2 = mv_dest v w"
    using mac_sendsD(3) [OF laws, of w1 a bs data] by simp_all
  have d: "send_data_from sys data (w, m) = Some (Ok (OutOfLine (Some ?shm)), (?w2, m))"
    using assms(2) alloc
    by (simp add: send_data_from_def mac_shmem_from_bytes_def allocate_vm_pages_def on_world_def call_def)
  have all: "regions (mv_mem v ?w2) (shms @ [?shm]) (cs @ [data])"
    using shms bs(1,2) len(3) assms(3) unfolding regions_def w2(1)
    by (auto intro!: list_all2_appendI simp: mac_shmem_from_raw_parts_def elim!: list_all2_mono)
  obtain mem w3 msg where c: "compose_message sys s (OutOfLine None) ports (shms @ [?shm]) (?w2, m) = Some (Ok msg, (w3, m))"
      and same: "same_mac v ?w2 w3" and msg: "carries msg s (OutOfLine None) ports (shms @ [?shm]) mem"
    using compose_ok [OF laws all, of ports s "OutOfLine None" m] len by force
  have w3: "mv_dest v w3 (msgh_remote_port msg) = Some p" "mv_queue v w3 p = []"
      "contents (mv_mem v w3) (msg_descriptors msg) = Some (cs @ [data])"
    using same dest empty msg w2 regions_descriptors(2) [OF all] by (simp_all add: same_mac_def carries_def)
  have "unat (msgh_size msg) \<le> mv_limit v" using carried_size(1) [OF msg] limit len by simp
  then obtain w4 where "m_msg_send sys msg w3 = Some (MACH_MSG_SUCCESS, w4)"
      "mv_queue v w4 = (mv_queue v w3)(p := [(msg, cs @ [data])])"
    using mac_sendsD(4) [OF laws w3(1) _ carries_well_formed [OF msg] w3(3)] w3(2) by auto
  then have "mac_send sys s data ports shms (w, m) = Some (Ok (), (w4, m)) \<and> mv_queue v w4 p = [(msg, cs @ [data])]"
    using d c by (subst mac_send.simps) (simp add: on_world_def call_blocking_def with_data_def)
  with msg all show ?thesis by blast
qed

section \<open>From sender to receiver\<close>

lemma recv_inline:
  assumes "mac_receives sys v" and "mv_queue v w p = [(msg, cs)]" and "p \<noteq> MACH_PORT_NULL"
    and "carries msg s (Inline data) ports shms mem" "regions mem0 shms cs"
    and "length ports < 2 ^ 16" "length shms < 2 ^ 16" "length data < 2 ^ 31"
  shows "\<exists>shms' w'. mac_recv sys \<lparr>rcv_port = p\<rparr> w =
      Some (Ok (data, map (mac_opaque_from_name \<circ> mv_name v \<circ> mac_channel_port) ports, shms'), w') \<and>
    regions (mv_mem v w') shms' cs \<and> mv_queue v w' p = []"
proof -
  have l: "length shms = length cs" using assms(5) unfolding regions_def by (rule list_all2_lengthD)
  note sz = carried_size [OF assms(4)]
  have bounds: "length cs < 2 ^ 32" "unat (msgh_size msg) + 72 < 2 ^ 32" using sz assms(6-8) l by simp_all
  have desc: "msg_descriptors msg = map port_descriptor ports @ map ool shms" "msgh_id msg = 0"
      "msg_tail msg = message_tail (Inline data) mem" using assms(4) by (simp_all add: carries_def)
  have cont: "contents mem0 (msg_descriptors msg) = Some cs" using regions_descriptors(2) [OF assms(5)] desc(1) by simp
  obtain m' w1 where r: "receive_mach_message sys p (receive_options Blocking) w = Some (Ok m', w1)"
      and a: "arrived v p msg cs m' w1" and q: "mv_queue v w1 = (mv_queue v w)(p := [])"
    using receive_arrived [OF assms(1,2) bounds(1) cont bounds(2) keeps_large_blocking] by blast
  obtain shms' where "take_message sys m' w1 = Some (Ok (DataReceived (ucast p) data
      (map (mac_opaque_from_name \<circ> mv_name v \<circ> mac_channel_port) ports) shms'), w1)" "regions (mv_mem v w1) shms' cs"
    using take_message_inline [OF a desc(1) assms(5) desc(2,3)] sz assms(6-8) l by auto
  then show ?thesis
    using r q assms(3) by (auto simp: mac_recv_def recv_with_blocking_mode_def mac_select_def)
qed

lemma recv_ool:
  assumes "mac_receives sys v" and "mv_queue v w p = [(msg, cs @ [data])]" and "p \<noteq> MACH_PORT_NULL"
    and "carries msg s (OutOfLine None) ports shms mem" "regions mem0 shms (cs @ [data])"
    and "length ports < 2 ^ 16" "length shms < 2 ^ 17"
  shows "\<exists>shms' w'. mac_recv sys \<lparr>rcv_port = p\<rparr> w =
      Some (Ok (data, map (mac_opaque_from_name \<circ> mv_name v \<circ> mac_channel_port) ports, shms'), w') \<and>
    regions (mv_mem v w') shms' cs"
proof -
  have l: "length shms = Suc (length cs)" using list_all2_lengthD [OF assms(5) [unfolded regions_def]] by simp
  note sz = carried_size [OF assms(4)]
  have bounds: "length (cs @ [data]) < 2 ^ 32" "unat (msgh_size msg) + 72 < 2 ^ 32" "mem \<noteq> []"
    using sz assms(6,7) l by auto
  have desc: "msg_descriptors msg = map port_descriptor ports @ map ool shms" "msgh_id msg = 0"
      "msg_tail msg = message_tail (OutOfLine None) mem" using assms(4) by (simp_all add: carries_def)
  have cont: "contents mem0 (msg_descriptors msg) = Some (cs @ [data])" using regions_descriptors(2) [OF assms(5)] desc(1) by simp
  obtain m' w1 where r: "receive_mach_message sys p (receive_options Blocking) w = Some (Ok m', w1)"
      and a: "arrived v p msg (cs @ [data]) m' w1"
    using receive_arrived [OF assms(1,2) bounds(1) cont bounds(2) keeps_large_blocking] by blast
  obtain shms' w' where "take_message sys m' w1 = Some (Ok (DataReceived (ucast p) data
      (map (mac_opaque_from_name \<circ> mv_name v \<circ> mac_channel_port) ports) shms'), w')" "regions (mv_mem v w') shms' cs"
    using take_message_ool [OF a desc(1) assms(5,1) desc(2,3) bounds(3)] by blast
  then show ?thesis
    using r assms(3) by (auto simp: mac_recv_def recv_with_blocking_mode_def mac_select_def)
qed

text \<open>C4: On macOS a message that one process sends is received by the other with the same data, its ports under the
  names that the kernel gives them there, and its regions with the same contents. This holds whether the data travels
  in the message or, when it is above the inline limit or the kernel finds the message too large, as memory behind
  the regions: then the process-wide inline limit is lowered at most once, and the call of \<open>send\<close> returns after at most
  two attempts.\<close>

theorem mac_roundtrip:
  assumes "can_send sys v w s p data ports shms cs" and "mac_receives sys' v'" and "mv_queue v' = mv_queue v"
    and "p \<noteq> MACH_PORT_NULL" and "data \<noteq> []"
    and "unat (message_size_of (OutOfLine None) (length ports) (Suc (length shms))) \<le> mv_limit v"
    and "\<forall>w'. same_mac v w w' \<longrightarrow> fst (fst (m_vm_allocate sys (len_of data) w')) = KERN_SUCCESS"
  shows "\<exists>w1 m1 shms' w2. mac_send sys s data ports shms (w, m) = Some (Ok (), (w1, m1)) \<and> m1 \<in> {m, len_of data} \<and>
    mac_recv sys' \<lparr>rcv_port = p\<rparr> w1 =
      Some (Ok (data, map (mac_opaque_from_name \<circ> mv_name v' \<circ> mac_channel_port) ports, shms'), w2) \<and>
    regions (mv_mem v' w2) shms' cs"
proof -
  have shms: "regions (mv_mem v w) shms cs" and len: "length ports < 2 ^ 16" "length shms < 2 ^ 16" "length data < 2 ^ 31"
    using assms(1) by (simp_all add: can_send_def)
  have as_memory: "\<exists>w1 shms' w2. mac_send sys s data ports shms (w0, m0) = Some (Ok (), (w1, m0)) \<and>
      mac_recv sys' \<lparr>rcv_port = p\<rparr> w1 =
        Some (Ok (data, map (mac_opaque_from_name \<circ> mv_name v' \<circ> mac_channel_port) ports, shms'), w2) \<and>
      regions (mv_mem v' w2) shms' cs"
    if can: "can_send sys v w0 s p data ports shms cs" "\<not> len_of data < m0" and same: "same_mac v w w0" for w0 m0
  proof -
    obtain a w1 where a: "m_vm_allocate sys (len_of data) w0 = ((KERN_SUCCESS, a), w1)"
      using assms(7) [rule_format, OF same] by (metis prod.collapse)
    obtain msg mem w' shm mem0 where "mac_send sys s data ports shms (w0, m0) = Some (Ok (), (w', m0))"
      and msg: "carries msg s (OutOfLine None) ports (shms @ [shm]) mem" and q: "mv_queue v w' p = [(msg, cs @ [data])]"
      and "regions mem0 (shms @ [shm]) (cs @ [data])"
      using send_ool [OF can assms(5,6) a] by blast
    moreover from this have "\<exists>shms' w2. mac_recv sys' \<lparr>rcv_port = p\<rparr> w' =
        Some (Ok (data, map (mac_opaque_from_name \<circ> mv_name v' \<circ> mac_channel_port) ports, shms'), w2) \<and>
        regions (mv_mem v' w2) shms' cs"
      using recv_ool [OF assms(2), of w' p msg cs data] assms(3,4) len by simp
    ultimately show ?thesis by blast
  qed
  show ?thesis
  proof (cases "len_of data < m")
    case True
    show ?thesis using send_inline [OF assms(1) True]
    proof (elim disjE exE conjE)
      fix msg mem w1 assume "mac_send sys s data ports shms (w, m) = Some (Ok (), (w1, m))"
        and c: "carries msg s (Inline data) ports shms mem" and "mv_queue v w1 p = [(msg, cs)]"
      then show ?thesis using recv_inline [OF assms(2) _ assms(4) c shms len, of w1] assms(3) by force
    next
      fix w0 assume "mac_send sys s data ports shms (w, m) = mac_send sys s data ports shms (w0, len_of data)" "same_mac v w w0"
      then show ?thesis using as_memory [of w0 "len_of data"] assms(1) by (force simp: can_send_def same_mac_def)
    qed
  next
    case False
    then show ?thesis using as_memory [OF assms(1)] by (force simp: same_mac_def)
  qed
qed

text \<open>Two processes for an example: memory is a list of blocks, at the addresses from one on, and what is received is
  mapped from the first address on.\<close>

type_synonym blocks = "u8 list option list"

definition block_at :: "blocks \<Rightarrow> usize \<Rightarrow> u8 list option" where
  "block_at bl a = (if 0 < unat a \<and> unat a \<le> length bl then bl ! (unat a - 1) else None)"

definition first_free :: "blocks \<Rightarrow> nat" where
  "first_free bl = length (takeWhile (\<lambda>b. b \<noteq> None) bl)"

definition put_block :: "nat \<Rightarrow> u8 list \<Rightarrow> blocks \<Rightarrow> blocks" where
  "put_block n bs bl = take n bl @ Some bs # drop (Suc n) bl"

record two_processes =
  waiting :: "mach_port \<Rightarrow> (mach_message \<times> u8 list list) list"
  blocks_here :: blocks
  blocks_there :: blocks

fun map_there :: "usize \<Rightarrow> mach_descriptor list \<Rightarrow> mach_descriptor list" where
  "map_there k [] = []"
| "map_there k (PortDescriptor n d # ds) = PortDescriptor (n + 100) d # map_there k ds"
| "map_there k (OolDescriptor a n f g # ds) = OolDescriptor k n f g # map_there (k + 1) ds"

definition NO_SPACE :: kern_return where
  "NO_SPACE = 3"

definition process_here :: "two_processes mac_sys" where
  "process_here = \<lparr>m_allocate = (\<lambda>_. Pair (NO_SPACE, 0)), m_mod_refs = (\<lambda>_ _ _. Pair KERN_SUCCESS),
     m_move_member = (\<lambda>_ _. Pair KERN_SUCCESS), m_extract_right = (\<lambda>p _. Pair (KERN_SUCCESS, p, 0)),
     m_set_qlimit = (\<lambda>_ _. Pair KERN_SUCCESS), m_no_senders = (\<lambda>_. Pair KERN_SUCCESS),
     m_deallocate = (\<lambda>_. Pair KERN_SUCCESS), m_bootstrap_port = Pair (NO_SPACE, 0),
     m_register = (\<lambda>_ _ _. Pair NO_SPACE), m_look_up = (\<lambda>_ _. Pair (NO_SPACE, 0)),
     m_random = Pair 4,
     m_vm_allocate = (\<lambda>n w. if Suc (first_free (blocks_here w)) < 2 ^ 64
       then ((KERN_SUCCESS, word_of_nat (Suc (first_free (blocks_here w)))),
         w\<lparr>blocks_here := put_block (first_free (blocks_here w)) (replicate (unat n) 0) (blocks_here w)\<rparr>)
       else ((NO_SPACE, 0), w)),
     m_vm_deallocate = (\<lambda>a _ w. (KERN_SUCCESS, w\<lparr>blocks_here := (blocks_here w)[unat a - 1 := None]\<rparr>)),
     m_vm_remap = (\<lambda>_ _. Pair (NO_SPACE, 0)),
     m_peek = (\<lambda>a _ w. case block_at (blocks_here w) a of None \<Rightarrow> [] | Some bs \<Rightarrow> bs),
     m_poke = (\<lambda>a bs w. w\<lparr>blocks_here := (blocks_here w)[unat a - 1 := Some bs]\<rparr>),
     m_malloc = (\<lambda>n. Pair (replicate (unat n) 170)),
     m_msg_send = (\<lambda>msg w. if unat (msgh_size msg) > 100 then Some (MACH_SEND_TOO_LARGE, w) else
       (case contents (block_at (blocks_here w)) (msg_descriptors msg) of
          None \<Rightarrow> Some (NO_SPACE, w)
        | Some cs \<Rightarrow> Some (MACH_MSG_SUCCESS, w\<lparr>waiting := (waiting w)(msgh_remote_port msg :=
            waiting w (msgh_remote_port msg) @ [(msg, cs)])\<rparr>))),
     m_msg_recv = (\<lambda>_ _ _ _ _. None)\<rparr>"

definition process_there :: "two_processes mac_sys" where
  "process_there = process_here\<lparr>
     m_vm_deallocate := (\<lambda>a _ w. (KERN_SUCCESS, w\<lparr>blocks_there := (blocks_there w)[unat a - 1 := None]\<rparr>)),
     m_peek := (\<lambda>a _ w. case block_at (blocks_there w) a of None \<Rightarrow> [] | Some bs \<Rightarrow> bs),
     m_msg_recv := (\<lambda>_ n p _ w. case waiting w p of
         [] \<Rightarrow> None
       | (msg, cs) # rest \<Rightarrow> Some (if unat n < unat (msgh_size msg) + unat MAX_TRAILER_SIZE then ((MACH_RCV_TOO_LARGE, msg), w)
           else ((MACH_MSG_SUCCESS, msg\<lparr>msgh_local_port := p, msg_descriptors := map_there 1 (msg_descriptors msg)\<rparr>),
             w\<lparr>waiting := (waiting w)(p := rest), blocks_there := map Some cs\<rparr>)))\<rparr>"

lemma process_here_sel [simp]:
  "m_vm_allocate process_here n w = (if Suc (first_free (blocks_here w)) < 2 ^ 64
     then ((KERN_SUCCESS, word_of_nat (Suc (first_free (blocks_here w)))),
       w\<lparr>blocks_here := put_block (first_free (blocks_here w)) (replicate (unat n) 0) (blocks_here w)\<rparr>)
     else ((NO_SPACE, 0), w))"
  "m_poke process_here a bs w = w\<lparr>blocks_here := (blocks_here w)[unat a - 1 := Some bs]\<rparr>"
  "m_malloc process_here n w = (replicate (unat n) 170, w)"
  "m_msg_send process_here msg w = (if unat (msgh_size msg) > 100 then Some (MACH_SEND_TOO_LARGE, w) else
     (case contents (block_at (blocks_here w)) (msg_descriptors msg) of
        None \<Rightarrow> Some (NO_SPACE, w)
      | Some cs \<Rightarrow> Some (MACH_MSG_SUCCESS, w\<lparr>waiting := (waiting w)(msgh_remote_port msg :=
          waiting w (msgh_remote_port msg) @ [(msg, cs)])\<rparr>)))"
  by (simp_all add: process_here_def)

lemma process_there_sel [simp]:
  "m_vm_deallocate process_there a l w = (KERN_SUCCESS, w\<lparr>blocks_there := (blocks_there w)[unat a - 1 := None]\<rparr>)"
  "m_peek process_there a l w = (case block_at (blocks_there w) a of None \<Rightarrow> [] | Some bs \<Rightarrow> bs)"
  "m_msg_recv process_there f n p t w = (case waiting w p of
         [] \<Rightarrow> None
       | (msg, cs) # rest \<Rightarrow> Some (if unat n < unat (msgh_size msg) + unat MAX_TRAILER_SIZE then ((MACH_RCV_TOO_LARGE, msg), w)
           else ((MACH_MSG_SUCCESS, msg\<lparr>msgh_local_port := p, msg_descriptors := map_there 1 (msg_descriptors msg)\<rparr>),
             w\<lparr>waiting := (waiting w)(p := rest), blocks_there := map Some cs\<rparr>)))"
  by (simp_all add: process_there_def)

definition view_of_process :: "(two_processes \<Rightarrow> blocks) \<Rightarrow> two_processes mac_view" where
  "view_of_process bl = \<lparr>mv_queue = waiting, mv_dest = (\<lambda>_. Some), mv_mem = block_at \<circ> bl, mv_limit = 100,
     mv_name = (\<lambda>n. n + 100)\<rparr>"

lemma block_at_update:
  assumes "block_at bl a = Some old"
  shows "block_at (bl[unat a - 1 := x]) = (block_at bl)(a := x)"
proof
  fix b
  have a: "0 < unat a" "unat a \<le> length bl" using assms by (auto simp: block_at_def split: if_splits)
  show "block_at (bl[unat a - 1 := x]) b = ((block_at bl)(a := x)) b"
  proof (cases "b = a")
    case False
    then have "unat b \<noteq> unat a" by (simp add: word_unat_eq_iff)
    then show ?thesis using a False by (auto simp: block_at_def nth_list_update)
  qed (use a in \<open>simp add: block_at_def\<close>)
qed

lemma first_free_none:
  shows "first_free bl \<le> length bl" "first_free bl < length bl \<Longrightarrow> bl ! first_free bl = None"
    "i < first_free bl \<Longrightarrow> i < length bl \<and> bl ! i \<noteq> None"
  using nth_length_takeWhile [of "\<lambda>b. b \<noteq> None" bl] length_takeWhile_le [of "\<lambda>b. b \<noteq> None" bl]
    set_takeWhileD [OF nth_mem, of i "\<lambda>b. b \<noteq> None" bl] takeWhile_nth [of i "\<lambda>b. b \<noteq> None" bl]
  unfolding first_free_def by (blast, blast, simp)

lemma block_at_put:
  assumes "Suc (first_free bl) < 2 ^ 64"
  shows "block_at (put_block (first_free bl) bs bl) = (block_at bl)(word_of_nat (Suc (first_free bl)) \<mapsto> bs)"
    "block_at bl (word_of_nat (Suc (first_free bl))) = None" "(word_of_nat (Suc (first_free bl)) :: usize) \<noteq> 0"
proof -
  let ?n = "first_free bl"
  have u: "unat (word_of_nat (Suc ?n) :: usize) = Suc ?n"
    using assms by (simp only: unsigned_of_nat take_bit_nat_eq_self) (simp add: take_bit_nat_eq_self)
  show "(word_of_nat (Suc ?n) :: usize) \<noteq> 0" by (simp only: word_unat_eq_iff u) simp
  show "block_at bl (word_of_nat (Suc ?n)) = None" unfolding block_at_def u using first_free_none(2) [of bl] by simp
  have e: "b = word_of_nat (Suc ?n) \<longleftrightarrow> unat b = Suc ?n" for b :: usize
    by (simp only: word_unat_eq_iff u)
  have "Suc (k - Suc (Suc 0)) = k - Suc 0" if "\<not> k \<le> Suc m" for k m using that by simp
  then show "block_at (put_block ?n bs bl) = (block_at bl)(word_of_nat (Suc ?n) \<mapsto> bs)"
    using first_free_none(1) [of bl]
    by (intro ext, simp only: fun_upd_def e)
      (auto simp: block_at_def put_block_def nth_append nth_Cons' min_def numeral_2_eq_2)
qed

lemma process_here_sends: "mac_sends process_here (view_of_process blocks_here)"
proof -
  let ?v = "view_of_process blocks_here"
  have "new_memory ?v w n a w'" if "m_vm_allocate process_here n w = ((KERN_SUCCESS, a), w')" for n w a w'
  proof -
    have s: "Suc (first_free (blocks_here w)) < 2 ^ 64" "a = word_of_nat (Suc (first_free (blocks_here w)))"
        "w' = w\<lparr>blocks_here := put_block (first_free (blocks_here w)) (replicate (unat n) 0) (blocks_here w)\<rparr>"
      using that by (auto simp: NO_SPACE_def KERN_SUCCESS_def simp del: of_nat_Suc split: if_splits)
    show ?thesis
      using block_at_put [OF s(1)] unfolding s(2,3) new_memory_def
      by (auto simp: view_of_process_def simp del: of_nat_Suc intro: exI [of _ "replicate (unat n) 0"])
  qed
  moreover have "mv_mem ?v (m_poke process_here a bs w) = (mv_mem ?v w)(a \<mapsto> bs)" if "mv_mem ?v w a = Some old" for a bs w old
    using that block_at_update [of "blocks_here w" a old "Some bs"] by (simp add: view_of_process_def)
  ultimately show ?thesis
    unfolding mac_sends_def by (auto simp: view_of_process_def same_mac_def)
qed

lemma map_there_arrives:
  assumes "contents mem ds = Some cs" "length pre + length cs < 2 ^ 32"
  shows "descs_arrived (\<lambda>n. n + 100) (block_at (map Some (pre @ cs))) ds cs (map_there (word_of_nat (Suc (length pre))) ds) \<and>
    addresses (map_there (word_of_nat (Suc (length pre))) ds) = map (\<lambda>i. word_of_nat (Suc (length pre + i))) [0..<length cs]"
  using assms
proof (induction mem ds arbitrary: pre cs rule: contents.induct)
  case (3 mem a n f g ds)
  then obtain c cs' where c: "mem a = Some c" "length c = unat n" "contents mem ds = Some cs'" "cs = c # cs'"
    by (auto split: option.splits if_splits)
  have u: "unat (word_of_nat (Suc (length pre)) :: usize) = Suc (length pre)"
    using 3(3) by (simp only: unsigned_of_nat take_bit_nat_eq_self) (simp add: take_bit_nat_eq_self)
  have "block_at (map Some (pre @ cs)) (word_of_nat (Suc (length pre))) = Some c"
    unfolding block_at_def u c(4) by (simp add: nth_append)
  moreover have "(word_of_nat (Suc (length pre)) :: usize) \<noteq> 0" by (simp only: word_unat_eq_iff u) simp
  moreover have "word_of_nat (Suc (length pre)) + 1 = (word_of_nat (Suc (length (pre @ [c]))) :: usize)" by simp
  ultimately show ?case
    using 3(1) [OF c(1,2,3), of "pre @ [c]"] 3(3) c
    by (simp add: upt_conv_Cons map_Suc_upt [symmetric] o_def del: of_nat_Suc upt_Suc)
qed auto

lemma process_there_receives: "mac_receives process_there (view_of_process blocks_there)"
proof -
  let ?v = "view_of_process blocks_there"
  have "arrived ?v p msg cs (msg\<lparr>msgh_local_port := p, msg_descriptors := map_there 1 (msg_descriptors msg)\<rparr>)
      (w\<lparr>waiting := (waiting w)(p := rest), blocks_there := map Some cs\<rparr>)"
    if "length cs < 2 ^ 32" "contents mem (msg_descriptors msg) = Some cs" for w p msg cs mem rest
  proof -
    have "distinct (map (\<lambda>i. word_of_nat (Suc i) :: usize) [0..<length cs])"
      using that(1) by (auto simp: distinct_map inj_on_def word_of_nat_eq_iff take_bit_nat_eq_self simp del: of_nat_Suc)
    then show ?thesis
      using map_there_arrives [OF that(2), of "[]"] that(1) by (simp add: arrived_def view_of_process_def)
  qed
  moreover have "mv_mem ?v (w\<lparr>blocks_there := (blocks_there w)[unat a - 1 := None]\<rparr>) = (mv_mem ?v w)(a := None)"
    if "mv_mem ?v w a = Some bs" for w a bs
    using that block_at_update [of "blocks_there w" a bs None] by (simp add: view_of_process_def)
  ultimately show ?thesis
    unfolding mac_receives_def by (auto simp: view_of_process_def)
qed

text \<open>Sixty bytes with a channel and a region of three bytes: above what the kernel takes in a message, below the
  inline limit of the process.\<close>

definition before_sending :: two_processes where
  "before_sending = \<lparr>waiting = (\<lambda>_. []), blocks_here = [Some [1, 2, 3]], blocks_there = []\<rparr>"

theorem mac_roundtrip_witness:
  "\<exists>w1 m1 shms' w2. mac_send process_here \<lparr>snd_port = 9\<rparr> (replicate 60 7) [Sender \<lparr>snd_port = 5\<rparr>]
      [\<lparr>mshm_ptr = 1, mshm_length = 3\<rparr>] (before_sending, 1000) = Some (Ok (), (w1, m1)) \<and> m1 \<in> {1000, 60} \<and>
    mac_recv process_there \<lparr>rcv_port = 9\<rparr> w1 = Some (Ok (replicate 60 7, [mac_opaque_from_name 105], shms'), w2) \<and>
    regions (mv_mem (view_of_process blocks_there) w2) shms' [[1, 2, 3]]"
proof -
  let ?v = "view_of_process blocks_here"
  have "can_send process_here ?v before_sending \<lparr>snd_port = 9\<rparr> 9 (replicate 60 7) [Sender \<lparr>snd_port = 5\<rparr>]
      [\<lparr>mshm_ptr = 1, mshm_length = 3\<rparr>] [[1, 2, 3]]"
    using process_here_sends
    by (simp add: can_send_def regions_def before_sending_def view_of_process_def block_at_def)
  moreover have "unat (message_size_of (OutOfLine None) (Suc 0) (Suc (Suc 0))) \<le> mv_limit ?v"
    using message_size_bounds(2) [of "Suc 0" "Suc (Suc 0)" "OutOfLine None"] by (simp add: view_of_process_def)
  moreover have "fst (fst (m_vm_allocate process_here n w')) = KERN_SUCCESS"
    if "same_mac ?v before_sending w'" for n w'
  proof -
    have "block_at (blocks_here w') 2 = block_at (blocks_here before_sending) 2"
      using that by (simp add: same_mac_def view_of_process_def)
    then have "block_at (blocks_here w') 2 = None" by (simp add: before_sending_def block_at_def)
    then have "\<not> 1 < first_free (blocks_here w')"
      using first_free_none(3) [of 1 "blocks_here w'"] by (auto simp: block_at_def)
    then show ?thesis by simp
  qed
  ultimately show ?thesis
    using mac_roundtrip [of process_here ?v before_sending "\<lparr>snd_port = 9\<rparr>" 9 "replicate 60 7"
        "[Sender \<lparr>snd_port = 5\<rparr>]" "[\<lparr>mshm_ptr = 1, mshm_length = 3\<rparr>]" "[[1, 2, 3]]" process_there
        "view_of_process blocks_there" 1000] process_there_receives
    by (simp add: view_of_process_def MACH_PORT_NULL_def)
qed

end
