(* ===== verification/Spec2Isabelle.thy ===== *)
theory Spec2Isabelle
  imports Asynch Unix_Value Win_Set Mac_Stream
begin

text \<open>
  A verification development of \<open>ipc-channel\<close>, channels between processes for Rust. This theory gathers the others;
  this text says how they correspond to the code under \<open>src/\<close>.

  \<^bold>\<open>The program.\<close> A back end (\<open>src/src/platform/\<close>) moves messages between the ends of a channel: bytes, other channel ends
  and regions of shared memory. There are four back ends with the same interface: Unix sockets (\<open>unix/mod.rs\<close>), channels
  within a process (\<open>inprocess/mod.rs\<close>), named pipes (\<open>windows/mod.rs\<close>) and Mach ports (\<open>macos/mod.rs\<close>). On top of it
  \<open>ipc.rs\<close> gives typed channels: a value is serialized with \<open>bincode\<close>, the channels and regions in it are put aside in
  vectors of the thread and travel with the message. \<open>router.rs\<close> runs a thread that hands messages to callbacks, and
  \<open>asynch.rs\<close> one that hands them to asynchronous streams; both wait on a receiver set.

  \<^bold>\<open>How the code is modelled.\<close> Code that has effects is a function from a world to an outcome and a new world
  (\<open>io\<close> in theory \<open>Prelude\<close>): the outcome is \<open>Ok\<close>, \<open>Err\<close> with the error of the code, or \<open>Panic\<close>; no result at all means
  that the call never returns, as a read that waits forever or a loop that does not end. The profile is the checked one,
  where an overflow and a failed \<open>debug_assert\<close> panic. A panic unwinds: what the code owns at that point is dropped, and
  drops are part of the model, with their own failures. \<open>usize\<close> is a word of 64 bits, and other integers have their width;
  loops are \<open>partial_function (option)\<close>, so there is no fuel and no bound on their number of steps. The targets are the
  64-bit ones; on Unix the sizes of \<open>msghdr\<close> and \<open>cmsghdr\<close> are those of Linux with glibc.

  What is not under \<open>src/\<close> is a parameter: libc and the kernel (\<open>unix_sys\<close>), \<open>mio\<close>, \<open>crossbeam_channel\<close>, the Windows
  calls (\<open>win_sys\<close>), the Mach calls (\<open>mac_sys\<close>), \<open>bincode\<close>, the \<open>Serialize\<close> and \<open>Deserialize\<close> implementations of a value,
  the callbacks of the router, \<open>uuid\<close> and temporary directories. What a theorem needs of them is a named predicate that
  states documented behaviour over a view of the world: \<open>seqpacket_sends\<close>, \<open>socketpair_fresh\<close>, \<open>receiving\<close>,
  \<open>recvs_return\<close>, \<open>polls\<close>, \<open>announces\<close>, \<open>closes_apart\<close> and \<open>named_sockets\<close> for Unix, \<open>cb_laws\<close>, \<open>mp_laws\<close> and
  \<open>waits_alone\<close> for channels within a process, \<open>win_pipe\<close> for pipes, \<open>obliging\<close> for Windows calls that all succeed,
  \<open>mac_sends\<close> and \<open>mac_receives\<close> for Mach messages, \<open>bincode_ok\<close> and \<open>oob_bincode_ok\<close> for encodings. Each of them
  is met by an executable instance (\<open>Unix_Kernel\<close>, \<open>Crossbeam\<close>, \<open>Win_Example\<close> and the ends of \<open>Win_Stream\<close>, \<open>Win_Set\<close> and
  \<open>Mac_Stream\<close>), on which the examples run.

  \<^bold>\<open>Shared theories.\<close>
  \<^item> \<open>Prelude\<close>: outcomes, the monad and its rules, slices and checked arithmetic, drops, little-endian numbers.
  \<^item> \<open>Platform\<close>: the types that every back end declares alike.
  \<^item> \<open>Ipc_Errors\<close>: \<open>IpcError\<close>, \<open>TryRecvError\<close>, \<open>io::Error\<close>; locale \<open>backend_error\<close>, the contract of the conversions of a
    back end's errors, interpreted for all four.
  \<^item> \<open>Transport\<close>: locales \<open>fifo_receiver\<close> and \<open>fifo_transport\<close>, messages in order and each of them once; interpreted for
    in-process channels, for typed channels over them, and for Windows pipes.
  \<^item> \<open>Receiver_Set\<close>: locales \<open>receiver_set\<close>, \<open>numbered_receiver_set\<close> and \<open>wrapped_receiver_set\<close>: identifiers are fresh,
    only members are reported, and nothing after a member was reported closed; interpreted for the sets of Unix, of
    the in-process back end, of Windows, and for \<open>IpcReceiverSet\<close> on top of the first two.

  \<^bold>\<open>The Unix back end\<close> (\<open>platform/unix/mod.rs\<close>).
  \<^item> \<open>Unix_Fragment\<close>: sizes of fragments and control messages. \<open>Unix_Sys\<close>: the system calls. \<open>Unix_Kernel\<close>: the instance.
  \<^item> \<open>Unix_Send\<close>: channels, drops and \<open>OsIpcSender::send\<close> with its fragment loop, retries after \<open>ENOBUFS\<close> and the
    dedicated socket. Shown: what a send leaves on the sockets, that it ends, and that it never panics.
  \<^item> \<open>Unix_Recv\<close>: \<open>recv\<close>, \<open>UnixCmsg\<close>, \<open>OsOpaqueIpcChannel\<close>. Shown: the round trip with send, termination, that the socket
    is left in blocking mode, and two ways in which descriptors get lost.
  \<^item> \<open>Unix_Shmem\<close>: \<open>OsIpcSharedMemory\<close> and \<open>BackingStore\<close>; a region shows its bytes on both sides.
  \<^item> \<open>Unix_Set\<close>: \<open>OsIpcReceiverSet\<close>; the contract of sets, and that waiting messages are delivered by the next
    \<open>select\<close>, up to ten at once, when no member is torn or hung up.
  \<^item> \<open>Unix_Server\<close>: one-shot servers and \<open>connect\<close>; the rendezvous by name, through the socket addresses that the code
    makes of it, and the length limit of names.
  \<^item> \<open>Unix_Error\<close>: \<open>UnixError\<close> and its conversions.

  \<^bold>\<open>The in-process back end\<close> (\<open>platform/inprocess/mod.rs\<close>): \<open>Crossbeam\<close> states what its channels do, and \<open>Inprocess\<close> has
  channels, sets, the table of servers behind a lock that a panic poisons, and shared memory. \<open>Backend\<close> is the interface
  that \<open>platform/mod.rs\<close> selects, as records, with Unix and in-process instances.

  \<^bold>\<open>The public interface\<close> (\<open>ipc.rs\<close>).
  \<^item> \<open>Ipc_Message\<close>: serialization with the vectors of the thread, \<open>IpcSender::send\<close> also while another value is serialized,
    and \<open>OpaqueIpcMessage::to\<close>. Shown: the round trip of values, and when the vectors are put back.
  \<^item> \<open>Ipc_Channel\<close>: typed, opaque and byte channels, sets and servers over a back end, with the errors they report.
  \<^item> \<open>Unix_Value\<close>: a typed value from \<open>send\<close> in one process to \<open>recv\<close> in another over Unix sockets.

  \<^bold>\<open>Threads.\<close> \<open>Router\<close>: \<open>RouterProxy\<close> and the loop of the router; it never panics while its environment behaves
  (\<open>ip_undisturbed\<close>), routed values arrive, and what \<open>shutdown\<close> does. \<open>Asynch\<close>: the loop of \<open>asynch.rs\<close>, and \<open>poll_next\<close>; every stream gets the messages
  of its receiver in order. The loops are verified once, in the locales \<open>router_loop\<close> and \<open>stream_loop\<close> over the contract of
  a receiver set, and interpreted for the sets of both back ends.

  \<^bold>\<open>The Windows back end\<close> (\<open>platform/windows/mod.rs\<close>, \<open>aliased_cell.rs\<close>).
  \<^item> \<open>Win_Message\<close>: errors, message headers and out-of-band data. \<open>Win_Sys\<close>: calls, \<open>WinHandle\<close>, \<open>Overlapped\<close>,
    \<open>AliasedCell\<close>. \<open>Win_Shmem\<close>: shared memory. \<open>Win_Example\<close>: instances of the parameters.
  \<^item> \<open>Win_Reader\<close>: \<open>MessageReader\<close> and \<open>OsIpcReceiver\<close>. \<open>Win_Sender\<close>: \<open>OsIpcSender\<close> and servers. \<open>Win_Stream\<close>: messages
    over a pipe, whatever pieces the system cuts the stream into, and big data over its own pipe.
  \<^item> \<open>Win_Set\<close>: \<open>OsIpcReceiverSet\<close> over a completion port, with the contract of sets.

  \<^bold>\<open>The macOS back end\<close> (\<open>platform/macos/mod.rs\<close>).
  \<^item> \<open>Mac_Error\<close>: \<open>KernelError\<close> and \<open>MachError\<close> with their tables.
  \<^item> \<open>Mac_Port\<close>: port rights, senders, receivers, names of servers and memory. \<open>Mac_Message\<close>: the layout of a message.
    \<open>Mac_Channel\<close>: \<open>send\<close>, \<open>select\<close>, sets and servers.
  \<^item> \<open>Mac_Stream\<close>: the round trip of a message, also when the kernel finds it too large and it is sent again as memory. Its
    bounds, fewer than \<open>2 ^ 16\<close> ports and regions and \<open>2 ^ 31\<close> bytes, keep the size of a message within the 32 bits of its
    header.

  \<^bold>\<open>Not modelled.\<close>
  \<^item> \<open>platform/macos/mach_sys.rs\<close>: generated declarations; only the sizes of four structures are taken from it.
  \<^item> \<open>lib.rs\<close>: module declarations. \<open>test.rs\<close>, \<open>platform/test.rs\<close> and the benchmarks: no part of the program.
  \<^item> Concurrency below the level of calls: two calls of the library on the same object never overlap in the model.
    Another process acts through what the parameters may do between and during calls. The spawning of the two threads
    and the executor that polls the streams are outside the model.
  \<^item> \<open>Debug\<close> output, the texts that \<open>FormatMessageW\<close> gives for an error code, and the comparison of Windows handles by a
    function that is loaded at run time.
  \<^item> A receiver that is serialized twice within one value: serializing consumes it, and the second time the code would
    send an invalid one, where the model sends the same one again. The values of the theorems name each receiver once.
  \<^item> On macOS the kinds of rights behind a name: the laws ask of a message that it is marked complex and that its
    dispositions are known ones (\<open>well_formed\<close>), and of a receive that it keeps messages that are too large
    (\<open>keeps_large\<close>), and not that the sender holds the right that a disposition moves.
  \<^item> On Unix targets other than 64-bit Linux with glibc. The wrappers of \<open>IpcSharedMemory\<close>
    that only pass a call on to the back end.
\<close>

end
